(* ===== verification/Prelude.thy ===== *)
theory Prelude
  imports Main "HOL-Library.Finite_Map" "HOL-Library.Multiset" "HOL-Library.Word"
    "HOL-Library.List_Lexorder" "HOL-Library.Char_ord"
begin

text \<open>
  Shared material: the operations of the Rust standard library that the program uses on its
  collections (\<open>HashMap\<close>, \<open>HashSet\<close>, \<open>Vec\<close>) and on its counters, with the lemmas the
  component theories rely on.  A \<open>HashMap\<close> is a finite map (\<open>fmap\<close>), a \<open>HashSet\<close> a
  finite set (\<open>fset\<close>).  Their iteration order is unspecified in Rust, so wherever the code
  iterates, the model takes the order as a parameter; the contract of such a parameter is the
  locale \<open>hash_order\<close>.
\<close>

named_theorems map_simps \<open>rewrite rules for the HashMap operations\<close>
named_theorems bag_simps \<open>multisets of values held by a HashMap of lists\<close>

section \<open>HashMap and HashSet\<close>

text \<open>\<open>m.contains_key(&k)\<close>.\<close>

definition contains_key :: "('k, 'v) fmap \<Rightarrow> 'k \<Rightarrow> bool" where
  "contains_key m k \<longleftrightarrow> fmlookup m k \<noteq> None"

text \<open>\<open>m.get(&k).cloned().unwrap_or(d)\<close>.\<close>

definition get_or :: "'v \<Rightarrow> ('k, 'v) fmap \<Rightarrow> 'k \<Rightarrow> 'v" where
  "get_or d m k = (case fmlookup m k of None \<Rightarrow> d | Some v \<Rightarrow> v)"

text \<open>\<open>m.entry(k).or_default().extend(xs)\<close> on a map of vectors.\<close>

definition entry_extend :: "'k \<Rightarrow> 'v list \<Rightarrow> ('k, 'v list) fmap \<Rightarrow> ('k, 'v list) fmap" where
  "entry_extend k xs m = fmupd k (get_or [] m k @ xs) m"

text \<open>\<open>m.entry(k).or_default().insert(x)\<close> on a map of sets.\<close>

definition entry_insert :: "'k \<Rightarrow> 'v \<Rightarrow> ('k, 'v fset) fmap \<Rightarrow> ('k, 'v fset) fmap" where
  "entry_insert k x m = fmupd k (finsert x (get_or {||} m k)) m"

text \<open>\<open>m.retain(|k, v| P(k, v))\<close>.\<close>

definition map_retain :: "('k \<Rightarrow> 'v \<Rightarrow> bool) \<Rightarrow> ('k, 'v) fmap \<Rightarrow> ('k, 'v) fmap" where
  "map_retain P m = fmfilter (\<lambda>k. case fmlookup m k of None \<Rightarrow> False | Some v \<Rightarrow> P k v) m"

lemma get_or_empty [simp, map_simps]: "get_or d fmempty k = d"
  by (simp add: get_or_def)

lemma get_or_upd [simp, map_simps]: "get_or d (fmupd k v m) k' = (if k = k' then v else get_or d m k')"
  by (simp add: get_or_def)

lemma get_or_drop [simp, map_simps]: "get_or d (fmdrop k m) k' = (if k = k' then d else get_or d m k')"
  by (simp add: get_or_def)

lemma get_or_Some [simp]: "fmlookup m k = Some v \<Longrightarrow> get_or d m k = v"
  by (simp add: get_or_def)

lemma get_or_None [simp]: "fmlookup m k = None \<Longrightarrow> get_or d m k = d"
  by (simp add: get_or_def)

lemma contains_key_empty [simp, map_simps]: "\<not> contains_key fmempty k"
  by (simp add: contains_key_def)

lemma contains_key_upd [simp, map_simps]:
  "contains_key (fmupd k v m) k' \<longleftrightarrow> k = k' \<or> contains_key m k'"
  by (simp add: contains_key_def)

lemma contains_key_drop [simp, map_simps]:
  "contains_key (fmdrop k m) k' \<longleftrightarrow> k \<noteq> k' \<and> contains_key m k'"
  by (simp add: contains_key_def)

lemma contains_key_dom: "contains_key m k \<longleftrightarrow> k |\<in>| fmdom m"
  by (simp add: contains_key_def fmlookup_dom_iff)

lemma entry_extend_lookup [simp, map_simps]:
  "fmlookup (entry_extend k xs m) k' = (if k = k' then Some (get_or [] m k @ xs) else fmlookup m k')"
  by (simp add: entry_extend_def)

lemma contains_key_entry_extend [simp, map_simps]:
  "contains_key (entry_extend k xs m) k' \<longleftrightarrow> k = k' \<or> contains_key m k'"
  by (simp add: entry_extend_def)

lemma get_or_entry_extend [simp, map_simps]:
  "get_or [] (entry_extend k xs m) k' = (if k = k' then get_or [] m k @ xs else get_or [] m k')"
  by (simp add: entry_extend_def)

lemma entry_insert_lookup [simp, map_simps]:
  "fmlookup (entry_insert k x m) k' =
     (if k = k' then Some (finsert x (get_or {||} m k)) else fmlookup m k')"
  by (simp add: entry_insert_def)

lemma contains_key_entry_insert [simp, map_simps]:
  "contains_key (entry_insert k x m) k' \<longleftrightarrow> k = k' \<or> contains_key m k'"
  by (simp add: entry_insert_def)

lemma map_retain_lookup [simp, map_simps]:
  "fmlookup (map_retain P m) k =
     (case fmlookup m k of None \<Rightarrow> None | Some v \<Rightarrow> if P k v then Some v else None)"
  by (simp add: map_retain_def split: option.split)

section \<open>Iteration order\<close>

text \<open>
  What the standard library documents of iterating over a \<open>HashSet\<close> or over the keys of a
  \<open>HashMap\<close>: every element comes exactly once, in an arbitrary order.
\<close>

definition iterates :: "('a fset \<Rightarrow> 'a list) \<Rightarrow> bool" where
  "iterates ord \<longleftrightarrow> (\<forall>S. distinct (ord S) \<and> set (ord S) = fset S)"

locale hash_order =
  fixes ord :: "'a fset \<Rightarrow> 'a list"
  assumes distinct_ord: "distinct (ord S)"
    and set_ord: "set (ord S) = fset S"
begin

lemma mset_ord: "mset (ord S) = mset_set (fset S)"
  by (metis distinct_ord set_ord mset_set_set)

lemma ord_empty: "ord {||} = []"
  using set_ord [of "{||}"] by simp

lemma ord_eq_Nil_iff: "ord S = [] \<longleftrightarrow> S = {||}"
proof -
  have "ord S = [] \<longleftrightarrow> fset S = {}"
    by (metis set_ord set_empty)
  also have "\<dots> \<longleftrightarrow> S = {||}"
    by (auto simp: fset_eq_iff)
  finally show ?thesis .
qed

lemma ord_single: "ord {|a|} = [a]"
proof -
  have "length (ord {|a|}) = card (set (ord {|a|}))"
    using distinct_ord [of "{|a|}"] by (simp add: distinct_card)
  then have "length (ord {|a|}) = 1"
    by (simp add: set_ord)
  then obtain b where "ord {|a|} = [b]"
    by (auto simp: length_Suc_conv)
  then show ?thesis
    using set_ord [of "{|a|}"] by simp
qed

lemma find_ord_None: "find P (ord S) = None \<longleftrightarrow> (\<forall>x. x |\<in>| S \<longrightarrow> \<not> P x)"
  by (auto simp: find_None_iff set_ord)

lemma find_ord_SomeD: "find P (ord S) = Some x \<Longrightarrow> x |\<in>| S \<and> P x"
  by (auto simp: find_Some_iff set_ord dest: nth_mem)

end

text \<open>
  The order used where a concrete run is evaluated: the elements sorted by the type's linear
  order.  It is one of the orders the standard library may produce.
\<close>

interpretation sorted_order: hash_order "sorted_list_of_fset :: 'a::linorder fset \<Rightarrow> 'a list"
  by unfold_locales (simp_all add: sorted_list_of_fset.rep_eq)

lemma iterates_sorted: "iterates (sorted_list_of_fset :: 'a::linorder fset \<Rightarrow> 'a list)"
  by (simp add: iterates_def sorted_order.distinct_ord sorted_order.set_ord)

lemma hash_orderI: "iterates ord \<Longrightarrow> hash_order ord"
  by unfold_locales (auto simp: iterates_def)

lemma sorted_list_of_fset_insert [simp]:
  "sorted_list_of_fset (finsert a S) = insort a (sorted_list_of_fset (S |-| {|a|}))"
  by (simp add: sorted_list_of_fset.rep_eq)

lemma sorted_list_of_fset_empty [simp]: "sorted_list_of_fset {||} = []"
  by (simp add: sorted_list_of_fset.rep_eq)

section \<open>The values of a map of vectors, as a multiset\<close>

definition fm_bag :: "('k \<Rightarrow> 'v \<Rightarrow> 'w) \<Rightarrow> ('k, 'v list) fmap \<Rightarrow> 'w multiset" where
  "fm_bag f m = (\<Sum>k\<in>fset (fmdom m). mset (map (f k) (get_or [] m k)))"

lemma fm_bag_empty [simp, bag_simps]: "fm_bag f fmempty = {#}"
  by (simp add: fm_bag_def)

lemma fm_bag_drop:
  "fm_bag f m = fm_bag f (fmdrop k m) + mset (map (f k) (get_or [] m k))"
proof (cases "k |\<in>| fmdom m")
  case True
  have "fm_bag f m = mset (map (f k) (get_or [] m k)) +
      (\<Sum>j\<in>fset (fmdom m) - {k}. mset (map (f j) (get_or [] m j)))"
    unfolding fm_bag_def using True by (simp add: sum.remove)
  also have "(\<Sum>j\<in>fset (fmdom m) - {k}. mset (map (f j) (get_or [] m j))) =
      fm_bag f (fmdrop k m)"
    unfolding fm_bag_def by (intro sum.cong) auto
  finally show ?thesis by simp
next
  case False
  then have "fmlookup m k = None" by (rule fmdom_notD)
  with False show ?thesis by (simp add: fmdrop_idle)
qed

lemma fm_bag_upd [bag_simps]:
  "fm_bag f (fmupd k v m) = fm_bag f (fmdrop k m) + mset (map (f k) v)"
  using fm_bag_drop [of f "fmupd k v m" k] by (simp add: fmdrop_fmupd)

lemma fm_bag_extend [bag_simps]:
  "fm_bag f (entry_extend k xs m) = fm_bag f m + mset (map (f k) xs)"
  using fm_bag_drop [of f m k] by (simp add: entry_extend_def fm_bag_upd)

lemma fm_bag_remove:
  "fmlookup m k = Some xs \<Longrightarrow> fm_bag f m = fm_bag f (fmdrop k m) + mset (map (f k) xs)"
  using fm_bag_drop [of f m k] by simp

lemma fm_bag_absent: "fmlookup m k = None \<Longrightarrow> fm_bag f (fmdrop k m) = fm_bag f m"
  using fm_bag_drop [of f m k] by simp

text \<open>The same multiset, enumerated in an iteration order.\<close>

lemma fm_bag_iterate:
  assumes "iterates ord"
  shows "fm_bag f m = mset (concat (map (\<lambda>k. map (f k) (get_or [] m k)) (ord (fmdom m))))"
proof -
  have d: "distinct (ord (fmdom m))" and s: "set (ord (fmdom m)) = fset (fmdom m)"
    using assms by (auto simp: iterates_def)
  have "fm_bag f m = (\<Sum>k\<leftarrow>ord (fmdom m). mset (map (f k) (get_or [] m k)))"
    unfolding fm_bag_def using d s by (simp add: sum_list_distinct_conv_sum_set)
  then show ?thesis
    by (simp add: mset_concat comp_def)
qed

section \<open>Vectors\<close>

text \<open>
  The filter \<open>seen.insert(key(x))\<close> of the three \<open>dedup_*\<close> functions: an element is kept when
  its key was not in the set \<open>seen\<close>, and its key is added.
\<close>

fun dedup_by :: "('a \<Rightarrow> 'k) \<Rightarrow> 'k fset \<Rightarrow> 'a list \<Rightarrow> 'a list" where
  "dedup_by key seen [] = []"
| "dedup_by key seen (x # xs) =
     (if key x |\<in>| seen then dedup_by key seen xs
      else x # dedup_by key (finsert (key x) seen) xs)"

lemma dedup_by_keys:
  "distinct (map key (dedup_by key seen xs)) \<and>
   set (map key (dedup_by key seen xs)) = key ` set xs - fset seen"
  by (induction xs arbitrary: seen) auto

lemma set_dedup_by_subset: "set (dedup_by key seen xs) \<subseteq> set xs"
  by (induction xs arbitrary: seen) auto

lemma dedup_by_eq_Nil [simp]: "dedup_by key {||} xs = [] \<longleftrightarrow> xs = []"
  by (cases xs) auto

lemma dedup_by_append:
  "dedup_by key seen (xs @ ys) =
   dedup_by key seen xs @ dedup_by key (seen |\<union>| fset_of_list (map key xs)) ys"
proof (induction xs arbitrary: seen)
  case Nil
  then show ?case by simp
next
  case (Cons x xs)
  have "finsert (key x) seen |\<union>| fset_of_list (map key xs) =
      seen |\<union>| fset_of_list (map key (x # xs))"
    by auto
  moreover have "seen |\<union>| fset_of_list (map key xs) =
      seen |\<union>| fset_of_list (map key (x # xs))" if "key x |\<in>| seen"
    using that by auto
  ultimately show ?case
    by (simp only: append_Cons dedup_by.simps Cons.IH split: if_split) auto
qed

lemma dedup_by_distinct_id:
  "distinct (map key xs) \<Longrightarrow> key ` set xs \<inter> fset seen = {} \<Longrightarrow> dedup_by key seen xs = xs"
  by (induction xs arbitrary: seen) auto

text \<open>
  \<open>Vec::sort_by\<close>: a stable sort by a comparison.  \<open>le x y\<close> says that the comparison of \<open>x\<close>
  with \<open>y\<close> is not \<open>Greater\<close>.
\<close>

fun insort_by :: "('a \<Rightarrow> 'a \<Rightarrow> bool) \<Rightarrow> 'a \<Rightarrow> 'a list \<Rightarrow> 'a list" where
  "insort_by le x [] = [x]"
| "insort_by le x (y # ys) = (if le x y then x # y # ys else y # insort_by le x ys)"

definition sort_by :: "('a \<Rightarrow> 'a \<Rightarrow> bool) \<Rightarrow> 'a list \<Rightarrow> 'a list" where
  "sort_by le xs = foldr (insort_by le) xs []"

lemma mset_insort_by [simp]: "mset (insort_by le x xs) = add_mset x (mset xs)"
  by (induction xs) auto

lemma mset_sort_by [simp]: "mset (sort_by le xs) = mset xs"
  unfolding sort_by_def by (induction xs) auto

lemma set_sort_by [simp]: "set (sort_by le xs) = set xs"
  by (metis mset_sort_by set_mset_mset)

lemma length_sort_by [simp]: "length (sort_by le xs) = length xs"
  by (metis mset_sort_by size_mset)

lemma distinct_sort_by [simp]: "distinct (sort_by le xs) \<longleftrightarrow> distinct xs"
  by (metis mset_sort_by mset_eq_imp_distinct_iff)

text \<open>The comparisons of the program are total preorders.\<close>

locale total_comparison =
  fixes le :: "'a \<Rightarrow> 'a \<Rightarrow> bool"
  assumes le_total: "le x y \<or> le y x"
    and le_trans: "le x y \<Longrightarrow> le y z \<Longrightarrow> le x z"
begin

lemma sorted_insort_by: "sorted_wrt le xs \<Longrightarrow> sorted_wrt le (insort_by le x xs)"
proof (induction xs)
  case Nil
  then show ?case by simp
next
  case (Cons y ys)
  have set_eq: "set (insort_by le x ys) = insert x (set ys)"
    by (metis mset_insort_by set_mset_add_mset_insert set_mset_mset)
  show ?case
  proof (cases "le x y")
    case True
    with Cons.prems show ?thesis by (auto intro: le_trans)
  next
    case False
    then have "le y x" using le_total by blast
    with False Cons show ?thesis by (simp add: set_eq)
  qed
qed

lemma sorted_sort_by: "sorted_wrt le (sort_by le xs)"
  unfolding sort_by_def by (induction xs) (auto intro: sorted_insort_by)

text \<open>What the first \<open>n\<close> elements leave out does not come before any of them.\<close>

lemma take_sort_by_least:
  assumes "x \<in> set (take n (sort_by le xs))" and "y \<in> set (drop n (sort_by le xs))"
  shows "le x y"
proof -
  have "sorted_wrt le (take n (sort_by le xs) @ drop n (sort_by le xs))"
    by (simp add: sorted_sort_by)
  with assms show ?thesis by (simp only: sorted_wrt_append)
qed

end

section \<open>Counters\<close>

text \<open>\<open>uN::saturating_add\<close>.\<close>

definition saturating_add :: "'a::len word \<Rightarrow> 'a word \<Rightarrow> 'a word" where
  "saturating_add a b = (if unat a + unat b < 2 ^ LENGTH('a) then a + b else - 1)"

text \<open>\<open>uN::checked_add\<close>.\<close>

definition checked_add :: "'a::len word \<Rightarrow> 'a word \<Rightarrow> 'a word option" where
  "checked_add a b = (if unat a + unat b < 2 ^ LENGTH('a) then Some (a + b) else None)"

lemma unat_saturating_add:
  "unat (saturating_add a (b :: 'a::len word)) = min (unat a + unat b) (2 ^ LENGTH('a) - 1)"
proof (cases "unat a + unat b < 2 ^ LENGTH('a)")
  case True
  then show ?thesis
    by (simp add: saturating_add_def unat_add_lem [THEN iffD1])
next
  case False
  then show ?thesis
    by (simp add: saturating_add_def unsigned_minus_1_eq_mask mask_eq_exp_minus_1)
qed

lemma saturating_add_mono: "(a :: 'a::len word) \<le> saturating_add a b"
proof -
  have "unat a < 2 ^ LENGTH('a)" by (rule unsigned_less)
  then have "unat a \<le> 2 ^ LENGTH('a) - 1" by arith
  then show ?thesis by (simp add: word_le_nat_alt unat_saturating_add)
qed

lemma checked_add_Some:
  "checked_add a b = Some c \<Longrightarrow> unat c = unat a + unat b"
  by (auto simp: checked_add_def unat_add_lem [THEN iffD1] split: if_splits)

end
