(* ===== verification/Net_Types.thy ===== *)
theory Net_Types
  imports Prelude
begin

text \<open>
  The identities and addresses the program computes with: the new-types of \<open>src/src/types.rs\<close>,
  the constants of \<open>src/src/protocol.rs\<close>, IP addresses with the predicates of \<open>std::net\<close> the
  code calls, and multiaddresses.  A libp2p \<open>Multiaddr\<close> is the sequence of its protocol
  components, which is all the code reads of it (\<open>addr.iter()\<close> and equality); a \<open>PeerId\<close> is
  an opaque identity with equality and a printed form, the latter a parameter of the model.
\<close>

section \<open>Peers and services\<close>

datatype peer_id = PeerId string

datatype service_name = ServiceName string

datatype kademlia_key = KademliaKey string

fun service_name_str :: "service_name \<Rightarrow> string" where
  "service_name_str (ServiceName s) = s"

datatype service_name_parse_error = ServiceNameParseError

definition service_name_from_str :: "string \<Rightarrow> service_name_parse_error + service_name" where
  "service_name_from_str s = (if s = [] then Inl ServiceNameParseError else Inr (ServiceName s))"

text \<open>\<open>Serialize\<close> and \<open>Deserialize\<close> of a name, over those of a string.\<close>

definition serialize_service_name :: "(string \<Rightarrow> 'ser) \<Rightarrow> service_name \<Rightarrow> 'ser" where
  "serialize_service_name serialize_string name = serialize_string (service_name_str name)"

definition deserialize_service_name :: "('ser \<Rightarrow> 'err + string) \<Rightarrow> 'ser \<Rightarrow> 'err + service_name" where
  "deserialize_service_name deserialize_string d =
     (case deserialize_string d of Inl e \<Rightarrow> Inl e | Inr s \<Rightarrow> Inr (ServiceName s))"

text \<open>A name comes back from its serial form.  The serial form of the empty string is read as a name as
  well, which the parser of names refuses.\<close>

lemma service_name_serde:
  assumes "\<And>s. deserialize_string (serialize_string s) = Inr s"
  shows "deserialize_service_name deserialize_string (serialize_service_name serialize_string name) = Inr name"
    and "deserialize_service_name deserialize_string (serialize_string []) = Inr (ServiceName [])"
    and "service_name_from_str [] = Inl ServiceNameParseError"
  by (cases name; simp add: assms deserialize_service_name_def serialize_service_name_def service_name_from_str_def)+

definition SERVICE_KEY_PREFIX :: string where
  "SERVICE_KEY_PREFIX = ''/punchgate/svc/''"

definition for_service :: "service_name \<Rightarrow> kademlia_key" where
  "for_service name = KademliaKey (SERVICE_KEY_PREFIX @ service_name_str name)"

fun key_bytes :: "kademlia_key \<Rightarrow> string" where
  "key_bytes (KademliaKey k) = k"

text \<open>\<open>str::strip_prefix\<close>.\<close>

fun strip_prefix :: "string \<Rightarrow> string \<Rightarrow> string option" where
  "strip_prefix [] s = Some s"
| "strip_prefix (p # ps) [] = None"
| "strip_prefix (p # ps) (c # cs) = (if p = c then strip_prefix ps cs else None)"

lemma strip_prefix_append [simp]: "strip_prefix p (p @ s) = Some s"
  by (induction p) auto

lemma strip_prefix_Some: "strip_prefix p s = Some r \<longleftrightarrow> s = p @ r"
  by (induction p s rule: strip_prefix.induct) auto

text \<open>
  \<open>service_name_from_key\<close>.  Text is its UTF-8 bytes here; \<open>is_utf8\<close> stands for the check of
  \<open>std::str::from_utf8\<close>.
\<close>

definition service_name_from_key :: "(string \<Rightarrow> bool) \<Rightarrow> string \<Rightarrow> string option" where
  "service_name_from_key is_utf8 key =
     (if is_utf8 key then strip_prefix SERVICE_KEY_PREFIX key else None)"

section \<open>IP addresses\<close>

datatype ipv4 = Ipv4 "8 word" "8 word" "8 word" "8 word"

datatype ipv6 = Ipv6 "16 word" "16 word" "16 word" "16 word" "16 word" "16 word" "16 word" "16 word"

datatype ip_addr = IpV4 ipv4 | IpV6 ipv6

fun v4_is_unspecified :: "ipv4 \<Rightarrow> bool" where
  "v4_is_unspecified (Ipv4 a b c d) \<longleftrightarrow> a = 0 \<and> b = 0 \<and> c = 0 \<and> d = 0"

fun v4_is_loopback :: "ipv4 \<Rightarrow> bool" where
  "v4_is_loopback (Ipv4 a b c d) \<longleftrightarrow> a = 127"

fun v4_is_private :: "ipv4 \<Rightarrow> bool" where
  "v4_is_private (Ipv4 a b c d) \<longleftrightarrow>
     a = 10 \<or> (a = 172 \<and> 16 \<le> b \<and> b \<le> 31) \<or> (a = 192 \<and> b = 168)"

fun v4_is_link_local :: "ipv4 \<Rightarrow> bool" where
  "v4_is_link_local (Ipv4 a b c d) \<longleftrightarrow> a = 169 \<and> b = 254"

definition v6_is_unspecified :: "ipv6 \<Rightarrow> bool" where
  "v6_is_unspecified ip \<longleftrightarrow> ip = Ipv6 0 0 0 0 0 0 0 0"

definition v6_is_loopback :: "ipv6 \<Rightarrow> bool" where
  "v6_is_loopback ip \<longleftrightarrow> ip = Ipv6 0 0 0 0 0 0 0 1"

section \<open>Multiaddresses\<close>

text \<open>The components the code distinguishes; every other protocol is \<open>OtherProtocol\<close>.\<close>

datatype protocol =
    Ip4 ipv4
  | Ip6 ipv6
  | Udp "16 word"
  | Tcp "16 word"
  | Quic
  | QuicV1
  | P2p peer_id
  | P2pCircuit
  | OtherProtocol string

type_synonym multiaddr = "protocol list"

section \<open>Time\<close>

text \<open>
  An \<open>Instant\<close> is the number of nanoseconds on the monotone clock, a \<open>Duration\<close> a number of
  nanoseconds, both natural numbers: \<open>saturating_duration_since\<close> is the subtraction of natural
  numbers.
\<close>

type_synonym instant = nat
type_synonym duration = nat

definition from_secs :: "nat \<Rightarrow> duration" where
  "from_secs n = n * 1000000000"

definition DISCOVERY_TIMEOUT :: duration where
  "DISCOVERY_TIMEOUT = from_secs 30"

definition DHT_RECORD_TTL :: duration where
  "DHT_RECORD_TTL = from_secs (15 * 60)"

section \<open>Linear orders, for concrete iteration orders\<close>

text \<open>
  The program never compares peers, services or protocol components; the orders below only give
  concrete iteration orders, so that runs of the model can be evaluated.
\<close>

instantiation peer_id :: linorder
begin

definition less_eq_peer_id :: "peer_id \<Rightarrow> peer_id \<Rightarrow> bool" where
  "less_eq_peer_id p q = (case (p, q) of (PeerId a, PeerId b) \<Rightarrow> a \<le> b)"

definition less_peer_id :: "peer_id \<Rightarrow> peer_id \<Rightarrow> bool" where
  "less_peer_id p q = (case (p, q) of (PeerId a, PeerId b) \<Rightarrow> a < b)"

instance
  by standard (auto simp: less_eq_peer_id_def less_peer_id_def split: peer_id.splits)

end

instantiation service_name :: linorder
begin

definition less_eq_service_name :: "service_name \<Rightarrow> service_name \<Rightarrow> bool" where
  "less_eq_service_name p q = (service_name_str p \<le> service_name_str q)"

definition less_service_name :: "service_name \<Rightarrow> service_name \<Rightarrow> bool" where
  "less_service_name p q = (service_name_str p < service_name_str q)"

instance
proof
  fix x y :: service_name
  assume "x \<le> y" and "y \<le> x"
  then show "x = y"
    by (cases x; cases y) (simp add: less_eq_service_name_def)
qed (auto simp: less_eq_service_name_def less_service_name_def)

end

fun v4_key :: "ipv4 \<Rightarrow> nat list" where
  "v4_key (Ipv4 a b c d) = [unat a, unat b, unat c, unat d]"

fun v6_key :: "ipv6 \<Rightarrow> nat list" where
  "v6_key (Ipv6 a b c d e f g h) =
     [unat a, unat b, unat c, unat d, unat e, unat f, unat g, unat h]"

fun peer_bytes :: "peer_id \<Rightarrow> string" where
  "peer_bytes (PeerId s) = s"

fun protocol_key :: "protocol \<Rightarrow> nat list" where
  "protocol_key (Ip4 ip) = 0 # v4_key ip"
| "protocol_key (Ip6 ip) = 1 # v6_key ip"
| "protocol_key (Udp p) = [2, unat p]"
| "protocol_key (Tcp p) = [3, unat p]"
| "protocol_key Quic = [4]"
| "protocol_key QuicV1 = [5]"
| "protocol_key (P2p p) = 6 # map of_char (peer_bytes p)"
| "protocol_key P2pCircuit = [7]"
| "protocol_key (OtherProtocol s) = 8 # map of_char s"

lemma v4_key_inject: "v4_key a = v4_key b \<longleftrightarrow> a = b"
  by (cases a; cases b) (simp add: word_unat_eq_iff)

lemma v6_key_inject: "v6_key a = v6_key b \<longleftrightarrow> a = b"
  by (cases a; cases b) (simp add: word_unat_eq_iff)

lemma map_of_char_inject: "map (of_char :: char \<Rightarrow> nat) s = map of_char t \<longleftrightarrow> s = t"
  by (rule inj_map_eq_map) (simp add: inj_def)

lemma protocol_key_inject: "protocol_key p = protocol_key q \<longleftrightarrow> p = q"
proof (cases p; cases q)
  fix a b assume "p = P2p a" and "q = P2p b"
  then show ?thesis
    by (cases a; cases b) (simp add: map_of_char_inject)
qed (simp_all add: v4_key_inject v6_key_inject map_of_char_inject word_unat_eq_iff)

instantiation protocol :: linorder
begin

definition less_eq_protocol :: "protocol \<Rightarrow> protocol \<Rightarrow> bool" where
  "less_eq_protocol p q = (protocol_key p \<le> protocol_key q)"

definition less_protocol :: "protocol \<Rightarrow> protocol \<Rightarrow> bool" where
  "less_protocol p q = (protocol_key p < protocol_key q)"

instance
proof
  fix x y :: protocol
  assume "x \<le> y" and "y \<le> x"
  then show "x = y"
    by (simp add: less_eq_protocol_def flip: protocol_key_inject)
qed (auto simp: less_eq_protocol_def less_protocol_def)

end

section \<open>The environment of one transition\<close>

text \<open>
  What a transition reads from outside its state: the clock, the iteration orders of the hash
  collections at that moment, and the printed forms of peers and addresses.
\<close>

record step_env =
  clock :: instant
  peer_order :: "peer_id fset \<Rightarrow> peer_id list"
  addr_order :: "multiaddr fset \<Rightarrow> multiaddr list"
  service_order :: "service_name fset \<Rightarrow> service_name list"
  show_peer :: "peer_id \<Rightarrow> string"
  show_addr :: "multiaddr \<Rightarrow> string"

definition env_ok :: "step_env \<Rightarrow> bool" where
  "env_ok env \<longleftrightarrow> iterates (peer_order env) \<and> iterates (addr_order env) \<and>
     iterates (service_order env)"

text \<open>An environment for concrete runs.\<close>

definition sample_env :: "instant \<Rightarrow> step_env" where
  "sample_env t =
     \<lparr>clock = t, peer_order = sorted_list_of_fset, addr_order = sorted_list_of_fset,
      service_order = sorted_list_of_fset, show_peer = peer_bytes, show_addr = (\<lambda>a. [])\<rparr>"

lemma env_ok_sample [simp]: "env_ok (sample_env t)"
  by (simp add: env_ok_def sample_env_def iterates_sorted)

text \<open>Collections of at most one element have one order.\<close>

lemma single_orders:
  assumes "env_ok env"
  shows "peer_order env {|p|} = [p]" and "service_order env {|n|} = [n]" and "addr_order env {|a|} = [a]"
    and "peer_order env {||} = []" and "service_order env {||} = []" and "addr_order env {||} = []"
  using assms by (auto simp: env_ok_def dest!: hash_orderI intro: hash_order.ord_single hash_order.ord_empty)

end
