(* ===== verification/Specs.thy ===== *)
theory Specs
  imports Net_Types
begin

text \<open>
  The text formats of the command line: \<open>src/src/specs.rs\<close> and \<open>HostAddr\<close> of
  \<open>src/src/types.rs\<close>, with the parsers of the standard library they call.  Text is its UTF-8
  bytes; every separator is ASCII, so splitting bytes is splitting characters.
\<close>

section \<open>Splitting text\<close>

fun split_once :: "char \<Rightarrow> string \<Rightarrow> (string \<times> string) option" where
  "split_once c [] = None"
| "split_once c (x # xs) =
     (if x = c then Some ([], xs) else map_option (apfst (Cons x)) (split_once c xs))"

definition rsplit_once :: "char \<Rightarrow> string \<Rightarrow> (string \<times> string) option" where
  "rsplit_once c s = map_option (\<lambda>(a, b). (rev b, rev a)) (split_once c (rev s))"

fun split_once_str :: "string \<Rightarrow> string \<Rightarrow> (string \<times> string) option" where
  "split_once_str pat [] = (if pat = [] then Some ([], []) else None)"
| "split_once_str pat (x # xs) =
     (case strip_prefix pat (x # xs) of
        Some r \<Rightarrow> Some ([], r)
      | None \<Rightarrow> map_option (apfst (Cons x)) (split_once_str pat xs))"

lemma split_once_append [simp]: "c \<notin> set a \<Longrightarrow> split_once c (a @ c # b) = Some (a, b)"
  by (induction a) auto

lemma split_once_None: "split_once c s = None \<longleftrightarrow> c \<notin> set s"
  by (induction s) auto

lemma split_once_Some: "split_once c s = Some (a, b) \<longleftrightarrow> s = a @ c # b \<and> c \<notin> set a"
proof (induction s arbitrary: a)
  case Nil
  then show ?case by simp
next
  case (Cons x xs)
  then show ?case by (cases a) auto
qed

lemma rsplit_once_append [simp]: "c \<notin> set b \<Longrightarrow> rsplit_once c (a @ c # b) = Some (a, b)"
  by (simp add: rsplit_once_def)

lemma rsplit_once_None: "rsplit_once c s = None \<longleftrightarrow> c \<notin> set s"
  by (simp add: rsplit_once_def split_once_None)

lemma rsplit_once_Some: "rsplit_once c s = Some (a, b) \<longleftrightarrow> s = a @ c # b \<and> c \<notin> set b"
proof -
  have "rsplit_once c s = Some (a, b) \<longleftrightarrow> split_once c (rev s) = Some (rev b, rev a)"
    by (auto simp: rsplit_once_def)
  also have "\<dots> \<longleftrightarrow> rev s = rev b @ c # rev a \<and> c \<notin> set b"
    by (simp add: split_once_Some)
  also have "rev s = rev b @ c # rev a \<longleftrightarrow> s = a @ c # b"
    by (metis (no_types, opaque_lifting) append.assoc append_Cons append_Nil rev_append rev_rev_ident rev.simps(2))
  finally show ?thesis .
qed

lemma split_once_str_append:
  assumes "p \<notin> set a"
  shows "split_once_str (p # ps) (a @ (p # ps) @ b) = Some (a, b)"
  using assms by (induction a) (auto split: option.split)

section \<open>Decimal numbers\<close>

definition digit_char :: "nat \<Rightarrow> char" where
  "digit_char d = char_of (48 + d)"

definition digit_of :: "char \<Rightarrow> nat option" where
  "digit_of c = (let n = (of_char c :: nat) in if 48 \<le> n \<and> n \<le> 57 then Some (n - 48) else None)"

text \<open>The \<open>Display\<close> form of an unsigned integer.\<close>

fun dec :: "nat \<Rightarrow> string" where
  "dec n = (if n < 10 then [digit_char n] else dec (n div 10) @ [digit_char (n mod 10)])"

declare dec.simps [simp del]

fun dec_value :: "nat \<Rightarrow> string \<Rightarrow> nat option" where
  "dec_value acc [] = Some acc"
| "dec_value acc (c # cs) =
     (case digit_of c of None \<Rightarrow> None | Some d \<Rightarrow> dec_value (10 * acc + d) cs)"

lemma digit_of_char [simp]: "d < 10 \<Longrightarrow> digit_of (digit_char d) = Some d"
  by (simp add: digit_of_def digit_char_def)

lemma dec_nonempty [simp]: "dec n \<noteq> []"
  by (subst dec.simps) simp

lemma dec_value_append:
  "dec_value acc (xs @ ys) =
     (case dec_value acc xs of None \<Rightarrow> None | Some n \<Rightarrow> dec_value n ys)"
  by (induction acc xs rule: dec_value.induct) (auto split: option.split)

lemma dec_value_dec [simp]: "dec_value 0 (dec n) = Some n"
proof (induction n rule: dec.induct)
  case (1 n)
  then show ?case
    by (subst dec.simps) (auto simp: dec_value_append)
qed

lemma dec_digits: "c \<in> set (dec n) \<Longrightarrow> \<exists>d<10. c = digit_char d"
proof (induction n rule: dec.induct)
  case (1 n)
  then show ?case
    by (cases "n < 10") (auto simp: dec.simps [of n] intro: exI [of _ "n mod 10"])
qed

lemma dec_not_in [simp]:
  "CHR '':'' \<notin> set (dec n)" "CHR ''@'' \<notin> set (dec n)" "CHR '','' \<notin> set (dec n)"
  "CHR ''.'' \<notin> set (dec n)" "CHR '']'' \<notin> set (dec n)" "CHR ''['' \<notin> set (dec n)"
  "CHR ''='' \<notin> set (dec n)" "CHR ''+'' \<notin> set (dec n)"
proof -
  have nd: "\<exists>d<10. c = digit_char d \<Longrightarrow> 48 \<le> (of_char c :: nat) \<and> (of_char c :: nat) \<le> 57" for c
    by (auto simp: digit_char_def)
  have "c \<in> set (dec n) \<Longrightarrow> 48 \<le> (of_char c :: nat) \<and> (of_char c :: nat) \<le> 57" for c
    by (rule nd) (rule dec_digits)
  then show "CHR '':'' \<notin> set (dec n)" "CHR ''@'' \<notin> set (dec n)" "CHR '','' \<notin> set (dec n)"
    "CHR ''.'' \<notin> set (dec n)" "CHR '']'' \<notin> set (dec n)" "CHR ''['' \<notin> set (dec n)"
    "CHR ''='' \<notin> set (dec n)" "CHR ''+'' \<notin> set (dec n)"
    by fastforce+
qed

lemma length_dec_le3: "n < 1000 \<Longrightarrow> length (dec n) \<le> 3"
  by (subst dec.simps, subst dec.simps, subst dec.simps) auto

lemma dec_no_leading_zero: "hd (dec n) = CHR ''0'' \<Longrightarrow> length (dec n) = 1"
proof (induction n rule: dec.induct)
  case (1 n)
  show ?case
  proof (cases "n < 10")
    case True
    then show ?thesis by (simp add: dec.simps [of n])
  next
    case False
    have hd_eq: "hd (dec n) = hd (dec (n div 10))"
      using False by (simp add: dec.simps [of n])
    with 1 False have len: "length (dec (n div 10)) = 1" by simp
    then obtain c where c: "dec (n div 10) = [c]" by (auto simp: length_Suc_conv)
    with hd_eq "1.prems" have "dec (n div 10) = [CHR ''0'']" by simp
    then have "dec_value 0 (dec (n div 10)) = Some 0"
      by (simp add: digit_of_def)
    with False show ?thesis by simp
  qed
qed

text \<open>\<open>u16::from_str\<close>: an optional plus sign, then decimal digits, with overflow checked.\<close>

datatype parse_int_error = IntEmpty | InvalidDigit | PosOverflow

fun u16_digits :: "nat \<Rightarrow> string \<Rightarrow> parse_int_error + nat" where
  "u16_digits acc [] = Inr acc"
| "u16_digits acc (c # cs) =
     (case digit_of c of
        None \<Rightarrow> Inl InvalidDigit
      | Some d \<Rightarrow>
          if 10 * acc + d < 2 ^ 16 then u16_digits (10 * acc + d) cs else Inl PosOverflow)"

definition parse_u16 :: "string \<Rightarrow> parse_int_error + 16 word" where
  "parse_u16 s =
     (case s of
        [] \<Rightarrow> Inl IntEmpty
      | c # cs \<Rightarrow>
          if (c = CHR ''+'' \<or> c = CHR ''-'') \<and> cs = [] then Inl InvalidDigit
          else map_sum id of_nat (u16_digits 0 (if c = CHR ''+'' then cs else s)))"

lemma dec_value_ge: "dec_value acc s = Some n \<Longrightarrow> acc \<le> n"
proof (induction acc s rule: dec_value.induct)
  case (1 acc)
  then show ?case by simp
next
  case (2 acc c cs)
  then show ?case by (auto split: option.splits)
qed

lemma u16_digits_value:
  "dec_value acc s = Some n \<Longrightarrow> n < 2 ^ 16 \<Longrightarrow> u16_digits acc s = Inr n"
proof (induction acc s rule: dec_value.induct)
  case (1 acc)
  then show ?case by simp
next
  case (2 acc c cs)
  then obtain d where d: "digit_of c = Some d" and v: "dec_value (10 * acc + d) cs = Some n"
    by (auto split: option.splits)
  have "10 * acc + d < 2 ^ 16"
    using dec_value_ge [OF v] "2.prems"(2) by simp
  with d v "2.IH" "2.prems"(2) show ?case by simp
qed

lemma u16_digits_bound: "u16_digits acc s = Inr n \<Longrightarrow> acc < 2 ^ 16 \<Longrightarrow> n < 2 ^ 16"
  by (induction acc s rule: u16_digits.induct) (auto split: option.splits if_splits)

lemma parse_u16_dec [simp]: "parse_u16 (dec (unat p)) = Inr p"
proof -
  obtain c cs where d: "dec (unat p) = c # cs"
    by (cases "dec (unat p)") auto
  have "c \<in> set (dec (unat p))" by (simp add: d)
  then obtain k where k: "k < 10" "c = digit_char k" using dec_digits by blast
  have "c \<noteq> CHR ''+''" using \<open>c \<in> _\<close> dec_not_in(8) by metis
  moreover have "c \<noteq> CHR ''-''"
  proof
    assume "c = CHR ''-''"
    with k have "digit_of CHR ''-'' = Some k" by (metis digit_of_char)
    then show False by (simp add: digit_of_def)
  qed
  moreover have "u16_digits 0 (dec (unat p)) = Inr (unat p)"
    using unsigned_less [of p] by (intro u16_digits_value) auto
  ultimately show ?thesis
    by (simp add: parse_u16_def d)
qed

section \<open>IPv4 text\<close>

text \<open>
  \<open>Ipv4Addr::from_str\<close>: four decimal octets of one to three digits, without leading zeros.
\<close>

definition parse_octet :: "string \<Rightarrow> 8 word option" where
  "parse_octet s =
     (if s = [] \<or> 3 < length s \<or> (hd s = CHR ''0'' \<and> 1 < length s) then None
      else case dec_value 0 s of
             None \<Rightarrow> None
           | Some n \<Rightarrow> if n < 256 then Some (of_nat n) else None)"

definition parse_ipv4 :: "string \<Rightarrow> ipv4 option" where
  "parse_ipv4 s =
     (case split_once CHR ''.'' s of
        None \<Rightarrow> None
      | Some (a, r) \<Rightarrow>
     (case split_once CHR ''.'' r of
        None \<Rightarrow> None
      | Some (b, q) \<Rightarrow>
     (case split_once CHR ''.'' q of
        None \<Rightarrow> None
      | Some (c, d) \<Rightarrow>
     (case (parse_octet a, parse_octet b, parse_octet c, parse_octet d) of
        (Some a', Some b', Some c', Some d') \<Rightarrow> Some (Ipv4 a' b' c' d')
      | _ \<Rightarrow> None))))"

fun show_ipv4 :: "ipv4 \<Rightarrow> string" where
  "show_ipv4 (Ipv4 a b c d) =
     dec (unat a) @ ''.'' @ dec (unat b) @ ''.'' @ dec (unat c) @ ''.'' @ dec (unat d)"

lemma unat_octet: "unat (a :: 8 word) < 256"
  using unsigned_less [of a] by simp

lemma parse_octet_dec [simp]: "parse_octet (dec (unat a)) = Some a"
proof -
  have "unat a < 1000" using unat_octet [of a] by simp
  then have "length (dec (unat a)) \<le> 3" by (rule length_dec_le3)
  with unat_octet [of a] show ?thesis
    by (auto simp: parse_octet_def not_less dest: dec_no_leading_zero)
qed

lemma parse_show_ipv4 [simp]: "parse_ipv4 (show_ipv4 ip) = Some ip"
  by (cases ip) (simp add: parse_ipv4_def)

lemma show_ipv4_nonempty [simp]: "show_ipv4 ip \<noteq> []"
  by (cases ip) simp

lemma show_ipv4_not_in [simp]:
  "CHR '':'' \<notin> set (show_ipv4 ip)" "CHR ''['' \<notin> set (show_ipv4 ip)"
  "CHR ''@'' \<notin> set (show_ipv4 ip)" "CHR '','' \<notin> set (show_ipv4 ip)"
  by (cases ip; simp)+

lemma parse_octet_chars: "parse_octet s = Some a \<Longrightarrow> c \<in> set s \<Longrightarrow> digit_of c \<noteq> None"
proof -
  have "dec_value acc s = Some n \<Longrightarrow> c \<in> set s \<Longrightarrow> digit_of c \<noteq> None" for acc n
    by (induction acc s rule: dec_value.induct) (auto split: option.splits)
  then show "parse_octet s = Some a \<Longrightarrow> c \<in> set s \<Longrightarrow> digit_of c \<noteq> None"
    by (auto simp: parse_octet_def split: option.splits if_splits)
qed

lemma parse_ipv4_no_colon: "CHR '':'' \<in> set s \<Longrightarrow> parse_ipv4 s = None"
proof (rule ccontr)
  assume colon: "CHR '':'' \<in> set s" and "parse_ipv4 s \<noteq> None"
  then obtain a b c d where s: "s = a @ CHR ''.'' # b @ CHR ''.'' # c @ CHR ''.'' # d"
    and "parse_octet a \<noteq> None" "parse_octet b \<noteq> None" "parse_octet c \<noteq> None" "parse_octet d \<noteq> None"
    by (auto simp: parse_ipv4_def split_once_Some split: option.splits prod.splits)
  moreover have "digit_of CHR '':'' = None" by (simp add: digit_of_def)
  ultimately show False using colon by (auto dest: parse_octet_chars)
qed

section \<open>Hosts and service addresses\<close>

text \<open>
  The IPv6 text codec (\<open>Ipv6Addr::from_str\<close> and its \<open>Display\<close>) is a parameter; the code relies
  on the printed form being parsed back, having colons and no brackets.
\<close>

record v6_text =
  v6_parse :: "string \<Rightarrow> ipv6 option"
  v6_show :: "ipv6 \<Rightarrow> string"

definition v6_text_ok :: "v6_text \<Rightarrow> bool" where
  "v6_text_ok t \<longleftrightarrow>
     (\<forall>ip. v6_parse t (v6_show t ip) = Some ip \<and> CHR '':'' \<in> set (v6_show t ip) \<and>
       set (v6_show t ip) \<inter> {CHR '']'', CHR ''@'', CHR '',''} = {})"

datatype host_addr = V4 ipv4 | V6 ipv6 | Domain string

datatype host_addr_parse_error = HostEmpty

definition host_addr_from_str :: "v6_text \<Rightarrow> string \<Rightarrow> host_addr_parse_error + host_addr" where
  "host_addr_from_str t s =
     (if s = [] then Inl HostEmpty
      else case parse_ipv4 s of
             Some v4 \<Rightarrow> Inr (V4 v4)
           | None \<Rightarrow>
               (case v6_parse t s of
                  Some v6 \<Rightarrow> Inr (V6 v6)
                | None \<Rightarrow> Inr (Domain s)))"

fun show_host :: "v6_text \<Rightarrow> host_addr \<Rightarrow> string" where
  "show_host t (V4 ip) = show_ipv4 ip"
| "show_host t (V6 ip) = v6_show t ip"
| "show_host t (Domain d) = d"

fun is_ipv6 :: "host_addr \<Rightarrow> bool" where
  "is_ipv6 (V6 _) = True"
| "is_ipv6 _ = False"

record service_addr =
  host :: host_addr
  port :: "16 word"

datatype service_addr_parse_error = MissingPort | EmptyHost | InvalidPort parse_int_error

definition service_addr_from_str ::
  "v6_text \<Rightarrow> string \<Rightarrow> service_addr_parse_error + service_addr" where
  "service_addr_from_str t s =
     (case (case strip_prefix ''['' s of
              Some after_bracket \<Rightarrow> split_once_str '']:'' after_bracket
            | None \<Rightarrow> rsplit_once CHR '':'' s) of
        None \<Rightarrow> Inl MissingPort
      | Some (h, port_str) \<Rightarrow>
          if h = [] then Inl EmptyHost
          else case parse_u16 port_str of
                 Inl e \<Rightarrow> Inl (InvalidPort e)
               | Inr p \<Rightarrow>
                   (case host_addr_from_str t h of
                      Inl _ \<Rightarrow> Inl EmptyHost
                    | Inr host_addr \<Rightarrow> Inr \<lparr>host = host_addr, port = p\<rparr>))"

definition show_service_addr :: "v6_text \<Rightarrow> service_addr \<Rightarrow> string" where
  "show_service_addr t a =
     (case host a of
        V6 _ \<Rightarrow> ''['' @ show_host t (host a) @ '']:'' @ dec (unat (port a))
      | _ \<Rightarrow> show_host t (host a) @ '':'' @ dec (unat (port a)))"

datatype socket_addr = SocketV4 ipv4 "16 word" | SocketV6 ipv6 "16 word"

fun service_addr_from_socket :: "socket_addr \<Rightarrow> service_addr" where
  "service_addr_from_socket (SocketV4 ip p) = \<lparr>host = V4 ip, port = p\<rparr>"
| "service_addr_from_socket (SocketV6 ip p) = \<lparr>host = V6 ip, port = p\<rparr>"

definition connect_tuple :: "v6_text \<Rightarrow> service_addr \<Rightarrow> string \<times> 16 word" where
  "connect_tuple t a = (show_host t (host a), port a)"

section \<open>Exposed services and tunnels\<close>

record exposed_service =
  svc_name :: service_name
  local_addr :: service_addr

datatype expose_parse_error =
  ExposeMissingSeparator | ExposeEmptyName | ExposeInvalidAddr service_addr_parse_error

definition exposed_service_from_str :: "v6_text \<Rightarrow> string \<Rightarrow> expose_parse_error + exposed_service" where
  "exposed_service_from_str t s =
     (case split_once CHR ''='' s of
        None \<Rightarrow> Inl ExposeMissingSeparator
      | Some (name, addr_str) \<Rightarrow>
          if name = [] then Inl ExposeEmptyName
          else case service_addr_from_str t addr_str of
                 Inl e \<Rightarrow> Inl (ExposeInvalidAddr e)
               | Inr addr \<Rightarrow> Inr \<lparr>svc_name = ServiceName name, local_addr = addr\<rparr>)"

record tunnel_by_name_spec =
  by_name_service :: service_name
  by_name_bind :: service_addr

datatype tunnel_by_name_parse_error =
  ByNameMissingSeparator | ByNameEmptyName | ByNameInvalidAddr service_addr_parse_error

definition tunnel_by_name_from_str ::
  "v6_text \<Rightarrow> string \<Rightarrow> tunnel_by_name_parse_error + tunnel_by_name_spec" where
  "tunnel_by_name_from_str t s =
     (case rsplit_once CHR ''@'' s of
        None \<Rightarrow> Inl ByNameMissingSeparator
      | Some (name, addr_str) \<Rightarrow>
          if name = [] then Inl ByNameEmptyName
          else case service_addr_from_str t addr_str of
                 Inl e \<Rightarrow> Inl (ByNameInvalidAddr e)
               | Inr addr \<Rightarrow> Inr \<lparr>by_name_service = ServiceName name, by_name_bind = addr\<rparr>)"

record tunnel_spec =
  remote_peer :: peer_id
  spec_service :: service_name
  spec_bind :: service_addr

datatype tunnel_spec_parse_error =
    MissingBindSeparator | MissingPeerSeparator
  | InvalidPeerId string | InvalidBindAddr service_addr_parse_error

text \<open>The parser of \<open>PeerId\<close> belongs to libp2p: a parameter, with the text of its error.\<close>

definition tunnel_spec_from_str ::
  "v6_text \<Rightarrow> (string \<Rightarrow> string + peer_id) \<Rightarrow> string \<Rightarrow> tunnel_spec_parse_error + tunnel_spec" where
  "tunnel_spec_from_str t peer_parse s =
     (case rsplit_once CHR ''@'' s of
        None \<Rightarrow> Inl MissingBindSeparator
      | Some (peer_and_service, bind_str) \<Rightarrow>
     (case split_once CHR '':'' peer_and_service of
        None \<Rightarrow> Inl MissingPeerSeparator
      | Some (peer_str, service) \<Rightarrow>
     (case peer_parse peer_str of
        Inl e \<Rightarrow> Inl (InvalidPeerId e)
      | Inr peer \<Rightarrow>
     (case service_addr_from_str t bind_str of
        Inl e \<Rightarrow> Inl (InvalidBindAddr e)
      | Inr bind \<Rightarrow>
          Inr \<lparr>remote_peer = peer, spec_service = ServiceName service, spec_bind = bind\<rparr>))))"

end
