(* ===== verification/Events.thy ===== *)
theory Events
  imports Net_Types Specs
begin

text \<open>
  The alphabet of the state machines: the events of \<open>src/src/state/event.rs\<close>, the commands of
  \<open>src/src/state/command.rs\<close>, the phase and NAT status of \<open>src/src/state/peer.rs\<close> and the NAT
  mapping of \<open>src/src/nat_probe.rs\<close>.
\<close>

datatype phase = Joining | Ready | ShuttingDown

datatype nat_status = Unknown | Public | Private

datatype nat_mapping = EndpointIndependent | AddressDependent | MappingUnknown

fun is_holepunch_viable :: "nat_mapping \<Rightarrow> bool" where
  "is_holepunch_viable EndpointIndependent = True"
| "is_holepunch_viable AddressDependent = False"
| "is_holepunch_viable MappingUnknown = True"

text \<open>The \<open>Display\<close> form derived by \<open>strum\<close>.\<close>

fun show_nat_mapping :: "nat_mapping \<Rightarrow> string" where
  "show_nat_mapping EndpointIndependent = ''Endpoint-Independent''"
| "show_nat_mapping AddressDependent = ''Address-Dependent''"
| "show_nat_mapping MappingUnknown = ''Unknown''"

datatype event =
    ListeningOn multiaddr
  | BootstrapConnected peer_id multiaddr
  | ShutdownRequested
  | KademliaBootstrapOk
  | KademliaBootstrapFailed string
  | MdnsDiscovered "(peer_id \<times> multiaddr) list"
  | MdnsExpired "(peer_id \<times> multiaddr) list"
  | PeerIdentified peer_id "multiaddr list" multiaddr
  | NatStatusChanged nat_status
  | DiscoveryTimeout
  | RelayReservationAccepted peer_id
  | RelayReservationFailed peer_id string
  | ConnectionLost peer_id "32 word"
  | NoBootstrapPeers
  | ExternalAddrConfirmed multiaddr
  | ExternalAddrExpired multiaddr
  | DhtPeerLookupComplete peer_id bool
  | DhtServiceResolved service_name "(peer_id \<times> bool) list"
  | DhtServiceFailed service_name string
  | TunnelDialFailed peer_id string
  | TunnelPeerConnected peer_id bool
  | HolePunchAttemptStarted peer_id "64 word"
  | HolePunchFailed peer_id string
  | HolePunchAttemptFailed peer_id "64 word" string
  | HolePunchAttemptTimeout peer_id "64 word"
  | PhaseChanged phase phase

datatype command =
    KademliaBootstrap
  | KademliaAddAddress peer_id multiaddr
  | RequestRelayReservation peer_id multiaddr
  | Shutdown
  | PublishServices
  | DhtLookupPeer peer_id
  | DhtGetProviders service_name kademlia_key
  | DialPeer peer_id
  | DialPeerWithAddrs peer_id "multiaddr list" "64 word"
  | DisconnectPeer peer_id
  | SpawnTunnel peer_id service_name service_addr

text \<open>The commands each machine may issue, as the section comments of \<open>Command\<close> divide them.\<close>

fun is_network_command :: "command \<Rightarrow> bool" where
  "is_network_command KademliaBootstrap = True"
| "is_network_command (KademliaAddAddress _ _) = True"
| "is_network_command (RequestRelayReservation _ _) = True"
| "is_network_command Shutdown = True"
| "is_network_command _ = False"

text \<open>The tunnels a command list opens: peer, service and bind address.\<close>

fun spawned :: "command \<Rightarrow> (peer_id \<times> service_name \<times> service_addr) list" where
  "spawned (SpawnTunnel p s b) = [(p, s, b)]"
| "spawned _ = []"

definition spawned_bag :: "command list \<Rightarrow> (service_name \<times> service_addr) multiset" where
  "spawned_bag cmds = mset (map snd (concat (map spawned cmds)))"

lemma spawned_bag_Nil [simp]: "spawned_bag [] = {#}"
  by (simp add: spawned_bag_def)

lemma spawned_bag_append [simp]: "spawned_bag (xs @ ys) = spawned_bag xs + spawned_bag ys"
  by (simp add: spawned_bag_def)

lemma spawned_bag_Cons:
  "spawned_bag (c # cs) = mset (map snd (spawned c)) + spawned_bag cs"
  by (simp add: spawned_bag_def)

lemma spawned_bag_map_spawn:
  "spawned_bag (map (\<lambda>(service, bind). SpawnTunnel p service bind) specs) = mset specs"
  by (induction specs) (auto simp: spawned_bag_def)

lemma spawned_bag_none: "(\<And>c. c \<in> set cmds \<Longrightarrow> spawned c = []) \<Longrightarrow> spawned_bag cmds = {#}"
  by (induction cmds) (auto simp: spawned_bag_def)

lemma network_command_spawns_nothing: "is_network_command c \<Longrightarrow> spawned c = []"
  by (cases c) auto

end
