(* ===== verification/External_Addr.thy ===== *)
theory External_Addr
  imports Net_Types
begin

text \<open>
  The address predicates of \<open>src/src/external_addr.rs\<close> and of \<open>src/src/port_mapping.rs\<close>,
  with the address helpers of \<open>src/src/state/peer.rs\<close> and \<open>src/src/state/tunnel.rs\<close>.
\<close>

named_theorems addr_simps \<open>the address predicates, unfolded\<close>

section \<open>Public addresses\<close>

definition needs_external_rewrite :: "ipv4 \<Rightarrow> bool" where
  "needs_external_rewrite ip \<longleftrightarrow>
     v4_is_unspecified ip \<or> v4_is_private ip \<or> v4_is_loopback ip"

definition is_circuit_addr :: "multiaddr \<Rightarrow> bool" where
  "is_circuit_addr addr \<longleftrightarrow> list_ex (\<lambda>p. p = P2pCircuit) addr"

definition has_public_ip :: "multiaddr \<Rightarrow> bool" where
  "has_public_ip addr \<longleftrightarrow>
     list_ex (\<lambda>p. case p of
         Ip4 ip \<Rightarrow> \<not> needs_external_rewrite ip
       | Ip6 ip \<Rightarrow> \<not> v6_is_loopback ip \<and> \<not> v6_is_unspecified ip
       | _ \<Rightarrow> False) addr"

definition is_valid_external_candidate :: "multiaddr \<Rightarrow> bool" where
  "is_valid_external_candidate addr \<longleftrightarrow> \<not> is_circuit_addr addr \<and> has_public_ip addr"

text \<open>One step of the loop of \<open>extract_public_ip_port\<close>: the last match of each kind wins.\<close>

fun extract_step :: "protocol \<Rightarrow> ip_addr option \<times> 16 word option \<Rightarrow> ip_addr option \<times> 16 word option"
where
  "extract_step (Ip4 a) (ip, port) =
     (if \<not> needs_external_rewrite a then (Some (IpV4 a), port) else (ip, port))"
| "extract_step (Ip6 a) (ip, port) =
     (if \<not> v6_is_loopback a \<and> \<not> v6_is_unspecified a then (Some (IpV6 a), port) else (ip, port))"
| "extract_step (Udp p) (ip, port) = (ip, Some p)"
| "extract_step (Tcp p) (ip, port) = (ip, Some p)"
| "extract_step _ (ip, port) = (ip, port)"

definition extract_public_ip_port :: "multiaddr \<Rightarrow> (ip_addr \<times> 16 word) option" where
  "extract_public_ip_port addr =
     (case fold extract_step addr (None, None) of
        (Some ip, Some port) \<Rightarrow> Some (ip, port)
      | _ \<Rightarrow> None)"

definition is_public_component :: "protocol \<Rightarrow> bool" where
  "is_public_component p \<longleftrightarrow>
     (case p of
        Ip4 ip \<Rightarrow> \<not> needs_external_rewrite ip
      | Ip6 ip \<Rightarrow> \<not> v6_is_loopback ip \<and> \<not> v6_is_unspecified ip
      | _ \<Rightarrow> False)"

definition is_port_component :: "protocol \<Rightarrow> bool" where
  "is_port_component p \<longleftrightarrow> (case p of Udp _ \<Rightarrow> True | Tcp _ \<Rightarrow> True | _ \<Rightarrow> False)"

lemma has_public_ip_alt: "has_public_ip addr \<longleftrightarrow> (\<exists>p\<in>set addr. is_public_component p)"
  by (simp add: has_public_ip_def is_public_component_def list_ex_iff)

lemma extract_fold_None:
  "fst (fold extract_step addr st) = None \<longleftrightarrow>
     fst st = None \<and> (\<forall>p\<in>set addr. \<not> is_public_component p)"
proof (induction addr arbitrary: st)
  case Nil
  then show ?case by simp
next
  case (Cons p ps)
  have "fst (extract_step p st) = None \<longleftrightarrow> fst st = None \<and> \<not> is_public_component p"
    by (cases st; cases p) (auto simp: is_public_component_def)
  with Cons.IH show ?case by auto
qed

lemma extract_fold_port_None:
  "snd (fold extract_step addr st) = None \<longleftrightarrow>
     snd st = None \<and> (\<forall>p\<in>set addr. \<not> is_port_component p)"
proof (induction addr arbitrary: st)
  case Nil
  then show ?case by simp
next
  case (Cons p ps)
  have "snd (extract_step p st) = None \<longleftrightarrow> snd st = None \<and> \<not> is_port_component p"
    by (cases st; cases p) (auto simp: is_port_component_def)
  with Cons.IH show ?case by auto
qed

lemma extract_public_ip_port_defined:
  "extract_public_ip_port addr \<noteq> None \<longleftrightarrow>
     has_public_ip addr \<and> (\<exists>p\<in>set addr. is_port_component p)"
proof -
  obtain ip port where st: "fold extract_step addr (None, None) = (ip, port)"
    by (metis surj_pair)
  have "extract_public_ip_port addr \<noteq> None \<longleftrightarrow> ip \<noteq> None \<and> port \<noteq> None"
    by (simp add: extract_public_ip_port_def st split: option.split)
  moreover have "ip = None \<longleftrightarrow> \<not> has_public_ip addr"
    using extract_fold_None [of addr "(None, None)"] by (simp add: st has_public_ip_alt)
  moreover have "port = None \<longleftrightarrow> (\<forall>p\<in>set addr. \<not> is_port_component p)"
    using extract_fold_port_None [of addr "(None, None)"] by (simp add: st)
  ultimately show ?thesis by blast
qed

lemma extract_fold_public:
  "fst (fold extract_step addr st) = Some ip \<Longrightarrow>
     (\<forall>a. fst st = Some a \<longrightarrow> P a) \<Longrightarrow>
     (\<forall>a. Ip4 a \<in> set addr \<and> \<not> needs_external_rewrite a \<longrightarrow> P (IpV4 a)) \<Longrightarrow>
     (\<forall>a. Ip6 a \<in> set addr \<and> \<not> v6_is_loopback a \<and> \<not> v6_is_unspecified a \<longrightarrow> P (IpV6 a)) \<Longrightarrow>
     P ip"
proof (induction addr arbitrary: st)
  case Nil
  then show ?case by simp
next
  case (Cons p ps)
  have "\<forall>a. fst (extract_step p st) = Some a \<longrightarrow> P a"
    using Cons.prems(2,3,4) by (cases st; cases p) auto
  moreover have "fst (fold extract_step ps (extract_step p st)) = Some ip"
    using Cons.prems(1) by simp
  ultimately show ?case
    using Cons.IH [of "extract_step p st"] Cons.prems(3,4) by simp
qed

text \<open>The address extracted is one that appears in the multiaddress and is public.\<close>

lemma extract_public_ip_port_public:
  assumes "extract_public_ip_port addr = Some (ip, port)"
  shows "(\<exists>a. ip = IpV4 a \<and> Ip4 a \<in> set addr \<and> \<not> needs_external_rewrite a) \<or>
         (\<exists>a. ip = IpV6 a \<and> Ip6 a \<in> set addr \<and> \<not> v6_is_loopback a \<and> \<not> v6_is_unspecified a)"
proof -
  have "fst (fold extract_step addr (None, None)) = Some ip"
    using assms by (auto simp: extract_public_ip_port_def split: prod.splits option.splits)
  then show ?thesis
    by (rule extract_fold_public) auto
qed

section \<open>Addresses of peers\<close>

definition is_loopback_addr :: "multiaddr \<Rightarrow> bool" where
  "is_loopback_addr addr \<longleftrightarrow>
     list_ex (\<lambda>p. case p of Ip4 ip \<Rightarrow> v4_is_loopback ip | Ip6 ip \<Rightarrow> v6_is_loopback ip | _ \<Rightarrow> False) addr"

definition extract_public_ip :: "multiaddr \<Rightarrow> ip_addr option" where
  "extract_public_ip addr = map_option fst (extract_public_ip_port addr)"

section \<open>Hole-punch candidates\<close>

definition has_p2p_circuit :: "multiaddr \<Rightarrow> bool" where
  "has_p2p_circuit addr \<longleftrightarrow> list_ex (\<lambda>p. p = P2pCircuit) addr"

fun udp_quic_step :: "protocol \<Rightarrow> bool \<times> bool \<Rightarrow> bool \<times> bool" where
  "udp_quic_step (Udp _) (has_udp, has_quic) = (True, has_quic)"
| "udp_quic_step QuicV1 (has_udp, has_quic) = (has_udp, True)"
| "udp_quic_step Quic (has_udp, has_quic) = (has_udp, True)"
| "udp_quic_step _ (has_udp, has_quic) = (has_udp, has_quic)"

definition has_udp_and_quic :: "multiaddr \<Rightarrow> bool" where
  "has_udp_and_quic addr =
     (case fold udp_quic_step addr (False, False) of (has_udp, has_quic) \<Rightarrow> has_udp \<and> has_quic)"

definition is_supported_direct_candidate :: "multiaddr \<Rightarrow> bool" where
  "is_supported_direct_candidate addr \<longleftrightarrow>
     \<not> has_p2p_circuit addr \<and> has_udp_and_quic addr \<and> has_public_ip addr"

lemma udp_quic_fold:
  "fold udp_quic_step addr (u, q) =
     (u \<or> (\<exists>p. Udp p \<in> set addr), q \<or> QuicV1 \<in> set addr \<or> Quic \<in> set addr)"
proof (induction addr arbitrary: u q)
  case Nil
  then show ?case by simp
next
  case (Cons x xs)
  then show ?case by (cases x) auto
qed

lemma has_udp_and_quic_iff:
  "has_udp_and_quic addr \<longleftrightarrow> (\<exists>p. Udp p \<in> set addr) \<and> (QuicV1 \<in> set addr \<or> Quic \<in> set addr)"
  by (simp add: has_udp_and_quic_def udp_quic_fold)

lemma circuit_copies_agree: "has_p2p_circuit = is_circuit_addr"
  by (simp add: fun_eq_iff has_p2p_circuit_def is_circuit_addr_def)

text \<open>A direct candidate is never a relayed one, and it is a valid external candidate.\<close>

lemma direct_candidate_not_circuit:
  "is_supported_direct_candidate addr \<Longrightarrow> \<not> has_p2p_circuit addr"
  by (simp add: is_supported_direct_candidate_def)

lemma direct_candidate_valid:
  "is_supported_direct_candidate addr \<Longrightarrow> is_valid_external_candidate addr"
  by (simp add: is_supported_direct_candidate_def is_valid_external_candidate_def circuit_copies_agree)

lemma direct_candidate_has_endpoint:
  assumes "is_supported_direct_candidate addr"
  shows "extract_public_ip_port addr \<noteq> None"
proof -
  obtain p where "Udp p \<in> set addr" and "has_public_ip addr"
    using assms by (auto simp: is_supported_direct_candidate_def has_udp_and_quic_iff)
  moreover have "is_port_component (Udp p)"
    by (simp add: is_port_component_def)
  ultimately have "\<exists>p\<in>set addr. is_port_component p"
    by blast
  with \<open>has_public_ip addr\<close> show ?thesis
    by (simp only: extract_public_ip_port_defined)
qed

lemmas [addr_simps] = has_public_ip_def needs_external_rewrite_def is_circuit_addr_def
  has_p2p_circuit_def has_udp_and_quic_def is_supported_direct_candidate_def is_loopback_addr_def
  extract_public_ip_def extract_public_ip_port_def is_valid_external_candidate_def
  v6_is_loopback_def v6_is_unspecified_def

section \<open>Routable addresses of the port mapper\<close>

unbundle bit_operations_syntax

fun is_shared_address :: "ipv4 \<Rightarrow> bool" where
  "is_shared_address (Ipv4 a b c d) \<longleftrightarrow> a = 100 \<and> (b AND 0xC0) = 64"

fun is_publicly_routable :: "ip_addr \<Rightarrow> bool" where
  "is_publicly_routable (IpV4 v4) \<longleftrightarrow>
     \<not> v4_is_private v4 \<and> \<not> v4_is_loopback v4 \<and> \<not> v4_is_link_local v4 \<and>
     \<not> v4_is_unspecified v4 \<and> \<not> is_shared_address v4"
| "is_publicly_routable (IpV6 v6) \<longleftrightarrow> \<not> v6_is_loopback v6 \<and> \<not> v6_is_unspecified v6"

end
