(* ===== verification/Mealy.thy ===== *)
theory Mealy
  imports Main "HOL-Library.Multiset"
begin

text \<open>
  The trait \<open>MealyMachine\<close> of \<open>src/src/traits.rs\<close>: a transition takes the state and an event to
  a state and a list of commands.  In the model it also takes the environment it reads.  The
  locales state the contracts the machines fulfil, and prove once what they give for runs.
\<close>

type_synonym ('env, 's, 'e, 'c) machine = "'env \<Rightarrow> 's \<Rightarrow> 'e \<Rightarrow> 's \<times> 'c list"

text \<open>A run: the events in order, each with the environment at its moment.\<close>

fun mealy_run :: "('env, 's, 'e, 'c) machine \<Rightarrow> 's \<Rightarrow> ('env \<times> 'e) list \<Rightarrow> 's \<times> 'c list" where
  "mealy_run step s [] = (s, [])"
| "mealy_run step s ((env, e) # es) =
     (let (s', cmds) = step env s e;
          (s'', cmds') = mealy_run step s' es
      in (s'', cmds @ cmds'))"

lemma mealy_run_Cons:
  "fst (mealy_run step s ((env, e) # es)) = fst (mealy_run step (fst (step env s e)) es)"
  "snd (mealy_run step s ((env, e) # es)) =
     snd (step env s e) @ snd (mealy_run step (fst (step env s e)) es)"
  by (simp_all add: split_beta Let_def)

lemma mealy_run_append:
  "fst (mealy_run step s (es @ fs)) = fst (mealy_run step (fst (mealy_run step s es)) fs)"
  "snd (mealy_run step s (es @ fs)) =
     snd (mealy_run step s es) @ snd (mealy_run step (fst (mealy_run step s es)) fs)"
proof (induction es arbitrary: s)
  case Nil
  { case 1 then show ?case by simp }
  { case 2 then show ?case by simp }
next
  case (Cons x es)
  obtain env e where x: "x = (env, e)" by (cases x)
  { case 1 then show ?case
      using Cons.IH(1) by (simp add: x split_beta Let_def) }
  { case 2 then show ?case
      using Cons.IH(2) by (simp add: x split_beta Let_def) }
qed

text \<open>A machine with an invariant, under an assumption on its environment.\<close>

locale mealy_invariant =
  fixes step :: "('env, 's, 'e, 'c) machine"
    and env_good :: "'env \<Rightarrow> bool"
    and inv :: "'s \<Rightarrow> bool"
  assumes step_inv: "env_good env \<Longrightarrow> inv s \<Longrightarrow> inv (fst (step env s e))"
begin

lemma run_inv:
  "inv s \<Longrightarrow> (\<forall>(env, e)\<in>set es. env_good env) \<Longrightarrow> inv (fst (mealy_run step s es))"
proof (induction es arbitrary: s)
  case Nil
  then show ?case by simp
next
  case (Cons x es)
  obtain env e where x: "x = (env, e)" by (cases x)
  have "inv (fst (step env s e))"
    using Cons.prems by (auto simp: x intro: step_inv)
  then have "inv (fst (mealy_run step (fst (step env s e)) es))"
    using Cons.prems(2) by (intro Cons.IH) auto
  then show ?case
    by (simp add: x split_beta Let_def)
qed

end

text \<open>
  A machine that neither loses nor invents what it holds: what it held is what it holds after
  the step together with what its commands carry out.
\<close>

locale mealy_conserving = mealy_invariant step env_good inv
  for step :: "('env, 's, 'e, 'c) machine"
    and env_good :: "'env \<Rightarrow> bool"
    and inv :: "'s \<Rightarrow> bool" +
  fixes held :: "'s \<Rightarrow> 'a multiset"
    and carried :: "'c list \<Rightarrow> 'a multiset"
  assumes step_conserves:
      "env_good env \<Longrightarrow> inv s \<Longrightarrow>
         held (fst (step env s e)) + carried (snd (step env s e)) = held s"
    and carried_Nil: "carried [] = {#}"
    and carried_append: "carried (cs @ ds) = carried cs + carried ds"
begin

lemma run_conserves:
  "inv s \<Longrightarrow> (\<forall>(env, e)\<in>set es. env_good env) \<Longrightarrow>
     held (fst (mealy_run step s es)) + carried (snd (mealy_run step s es)) = held s"
proof (induction es arbitrary: s)
  case Nil
  then show ?case by (simp add: carried_Nil)
next
  case (Cons x es)
  obtain env e where x: "x = (env, e)" by (cases x)
  let ?s' = "fst (step env s e)"
  have good: "env_good env" and rest: "\<forall>(env, e)\<in>set es. env_good env"
    using Cons.prems(2) by (auto simp: x)
  have "held (fst (mealy_run step ?s' es)) + carried (snd (mealy_run step ?s' es)) = held ?s'"
    using Cons.prems(1) good rest by (intro Cons.IH) (auto intro: step_inv)
  moreover have "held ?s' + carried (snd (step env s e)) = held s"
    using Cons.prems(1) good by (rule step_conserves [rotated])
  ultimately show ?case
    by (simp add: x mealy_run_Cons carried_append del: mealy_run.simps) (metis add.assoc add.commute)
qed

end

text \<open>Runs of a specification: each event relates a state of it to the next.\<close>

inductive spec_run :: "('e \<Rightarrow> 'a \<Rightarrow> 'a \<Rightarrow> bool) \<Rightarrow> 'e list \<Rightarrow> 'a \<Rightarrow> 'a \<Rightarrow> bool" for spec where
  spec_run_Nil: "spec_run spec [] a a"
| spec_run_Cons: "spec e a b \<Longrightarrow> spec_run spec es b c \<Longrightarrow> spec_run spec (e # es) a c"

inductive_simps spec_run_simps: "spec_run spec [] a b" "spec_run spec (e # es) a b"

text \<open>A machine seen through \<open>view\<close>, which also sees the commands issued so far.\<close>

locale mealy_refines = mealy_invariant step env_good inv
  for step :: "('env, 's, 'e, 'c) machine"
    and env_good :: "'env \<Rightarrow> bool"
    and inv :: "'s \<Rightarrow> bool" +
  fixes view :: "'s \<Rightarrow> 'c list \<Rightarrow> 'a"
    and spec :: "'e \<Rightarrow> 'a \<Rightarrow> 'a \<Rightarrow> bool"
  assumes step_refines:
      "env_good env \<Longrightarrow> inv s \<Longrightarrow>
         spec e (view s issued) (view (fst (step env s e)) (issued @ snd (step env s e)))"
begin

lemma run_refines:
  "inv s \<Longrightarrow> (\<forall>(env, e)\<in>set es. env_good env) \<Longrightarrow>
     spec_run spec (map snd es) (view s issued)
       (view (fst (mealy_run step s es)) (issued @ snd (mealy_run step s es)))"
proof (induction es arbitrary: s issued)
  case Nil
  then show ?case by (simp add: spec_run_Nil)
next
  case (Cons x es)
  obtain env e where x: "x = (env, e)" by (cases x)
  let ?s' = "fst (step env s e)" and ?issued' = "issued @ snd (step env s e)"
  have "spec e (view s issued) (view ?s' ?issued')"
    using Cons.prems by (auto simp: x intro: step_refines)
  moreover have "spec_run spec (map snd es) (view ?s' ?issued')
      (view (fst (mealy_run step ?s' es)) (?issued' @ snd (mealy_run step ?s' es)))"
    using Cons.prems by (intro Cons.IH) (auto simp: x intro: step_inv)
  ultimately show ?case
    by (simp add: x mealy_run_Cons del: mealy_run.simps) (rule spec_run_Cons)
qed

end

end
