(* ===== verification/Peer_Machine.thy ===== *)
theory Peer_Machine
  imports Events External_Addr Mealy
begin

text \<open>
  The network half of the node's state, \<open>PeerState\<close> of \<open>src/src/state/peer.rs\<close>: its phase, NAT
  status, relay reservation, the known addresses of every peer and the confirmed external
  addresses, with one definition per arm of \<open>transition\<close> that does more than one update.
\<close>

section \<open>State and helpers\<close>

record peer_state =
  phase :: phase
  nat_status :: nat_status
  relay_reserved :: bool
  known_peers :: "(peer_id, multiaddr fset) fmap"
  bootstrap_peers :: "peer_id fset"
  kad_bootstrapped :: bool
  external_addrs :: "multiaddr fset"

definition new_peer_state :: peer_state where
  "new_peer_state =
     \<lparr>phase = Joining, nat_status = Unknown, relay_reserved = False, known_peers = fmempty,
      bootstrap_peers = {||}, kad_bootstrapped = False, external_addrs = {||}\<rparr>"

definition prefer_public_addr :: "step_env \<Rightarrow> multiaddr fset \<Rightarrow> multiaddr option" where
  "prefer_public_addr env addrs =
     (case find has_public_ip (addr_order env addrs) of
        Some a \<Rightarrow> Some a
      | None \<Rightarrow>
          (case find (\<lambda>a. \<not> is_loopback_addr a) (addr_order env addrs) of
             Some a \<Rightarrow> Some a
           | None \<Rightarrow> (case addr_order env addrs of [] \<Rightarrow> None | a # _ \<Rightarrow> Some a)))"

definition replace_stale_public_addr_for_ip ::
  "multiaddr \<Rightarrow> multiaddr fset \<Rightarrow> multiaddr fset" where
  "replace_stale_public_addr_for_ip addr entry =
     (case extract_public_ip addr of
        None \<Rightarrow> entry
      | Some ip \<Rightarrow>
          ffilter (\<lambda>known.
            known = addr \<or>
            (case extract_public_ip known of
               Some known_ip \<Rightarrow> known_ip \<noteq> ip
             | None \<Rightarrow> True)) entry)"

definition maybe_request_relay :: "step_env \<Rightarrow> peer_state \<Rightarrow> command option" where
  "maybe_request_relay env s =
     (case (nat_status s, relay_reserved s) of
        (Private, False) \<Rightarrow>
          (case find (\<lambda>p. p |\<in>| bootstrap_peers s) (peer_order env (fmdom (known_peers s))) of
             None \<Rightarrow> None
           | Some peer \<Rightarrow>
               map_option (\<lambda>addr. RequestRelayReservation peer addr)
                 (prefer_public_addr env (get_or {||} (known_peers s) peer)))
      | _ \<Rightarrow> None)"

definition option_list :: "'a option \<Rightarrow> 'a list" where
  "option_list x = (case x of None \<Rightarrow> [] | Some a \<Rightarrow> [a])"

definition maybe_become_ready :: "peer_state \<Rightarrow> peer_state \<times> command list" where
  "maybe_become_ready s =
     (case (phase s, kad_bootstrapped s, external_addrs s = {||}) of
        (Joining, True, False) \<Rightarrow> (s\<lparr>phase := Ready\<rparr>, [])
      | _ \<Rightarrow> (s, []))"

section \<open>The arms of the transition\<close>

definition on_bootstrap_connected ::
  "peer_state \<Rightarrow> peer_id \<Rightarrow> multiaddr \<Rightarrow> peer_state \<times> command list" where
  "on_bootstrap_connected s peer addr =
     (s\<lparr>bootstrap_peers := finsert peer (bootstrap_peers s),
        known_peers := entry_insert peer addr (known_peers s)\<rparr>,
      [KademliaAddAddress peer addr] @
      (case phase s of ShuttingDown \<Rightarrow> [] | _ \<Rightarrow> [KademliaBootstrap]))"

definition on_nat_status_changed ::
  "step_env \<Rightarrow> peer_state \<Rightarrow> nat_status \<Rightarrow> peer_state \<times> command list" where
  "on_nat_status_changed env s0 status =
     (let s = s0\<lparr>nat_status := status\<rparr> in
      case (status, relay_reserved s) of
        (Private, False) \<Rightarrow> (s, option_list (maybe_request_relay env s))
      | (Public, True) \<Rightarrow> (s\<lparr>relay_reserved := False\<rparr>, [])
      | _ \<Rightarrow> (s, []))"

definition on_discovery_timeout :: "peer_state \<Rightarrow> peer_state" where
  "on_discovery_timeout s =
     (case (phase s, kad_bootstrapped s, known_peers s = fmempty) of
        (Joining, True, False) \<Rightarrow> s\<lparr>phase := Ready\<rparr>
      | _ \<Rightarrow> s)"

fun mdns_discovered ::
  "peer_state \<Rightarrow> (peer_id \<times> multiaddr) list \<Rightarrow> peer_state \<times> command list" where
  "mdns_discovered s [] = (s, [])"
| "mdns_discovered s ((peer, addr) # peers) =
     (let (s', cmds) =
        mdns_discovered (s\<lparr>known_peers := entry_insert peer addr (known_peers s)\<rparr>) peers
      in (s', KademliaAddAddress peer addr # cmds))"

definition mdns_expire_one :: "peer_id \<times> multiaddr \<Rightarrow> peer_state \<Rightarrow> peer_state" where
  "mdns_expire_one pa s =
     (case pa of (peer, addr) \<Rightarrow>
       (case fmlookup (known_peers s) peer of
          None \<Rightarrow> s
        | Some addrs \<Rightarrow>
            (let addrs' = addrs |-| {|addr|} in
             s\<lparr>known_peers :=
                 (if addrs' = {||} then fmdrop peer (known_peers s)
                  else fmupd peer addrs' (known_peers s))\<rparr>)))"

text \<open>The loop over \<open>listen_addrs\<close>: the entry of the peer and the commands so far.\<close>

fun identify_addrs ::
  "peer_id \<Rightarrow> multiaddr list \<Rightarrow> multiaddr fset \<Rightarrow> multiaddr fset \<times> command list" where
  "identify_addrs peer [] entry = (entry, [])"
| "identify_addrs peer (addr # addrs) entry =
     (let entry1 = replace_stale_public_addr_for_ip addr entry;
          inserted = (addr |\<notin>| entry1);
          (entry2, cmds) = identify_addrs peer addrs (finsert addr entry1)
      in (entry2,
          (if inserted \<and> has_public_ip addr then [KademliaAddAddress peer addr] else []) @ cmds))"

definition on_peer_identified ::
  "step_env \<Rightarrow> peer_state \<Rightarrow> peer_id \<Rightarrow> multiaddr list \<Rightarrow> peer_state \<times> command list" where
  "on_peer_identified env s peer listen_addrs =
     (let (entry, cmds) = identify_addrs peer listen_addrs (get_or {||} (known_peers s) peer);
          s' = s\<lparr>known_peers := fmupd peer entry (known_peers s)\<rparr>
      in (s', cmds @
            (if peer |\<in>| bootstrap_peers s' then option_list (maybe_request_relay env s') else [])))"

definition on_connection_lost ::
  "peer_state \<Rightarrow> peer_id \<Rightarrow> 32 word \<Rightarrow> peer_state \<times> command list" where
  "on_connection_lost s peer remaining_connections =
     (if remaining_connections = 0 then
        (let s1 = s\<lparr>known_peers := fmdrop peer (known_peers s)\<rparr>;
             s2 = (if peer |\<in>| bootstrap_peers s1 then s1\<lparr>relay_reserved := False\<rparr> else s1)
         in case (phase s2, known_peers s2 = fmempty, bootstrap_peers s2 = {||}) of
              (Ready, True, False) \<Rightarrow>
                (s2\<lparr>phase := Joining, kad_bootstrapped := False\<rparr>, [KademliaBootstrap])
            | _ \<Rightarrow> (s2, []))
      else (s, []))"

fun peer_transition :: "step_env \<Rightarrow> peer_state \<Rightarrow> event \<Rightarrow> peer_state \<times> command list" where
  "peer_transition env s (ListeningOn _) = (s, [])"
| "peer_transition env s (BootstrapConnected peer addr) = on_bootstrap_connected s peer addr"
| "peer_transition env s KademliaBootstrapOk = maybe_become_ready (s\<lparr>kad_bootstrapped := True\<rparr>)"
| "peer_transition env s (KademliaBootstrapFailed _) = (s, [])"
| "peer_transition env s (NatStatusChanged status) = on_nat_status_changed env s status"
| "peer_transition env s DiscoveryTimeout = (on_discovery_timeout s, [])"
| "peer_transition env s (MdnsDiscovered peers) = mdns_discovered s peers"
| "peer_transition env s (MdnsExpired peers) = (fold mdns_expire_one peers s, [])"
| "peer_transition env s (PeerIdentified peer listen_addrs _) =
     on_peer_identified env s peer listen_addrs"
| "peer_transition env s (RelayReservationAccepted _) = (s\<lparr>relay_reserved := True\<rparr>, [])"
| "peer_transition env s (RelayReservationFailed _ _) =
     (let s' = s\<lparr>relay_reserved := False\<rparr> in (s', option_list (maybe_request_relay env s')))"
| "peer_transition env s (HolePunchFailed _ _) = (s, [])"
| "peer_transition env s (HolePunchAttemptStarted _ _) = (s, [])"
| "peer_transition env s (HolePunchAttemptFailed _ _ _) = (s, [])"
| "peer_transition env s (HolePunchAttemptTimeout _ _) = (s, [])"
| "peer_transition env s (DhtPeerLookupComplete _ _) = (s, [])"
| "peer_transition env s (DhtServiceResolved _ _) = (s, [])"
| "peer_transition env s (DhtServiceFailed _ _) = (s, [])"
| "peer_transition env s (TunnelDialFailed _ _) = (s, [])"
| "peer_transition env s (TunnelPeerConnected _ _) = (s, [])"
| "peer_transition env s (PhaseChanged _ _) = (s, [])"
| "peer_transition env s NoBootstrapPeers =
     (case phase s of Joining \<Rightarrow> (s\<lparr>phase := Ready\<rparr>, []) | _ \<Rightarrow> (s, []))"
| "peer_transition env s (ExternalAddrConfirmed addr) =
     maybe_become_ready (s\<lparr>external_addrs := finsert addr (external_addrs s)\<rparr>)"
| "peer_transition env s (ExternalAddrExpired addr) =
     (s\<lparr>external_addrs := external_addrs s |-| {|addr|}\<rparr>, [])"
| "peer_transition env s ShutdownRequested = (s\<lparr>phase := ShuttingDown\<rparr>, [Shutdown])"
| "peer_transition env s (ConnectionLost peer remaining_connections) =
     on_connection_lost s peer remaining_connections"

end
