(* ===== verification/Peer_Facts.thy ===== *)
theory Peer_Facts
  imports Peer_Machine
begin

text \<open>
  What \<open>PeerState::transition\<close> guarantees: the life cycle of the phase, which relay is asked for a
  reservation and when, how the known addresses of a peer are replaced, and which commands the
  machine may issue.
\<close>

named_theorems peer_arms \<open>the arms of the peer transition, unfolded\<close>

lemmas [peer_arms] = on_bootstrap_connected_def on_nat_status_changed_def on_discovery_timeout_def
  on_peer_identified_def on_connection_lost_def maybe_become_ready_def Let_def

section \<open>Loops leave the rest of the state alone\<close>

lemma mdns_discovered_frame:
  "mdns_discovered s peers = (s', cmds) \<Longrightarrow>
     phase s' = phase s \<and> nat_status s' = nat_status s \<and> relay_reserved s' = relay_reserved s \<and>
     bootstrap_peers s' = bootstrap_peers s \<and> kad_bootstrapped s' = kad_bootstrapped s \<and>
     external_addrs s' = external_addrs s \<and>
     cmds = map (\<lambda>(peer, addr). KademliaAddAddress peer addr) peers"
  by (induction s peers arbitrary: s' cmds rule: mdns_discovered.induct)
    (auto simp: Let_def split: prod.splits)

lemma mdns_expire_frame:
  "phase (fold mdns_expire_one peers s) = phase s \<and>
   nat_status (fold mdns_expire_one peers s) = nat_status s \<and>
   relay_reserved (fold mdns_expire_one peers s) = relay_reserved s \<and>
   bootstrap_peers (fold mdns_expire_one peers s) = bootstrap_peers s \<and>
   kad_bootstrapped (fold mdns_expire_one peers s) = kad_bootstrapped s \<and>
   external_addrs (fold mdns_expire_one peers s) = external_addrs s"
proof (induction peers arbitrary: s)
  case Nil
  then show ?case by simp
next
  case (Cons p ps)
  then show ?case
    by (auto simp: mdns_expire_one_def Let_def split: prod.splits option.splits)
qed

lemma identify_addrs_commands:
  "identify_addrs peer addrs entry = (entry', cmds) \<Longrightarrow> c \<in> set cmds \<Longrightarrow>
     \<exists>addr. c = KademliaAddAddress peer addr \<and> addr \<in> set addrs \<and> has_public_ip addr"
  by (induction peer addrs entry arbitrary: entry' cmds rule: identify_addrs.induct)
    (fastforce simp: Let_def split: prod.splits if_splits)+

section \<open>The phase\<close>

lemma phase_cases:
  "phase (fst (peer_transition env s e)) =
     (case e of
        ShutdownRequested \<Rightarrow> ShuttingDown
      | KademliaBootstrapOk \<Rightarrow>
          (if phase s = Joining \<and> external_addrs s \<noteq> {||} then Ready else phase s)
      | ExternalAddrConfirmed _ \<Rightarrow>
          (if phase s = Joining \<and> kad_bootstrapped s then Ready else phase s)
      | DiscoveryTimeout \<Rightarrow>
          (if phase s = Joining \<and> kad_bootstrapped s \<and> known_peers s \<noteq> fmempty then Ready else phase s)
      | NoBootstrapPeers \<Rightarrow> (if phase s = Joining then Ready else phase s)
      | ConnectionLost peer n \<Rightarrow>
          (if n = 0 \<and> phase s = Ready \<and> fmdrop peer (known_peers s) = fmempty \<and>
              bootstrap_peers s \<noteq> {||} then Joining else phase s)
      | _ \<Rightarrow> phase s)"
proof (cases e)
  case (MdnsDiscovered peers)
  then show ?thesis
    using mdns_discovered_frame [of s peers] by (auto simp: prod_eq_iff)
next
  case (MdnsExpired peers)
  then show ?thesis by (simp add: mdns_expire_frame)
qed (auto simp: peer_arms split: phase.splits bool.splits nat_status.splits prod.splits)

text \<open>Shutting down is final: once the peer machine is in the phase \<open>ShuttingDown\<close>, no
  event brings it back to \<open>Joining\<close> or \<open>Ready\<close>.\<close>

lemma shutdown_is_absorbing:
  "phase s = ShuttingDown \<Longrightarrow> phase (fst (peer_transition env s e)) = ShuttingDown"
  by (simp add: phase_cases split: event.split)

lemma shutdown_is_absorbing_witness:
  "phase (fst (peer_transition (sample_env 0) (new_peer_state\<lparr>phase := ShuttingDown\<rparr>)
     NoBootstrapPeers)) = ShuttingDown"
  by (rule shutdown_is_absorbing) simp

text \<open>C21: A node becomes ready only by joining: from \<open>Joining\<close>, when the Kademlia bootstrap is
  done and an external address is confirmed (in either order), when the discovery timeout finds
  the bootstrap done and some peer known, or when it was started without bootstrap peers.\<close>

theorem ready_entry:
  assumes "phase s \<noteq> Ready" and "phase (fst (peer_transition env s e)) = Ready"
  shows "phase s = Joining \<and>
    (e = KademliaBootstrapOk \<and> external_addrs s \<noteq> {||} \<or>
     (\<exists>addr. e = ExternalAddrConfirmed addr) \<and> kad_bootstrapped s \<or>
     e = DiscoveryTimeout \<and> kad_bootstrapped s \<and> known_peers s \<noteq> fmempty \<or>
     e = NoBootstrapPeers)"
  using assms by (auto simp: phase_cases split: event.splits if_splits)

theorem ready_entry_witness:
  "let s = new_peer_state\<lparr>kad_bootstrapped := True\<rparr> in
     phase s = Joining \<and>
     (ExternalAddrConfirmed [Quic] = KademliaBootstrapOk \<and> external_addrs s \<noteq> {||} \<or>
      (\<exists>addr. ExternalAddrConfirmed [Quic] = ExternalAddrConfirmed addr) \<and> kad_bootstrapped s \<or>
      ExternalAddrConfirmed [Quic] = DiscoveryTimeout \<and> kad_bootstrapped s \<and>
        known_peers s \<noteq> fmempty \<or>
      ExternalAddrConfirmed [Quic] = NoBootstrapPeers)"
  unfolding Let_def
  by (rule ready_entry [of _ "sample_env 0"])
    (simp_all add: new_peer_state_def maybe_become_ready_def)

text \<open>A ready node falls back to joining exactly when it loses the last connection to its
  last known peer and it has bootstrap peers; it then asks for a Kademlia bootstrap again and
  forgets that one was done.\<close>

lemma ready_regresses:
  assumes "phase s = Ready"
  shows "phase (fst (peer_transition env s e)) = Joining \<longleftrightarrow>
    (\<exists>peer. e = ConnectionLost peer 0 \<and> fmdrop peer (known_peers s) = fmempty \<and>
       bootstrap_peers s \<noteq> {||} \<and>
       kad_bootstrapped (fst (peer_transition env s e)) = False \<and>
       snd (peer_transition env s e) = [KademliaBootstrap])"
  using assms
  by (auto simp: phase_cases on_connection_lost_def Let_def split: event.split if_splits)

lemma ready_regresses_witness:
  "phase (fst (peer_transition (sample_env 0)
      (new_peer_state\<lparr>phase := Ready, bootstrap_peers := {|PeerId ''b''|}\<rparr>)
      (ConnectionLost (PeerId ''b'') 0))) = Joining"
  by (subst ready_regresses) (simp_all add: new_peer_state_def on_connection_lost_def)

section \<open>Relay reservations\<close>

lemma option_list_set [simp]: "set (option_list x) = set_option x"
  by (auto simp: option_list_def split: option.split)

lemma prefer_public_addr_Some:
  assumes env: "env_ok env" and some: "prefer_public_addr env addrs = Some a"
  shows "a |\<in>| addrs \<and>
    ((\<exists>b. b |\<in>| addrs \<and> has_public_ip b) \<longrightarrow> has_public_ip a) \<and>
    ((\<exists>b. b |\<in>| addrs \<and> \<not> is_loopback_addr b) \<longrightarrow> has_public_ip a \<or> \<not> is_loopback_addr a)"
proof -
  have ord: "hash_order (addr_order env)"
    using env by (auto simp: env_ok_def intro: hash_orderI)
  note None_iff = hash_order.find_ord_None [OF ord] and SomeD = hash_order.find_ord_SomeD [OF ord]
  show ?thesis
  proof (cases "find has_public_ip (addr_order env addrs)")
    case (Some b)
    with some have "a = b" by (simp add: prefer_public_addr_def)
    with SomeD [OF Some] show ?thesis by blast
  next
    case no_public: None
    then have np: "\<not> (\<exists>b. b |\<in>| addrs \<and> has_public_ip b)" by (simp add: None_iff)
    show ?thesis
    proof (cases "find (\<lambda>a. \<not> is_loopback_addr a) (addr_order env addrs)")
      case (Some b)
      with some no_public have "a = b" by (simp add: prefer_public_addr_def)
      with SomeD [OF Some] np show ?thesis by blast
    next
      case None
      then have "\<not> (\<exists>b. b |\<in>| addrs \<and> \<not> is_loopback_addr b)" by (simp add: None_iff)
      moreover have "a \<in> set (addr_order env addrs)"
        using some no_public None by (auto simp: prefer_public_addr_def split: list.splits)
      then have "a |\<in>| addrs" by (simp add: hash_order.set_ord [OF ord])
      ultimately show ?thesis using np by blast
    qed
  qed
qed

lemma prefer_public_addr_None:
  "env_ok env \<Longrightarrow> prefer_public_addr env addrs = None \<longleftrightarrow> addrs = {||}"
  using hash_order.ord_eq_Nil_iff [OF hash_orderI, of "addr_order env" addrs]
  by (auto simp: prefer_public_addr_def env_ok_def iterates_def find_None_iff
      split: option.splits list.splits)

lemma maybe_request_relay_Some:
  assumes env: "env_ok env" and some: "maybe_request_relay env s = Some c"
  obtains peer addr where "c = RequestRelayReservation peer addr"
    "nat_status s = Private" "\<not> relay_reserved s"
    "peer |\<in>| bootstrap_peers s" "peer |\<in>| fmdom (known_peers s)"
    "prefer_public_addr env (get_or {||} (known_peers s) peer) = Some addr"
proof -
  have ord: "hash_order (peer_order env)"
    using env by (auto simp: env_ok_def intro: hash_orderI)
  from some obtain peer addr where
    f: "find (\<lambda>p. p |\<in>| bootstrap_peers s) (peer_order env (fmdom (known_peers s))) = Some peer" and
    rest: "c = RequestRelayReservation peer addr" "nat_status s = Private" "\<not> relay_reserved s"
    "prefer_public_addr env (get_or {||} (known_peers s) peer) = Some addr"
    by (auto simp: maybe_request_relay_def split: nat_status.splits bool.splits option.splits)
  with hash_order.find_ord_SomeD [OF ord f] show ?thesis
    by (intro that) auto
qed

lemma mdns_commands:
  "c \<in> set (snd (mdns_discovered s peers)) \<Longrightarrow> \<exists>p a. c = KademliaAddAddress p a"
  using mdns_discovered_frame [of s peers] by (cases "mdns_discovered s peers") auto

lemma request_relay_source:
  assumes "RequestRelayReservation peer addr \<in> set (snd (peer_transition env s e))"
  shows "maybe_request_relay env (fst (peer_transition env s e)) =
    Some (RequestRelayReservation peer addr)"
proof (cases e)
  case (PeerIdentified p addrs obs)
  obtain entry cmds where i: "identify_addrs p addrs (get_or {||} (known_peers s) p) = (entry, cmds)"
    by (metis surj_pair)
  have "RequestRelayReservation peer addr \<notin> set cmds"
    using identify_addrs_commands [OF i] by blast
  with assms show ?thesis
    by (auto simp: PeerIdentified on_peer_identified_def i Let_def split: if_splits)
next
  case (MdnsDiscovered peers)
  then show ?thesis using assms mdns_commands [of _ s peers] by fastforce
qed (use assms in \<open>auto simp: peer_arms split: phase.splits bool.splits nat_status.splits if_splits\<close>)

text \<open>C23: A relay reservation is requested only when the node is behind a private NAT and holds
  no reservation, and only from a known bootstrap peer at one of its known addresses: a public
  one when there is one, otherwise not a loopback one when another exists.\<close>

theorem relay_request_sound:
  assumes "env_ok env"
    and "RequestRelayReservation peer addr \<in> set (snd (peer_transition env s e))"
  shows "let s' = fst (peer_transition env s e);
             addrs = get_or {||} (known_peers s') peer
         in nat_status s' = Private \<and> \<not> relay_reserved s' \<and> peer |\<in>| bootstrap_peers s' \<and>
            addr |\<in>| addrs \<and>
            ((\<exists>b. b |\<in>| addrs \<and> has_public_ip b) \<longrightarrow> has_public_ip addr) \<and>
            ((\<exists>b. b |\<in>| addrs \<and> \<not> is_loopback_addr b) \<longrightarrow>
               has_public_ip addr \<or> \<not> is_loopback_addr addr)"
proof -
  let ?s' = "fst (peer_transition env s e)"
  from request_relay_source [OF assms(2)]
  show ?thesis
  proof (rule maybe_request_relay_Some [OF assms(1)])
    fix p a
    assume c: "RequestRelayReservation peer addr = RequestRelayReservation p a"
      and s: "nat_status ?s' = Private" "\<not> relay_reserved ?s'" "p |\<in>| bootstrap_peers ?s'"
      and a: "prefer_public_addr env (get_or {||} (known_peers ?s') p) = Some a"
    from c have "p = peer" "a = addr" by simp_all
    with s prefer_public_addr_Some [OF assms(1) a] show ?thesis
      unfolding Let_def by blast
  qed
qed

text \<open>A bootstrap peer at a public and at a loopback address, and a node with a private NAT.\<close>

definition sample_public :: multiaddr where
  "sample_public = [Ip4 (Ipv4 203 0 113 10), Udp 41000, QuicV1]"

definition sample_loopback :: multiaddr where
  "sample_loopback = [Ip4 (Ipv4 127 0 0 1), Udp 4001, QuicV1]"

definition sample_private_node :: peer_state where
  "sample_private_node = new_peer_state\<lparr>bootstrap_peers := {|PeerId ''b''|},
     known_peers := fmupd (PeerId ''b'') {|sample_public|} fmempty\<rparr>"

lemma sample_public_is_public [simp]: "has_public_ip sample_public"
  by (simp add: sample_public_def has_public_ip_def needs_external_rewrite_def)

lemma maybe_request_relay_sample:
  "nat_status s = Private \<Longrightarrow> \<not> relay_reserved s \<Longrightarrow> bootstrap_peers s = {|p|} \<Longrightarrow>
     known_peers s = fmupd p {|a|} fmempty \<Longrightarrow>
     maybe_request_relay (sample_env t) s = Some (RequestRelayReservation p a)"
  by (simp add: maybe_request_relay_def prefer_public_addr_def sample_env_def)

theorem relay_request_sound_witness:
  "let s' = fst (peer_transition (sample_env 0) sample_private_node (NatStatusChanged Private))
   in nat_status s' = Private \<and> \<not> relay_reserved s' \<and> has_public_ip sample_public"
proof -
  have "RequestRelayReservation (PeerId ''b'') sample_public \<in>
      set (snd (peer_transition (sample_env 0) sample_private_node (NatStatusChanged Private)))"
    by (simp add: on_nat_status_changed_def sample_private_node_def new_peer_state_def
        maybe_request_relay_sample)
  from relay_request_sound [OF env_ok_sample this] show ?thesis
    by (simp add: Let_def)
qed

text \<open>C24: When the NAT status turns private, no reservation is held, some bootstrap peer is known
  and every known bootstrap peer has an address, a reservation is requested.\<close>

theorem relay_request_live:
  assumes env: "env_ok env" and free: "\<not> relay_reserved s"
    and known: "bootstrap_peers s |\<inter>| fmdom (known_peers s) \<noteq> {||}"
    and addrs: "\<forall>p. p |\<in>| bootstrap_peers s \<longrightarrow> fmlookup (known_peers s) p \<noteq> Some {||}"
  shows "\<exists>peer addr. RequestRelayReservation peer addr \<in>
    set (snd (peer_transition env s (NatStatusChanged Private)))"
proof -
  let ?s = "s\<lparr>nat_status := Private\<rparr>"
  have ord: "hash_order (peer_order env)"
    using env by (auto simp: env_ok_def intro: hash_orderI)
  obtain p where "p |\<in>| fmdom (known_peers s)" "p |\<in>| bootstrap_peers s"
    using known by auto
  then obtain q where
    q: "find (\<lambda>p. p |\<in>| bootstrap_peers s) (peer_order env (fmdom (known_peers s))) = Some q"
    using hash_order.find_ord_None [OF ord] by (metis option.exhaust)
  then have "q |\<in>| fmdom (known_peers s)" "q |\<in>| bootstrap_peers s"
    using hash_order.find_ord_SomeD [OF ord q] by auto
  then have "get_or {||} (known_peers s) q \<noteq> {||}"
    using addrs by (auto simp: get_or_def split: option.split)
  then obtain a where "prefer_public_addr env (get_or {||} (known_peers s) q) = Some a"
    using prefer_public_addr_None [OF env] by (metis option.exhaust)
  with q free have "maybe_request_relay env ?s = Some (RequestRelayReservation q a)"
    by (simp add: maybe_request_relay_def)
  with free show ?thesis
    by (auto simp: on_nat_status_changed_def)
qed

theorem relay_request_live_witness:
  "\<exists>peer addr. RequestRelayReservation peer addr \<in>
    set (snd (peer_transition (sample_env 0) sample_private_node (NatStatusChanged Private)))"
  by (rule relay_request_live) (simp_all add: sample_private_node_def new_peer_state_def)

section \<open>Known addresses\<close>

lemma replace_stale_iff:
  "x |\<in>| replace_stale_public_addr_for_ip addr entry \<longleftrightarrow>
     x |\<in>| entry \<and> (x = addr \<or> extract_public_ip addr = None \<or>
       extract_public_ip x \<noteq> extract_public_ip addr)"
  by (auto simp: replace_stale_public_addr_for_ip_def split: option.splits)

lemma identify_addrs_keeps:
  "x |\<in>| entry \<Longrightarrow>
     (\<forall>l\<in>set addrs. l = x \<or> extract_public_ip l = None \<or> extract_public_ip x \<noteq> extract_public_ip l) \<Longrightarrow>
     x |\<in>| fst (identify_addrs peer addrs entry)"
proof (induction peer addrs entry rule: identify_addrs.induct)
  case (1 peer entry)
  then show ?case by simp
next
  case (2 peer addr addrs entry)
  have "x |\<in>| finsert addr (replace_stale_public_addr_for_ip addr entry)"
    using "2.prems" by (auto simp: replace_stale_iff)
  with "2.IH" "2.prems"(2) show ?case
    by (simp add: Let_def split_beta)
qed

lemma identify_addrs_subset:
  "x |\<in>| fst (identify_addrs peer addrs entry) \<Longrightarrow> x |\<in>| entry \<or> x \<in> set addrs"
proof (induction peer addrs entry rule: identify_addrs.induct)
  case (1 peer entry)
  then show ?case by simp
next
  case (2 peer addr addrs entry)
  then show ?case by (auto simp: Let_def split_beta replace_stale_iff)
qed

lemma identify_addrs_unique:
  "(\<exists>l\<in>set addrs. extract_public_ip l = Some ip) \<or>
     (\<forall>a b. a |\<in>| entry \<longrightarrow> b |\<in>| entry \<longrightarrow> extract_public_ip a = Some ip \<longrightarrow>
        extract_public_ip b = Some ip \<longrightarrow> a = b) \<Longrightarrow>
   a |\<in>| fst (identify_addrs peer addrs entry) \<Longrightarrow> b |\<in>| fst (identify_addrs peer addrs entry) \<Longrightarrow>
   extract_public_ip a = Some ip \<Longrightarrow> extract_public_ip b = Some ip \<Longrightarrow> a = b"
proof (induction peer addrs entry rule: identify_addrs.induct)
  case (1 peer entry)
  then show ?case by simp
next
  case (2 peer addr addrs entry)
  let ?e1 = "finsert addr (replace_stale_public_addr_for_ip addr entry)"
  have "(\<exists>l\<in>set addrs. extract_public_ip l = Some ip) \<or>
     (\<forall>a b. a |\<in>| ?e1 \<longrightarrow> b |\<in>| ?e1 \<longrightarrow> extract_public_ip a = Some ip \<longrightarrow>
        extract_public_ip b = Some ip \<longrightarrow> a = b)"
    using "2.prems"(1) by (auto simp: replace_stale_iff)
  with "2.IH" [OF refl refl] "2.prems"(2-) show ?case
    by (simp add: Let_def split_beta)
qed

lemma on_peer_identified_entry:
  "fmlookup (known_peers (fst (peer_transition env s (PeerIdentified peer addrs obs)))) peer =
     Some (fst (identify_addrs peer addrs (get_or {||} (known_peers s) peer)))"
  by (simp add: on_peer_identified_def Let_def split_beta)

text \<open>Identify replaces stale addresses: afterwards the peer has exactly one known address
  for every public IP it listens on, the last one it announced for that IP; an address whose
  public IP was not announced stays known, and nothing that was neither known nor announced is
  added.\<close>

lemma identify_replaces_stale:
  fixes env s peer addrs obs
  defines "entry \<equiv> get_or {||} (known_peers s) peer"
  defines "entry' \<equiv>
    get_or {||} (known_peers (fst (peer_transition env s (PeerIdentified peer addrs obs)))) peer"
  shows "(\<forall>before l after ip. addrs = before @ l # after \<longrightarrow> extract_public_ip l = Some ip \<longrightarrow>
        (\<forall>m\<in>set after. extract_public_ip m \<noteq> Some ip) \<longrightarrow>
        ffilter (\<lambda>a. extract_public_ip a = Some ip) entry' = {|l|}) \<and>
    (\<forall>a. a |\<in>| entry \<longrightarrow> (\<forall>l\<in>set addrs. extract_public_ip l \<noteq> extract_public_ip a) \<longrightarrow> a |\<in>| entry') \<and>
    (\<forall>a. a |\<in>| entry' \<longrightarrow> a |\<in>| entry \<or> a \<in> set addrs)"
proof -
  have e': "entry' = fst (identify_addrs peer addrs entry)"
    by (simp add: entry'_def entry_def get_or_Some [OF on_peer_identified_entry]
        del: peer_transition.simps)
  have last: "l |\<in>| entry'" if split: "addrs = before @ l # after" and
    l: "extract_public_ip l = Some ip" "\<forall>m\<in>set after. extract_public_ip m \<noteq> Some ip"
    for before l after ip
  proof -
    have "fst (identify_addrs peer (xs @ ys) e) =
        fst (identify_addrs peer ys (fst (identify_addrs peer xs e)))" for xs ys e
      by (induction xs arbitrary: e) (simp_all add: Let_def split_beta)
    then have "entry' = fst (identify_addrs peer after (finsert l (replace_stale_public_addr_for_ip l
        (fst (identify_addrs peer before entry)))))"
      by (simp add: e' split Let_def split_beta)
    then show ?thesis
      using l by (auto intro!: identify_addrs_keeps)
  qed
  have unique: "a = b" if "l \<in> set addrs" "extract_public_ip l = Some ip" "a |\<in>| entry'" "b |\<in>| entry'"
    "extract_public_ip a = Some ip" "extract_public_ip b = Some ip" for a b l ip
    using that identify_addrs_unique [of addrs ip entry a peer b] by (auto simp: e')
  have one: "ffilter (\<lambda>a. extract_public_ip a = Some ip) entry' = {|l|}"
    if split: "addrs = before @ l # after" and
    l: "extract_public_ip l = Some ip" "\<forall>m\<in>set after. extract_public_ip m \<noteq> Some ip"
    for before l after ip
  proof (rule fset_eqI)
    fix a
    have "l |\<in>| entry'" and "l \<in> set addrs"
      using last [OF that] split by auto
    then show "a |\<in>| ffilter (\<lambda>a. extract_public_ip a = Some ip) entry' \<longleftrightarrow> a |\<in>| {|l|}"
      using unique [of l ip a l] l(1) by auto
  qed
  have keep: "a |\<in>| entry'"
    if "a |\<in>| entry" "\<forall>l\<in>set addrs. extract_public_ip l \<noteq> extract_public_ip a" for a
    unfolding e' using that by (intro identify_addrs_keeps) auto
  have sub: "a |\<in>| entry \<or> a \<in> set addrs" if "a |\<in>| entry'" for a
    using that identify_addrs_subset unfolding e' by fast
  show ?thesis
    using one keep sub by blast
qed

text \<open>A peer that announces a new port for the IP it was known at.\<close>

definition sample_moved :: multiaddr where
  "sample_moved = [Ip4 (Ipv4 203 0 113 10), Udp 42000, QuicV1]"

lemma identify_replaces_stale_witness:
  "ffilter (\<lambda>a. extract_public_ip a = Some (IpV4 (Ipv4 203 0 113 10)))
     (get_or {||} (known_peers (fst (peer_transition (sample_env 0) sample_private_node
        (PeerIdentified (PeerId ''b'') [sample_moved] sample_moved)))) (PeerId ''b'')) =
   {|sample_moved|}"
proof -
  have ip: "extract_public_ip sample_moved = Some (IpV4 (Ipv4 203 0 113 10))"
    by (simp add: sample_moved_def extract_public_ip_def extract_public_ip_port_def
        needs_external_rewrite_def)
  have split: "[sample_moved] = [] @ sample_moved # []" by simp
  show ?thesis
    using identify_replaces_stale [where env = "sample_env 0" and s = sample_private_node
        and peer = "PeerId ''b''" and addrs = "[sample_moved]" and obs = sample_moved]
      ip split
    by (metis empty_iff empty_set)
qed

section \<open>Commands\<close>

lemma peer_commands_are_network:
  "(\<forall>c\<in>set (snd (peer_transition env s e)). is_network_command c) \<and>
   (Shutdown \<in> set (snd (peer_transition env s e)) \<longleftrightarrow> e = ShutdownRequested)"
proof -
  have relay: "is_network_command c \<and> c \<noteq> Shutdown" if "maybe_request_relay env s' = Some c" for c s'
    using that by (auto simp: maybe_request_relay_def split: nat_status.splits bool.splits option.splits)
  show ?thesis
  proof (cases e)
    case (PeerIdentified p addrs obs)
    obtain entry cmds where i: "identify_addrs p addrs (get_or {||} (known_peers s) p) = (entry, cmds)"
      by (metis surj_pair)
    show ?thesis
      using identify_addrs_commands [OF i] relay
      by (fastforce simp: PeerIdentified on_peer_identified_def i Let_def)
  next
    case (MdnsDiscovered peers)
    then show ?thesis using mdns_commands [of _ s peers] by fastforce
  qed (auto simp: peer_arms dest: relay split: phase.splits bool.splits nat_status.splits if_splits)
qed

text \<open>The peer machine issues network commands only, and a \<open>Shutdown\<close> exactly when shutdown
  was requested.\<close>

lemma peer_commands:
  "(\<forall>c\<in>set (snd (peer_transition env s e)). is_network_command c) \<and>
   (Shutdown \<in> set (snd (peer_transition env s e)) \<longleftrightarrow> e = ShutdownRequested)"
  by (rule peer_commands_are_network)

lemma peer_commands_witness:
  "is_network_command Shutdown \<and>
   Shutdown \<in> set (snd (peer_transition (sample_env 0) new_peer_state ShutdownRequested))"
  using peer_commands [of "sample_env 0" new_peer_state ShutdownRequested] by simp

end
