(* ===== verification/Tunnel_Machine.thy ===== *)
theory Tunnel_Machine
  imports Events External_Addr Mealy
begin

text \<open>
  The tunnel half of the node's state, \<open>TunnelState\<close> of \<open>src/src/state/tunnel.rs\<close>: which tunnels
  are asked for and not yet opened (by peer, by service, or waiting for a direct path), the
  fallback providers of a service, the hole-punch sessions with their retry counters, and the
  addresses seen for each peer.  One definition per method, one per arm of \<open>transition\<close>.
\<close>

section \<open>State\<close>

type_synonym tunnel_target = "service_name \<times> service_addr"

datatype hole_punch_phase = Punching | WaitingDisconnect | WaitingRedial

record hole_punch_session =
  sess_attempt_id :: "64 word"
  sess_phase :: hole_punch_phase
  relay_redial_addrs :: "multiaddr list"
  direct_snapshot :: "multiaddr list"
  dial_retry_dispatched :: bool

record peer_address_oracle =
  relay_addrs :: "multiaddr list"
  direct_addrs :: "multiaddr list"

definition empty_oracle :: peer_address_oracle where
  "empty_oracle = \<lparr>relay_addrs = [], direct_addrs = []\<rparr>"

record tunnel_state =
  pending_by_peer :: "(peer_id, tunnel_target list) fmap"
  pending_by_service :: "(service_name, service_addr list) fmap"
  service_provider_candidates :: "(service_name, peer_id list) fmap"
  awaiting_holepunch :: "(peer_id, tunnel_target list) fmap"
  relayed_peers :: "peer_id fset"
  holepunch_retry_attempts :: "(peer_id, 32 word) fmap"
  pending_retry_redial :: "peer_id fset"
  holepunch_sessions :: "(peer_id, hole_punch_session) fmap"
  address_oracle :: "(peer_id, peer_address_oracle) fmap"
  address_last_seen :: "(peer_id, (multiaddr, instant) fmap) fmap"
  nat_mapping :: nat_mapping

definition ADDRESS_CANDIDATE_TTL :: duration where
  "ADDRESS_CANDIDATE_TTL = from_secs 45"

definition MAX_DIRECT_CANDIDATES :: nat where
  "MAX_DIRECT_CANDIDATES = 8"

definition MAX_RELAY_CANDIDATES :: nat where
  "MAX_RELAY_CANDIDATES = 4"

definition MAX_REDIAL_ADDRESSES :: nat where
  "MAX_REDIAL_ADDRESSES = 12"

definition MAX_RELAY_RECONNECT_RETRIES :: "32 word" where
  "MAX_RELAY_RECONNECT_RETRIES = 3"

definition new_tunnel_state :: tunnel_state where
  "new_tunnel_state =
     \<lparr>pending_by_peer = fmempty, pending_by_service = fmempty,
      service_provider_candidates = fmempty, awaiting_holepunch = fmempty, relayed_peers = {||},
      holepunch_retry_attempts = fmempty, pending_retry_redial = {||},
      holepunch_sessions = fmempty, address_oracle = fmempty, address_last_seen = fmempty,
      nat_mapping = MappingUnknown\<rparr>"

definition set_nat_mapping :: "nat_mapping \<Rightarrow> tunnel_state \<Rightarrow> tunnel_state" where
  "set_nat_mapping m s = s\<lparr>nat_mapping := m\<rparr>"

definition add_peer_tunnel ::
  "peer_id \<Rightarrow> service_name \<Rightarrow> service_addr \<Rightarrow> tunnel_state \<Rightarrow> tunnel_state" where
  "add_peer_tunnel peer service bind s =
     s\<lparr>pending_by_peer := entry_extend peer [(service, bind)] (pending_by_peer s)\<rparr>"

definition add_service_tunnel :: "service_name \<Rightarrow> service_addr \<Rightarrow> tunnel_state \<Rightarrow> tunnel_state" where
  "add_service_tunnel service bind s =
     s\<lparr>pending_by_service := entry_extend service [bind] (pending_by_service s)\<rparr>"

definition has_pending_for :: "tunnel_state \<Rightarrow> peer_id \<Rightarrow> bool" where
  "has_pending_for s peer \<longleftrightarrow> contains_key (pending_by_peer s) peer"

definition has_holepunch_intent :: "tunnel_state \<Rightarrow> peer_id \<Rightarrow> bool" where
  "has_holepunch_intent s peer \<longleftrightarrow>
     contains_key (pending_by_peer s) peer \<or> contains_key (awaiting_holepunch s) peer"

definition holepunch_target_peers :: "step_env \<Rightarrow> tunnel_state \<Rightarrow> peer_id list" where
  "holepunch_target_peers env s =
     remdups_adj
       (sort_by (\<lambda>p q. show_peer env p \<le> show_peer env q)
         (peer_order env (fmdom (pending_by_peer s)) @
          peer_order env (fmdom (awaiting_holepunch s))))"

section \<open>De-duplication and predicates\<close>

definition dedup_addrs :: "multiaddr list \<Rightarrow> multiaddr list" where
  "dedup_addrs addrs = dedup_by (\<lambda>a. a) {||} addrs"

definition dedup_peers :: "peer_id list \<Rightarrow> peer_id list" where
  "dedup_peers peers = dedup_by (\<lambda>p. p) {||} peers"

definition dedup_provider_candidates :: "(peer_id \<times> bool) list \<Rightarrow> (peer_id \<times> bool) list" where
  "dedup_provider_candidates providers = dedup_by fst {||} providers"

text \<open>\<open>reason.contains(..)\<close>.\<close>

definition str_contains :: "string \<Rightarrow> string \<Rightarrow> bool" where
  "str_contains needle s \<longleftrightarrow> split_once_str needle s \<noteq> None"

definition is_pending_abort_dial_error :: "string \<Rightarrow> bool" where
  "is_pending_abort_dial_error reason \<longleftrightarrow>
     str_contains ''Pending connection attempt has been aborted'' reason"

section \<open>Fallback providers\<close>

definition store_provider_candidates ::
  "service_name \<Rightarrow> peer_id list \<Rightarrow> tunnel_state \<Rightarrow> tunnel_state" where
  "store_provider_candidates service providers0 s =
     (let providers = dedup_peers providers0 in
      s\<lparr>service_provider_candidates :=
          (if providers = [] then fmdrop service (service_provider_candidates s)
           else fmupd service providers (service_provider_candidates s))\<rparr>)"

text \<open>The loop of \<open>next_fallback_provider\<close>: take providers off the front up to the first that is
  not the excluded peer.\<close>

fun pop_fallback :: "peer_id \<Rightarrow> peer_id list \<Rightarrow> peer_id option \<times> peer_id list" where
  "pop_fallback exclude [] = (None, [])"
| "pop_fallback exclude (p # ps) = (if p \<noteq> exclude then (Some p, ps) else pop_fallback exclude ps)"

definition next_fallback_provider ::
  "service_name \<Rightarrow> peer_id \<Rightarrow> tunnel_state \<Rightarrow> peer_id option \<times> tunnel_state" where
  "next_fallback_provider service exclude s =
     (case fmlookup (service_provider_candidates s) service of
        None \<Rightarrow> (None, s)
      | Some providers \<Rightarrow>
          (case pop_fallback exclude providers of
             (Some p, rest) \<Rightarrow>
               (Some p, s\<lparr>service_provider_candidates :=
                  (if rest = [] then fmdrop service (service_provider_candidates s)
                   else fmupd service rest (service_provider_candidates s))\<rparr>)
           | (None, _) \<Rightarrow>
               (None, s\<lparr>service_provider_candidates :=
                  fmdrop service (service_provider_candidates s)\<rparr>)))"

text \<open>
  The loop over the specs of the failed peer: the state, the specs given to other peers, and the
  services to look up again.
\<close>

type_synonym reroute_acc =
  "tunnel_state \<times> (peer_id, tunnel_target list) fmap \<times> service_name fset"

definition reroute_one :: "peer_id \<Rightarrow> tunnel_target \<Rightarrow> reroute_acc \<Rightarrow> reroute_acc" where
  "reroute_one peer spec acc =
     (case (spec, acc) of ((service, bind), (s, reassign, refresh)) \<Rightarrow>
       (case next_fallback_provider service peer s of
          (Some next_peer, s') \<Rightarrow> (s', entry_extend next_peer [(service, bind)] reassign, refresh)
        | (None, s') \<Rightarrow>
            (s'\<lparr>pending_by_service := entry_extend service [bind] (pending_by_service s')\<rparr>,
             reassign, finsert service refresh)))"

definition assign_to_peer ::
  "(peer_id, tunnel_target list) fmap \<Rightarrow> peer_id \<Rightarrow> tunnel_state \<Rightarrow> tunnel_state" where
  "assign_to_peer reassign next_peer s =
     s\<lparr>pending_by_peer := entry_extend next_peer (get_or [] reassign next_peer) (pending_by_peer s)\<rparr>"

definition reroute_specs_after_dial_failure ::
  "step_env \<Rightarrow> peer_id \<Rightarrow> tunnel_state \<Rightarrow> tunnel_state \<times> command list" where
  "reroute_specs_after_dial_failure env peer s =
     (case fmlookup (pending_by_peer s) peer of
        None \<Rightarrow> (s, [])
      | Some specs \<Rightarrow>
          (let s0 = s\<lparr>pending_by_peer := fmdrop peer (pending_by_peer s)\<rparr>;
               (s1, reassign, refresh) = fold (reroute_one peer) specs (s0, fmempty, {||});
               peers = peer_order env (fmdom reassign)
           in (fold (assign_to_peer reassign) peers s1,
               map DhtLookupPeer peers @
               map (\<lambda>service. DhtGetProviders service (for_service service))
                 (service_order env refresh))))"

definition initiate_lookups :: "step_env \<Rightarrow> tunnel_state \<Rightarrow> command list" where
  "initiate_lookups env s =
     map DhtLookupPeer (peer_order env (fmdom (pending_by_peer s))) @
     map (\<lambda>service. DhtGetProviders service (for_service service))
       (service_order env (fmdom (pending_by_service s)))"

section \<open>Direct paths and retries\<close>

definition queue_for_direct :: "peer_id \<Rightarrow> tunnel_target list \<Rightarrow> tunnel_state \<Rightarrow> tunnel_state" where
  "queue_for_direct peer specs s =
     s\<lparr>awaiting_holepunch := entry_extend peer specs (awaiting_holepunch s)\<rparr>"

definition spawn_all :: "peer_id \<Rightarrow> tunnel_target list \<Rightarrow> command list" where
  "spawn_all peer specs = map (\<lambda>(service, bind). SpawnTunnel peer service bind) specs"

definition route_connected_peer ::
  "peer_id \<Rightarrow> tunnel_target list \<Rightarrow> tunnel_state \<Rightarrow> tunnel_state \<times> command list" where
  "route_connected_peer peer specs s =
     (if peer |\<in>| relayed_peers s then (queue_for_direct peer specs s, [])
      else (s, spawn_all peer specs))"

definition clear_retry_state :: "peer_id \<Rightarrow> tunnel_state \<Rightarrow> tunnel_state" where
  "clear_retry_state peer s =
     s\<lparr>holepunch_retry_attempts := fmdrop peer (holepunch_retry_attempts s),
       pending_retry_redial := pending_retry_redial s |-| {|peer|},
       holepunch_sessions := fmdrop peer (holepunch_sessions s)\<rparr>"

definition schedule_holepunch_retry :: "peer_id \<Rightarrow> tunnel_state \<Rightarrow> tunnel_state" where
  "schedule_holepunch_retry peer s =
     s\<lparr>holepunch_retry_attempts :=
         fmupd peer (saturating_add (get_or 0 (holepunch_retry_attempts s) peer) 1)
           (holepunch_retry_attempts s),
       pending_retry_redial := finsert peer (pending_retry_redial s)\<rparr>"

section \<open>Address candidates\<close>

definition see_addr :: "instant \<Rightarrow> multiaddr \<Rightarrow> (multiaddr, instant) fmap \<Rightarrow> (multiaddr, instant) fmap"
where
  "see_addr now addr last_seen =
     (if has_p2p_circuit addr \<or> is_supported_direct_candidate addr then fmupd addr now last_seen
      else last_seen)"

definition record_address_candidates ::
  "peer_id \<Rightarrow> multiaddr list \<Rightarrow> instant \<Rightarrow> tunnel_state \<Rightarrow> tunnel_state" where
  "record_address_candidates peer listen_addrs now s =
     (let last_seen = map_retain (\<lambda>_ seen_at. now - seen_at \<le> ADDRESS_CANDIDATE_TTL)
            (fold (see_addr now) listen_addrs (get_or fmempty (address_last_seen s) peer))
      in s\<lparr>address_last_seen :=
             (if last_seen = fmempty then fmdrop peer (address_last_seen s)
              else fmupd peer last_seen (address_last_seen s))\<rparr>)"

text \<open>Newest first; candidates seen at the same time by their printed form.\<close>

definition candidate_le :: "step_env \<Rightarrow> multiaddr \<times> instant \<Rightarrow> multiaddr \<times> instant \<Rightarrow> bool" where
  "candidate_le env a b \<longleftrightarrow>
     snd b < snd a \<or> (snd b = snd a \<and> show_addr env (fst a) \<le> show_addr env (fst b))"

definition fresh_entries ::
  "step_env \<Rightarrow> (multiaddr, instant) fmap \<Rightarrow> instant \<Rightarrow> (multiaddr \<Rightarrow> bool) \<Rightarrow>
   (multiaddr \<times> instant) list" where
  "fresh_entries env last_seen now predicate =
     filter (\<lambda>(addr, seen_at). now - seen_at \<le> ADDRESS_CANDIDATE_TTL \<and> predicate addr)
       (map (\<lambda>addr. (addr, get_or 0 last_seen addr)) (addr_order env (fmdom last_seen)))"

definition fresh_candidates ::
  "step_env \<Rightarrow> tunnel_state \<Rightarrow> peer_id \<Rightarrow> instant \<Rightarrow> (multiaddr \<Rightarrow> bool) \<Rightarrow> nat \<Rightarrow> multiaddr list" where
  "fresh_candidates env s peer now predicate limit =
     (case fmlookup (address_last_seen s) peer of
        None \<Rightarrow> []
      | Some last_seen \<Rightarrow>
          map fst (take limit
            (sort_by (candidate_le env) (fresh_entries env last_seen now predicate))))"

definition prioritized_redial_addrs ::
  "step_env \<Rightarrow> tunnel_state \<Rightarrow> peer_id \<Rightarrow> hole_punch_session \<Rightarrow> multiaddr list" where
  "prioritized_redial_addrs env s peer session =
     (let now = clock env;
          oracle = get_or empty_oracle (address_oracle s) peer;
          fresh_direct = fresh_candidates env s peer now is_supported_direct_candidate
                           MAX_DIRECT_CANDIDATES;
          fresh_relay = fresh_candidates env s peer now has_p2p_circuit MAX_RELAY_CANDIDATES
      in take MAX_REDIAL_ADDRESSES
           (dedup_addrs
             (direct_snapshot session @ direct_addrs oracle @ fresh_direct @
              relay_redial_addrs session @ relay_addrs oracle @ fresh_relay)))"

text \<open>The update of an active session by fresh candidates.\<close>

definition refresh_session ::
  "multiaddr list \<Rightarrow> multiaddr list \<Rightarrow> hole_punch_session \<Rightarrow> hole_punch_session" where
  "refresh_session relays directs session =
     (let backfilled_relay = (relay_redial_addrs session = [] \<and> relays \<noteq> []);
          backfilled_direct = (direct_snapshot session = [] \<and> directs \<noteq> []);
          refreshed_relay = (relay_redial_addrs session \<noteq> [] \<and> relays \<noteq> [] \<and>
            relay_redial_addrs session \<noteq> relays);
          refreshed_direct = (direct_snapshot session \<noteq> [] \<and> directs \<noteq> [] \<and>
            direct_snapshot session \<noteq> directs);
          snapshots_changed = (backfilled_relay \<or> backfilled_direct \<or> refreshed_relay \<or>
            refreshed_direct);
          session1 = (if backfilled_relay \<or> refreshed_relay
                      then session\<lparr>relay_redial_addrs := relays\<rparr> else session);
          session2 = (if backfilled_direct \<or> refreshed_direct
                      then session1\<lparr>direct_snapshot := directs\<rparr> else session1)
      in if snapshots_changed then session2\<lparr>dial_retry_dispatched := False\<rparr> else session2)"

definition update_address_oracle ::
  "step_env \<Rightarrow> peer_id \<Rightarrow> multiaddr list \<Rightarrow> tunnel_state \<Rightarrow> tunnel_state" where
  "update_address_oracle env peer listen_addrs s0 =
     (let now = clock env;
          s1 = record_address_candidates peer listen_addrs now s0;
          relays = fresh_candidates env s1 peer now has_p2p_circuit MAX_RELAY_CANDIDATES;
          directs = fresh_candidates env s1 peer now is_supported_direct_candidate
                      MAX_DIRECT_CANDIDATES;
          s2 = (case fmlookup (holepunch_sessions s1) peer of
                  None \<Rightarrow> s1
                | Some session \<Rightarrow>
                    s1\<lparr>holepunch_sessions :=
                        fmupd peer (refresh_session relays directs session)
                          (holepunch_sessions s1)\<rparr>)
      in s2\<lparr>address_oracle :=
             fmupd peer \<lparr>relay_addrs = relays, direct_addrs = directs\<rparr> (address_oracle s2)\<rparr>)"

section \<open>Hole-punch attempts\<close>

definition begin_holepunch_attempt :: "peer_id \<Rightarrow> 64 word \<Rightarrow> tunnel_state \<Rightarrow> tunnel_state" where
  "begin_holepunch_attempt peer attempt_id s =
     (let oracle = get_or empty_oracle (address_oracle s) peer in
      s\<lparr>holepunch_sessions :=
          fmupd peer
            \<lparr>sess_attempt_id = attempt_id, sess_phase = Punching,
             relay_redial_addrs = relay_addrs oracle, direct_snapshot = direct_addrs oracle,
             dial_retry_dispatched = False\<rparr> (holepunch_sessions s)\<rparr>)"

definition set_session_phase :: "peer_id \<Rightarrow> hole_punch_phase \<Rightarrow> tunnel_state \<Rightarrow> tunnel_state" where
  "set_session_phase peer ph s =
     (case fmlookup (holepunch_sessions s) peer of
        None \<Rightarrow> s
      | Some session \<Rightarrow>
          s\<lparr>holepunch_sessions := fmupd peer (session\<lparr>sess_phase := ph\<rparr>) (holepunch_sessions s)\<rparr>)"

text \<open>The reason is only logged.\<close>

definition retry_holepunch_attempt ::
  "peer_id \<Rightarrow> 64 word \<Rightarrow> tunnel_state \<Rightarrow> tunnel_state \<times> command list" where
  "retry_holepunch_attempt peer attempt_id s =
     (case fmlookup (holepunch_sessions s) peer of
        None \<Rightarrow> (s, [])
      | Some session \<Rightarrow>
          if sess_attempt_id session \<noteq> attempt_id then (s, [])
          else if sess_phase session \<noteq> Punching then (s, [])
          else if \<not> contains_key (awaiting_holepunch s) peer then (s, [])
          else if MAX_RELAY_RECONNECT_RETRIES \<le> get_or 0 (holepunch_retry_attempts s) peer then
            (clear_retry_state peer (s\<lparr>awaiting_holepunch := fmdrop peer (awaiting_holepunch s)\<rparr>),
             spawn_all peer (get_or [] (awaiting_holepunch s) peer))
          else
            (set_session_phase peer WaitingDisconnect (schedule_holepunch_retry peer s),
             [DisconnectPeer peer]))"

section \<open>The arms of the transition\<close>

definition on_phase_ready :: "step_env \<Rightarrow> tunnel_state \<Rightarrow> tunnel_state \<times> command list" where
  "on_phase_ready env s = (s, PublishServices # initiate_lookups env s)"

definition on_dht_peer_lookup_complete ::
  "peer_id \<Rightarrow> bool \<Rightarrow> tunnel_state \<Rightarrow> tunnel_state \<times> command list" where
  "on_dht_peer_lookup_complete peer connected s =
     (if connected then
        (case fmlookup (pending_by_peer s) peer of
           None \<Rightarrow> (s, [])
         | Some specs \<Rightarrow>
             route_connected_peer peer specs
               (s\<lparr>pending_by_peer := fmdrop peer (pending_by_peer s)\<rparr>))
      else (s, if contains_key (pending_by_peer s) peer then [DialPeer peer] else []))"

text \<open>
  De-duplication keeps a non-empty list non-empty (\<open>dedup_by_eq_Nil\<close>), so the early return for
  no providers is the empty case, and \<open>providers.remove(0)\<close> cannot panic.
\<close>

definition on_dht_service_resolved ::
  "service_name \<Rightarrow> (peer_id \<times> bool) list \<Rightarrow> tunnel_state \<Rightarrow> tunnel_state \<times> command list" where
  "on_dht_service_resolved service providers s =
     (case fmlookup (pending_by_service s) service of
        None \<Rightarrow> (s, [])
      | Some bind_addrs \<Rightarrow>
          (let s0 = s\<lparr>pending_by_service := fmdrop service (pending_by_service s)\<rparr> in
           case dedup_provider_candidates providers of
             [] \<Rightarrow>
               (s0\<lparr>pending_by_service := fmupd service bind_addrs (pending_by_service s0)\<rparr>,
                [DhtGetProviders service (for_service service)])
           | (provider, connected) # fallbacks \<Rightarrow>
               (let s1 = store_provider_candidates service (map fst fallbacks) s0;
                    specs = map (\<lambda>addr. (service, addr)) bind_addrs
                in if connected then route_connected_peer provider specs s1
                   else (s1\<lparr>pending_by_peer := entry_extend provider specs (pending_by_peer s1)\<rparr>,
                         [DhtLookupPeer provider]))))"

definition on_dht_service_failed :: "service_name \<Rightarrow> tunnel_state \<Rightarrow> tunnel_state \<times> command list" where
  "on_dht_service_failed service s =
     (s, if contains_key (pending_by_service s) service
         then [DhtGetProviders service (for_service service)] else [])"

definition redial_command :: "peer_id \<Rightarrow> multiaddr list \<Rightarrow> 64 word \<Rightarrow> command" where
  "redial_command peer addrs attempt_id =
     (if addrs = [] then DialPeer peer else DialPeerWithAddrs peer addrs attempt_id)"

definition mark_dial_retry :: "peer_id \<Rightarrow> 64 word \<Rightarrow> tunnel_state \<Rightarrow> tunnel_state" where
  "mark_dial_retry peer attempt_id s =
     (case fmlookup (holepunch_sessions s) peer of
        None \<Rightarrow> s
      | Some active \<Rightarrow>
          if sess_attempt_id active = attempt_id then
            s\<lparr>holepunch_sessions :=
                fmupd peer (active\<lparr>dial_retry_dispatched := True\<rparr>) (holepunch_sessions s)\<rparr>
          else s)"

definition on_tunnel_dial_failed ::
  "step_env \<Rightarrow> peer_id \<Rightarrow> string \<Rightarrow> tunnel_state \<Rightarrow> tunnel_state \<times> command list" where
  "on_tunnel_dial_failed env peer reason s =
     (let awaiting_direct = contains_key (awaiting_holepunch s) peer;
          pending_tunnel = contains_key (pending_by_peer s) peer
      in if \<not> awaiting_direct \<and> \<not> pending_tunnel then (s, [])
         else if awaiting_direct \<and> is_pending_abort_dial_error reason then (s, [])
         else
           (case (if awaiting_direct then fmlookup (holepunch_sessions s) peer else None) of
              Some session \<Rightarrow>
                if sess_phase session = WaitingDisconnect then (s, [])
                else if dial_retry_dispatched session then (s, [])
                else
                  (let s' = mark_dial_retry peer (sess_attempt_id session) s in
                   (s', [redial_command peer (prioritized_redial_addrs env s' peer session)
                           (sess_attempt_id session)]))
            | None \<Rightarrow>
                if pending_tunnel then reroute_specs_after_dial_failure env peer s
                else (s, [])))"

definition on_tunnel_peer_connected ::
  "peer_id \<Rightarrow> bool \<Rightarrow> tunnel_state \<Rightarrow> tunnel_state \<times> command list" where
  "on_tunnel_peer_connected peer relayed s =
     (if relayed then
        (let s1 = s\<lparr>relayed_peers := finsert peer (relayed_peers s)\<rparr> in
         case fmlookup (pending_by_peer s1) peer of
           None \<Rightarrow> (s1, [])
         | Some specs \<Rightarrow>
             (queue_for_direct peer specs (s1\<lparr>pending_by_peer := fmdrop peer (pending_by_peer s1)\<rparr>), []))
      else
        (let s1 = clear_retry_state peer (s\<lparr>relayed_peers := relayed_peers s |-| {|peer|}\<rparr>) in
         (s1\<lparr>pending_by_peer := fmdrop peer (pending_by_peer s1),
             awaiting_holepunch := fmdrop peer (awaiting_holepunch s1)\<rparr>,
          spawn_all peer (get_or [] (pending_by_peer s1) peer @
            get_or [] (awaiting_holepunch s1) peer))))"

definition on_all_connections_lost ::
  "step_env \<Rightarrow> peer_id \<Rightarrow> tunnel_state \<Rightarrow> tunnel_state \<times> command list" where
  "on_all_connections_lost env peer s0 =
     (let s = s0\<lparr>relayed_peers := relayed_peers s0 |-| {|peer|}\<rparr> in
      if peer |\<in>| pending_retry_redial s then
        (let s1 = set_session_phase peer WaitingRedial
               (s\<lparr>pending_retry_redial := pending_retry_redial s |-| {|peer|}\<rparr>)
         in (s1,
             [case fmlookup (holepunch_sessions s) peer of
                Some session \<Rightarrow>
                  redial_command peer (prioritized_redial_addrs env s1 peer session)
                    (sess_attempt_id session)
              | None \<Rightarrow> DialPeer peer]))
      else
        (case fmlookup (awaiting_holepunch s) peer of
           Some waiting_specs \<Rightarrow>
             (let s1 = clear_retry_state peer
                    (s\<lparr>awaiting_holepunch := fmdrop peer (awaiting_holepunch s)\<rparr>)
              in (s1\<lparr>pending_by_peer := entry_extend peer waiting_specs (pending_by_peer s1)\<rparr>,
                  [DialPeer peer]))
         | None \<Rightarrow> (clear_retry_state peer s, [])))"

fun tunnel_transition :: "step_env \<Rightarrow> tunnel_state \<Rightarrow> event \<Rightarrow> tunnel_state \<times> command list" where
  "tunnel_transition env s (PhaseChanged _ Ready) = on_phase_ready env s"
| "tunnel_transition env s (RelayReservationAccepted _) = (s, [PublishServices])"
| "tunnel_transition env s (DhtPeerLookupComplete peer connected) =
     on_dht_peer_lookup_complete peer connected s"
| "tunnel_transition env s (DhtServiceResolved service providers) =
     on_dht_service_resolved service providers s"
| "tunnel_transition env s (DhtServiceFailed service _) = on_dht_service_failed service s"
| "tunnel_transition env s (TunnelDialFailed peer reason) = on_tunnel_dial_failed env peer reason s"
| "tunnel_transition env s (PeerIdentified peer listen_addrs _) =
     (update_address_oracle env peer listen_addrs s, [])"
| "tunnel_transition env s (TunnelPeerConnected peer relayed) =
     on_tunnel_peer_connected peer relayed s"
| "tunnel_transition env s (HolePunchAttemptStarted peer attempt_id) =
     (begin_holepunch_attempt peer attempt_id s, [])"
| "tunnel_transition env s (HolePunchFailed _ _) = (s, [])"
| "tunnel_transition env s (HolePunchAttemptFailed peer attempt_id _) =
     retry_holepunch_attempt peer attempt_id s"
| "tunnel_transition env s (HolePunchAttemptTimeout peer attempt_id) =
     retry_holepunch_attempt peer attempt_id s"
| "tunnel_transition env s (ConnectionLost peer remaining_connections) =
     (if remaining_connections = 0 then on_all_connections_lost env peer s else (s, []))"
| "tunnel_transition env s _ = (s, [])"

end
