(* ===== verification/Tunnel_Conserve.thy ===== *)
theory Tunnel_Conserve
  imports Tunnel_Machine
begin

text \<open>
  No tunnel is lost: the tunnels a \<open>TunnelState\<close> holds, as a multiset of service and bind
  address, and the fact that every transition keeps each of them or opens it with a
  \<open>SpawnTunnel\<close> command.
\<close>

named_theorems hold_simps \<open>how the operations change the tunnels held\<close>

definition targets_held :: "tunnel_state \<Rightarrow> tunnel_target multiset" where
  "targets_held s =
     fm_bag (\<lambda>_ spec. spec) (pending_by_peer s) + fm_bag (\<lambda>_ spec. spec) (awaiting_holepunch s) +
     fm_bag (\<lambda>service bind. (service, bind)) (pending_by_service s)"

lemma held_new [simp]: "targets_held new_tunnel_state = {#}"
  by (simp add: targets_held_def new_tunnel_state_def)

lemma held_add_peer [hold_simps]:
  "targets_held (add_peer_tunnel peer service bind s) = add_mset (service, bind) (targets_held s)"
  by (simp add: targets_held_def add_peer_tunnel_def fm_bag_extend)

lemma held_add_service [hold_simps]:
  "targets_held (add_service_tunnel service bind s) = add_mset (service, bind) (targets_held s)"
  by (simp add: targets_held_def add_service_tunnel_def fm_bag_extend)

text \<open>The operations that touch no tunnel.\<close>

lemma held_frame [hold_simps]:
  "targets_held (s\<lparr>relayed_peers := x\<rparr>) = targets_held s"
  "targets_held (s\<lparr>holepunch_sessions := y\<rparr>) = targets_held s"
  "targets_held (s\<lparr>pending_retry_redial := z\<rparr>) = targets_held s"
  "targets_held (s\<lparr>service_provider_candidates := w\<rparr>) = targets_held s"
  "targets_held (s\<lparr>address_oracle := v\<rparr>) = targets_held s"
  "targets_held (s\<lparr>address_last_seen := u\<rparr>) = targets_held s"
  by (simp_all add: targets_held_def)

lemma held_clear_retry [hold_simps]: "targets_held (clear_retry_state peer s) = targets_held s"
  by (simp add: targets_held_def clear_retry_state_def)

lemma held_set_phase [hold_simps]: "targets_held (set_session_phase peer ph s) = targets_held s"
  by (simp add: targets_held_def set_session_phase_def split: option.split)

lemma held_mark [hold_simps]: "targets_held (mark_dial_retry peer i s) = targets_held s"
  by (simp add: targets_held_def mark_dial_retry_def split: option.split)

lemma held_schedule [hold_simps]: "targets_held (schedule_holepunch_retry peer s) = targets_held s"
  by (simp add: targets_held_def schedule_holepunch_retry_def)

lemma held_begin [hold_simps]: "targets_held (begin_holepunch_attempt peer i s) = targets_held s"
  by (simp add: begin_holepunch_attempt_def Let_def hold_simps)

lemma held_store [hold_simps]: "targets_held (store_provider_candidates service ps s) = targets_held s"
  by (simp add: store_provider_candidates_def Let_def hold_simps)

lemma held_oracle [hold_simps]: "targets_held (update_address_oracle env peer addrs s) = targets_held s"
  by (simp add: update_address_oracle_def record_address_candidates_def Let_def hold_simps
      split: option.split)

lemma held_next_fallback [hold_simps]:
  "targets_held (snd (next_fallback_provider service peer s)) = targets_held s"
  by (simp add: next_fallback_provider_def hold_simps split: option.split prod.split)

text \<open>The operations that move tunnels.\<close>

lemma held_queue [hold_simps]:
  "targets_held (queue_for_direct peer specs s) = targets_held s + mset specs"
  by (simp add: targets_held_def queue_for_direct_def fm_bag_extend)

lemma held_extend_peer [hold_simps]:
  "targets_held (s\<lparr>pending_by_peer := entry_extend peer specs (pending_by_peer s)\<rparr>) =
     targets_held s + mset specs"
  by (simp add: targets_held_def fm_bag_extend)

lemma held_extend_service [hold_simps]:
  "targets_held (s\<lparr>pending_by_service := entry_extend service binds (pending_by_service s)\<rparr>) =
     targets_held s + mset (map (\<lambda>bind. (service, bind)) binds)"
  by (simp add: targets_held_def fm_bag_extend)

lemma held_drop_peer:
  "targets_held s =
     targets_held (s\<lparr>pending_by_peer := fmdrop peer (pending_by_peer s)\<rparr>) +
     mset (get_or [] (pending_by_peer s) peer)"
  using fm_bag_drop [of "\<lambda>_ spec. spec" "pending_by_peer s" peer]
  by (simp add: targets_held_def)

lemma held_drop_waiting:
  "targets_held s =
     targets_held (s\<lparr>awaiting_holepunch := fmdrop peer (awaiting_holepunch s)\<rparr>) +
     mset (get_or [] (awaiting_holepunch s) peer)"
  using fm_bag_drop [of "\<lambda>_ spec. spec" "awaiting_holepunch s" peer]
  by (simp add: targets_held_def)

lemma held_drop_service:
  "targets_held s =
     targets_held (s\<lparr>pending_by_service := fmdrop service (pending_by_service s)\<rparr>) +
     mset (map (\<lambda>bind. (service, bind)) (get_or [] (pending_by_service s) service))"
  using fm_bag_drop [of "\<lambda>service bind. (service, bind)" "pending_by_service s" service]
  by (simp add: targets_held_def)

lemma spawned_spawn_all [simp]: "spawned_bag (spawn_all peer specs) = mset specs"
  by (simp add: spawn_all_def spawned_bag_map_spawn)

lemma held_route:
  "targets_held (fst (route_connected_peer peer specs s)) +
     spawned_bag (snd (route_connected_peer peer specs s)) = targets_held s + mset specs"
  by (simp add: route_connected_peer_def hold_simps)

section \<open>Rerouting after a dial failure\<close>

lemma held_reroute_one:
  assumes "reroute_one peer spec (s, reassign, refresh) = (s', reassign', refresh')"
  shows "targets_held s' + fm_bag (\<lambda>_ x. x) reassign' =
    add_mset spec (targets_held s + fm_bag (\<lambda>_ x. x) reassign)"
proof -
  obtain service bind where spec: "spec = (service, bind)" by (cases spec)
  obtain r t where n: "next_fallback_provider service peer s = (r, t)"
    by (metis surj_pair)
  then have t: "targets_held t = targets_held s"
    using held_next_fallback [of service peer s] by simp
  show ?thesis
    using assms t
    by (cases r) (auto simp: reroute_one_def spec n hold_simps fm_bag_extend)
qed

lemma held_reroute_fold:
  "fold (reroute_one peer) specs (s, reassign, refresh) = (s', reassign', refresh') \<Longrightarrow>
     targets_held s' + fm_bag (\<lambda>_ x. x) reassign' =
     targets_held s + fm_bag (\<lambda>_ x. x) reassign + mset specs"
proof (induction specs arbitrary: s reassign refresh)
  case Nil
  then show ?case by simp
next
  case (Cons spec specs)
  obtain t reassign1 refresh1 where
    one: "reroute_one peer spec (s, reassign, refresh) = (t, reassign1, refresh1)"
    by (metis surj_pair)
  with Cons.prems have
    "fold (reroute_one peer) specs (t, reassign1, refresh1) = (s', reassign', refresh')"
    by simp
  from Cons.IH [OF this] held_reroute_one [OF one] show ?case
    by simp
qed

lemma held_assign_fold:
  "targets_held (fold (assign_to_peer reassign) peers s) =
     targets_held s + mset (concat (map (get_or [] reassign) peers))"
  by (induction peers arbitrary: s) (simp_all add: assign_to_peer_def hold_simps ac_simps)

lemma held_reroute:
  assumes env: "env_ok env"
  shows "targets_held (fst (reroute_specs_after_dial_failure env peer s)) +
      spawned_bag (snd (reroute_specs_after_dial_failure env peer s)) = targets_held s"
proof (cases "fmlookup (pending_by_peer s) peer")
  case None
  then show ?thesis by (simp add: reroute_specs_after_dial_failure_def)
next
  case (Some specs)
  let ?s0 = "s\<lparr>pending_by_peer := fmdrop peer (pending_by_peer s)\<rparr>"
  obtain s1 reassign refresh where
    f: "fold (reroute_one peer) specs (?s0, fmempty, {||}) = (s1, reassign, refresh)"
    by (metis surj_pair)
  let ?peers = "peer_order env (fmdom reassign)"
  have none_spawned: "spawned_bag (snd (reroute_specs_after_dial_failure env peer s)) = {#}"
    by (rule spawned_bag_none)
      (auto simp: reroute_specs_after_dial_failure_def Some f Let_def)
  have "fm_bag (\<lambda>_ x. x) reassign = mset (concat (map (get_or [] reassign) ?peers))"
    using fm_bag_iterate [of "peer_order env" "\<lambda>_ x. x" reassign] env by (simp add: env_ok_def)
  then have "targets_held (fst (reroute_specs_after_dial_failure env peer s)) =
      targets_held s1 + fm_bag (\<lambda>_ x. x) reassign"
    by (simp add: reroute_specs_after_dial_failure_def Some f Let_def held_assign_fold)
  also have "\<dots> = targets_held ?s0 + mset specs"
    using held_reroute_fold [OF f] by simp
  also have "\<dots> = targets_held s"
    using held_drop_peer [of s peer] Some by simp
  finally have kept: "targets_held (fst (reroute_specs_after_dial_failure env peer s)) = targets_held s" .
  show ?thesis unfolding none_spawned kept by (rule add_0_right)
qed

section \<open>Every arm\<close>

lemma spawned_redial [simp]: "spawned (redial_command peer addrs i) = []"
  by (simp add: redial_command_def)

lemma held_lookup_complete:
  "targets_held (fst (on_dht_peer_lookup_complete peer connected s)) +
     spawned_bag (snd (on_dht_peer_lookup_complete peer connected s)) = targets_held s"
  using held_drop_peer [of s peer]
  by (auto simp: on_dht_peer_lookup_complete_def held_route spawned_bag_Cons split: option.split)

lemma held_service_resolved:
  "targets_held (fst (on_dht_service_resolved service providers s)) +
     spawned_bag (snd (on_dht_service_resolved service providers s)) = targets_held s"
proof (cases "fmlookup (pending_by_service s) service")
  case None
  then show ?thesis by (simp add: on_dht_service_resolved_def)
next
  case (Some binds)
  let ?s0 = "s\<lparr>pending_by_service := fmdrop service (pending_by_service s)\<rparr>"
  have total: "targets_held s = targets_held ?s0 + mset (map (\<lambda>bind. (service, bind)) binds)"
    using held_drop_service [of s service] Some by simp
  show ?thesis
  proof (cases "dedup_provider_candidates providers")
    case Nil
    then show ?thesis
      using total
      by (simp add: on_dht_service_resolved_def Some Let_def spawned_bag_Cons targets_held_def
          fm_bag_upd)
  next
    case (Cons pc fallbacks)
    obtain provider connected where pc: "pc = (provider, connected)" by (cases pc)
    let ?s1 = "store_provider_candidates service (map fst fallbacks) ?s0"
    have "targets_held ?s1 = targets_held ?s0" by (simp add: hold_simps)
    with total show ?thesis
      by (cases connected)
        (simp_all add: on_dht_service_resolved_def Some Cons pc Let_def spawned_bag_Cons held_route
          held_extend_peer)
  qed
qed

lemma held_dial_failed:
  assumes "env_ok env"
  shows "targets_held (fst (on_tunnel_dial_failed env peer reason s)) +
     spawned_bag (snd (on_tunnel_dial_failed env peer reason s)) = targets_held s"
  using held_reroute [OF assms, of peer s]
  by (auto simp: on_tunnel_dial_failed_def Let_def spawned_bag_Cons hold_simps
      split: option.split)

lemma held_peer_connected:
  "targets_held (fst (on_tunnel_peer_connected peer relayed s)) +
     spawned_bag (snd (on_tunnel_peer_connected peer relayed s)) = targets_held s"
proof (cases relayed)
  case True
  then show ?thesis
    using held_drop_peer [of "s\<lparr>relayed_peers := finsert peer (relayed_peers s)\<rparr>" peer]
    by (auto simp: on_tunnel_peer_connected_def Let_def hold_simps split: option.split)
next
  case False
  let ?s1 = "clear_retry_state peer (s\<lparr>relayed_peers := relayed_peers s |-| {|peer|}\<rparr>)"
  let ?s2 = "?s1\<lparr>pending_by_peer := fmdrop peer (pending_by_peer ?s1)\<rparr>"
  have "targets_held s = targets_held ?s1" by (simp add: hold_simps)
  with False show ?thesis
    using held_drop_peer [of ?s1 peer] held_drop_waiting [of ?s2 peer]
    by (simp add: on_tunnel_peer_connected_def Let_def ac_simps)
qed

lemma held_retry:
  "targets_held (fst (retry_holepunch_attempt peer i s)) +
     spawned_bag (snd (retry_holepunch_attempt peer i s)) = targets_held s"
  using held_drop_waiting [of s peer]
  by (simp add: retry_holepunch_attempt_def hold_simps spawned_bag_Cons split: option.split)

lemma held_connections_lost:
  "targets_held (fst (on_all_connections_lost env peer s)) +
     spawned_bag (snd (on_all_connections_lost env peer s)) = targets_held s"
proof -
  let ?s = "s\<lparr>relayed_peers := relayed_peers s |-| {|peer|}\<rparr>"
  have "targets_held s = targets_held ?s" by (simp add: hold_simps)
  then show ?thesis
    using held_drop_waiting [of ?s peer]
    by (auto simp: on_all_connections_lost_def Let_def hold_simps spawned_bag_Cons
        split: option.split)
qed

lemma held_phase_ready:
  "targets_held (fst (on_phase_ready env s)) + spawned_bag (snd (on_phase_ready env s)) =
     targets_held s"
proof -
  have "spawned_bag (snd (on_phase_ready env s)) = {#}"
    by (rule spawned_bag_none) (auto simp: on_phase_ready_def initiate_lookups_def)
  then show ?thesis by (simp add: on_phase_ready_def)
qed

lemma tunnel_step_conserves:
  assumes env: "env_ok env"
  shows "targets_held (fst (tunnel_transition env s e)) +
     spawned_bag (snd (tunnel_transition env s e)) = targets_held s"
proof (cases e)
  case (PhaseChanged old new)
  then show ?thesis by (cases new) (simp_all add: held_phase_ready)
qed (simp_all add: held_lookup_complete held_service_resolved held_dial_failed [OF env]
    held_peer_connected held_retry held_connections_lost on_dht_service_failed_def hold_simps
    spawned_bag_Cons)

interpretation tunnel_flow:
  mealy_conserving tunnel_transition env_ok "\<lambda>_. True" targets_held spawned_bag
  by unfold_locales (simp_all add: tunnel_step_conserves)

text \<open>No tunnel request is lost or duplicated: over any sequence of events, the requests the
  tunnel machine held at the start are, as a multiset of service and bind address, exactly those
  it still holds together with those it opened with \<open>SpawnTunnel\<close> commands.\<close>

lemma tunnels_conserved:
  assumes "\<forall>(env, e)\<in>set es. env_ok env"
  shows "targets_held (fst (mealy_run tunnel_transition s es)) +
     spawned_bag (snd (mealy_run tunnel_transition s es)) = targets_held s"
  by (rule tunnel_flow.run_conserves) (use assms in auto)

text \<open>A tunnel asked for by service: resolved to a connected provider, so opened at once.\<close>

definition sample_bind :: service_addr where
  "sample_bind = \<lparr>host = Domain ''localhost'', port = 2222\<rparr>"

lemma tunnels_conserved_witness:
  "targets_held (fst (mealy_run tunnel_transition
      (add_service_tunnel (ServiceName ''ssh'') sample_bind new_tunnel_state)
      [(sample_env 0, DhtServiceResolved (ServiceName ''ssh'') [(PeerId ''w'', True)])])) +
   spawned_bag (snd (mealy_run tunnel_transition
      (add_service_tunnel (ServiceName ''ssh'') sample_bind new_tunnel_state)
      [(sample_env 0, DhtServiceResolved (ServiceName ''ssh'') [(PeerId ''w'', True)])])) =
   {#(ServiceName ''ssh'', sample_bind)#}"
  by (subst tunnels_conserved) (simp_all add: hold_simps del: mealy_run.simps)

end
