(* ===== verification/Tunnel_Inv.thy ===== *)
theory Tunnel_Inv
  imports Tunnel_Conserve
begin

text \<open>
  The invariant of \<open>TunnelState\<close>: what holds of its queues, of its retry bookkeeping and of its
  address lists in every reachable state, and that each transition keeps it.
\<close>

named_theorems tunnel_ops \<open>the methods of the tunnel machine, unfolded\<close>

lemmas [tunnel_ops] = add_peer_tunnel_def add_service_tunnel_def store_provider_candidates_def
  queue_for_direct_def clear_retry_state_def schedule_holepunch_retry_def
  begin_holepunch_attempt_def set_session_phase_def mark_dial_retry_def
  route_connected_peer_def Let_def

section \<open>Queues\<close>

text \<open>No queue is empty, and no provider is listed twice as a fallback.\<close>

definition queues_wf :: "tunnel_state \<Rightarrow> bool" where
  "queues_wf s \<longleftrightarrow>
     fmpred (\<lambda>_ specs. specs \<noteq> []) (pending_by_peer s) \<and>
     fmpred (\<lambda>_ specs. specs \<noteq> []) (awaiting_holepunch s) \<and>
     fmpred (\<lambda>_ binds. binds \<noteq> []) (pending_by_service s) \<and>
     fmpred (\<lambda>_ providers. providers \<noteq> [] \<and> distinct providers) (service_provider_candidates s)"

lemma fmpred_entry_extend:
  "fmpred (\<lambda>_ xs. xs \<noteq> []) m \<Longrightarrow> xs \<noteq> [] \<Longrightarrow> fmpred (\<lambda>_ xs. xs \<noteq> []) (entry_extend k xs m)"
  by (simp add: entry_extend_def fmpred_upd)

lemma queues_frame [simp]:
  "queues_wf (s\<lparr>relayed_peers := a\<rparr>) = queues_wf s"
  "queues_wf (s\<lparr>holepunch_retry_attempts := b\<rparr>) = queues_wf s"
  "queues_wf (s\<lparr>pending_retry_redial := c\<rparr>) = queues_wf s"
  "queues_wf (s\<lparr>holepunch_sessions := d\<rparr>) = queues_wf s"
  "queues_wf (s\<lparr>address_oracle := e\<rparr>) = queues_wf s"
  "queues_wf (s\<lparr>address_last_seen := f\<rparr>) = queues_wf s"
  by (simp_all add: queues_wf_def)

lemma queues_drop:
  assumes "queues_wf s"
  shows "queues_wf (s\<lparr>pending_by_peer := fmdrop peer (pending_by_peer s)\<rparr>)"
    and "queues_wf (s\<lparr>awaiting_holepunch := fmdrop peer (awaiting_holepunch s)\<rparr>)"
    and "queues_wf (s\<lparr>pending_by_service := fmdrop service (pending_by_service s)\<rparr>)"
  using assms by (simp_all add: queues_wf_def fmpred_drop)

lemma queues_extend:
  assumes "queues_wf s"
  shows "specs \<noteq> [] \<Longrightarrow>
      queues_wf (s\<lparr>pending_by_peer := entry_extend peer specs (pending_by_peer s)\<rparr>)"
    and "specs \<noteq> [] \<Longrightarrow> queues_wf (queue_for_direct peer specs s)"
    and "binds \<noteq> [] \<Longrightarrow>
      queues_wf (s\<lparr>pending_by_service := entry_extend service binds (pending_by_service s)\<rparr>)"
  using assms by (simp_all add: queues_wf_def queue_for_direct_def fmpred_entry_extend)

lemma queues_clear [simp]: "queues_wf (clear_retry_state peer s) = queues_wf s"
  by (simp add: clear_retry_state_def queues_wf_def)

lemma queues_sessions [simp]:
  "queues_wf (set_session_phase peer ph s) = queues_wf s"
  "queues_wf (mark_dial_retry peer i s) = queues_wf s"
  "queues_wf (schedule_holepunch_retry peer s) = queues_wf s"
  "queues_wf (begin_holepunch_attempt peer i s) = queues_wf s"
  by (simp_all add: tunnel_ops queues_wf_def split: option.split)

lemma queues_oracle [simp]: "queues_wf (update_address_oracle env peer addrs s) = queues_wf s"
  by (simp add: update_address_oracle_def record_address_candidates_def queues_wf_def Let_def
      split: option.split)

lemma queues_lookup:
  assumes "queues_wf s"
  shows "fmlookup (pending_by_peer s) peer = Some specs \<Longrightarrow> specs \<noteq> []"
    and "fmlookup (awaiting_holepunch s) peer = Some specs \<Longrightarrow> specs \<noteq> []"
    and "fmlookup (pending_by_service s) service = Some binds \<Longrightarrow> binds \<noteq> []"
    and "fmlookup (service_provider_candidates s) service = Some ps \<Longrightarrow> ps \<noteq> [] \<and> distinct ps"
  using assms unfolding queues_wf_def by (blast dest: fmpredD)+

lemma distinct_dedup_peers: "distinct (dedup_peers ps)"
  using dedup_by_keys [of "\<lambda>p. p" "{||}" ps] by (simp add: dedup_peers_def)

lemma dedup_peers_eq_Nil [simp]: "dedup_peers ps = [] \<longleftrightarrow> ps = []"
  by (simp add: dedup_peers_def)

lemma queues_store: "queues_wf s \<Longrightarrow> queues_wf (store_provider_candidates service ps s)"
  by (simp add: store_provider_candidates_def queues_wf_def fmpred_drop fmpred_upd Let_def
      distinct_dedup_peers)

lemma pop_fallback_Some:
  "pop_fallback exclude ps = (Some p, rest) \<Longrightarrow>
     p \<noteq> exclude \<and> (\<exists>skipped. set skipped \<subseteq> {exclude} \<and> ps = skipped @ p # rest)"
proof (induction exclude ps rule: pop_fallback.induct)
  case (1 exclude)
  then show ?case by simp
next
  case (2 exclude q ps)
  show ?case
  proof (cases "q = exclude")
    case True
    with 2 obtain skipped where "p \<noteq> exclude" "set skipped \<subseteq> {exclude}" "ps = skipped @ p # rest"
      by auto
    with True have "set (q # skipped) \<subseteq> {exclude}" "q # ps = (q # skipped) @ p # rest" by auto
    with \<open>p \<noteq> exclude\<close> show ?thesis by blast
  next
    case False
    with 2 have "q # ps = [] @ p # rest" "p \<noteq> exclude" by simp_all
    then show ?thesis by (metis empty_subsetI list.set(1))
  qed
qed

lemma queues_next_fallback:
  "queues_wf s \<Longrightarrow> queues_wf (snd (next_fallback_provider service peer s))"
proof -
  assume wf: "queues_wf s"
  show ?thesis
  proof (cases "fmlookup (service_provider_candidates s) service")
    case None
    with wf show ?thesis by (simp add: next_fallback_provider_def)
  next
    case (Some ps)
    have d: "distinct ps" using queues_lookup(4) [OF wf Some] by simp
    obtain r rest where p: "pop_fallback peer ps = (r, rest)" by (metis surj_pair)
    have "distinct rest" if "r = Some q" for q
      using pop_fallback_Some [of peer ps q rest] p that d by auto
    with wf Some p show ?thesis
      by (cases r) (simp_all add: next_fallback_provider_def queues_wf_def fmpred_drop fmpred_upd)
  qed
qed

lemma queues_route:
  "queues_wf s \<Longrightarrow> specs \<noteq> [] \<Longrightarrow> queues_wf (fst (route_connected_peer peer specs s))"
  by (simp add: route_connected_peer_def queues_extend)

lemma queues_reroute_fold:
  "queues_wf s \<Longrightarrow> fmpred (\<lambda>_ xs. xs \<noteq> []) reassign \<Longrightarrow>
   fold (reroute_one peer) specs (s, reassign, refresh) = (s', reassign', refresh') \<Longrightarrow>
     queues_wf s' \<and> fmpred (\<lambda>_ xs. xs \<noteq> []) reassign'"
proof (induction specs arbitrary: s reassign refresh)
  case Nil
  then show ?case by simp
next
  case (Cons spec specs)
  obtain service bind where spec: "spec = (service, bind)" by (cases spec)
  obtain r t where n: "next_fallback_provider service peer s = (r, t)" by (metis surj_pair)
  have t: "queues_wf t" using queues_next_fallback [OF Cons.prems(1), of service peer] n by simp
  show ?case
  proof (cases r)
    case None
    have "queues_wf (t\<lparr>pending_by_service := entry_extend service [bind] (pending_by_service t)\<rparr>)"
      using t by (simp add: queues_extend)
    from Cons.IH [OF this Cons.prems(2)] Cons.prems(3) show ?thesis
      by (simp add: reroute_one_def spec n None)
  next
    case (Some q)
    have "fmpred (\<lambda>_ xs. xs \<noteq> []) (entry_extend q [(service, bind)] reassign)"
      using Cons.prems(2) by (simp add: fmpred_entry_extend)
    from Cons.IH [OF t this] Cons.prems(3) show ?thesis
      by (simp add: reroute_one_def spec n Some)
  qed
qed

lemma queues_assign_fold:
  "queues_wf s \<Longrightarrow> (\<forall>p\<in>set peers. get_or [] reassign p \<noteq> []) \<Longrightarrow>
     queues_wf (fold (assign_to_peer reassign) peers s)"
  by (induction peers arbitrary: s) (simp_all add: assign_to_peer_def queues_extend)

lemma queues_reroute:
  assumes env: "env_ok env" and wf: "queues_wf s"
  shows "queues_wf (fst (reroute_specs_after_dial_failure env peer s))"
proof (cases "fmlookup (pending_by_peer s) peer")
  case None
  with wf show ?thesis by (simp add: reroute_specs_after_dial_failure_def)
next
  case (Some specs)
  let ?s0 = "s\<lparr>pending_by_peer := fmdrop peer (pending_by_peer s)\<rparr>"
  obtain s1 reassign refresh where
    f: "fold (reroute_one peer) specs (?s0, fmempty, {||}) = (s1, reassign, refresh)"
    by (metis surj_pair)
  have s1: "queues_wf s1" and ne: "fmpred (\<lambda>_ xs. xs \<noteq> []) reassign"
    using queues_reroute_fold [OF queues_drop(1) [OF wf] _ f] by simp_all
  have "get_or [] reassign p \<noteq> []" if "p \<in> set (peer_order env (fmdom reassign))" for p
  proof -
    have "p |\<in>| fmdom reassign" using that env by (auto simp: env_ok_def iterates_def)
    then obtain xs where "fmlookup reassign p = Some xs" by (auto simp: fmlookup_dom_iff)
    with fmpredD [OF ne this] show ?thesis by simp
  qed
  with s1 show ?thesis
    by (simp add: reroute_specs_after_dial_failure_def Some f Let_def queues_assign_fold)
qed

lemma queues_restore:
  "queues_wf s \<Longrightarrow> binds \<noteq> [] \<Longrightarrow>
     queues_wf (s\<lparr>pending_by_service := fmupd service binds (pending_by_service s)\<rparr>)"
  by (simp add: queues_wf_def fmpred_upd)

lemma queues_service_resolved:
  assumes wf: "queues_wf s"
  shows "queues_wf (fst (on_dht_service_resolved service providers s))"
proof (cases "fmlookup (pending_by_service s) service")
  case None
  with wf show ?thesis by (simp add: on_dht_service_resolved_def)
next
  case (Some binds)
  let ?s0 = "s\<lparr>pending_by_service := fmdrop service (pending_by_service s)\<rparr>"
  have binds: "binds \<noteq> []" and s0: "queues_wf ?s0"
    using queues_lookup(3) [OF wf Some] queues_drop(3) [OF wf] by simp_all
  show ?thesis
  proof (cases "dedup_provider_candidates providers")
    case Nil
    with wf binds show ?thesis
      using queues_restore [OF s0 binds, of service] Some
      by (simp add: on_dht_service_resolved_def Let_def)
  next
    case (Cons pc fallbacks)
    obtain provider connected where pc: "pc = (provider, connected)" by (cases pc)
    let ?s1 = "store_provider_candidates service (map fst fallbacks) ?s0"
    have s1: "queues_wf ?s1" using queues_store [OF s0] .
    show ?thesis
      using binds queues_route [OF s1] queues_extend(1) [OF s1] Some Cons pc
      by (cases connected) (simp_all add: on_dht_service_resolved_def Let_def)
  qed
qed

lemma queues_connections_lost:
  assumes wf: "queues_wf s"
  shows "queues_wf (fst (on_all_connections_lost env peer s))"
proof -
  let ?s = "s\<lparr>relayed_peers := relayed_peers s |-| {|peer|}\<rparr>"
  let ?t = "clear_retry_state peer
    (?s\<lparr>awaiting_holepunch := fmdrop peer (awaiting_holepunch ?s)\<rparr>)"
  have s: "queues_wf ?s" using wf by simp
  have t: "queues_wf ?t"
    using queues_drop(2) [OF s, of peer] by (simp only: queues_clear)
  show ?thesis
  proof (cases "fmlookup (awaiting_holepunch ?s) peer")
    case None
    with wf show ?thesis by (simp add: on_all_connections_lost_def Let_def)
  next
    case (Some specs)
    have "specs \<noteq> []" using queues_lookup(2) [OF s Some] .
    from queues_extend(1) [OF t this, of peer] Some wf show ?thesis
      by (simp add: on_all_connections_lost_def Let_def)
  qed
qed

lemma queues_step:
  assumes env: "env_ok env" and wf: "queues_wf s"
  shows "queues_wf (fst (tunnel_transition env s e))"
proof (cases e)
  case (PhaseChanged old new)
  with wf show ?thesis by (cases new) (simp_all add: on_phase_ready_def)
next
  case (DhtPeerLookupComplete peer connected)
  with wf show ?thesis
    by (auto simp: on_dht_peer_lookup_complete_def split: option.split
        intro: queues_route queues_drop dest: queues_lookup(1) [OF wf])
next
  case (TunnelDialFailed peer reason)
  with wf show ?thesis
    by (auto simp: on_tunnel_dial_failed_def Let_def queues_reroute [OF env] split: option.split)
next
  case (TunnelPeerConnected peer relayed)
  let ?r = "s\<lparr>relayed_peers := finsert peer (relayed_peers s)\<rparr>"
  let ?d = "clear_retry_state peer (s\<lparr>relayed_peers := relayed_peers s |-| {|peer|}\<rparr>)"
  have r: "queues_wf ?r" and d: "queues_wf ?d" using wf by simp_all
  show ?thesis
  proof (cases relayed)
    case True
    then show ?thesis
      using r queues_lookup(1) [OF r] queues_extend(2) [OF queues_drop(1) [OF r]]
      by (auto simp: TunnelPeerConnected on_tunnel_peer_connected_def Let_def split: option.split)
  next
    case False
    then show ?thesis
      using queues_drop(2) [OF queues_drop(1) [OF d, of peer], of peer]
      by (simp add: TunnelPeerConnected on_tunnel_peer_connected_def Let_def)
  qed
next
  case (HolePunchAttemptFailed peer i reason)
  with wf queues_drop(2) [OF wf, of peer] show ?thesis
    by (simp add: retry_holepunch_attempt_def split: option.split)
next
  case (HolePunchAttemptTimeout peer i)
  with wf queues_drop(2) [OF wf, of peer] show ?thesis
    by (simp add: retry_holepunch_attempt_def split: option.split)
qed (use wf in \<open>simp_all add: queues_service_resolved on_dht_service_failed_def
    queues_connections_lost\<close>)

section \<open>Retries\<close>

text \<open>
  The bookkeeping of the retries: a counter is between one and the limit, belongs to a session,
  every peer to be redialled after its connections are closed has a counter, a session waits for
  the connections to close only for such a peer, and a tunnel waits for a direct path only to a
  peer that is relayed or is being retried.
\<close>

definition retry_wf :: "tunnel_state \<Rightarrow> bool" where
  "retry_wf s \<longleftrightarrow>
     fmpred (\<lambda>_ n. 1 \<le> n \<and> n \<le> MAX_RELAY_RECONNECT_RETRIES) (holepunch_retry_attempts s) \<and>
     fmdom (holepunch_retry_attempts s) |\<subseteq>| fmdom (holepunch_sessions s) \<and>
     pending_retry_redial s |\<subseteq>| fmdom (holepunch_retry_attempts s) \<and>
     fmpred (\<lambda>p session. sess_phase session = WaitingDisconnect \<longrightarrow> p |\<in>| pending_retry_redial s)
       (holepunch_sessions s) \<and>
     fmdom (awaiting_holepunch s) |\<subseteq>| relayed_peers s |\<union>| fmdom (holepunch_retry_attempts s)"

lemma retry_frame [simp]:
  "retry_wf (s\<lparr>pending_by_peer := a\<rparr>) = retry_wf s"
  "retry_wf (s\<lparr>pending_by_service := b\<rparr>) = retry_wf s"
  "retry_wf (s\<lparr>service_provider_candidates := c\<rparr>) = retry_wf s"
  "retry_wf (s\<lparr>address_oracle := d\<rparr>) = retry_wf s"
  "retry_wf (s\<lparr>address_last_seen := e\<rparr>) = retry_wf s"
  by (simp_all add: retry_wf_def)

lemma retry_store [simp]: "retry_wf (store_provider_candidates service ps s) = retry_wf s"
  by (simp add: store_provider_candidates_def Let_def)

lemma retry_next_fallback [simp]:
  "retry_wf (snd (next_fallback_provider service peer s)) = retry_wf s"
  by (simp add: next_fallback_provider_def split: option.split prod.split)

lemma retry_clear: "retry_wf s \<Longrightarrow> peer |\<notin>| fmdom (awaiting_holepunch s) \<Longrightarrow> retry_wf (clear_retry_state peer s)"
  unfolding retry_wf_def clear_retry_state_def
  by (auto simp: fmpred_drop intro!: fmpredI split: if_splits dest: fmpredD)

lemma retry_drop_waiting:
  "retry_wf s \<Longrightarrow> retry_wf (s\<lparr>awaiting_holepunch := fmdrop peer (awaiting_holepunch s)\<rparr>)"
  unfolding retry_wf_def by auto

lemma retry_unrelay:
  "retry_wf s \<Longrightarrow> peer |\<notin>| fmdom (awaiting_holepunch s) \<or> peer |\<in>| fmdom (holepunch_retry_attempts s) \<Longrightarrow>
     retry_wf (s\<lparr>relayed_peers := relayed_peers s |-| {|peer|}\<rparr>)"
  unfolding retry_wf_def by auto

lemma retry_relay: "retry_wf s \<Longrightarrow> retry_wf (s\<lparr>relayed_peers := finsert peer (relayed_peers s)\<rparr>)"
  unfolding retry_wf_def by auto

lemma retry_queue:
  "retry_wf s \<Longrightarrow> peer |\<in>| relayed_peers s \<Longrightarrow> retry_wf (queue_for_direct peer specs s)"
  unfolding retry_wf_def queue_for_direct_def by (auto simp: entry_extend_def)

lemma retry_route: "retry_wf s \<Longrightarrow> retry_wf (fst (route_connected_peer peer specs s))"
  by (simp add: route_connected_peer_def retry_queue)

text \<open>Replacing a session by one in the same phase, or in one that is not waiting.\<close>

lemma retry_session_upd:
  assumes "retry_wf s"
    and "sess_phase session = WaitingDisconnect \<Longrightarrow> peer |\<in>| pending_retry_redial s"
  shows "retry_wf (s\<lparr>holepunch_sessions := fmupd peer session (holepunch_sessions s)\<rparr>)"
  using assms unfolding retry_wf_def by (auto simp: fmpred_upd)

lemma retry_begin: "retry_wf s \<Longrightarrow> retry_wf (begin_holepunch_attempt peer i s)"
  by (auto simp: begin_holepunch_attempt_def Let_def intro!: retry_session_upd)

lemma retry_waiting_pending:
  "retry_wf s \<Longrightarrow> fmlookup (holepunch_sessions s) peer = Some session \<Longrightarrow>
     sess_phase session = WaitingDisconnect \<Longrightarrow> peer |\<in>| pending_retry_redial s"
  unfolding retry_wf_def by (blast dest: fmpredD)

lemma retry_mark: "retry_wf s \<Longrightarrow> retry_wf (mark_dial_retry peer i s)"
  by (auto simp: mark_dial_retry_def retry_waiting_pending split: option.split
      intro!: retry_session_upd)

lemma refresh_session_phase [simp]:
  "sess_phase (refresh_session relays directs session) = sess_phase session"
  "sess_attempt_id (refresh_session relays directs session) = sess_attempt_id session"
  by (simp_all add: refresh_session_def Let_def)

lemma record_frame [simp]:
  "holepunch_sessions (record_address_candidates peer addrs now s) = holepunch_sessions s"
  "pending_retry_redial (record_address_candidates peer addrs now s) = pending_retry_redial s"
  "address_oracle (record_address_candidates peer addrs now s) = address_oracle s"
  "retry_wf (record_address_candidates peer addrs now s) = retry_wf s"
  by (simp_all add: record_address_candidates_def Let_def)

lemma retry_oracle:
  assumes wf: "retry_wf s"
  shows "retry_wf (update_address_oracle env peer addrs s)"
proof -
  let ?r = "record_address_candidates peer addrs (clock env) s"
  have "retry_wf ?r" using wf by simp
  moreover have "retry_wf (?r\<lparr>holepunch_sessions :=
      fmupd peer (refresh_session relays directs session) (holepunch_sessions ?r)\<rparr>)"
    if "fmlookup (holepunch_sessions s) peer = Some session" for relays directs session
    by (rule retry_session_upd [OF \<open>retry_wf ?r\<close>])
      (use retry_waiting_pending [OF wf that] in simp)
  ultimately show ?thesis
    by (simp add: update_address_oracle_def Let_def split: option.split)
qed

lemma retry_schedule:
  assumes wf: "retry_wf s" and session: "fmlookup (holepunch_sessions s) peer = Some session"
    and room: "\<not> MAX_RELAY_RECONNECT_RETRIES \<le> get_or 0 (holepunch_retry_attempts s) peer"
  shows "retry_wf (schedule_holepunch_retry peer s)"
proof -
  let ?n = "get_or 0 (holepunch_retry_attempts s) peer"
  have small: "unat ?n < 3"
    using room by (simp add: MAX_RELAY_RECONNECT_RETRIES_def word_le_nat_alt)
  have "unat (saturating_add ?n 1) = unat ?n + 1"
    using small by (simp add: unat_saturating_add)
  with small have n: "1 \<le> saturating_add ?n 1" "saturating_add ?n 1 \<le> MAX_RELAY_RECONNECT_RETRIES"
    by (simp_all add: MAX_RELAY_RECONNECT_RETRIES_def word_le_nat_alt)
  have dom: "peer |\<in>| fmdom (holepunch_sessions s)"
    using session by (rule fmdomI)
  have 1: "fmpred (\<lambda>_ n. 1 \<le> n \<and> n \<le> MAX_RELAY_RECONNECT_RETRIES)
      (fmupd peer (saturating_add ?n 1) (holepunch_retry_attempts s))"
    using wf n by (simp add: retry_wf_def fmpred_upd)
  have 2: "fmpred (\<lambda>p session. sess_phase session = WaitingDisconnect \<longrightarrow>
      p |\<in>| finsert peer (pending_retry_redial s)) (holepunch_sessions s)"
    using wf unfolding retry_wf_def by (auto intro!: fmpredI dest: fmpredD)
  show ?thesis
    using wf 1 2 dom unfolding retry_wf_def schedule_holepunch_retry_def by auto
qed

lemma schedule_frame [simp]:
  "holepunch_sessions (schedule_holepunch_retry peer s) = holepunch_sessions s"
  "awaiting_holepunch (schedule_holepunch_retry peer s) = awaiting_holepunch s"
  "pending_retry_redial (schedule_holepunch_retry peer s) = finsert peer (pending_retry_redial s)"
  by (simp_all add: schedule_holepunch_retry_def)

lemma retry_attempt:
  assumes wf: "retry_wf s"
  shows "retry_wf (fst (retry_holepunch_attempt peer i s))"
proof (cases "fmlookup (holepunch_sessions s) peer")
  case None
  with wf show ?thesis by (simp add: retry_holepunch_attempt_def)
next
  case (Some session)
  have "retry_wf (clear_retry_state peer
      (s\<lparr>awaiting_holepunch := fmdrop peer (awaiting_holepunch s)\<rparr>))"
    by (rule retry_clear [OF retry_drop_waiting [OF wf]]) simp
  moreover have "retry_wf (set_session_phase peer WaitingDisconnect (schedule_holepunch_retry peer s))"
    if "\<not> MAX_RELAY_RECONNECT_RETRIES \<le> get_or 0 (holepunch_retry_attempts s) peer"
    using retry_session_upd [OF retry_schedule [OF wf Some that],
        of "session\<lparr>sess_phase := WaitingDisconnect\<rparr>" peer] Some
    by (simp add: set_session_phase_def)
  ultimately show ?thesis
    using wf Some by (simp add: retry_holepunch_attempt_def)
qed

lemma retry_redial_taken:
  assumes wf: "retry_wf s"
  shows "retry_wf (set_session_phase peer WaitingRedial
    (s\<lparr>pending_retry_redial := pending_retry_redial s |-| {|peer|}\<rparr>))"
proof -
  have sessions: "fmpred (\<lambda>p session. sess_phase session = WaitingDisconnect \<longrightarrow>
      p |\<in>| pending_retry_redial s) (holepunch_sessions s)"
    using wf by (simp add: retry_wf_def)
  show ?thesis
  proof (cases "fmlookup (holepunch_sessions s) peer")
    case None
    then have "fmpred (\<lambda>p session. sess_phase session = WaitingDisconnect \<longrightarrow>
        p |\<in>| pending_retry_redial s |-| {|peer|}) (holepunch_sessions s)"
      using fmpredD [OF sessions] by (auto intro!: fmpredI)
    with wf None show ?thesis
      unfolding retry_wf_def set_session_phase_def by auto
  next
    case (Some session)
    have "fmpred (\<lambda>p session. sess_phase session = WaitingDisconnect \<longrightarrow>
        p |\<in>| pending_retry_redial s |-| {|peer|})
        (fmupd peer (session\<lparr>sess_phase := WaitingRedial\<rparr>) (holepunch_sessions s))"
      using fmpredD [OF sessions] by (auto intro!: fmpredI split: if_splits)
    with wf Some show ?thesis
      unfolding retry_wf_def set_session_phase_def by auto
  qed
qed

lemma retry_connections_lost:
  assumes wf: "retry_wf s"
  shows "retry_wf (fst (on_all_connections_lost env peer s))"
proof (cases "peer |\<in>| pending_retry_redial s")
  case True
  then have "peer |\<in>| fmdom (holepunch_retry_attempts s)" using wf by (auto simp: retry_wf_def)
  then have "retry_wf (s\<lparr>relayed_peers := relayed_peers s |-| {|peer|}\<rparr>)"
    using wf by (simp add: retry_unrelay)
  from retry_redial_taken [OF this, of peer] True show ?thesis
    by (simp add: on_all_connections_lost_def Let_def)
next
  case False
  let ?d = "s\<lparr>awaiting_holepunch := fmdrop peer (awaiting_holepunch s)\<rparr>"
  have "retry_wf ?d" using retry_drop_waiting [OF wf] .
  then have "retry_wf (?d\<lparr>relayed_peers := relayed_peers ?d |-| {|peer|}\<rparr>)"
    by (rule retry_unrelay) simp
  then have dropped: "retry_wf (clear_retry_state peer (?d\<lparr>relayed_peers := relayed_peers ?d |-| {|peer|}\<rparr>))"
    by (rule retry_clear) simp
  show ?thesis
  proof (cases "fmlookup (awaiting_holepunch s) peer")
    case None
    then have "?d = s" by (simp add: fmdrop_idle fmlookup_dom_iff)
    with dropped False None show ?thesis
      by (simp add: on_all_connections_lost_def Let_def)
  next
    case (Some specs)
    with dropped False Some show ?thesis
      by (simp add: on_all_connections_lost_def Let_def retry_wf_def clear_retry_state_def)
  qed
qed

lemma retry_reroute_fold:
  "retry_wf s \<Longrightarrow> fold (reroute_one peer) specs (s, reassign, refresh) = (s', reassign', refresh') \<Longrightarrow>
     retry_wf s'"
proof (induction specs arbitrary: s reassign refresh)
  case Nil
  then show ?case by simp
next
  case (Cons spec specs)
  obtain service bind where spec: "spec = (service, bind)" by (cases spec)
  obtain r t where n: "next_fallback_provider service peer s = (r, t)" by (metis surj_pair)
  have t: "retry_wf t" using retry_next_fallback [of service peer s] n Cons.prems(1) by simp
  show ?case
  proof (cases r)
    case None
    with Cons.IH [of "t\<lparr>pending_by_service := entry_extend service [bind] (pending_by_service t)\<rparr>"]
      Cons.prems(2) t show ?thesis by (simp add: reroute_one_def spec n)
  next
    case (Some q)
    with Cons.IH [OF t] Cons.prems(2) show ?thesis by (simp add: reroute_one_def spec n)
  qed
qed

lemma retry_assign_fold:
  "retry_wf (fold (assign_to_peer reassign) peers s) = retry_wf s"
  by (induction peers arbitrary: s) (simp_all add: assign_to_peer_def)

lemma retry_reroute:
  assumes wf: "retry_wf s"
  shows "retry_wf (fst (reroute_specs_after_dial_failure env peer s))"
proof (cases "fmlookup (pending_by_peer s) peer")
  case None
  with wf show ?thesis by (simp add: reroute_specs_after_dial_failure_def)
next
  case (Some specs)
  obtain s1 reassign refresh where
    f: "fold (reroute_one peer) specs
      (s\<lparr>pending_by_peer := fmdrop peer (pending_by_peer s)\<rparr>, fmempty, {||}) = (s1, reassign, refresh)"
    by (metis surj_pair)
  from retry_reroute_fold [OF _ f] wf show ?thesis
    by (simp add: reroute_specs_after_dial_failure_def Some f Let_def retry_assign_fold)
qed

lemma retry_service_resolved:
  "retry_wf s \<Longrightarrow> retry_wf (fst (on_dht_service_resolved service providers s))"
  by (simp add: on_dht_service_resolved_def Let_def retry_route
      split: option.split list.split prod.split)

lemma retry_peer_connected:
  assumes wf: "retry_wf s"
  shows "retry_wf (fst (on_tunnel_peer_connected peer relayed s))"
proof (cases relayed)
  case True
  have r: "retry_wf (s\<lparr>relayed_peers := finsert peer (relayed_peers s)\<rparr>)"
    using wf by (rule retry_relay)
  with True show ?thesis
    by (auto simp: on_tunnel_peer_connected_def Let_def split: option.split intro!: retry_queue)
next
  case False
  let ?d = "s\<lparr>awaiting_holepunch := fmdrop peer (awaiting_holepunch s)\<rparr>"
  let ?r = "?d\<lparr>relayed_peers := relayed_peers ?d |-| {|peer|}\<rparr>"
  have "retry_wf ?r" by (rule retry_unrelay [OF retry_drop_waiting [OF wf]]) simp
  then have "retry_wf (clear_retry_state peer ?r)" by (rule retry_clear) simp
  with False show ?thesis
    by (simp add: on_tunnel_peer_connected_def Let_def clear_retry_state_def retry_wf_def)
qed

lemma retry_step:
  assumes wf: "retry_wf s"
  shows "retry_wf (fst (tunnel_transition env s e))"
proof (cases e)
  case (PhaseChanged old new)
  with wf show ?thesis by (cases new) (simp_all add: on_phase_ready_def)
qed (use wf in \<open>simp_all add: on_dht_peer_lookup_complete_def retry_route retry_service_resolved
    on_dht_service_failed_def on_tunnel_dial_failed_def Let_def retry_mark retry_reroute retry_oracle
    retry_peer_connected retry_begin retry_attempt retry_connections_lost split: option.split\<close>)

end
