(* ===== verification/Tunnel_Addrs.thy ===== *)
theory Tunnel_Addrs
  imports Tunnel_Inv
begin

text \<open>
  The address book of \<open>TunnelState\<close>: which candidates \<open>fresh_candidates\<close> selects, what lists the
  sessions and the oracle hold, and what is redialled.  It closes the invariant \<open>tunnel_wf\<close>.
\<close>

section \<open>Fresh candidates\<close>

interpretation candidate: total_comparison "candidate_le env" for env :: step_env
  by unfold_locales (auto simp: candidate_le_def)

interpretation shown_peer: total_comparison "\<lambda>p q. show_peer env p \<le> show_peer env q"
  for env :: step_env
  by unfold_locales auto

text \<open>A candidate of the address book that is still fresh.\<close>

definition is_fresh :: "(multiaddr, instant) fmap \<Rightarrow> instant \<Rightarrow> (multiaddr \<Rightarrow> bool) \<Rightarrow> multiaddr \<Rightarrow> bool"
where
  "is_fresh last_seen now predicate addr \<longleftrightarrow>
     predicate addr \<and>
     (case fmlookup last_seen addr of
        None \<Rightarrow> False
      | Some seen_at \<Rightarrow> now - seen_at \<le> ADDRESS_CANDIDATE_TTL)"

lemma env_addr_order:
  assumes "env_ok env"
  shows "distinct (addr_order env S)" and "set (addr_order env S) = fset S"
  using assms by (auto simp: env_ok_def iterates_def)

lemma fresh_entries_set:
  assumes "env_ok env"
  shows "set (fresh_entries env last_seen now predicate) =
    {(addr, get_or 0 last_seen addr) | addr. is_fresh last_seen now predicate addr}"
  unfolding fresh_entries_def is_fresh_def
  by (auto simp: env_addr_order [OF assms] fmlookup_dom_iff split: option.splits)

lemma fresh_entries_distinct:
  assumes "env_ok env"
  shows "distinct (map fst (fresh_entries env last_seen now predicate))"
proof -
  have "distinct (map fst (map (\<lambda>addr. (addr, get_or 0 last_seen addr)) (addr_order env S)))" for S
    using env_addr_order(1) [OF assms] by (simp add: comp_def)
  then show ?thesis
    unfolding fresh_entries_def by (rule distinct_map_filter)
qed

lemma fresh_candidates_length: "length (fresh_candidates env s peer now predicate limit) \<le> limit"
  by (simp add: fresh_candidates_def split: option.split)

lemma fresh_candidates_set:
  assumes "env_ok env" and "addr \<in> set (fresh_candidates env s peer now predicate limit)"
  obtains last_seen where "fmlookup (address_last_seen s) peer = Some last_seen"
    "is_fresh last_seen now predicate addr"
proof (cases "fmlookup (address_last_seen s) peer")
  case None
  with assms(2) show ?thesis by (simp add: fresh_candidates_def)
next
  case (Some last_seen)
  with assms(2) obtain t where
    "(addr, t) \<in> set (sort_by (candidate_le env) (fresh_entries env last_seen now predicate))"
    by (auto simp: fresh_candidates_def dest: in_set_takeD)
  with that [OF Some] show ?thesis
    by (auto simp: fresh_entries_set [OF assms(1)])
qed

lemma fresh_candidates_predicate:
  "env_ok env \<Longrightarrow> addr \<in> set (fresh_candidates env s peer now predicate limit) \<Longrightarrow> predicate addr"
  by (erule (1) fresh_candidates_set) (simp add: is_fresh_def)

lemma distinct_map_fst_sort_by:
  "distinct (map fst (sort_by le xs)) \<longleftrightarrow> distinct (map fst xs)"
  by (metis mset_sort_by mset_map mset_eq_imp_distinct_iff)

lemma fresh_candidates_distinct:
  assumes "env_ok env"
  shows "distinct (fresh_candidates env s peer now predicate limit)"
proof (cases "fmlookup (address_last_seen s) peer")
  case None
  then show ?thesis by (simp add: fresh_candidates_def)
next
  case (Some last_seen)
  have "distinct (map fst (sort_by (candidate_le env) (fresh_entries env last_seen now predicate)))"
    by (simp add: distinct_map_fst_sort_by fresh_entries_distinct [OF assms])
  with Some show ?thesis
    by (simp add: fresh_candidates_def flip: take_map)
qed

text \<open>C20: The candidates for a redial are distinct, at most as many as the limit, each fresh (seen
  within 45 seconds) and of the kind asked for, and they are the most recent ones: a fresh address
  that is left out was not seen later than any address that is taken.\<close>

theorem fresh_candidates_newest:
  assumes env: "env_ok env"
    and seen: "fmlookup (address_last_seen s) peer = Some last_seen"
  shows "let picked = fresh_candidates env s peer now predicate limit in
    distinct picked \<and> length picked \<le> limit \<and>
    (\<forall>a\<in>set picked. is_fresh last_seen now predicate a) \<and>
    (\<forall>b. is_fresh last_seen now predicate b \<longrightarrow> b \<notin> set picked \<longrightarrow>
       length picked = limit \<and> (\<forall>a\<in>set picked. get_or 0 last_seen b \<le> get_or 0 last_seen a))"
proof -
  let ?sorted = "sort_by (candidate_le env) (fresh_entries env last_seen now predicate)"
  let ?picked = "fresh_candidates env s peer now predicate limit"
  have picked: "?picked = map fst (take limit ?sorted)"
    using seen by (simp add: fresh_candidates_def)
  have entry: "x \<in> set ?sorted \<longleftrightarrow> snd x = get_or 0 last_seen (fst x) \<and>
      is_fresh last_seen now predicate (fst x)" for x
    by (cases x) (auto simp: fresh_entries_set [OF env])
  have fresh: "is_fresh last_seen now predicate a" if "a \<in> set ?picked" for a
    using that fresh_candidates_set [OF env that] seen by auto
  have left_out: "length ?picked = limit \<and>
      (\<forall>a\<in>set ?picked. get_or 0 last_seen b \<le> get_or 0 last_seen a)"
    if b: "is_fresh last_seen now predicate b" "b \<notin> set ?picked" for b
  proof -
    have "(b, get_or 0 last_seen b) \<in> set ?sorted"
      using b entry [of "(b, get_or 0 last_seen b)"] by simp
    moreover have "(b, get_or 0 last_seen b) \<notin> set (take limit ?sorted)"
      using b(2) by (force simp: picked)
    ultimately have dropped: "(b, get_or 0 last_seen b) \<in> set (drop limit ?sorted)"
      by (metis append_take_drop_id Un_iff set_append)
    then have "limit < length ?sorted" by (cases "limit < length ?sorted") auto
    then have "length ?picked = limit" by (simp add: picked)
    moreover have "get_or 0 last_seen b \<le> get_or 0 last_seen a" if "a \<in> set ?picked" for a
    proof -
      have "a \<in> fst ` set (take limit ?sorted)" using that by (simp add: picked)
      then obtain t where a: "(a, t) \<in> set (take limit ?sorted)" by force
      then have "t = get_or 0 last_seen a" using entry [of "(a, t)"] by (auto dest: in_set_takeD)
      with candidate.take_sort_by_least [OF a dropped] show ?thesis
        by (auto simp: candidate_le_def)
    qed
    ultimately show ?thesis by blast
  qed
  show ?thesis
    unfolding Let_def
    using fresh_candidates_distinct [OF env] fresh_candidates_length fresh left_out by blast
qed

text \<open>Three relay addresses, seen at different times, and room for two.\<close>

definition sample_relay :: "16 word \<Rightarrow> multiaddr" where
  "sample_relay n = [Ip4 (Ipv4 203 0 113 1), Udp n, QuicV1, P2pCircuit]"

definition sample_book :: "(multiaddr, instant) fmap" where
  "sample_book = fmupd (sample_relay 1) 10 (fmupd (sample_relay 2) 30
     (fmupd (sample_relay 3) 20 fmempty))"

theorem fresh_candidates_newest_witness:
  "let picked = fresh_candidates (sample_env 40)
     (new_tunnel_state\<lparr>address_last_seen := fmupd (PeerId ''w'') sample_book fmempty\<rparr>)
     (PeerId ''w'') 40 has_p2p_circuit 2
   in distinct picked \<and> length picked \<le> 2 \<and>
      (\<forall>a\<in>set picked. is_fresh sample_book 40 has_p2p_circuit a)"
  using fresh_candidates_newest [OF env_ok_sample,
      where s = "new_tunnel_state\<lparr>address_last_seen := fmupd (PeerId ''w'') sample_book fmempty\<rparr>"
        and peer = "PeerId ''w''" and last_seen = sample_book and now = 40
        and predicate = has_p2p_circuit and limit = 2]
  by (simp add: Let_def)

section \<open>The address lists\<close>

definition addr_lists_ok :: "multiaddr list \<Rightarrow> multiaddr list \<Rightarrow> bool" where
  "addr_lists_ok relays directs \<longleftrightarrow>
     distinct relays \<and> length relays \<le> MAX_RELAY_CANDIDATES \<and> list_all has_p2p_circuit relays \<and>
     distinct directs \<and> length directs \<le> MAX_DIRECT_CANDIDATES \<and>
     list_all is_supported_direct_candidate directs"

definition address_wf :: "tunnel_state \<Rightarrow> bool" where
  "address_wf s \<longleftrightarrow>
     fmpred (\<lambda>_ book. addr_lists_ok (relay_addrs book) (direct_addrs book)) (address_oracle s) \<and>
     fmpred (\<lambda>_ session. addr_lists_ok (relay_redial_addrs session) (direct_snapshot session))
       (holepunch_sessions s) \<and>
     fmpred (\<lambda>_ last_seen. last_seen \<noteq> fmempty \<and>
         fmpred (\<lambda>addr _. has_p2p_circuit addr \<or> is_supported_direct_candidate addr) last_seen)
       (address_last_seen s)"

lemma address_frame [simp]:
  "address_wf (s\<lparr>pending_by_peer := a\<rparr>) = address_wf s"
  "address_wf (s\<lparr>pending_by_service := b\<rparr>) = address_wf s"
  "address_wf (s\<lparr>service_provider_candidates := c\<rparr>) = address_wf s"
  "address_wf (s\<lparr>awaiting_holepunch := d\<rparr>) = address_wf s"
  "address_wf (s\<lparr>relayed_peers := e\<rparr>) = address_wf s"
  "address_wf (s\<lparr>holepunch_retry_attempts := f\<rparr>) = address_wf s"
  "address_wf (s\<lparr>pending_retry_redial := g\<rparr>) = address_wf s"
  by (simp_all add: address_wf_def)

lemma address_clear: "address_wf s \<Longrightarrow> address_wf (clear_retry_state peer s)"
  by (simp add: address_wf_def clear_retry_state_def fmpred_drop)

lemma address_misc [simp]:
  "address_wf (store_provider_candidates service ps s) = address_wf s"
  "address_wf (queue_for_direct peer specs s) = address_wf s"
  "address_wf (schedule_holepunch_retry peer s) = address_wf s"
  "address_wf (snd (next_fallback_provider service peer s)) = address_wf s"
  "address_wf (fst (route_connected_peer peer specs s)) = address_wf s"
  by (simp_all add: store_provider_candidates_def queue_for_direct_def schedule_holepunch_retry_def
      next_fallback_provider_def route_connected_peer_def Let_def split: option.split prod.split)

lemma address_session:
  "address_wf s \<Longrightarrow> fmlookup (holepunch_sessions s) peer = Some session \<Longrightarrow>
     addr_lists_ok (relay_redial_addrs session) (direct_snapshot session)"
  unfolding address_wf_def by (blast dest: fmpredD)

lemma address_session_upd:
  "address_wf s \<Longrightarrow> addr_lists_ok (relay_redial_addrs session) (direct_snapshot session) \<Longrightarrow>
     address_wf (s\<lparr>holepunch_sessions := fmupd peer session (holepunch_sessions s)\<rparr>)"
  by (simp add: address_wf_def fmpred_upd)

lemma address_set_phase: "address_wf s \<Longrightarrow> address_wf (set_session_phase peer ph s)"
  by (simp add: set_session_phase_def address_session_upd address_session split: option.split)

lemma address_mark: "address_wf s \<Longrightarrow> address_wf (mark_dial_retry peer i s)"
  by (simp add: mark_dial_retry_def address_session_upd address_session split: option.split)

lemma addr_lists_empty [simp]: "addr_lists_ok [] []"
  by (simp add: addr_lists_ok_def)

lemma address_book:
  assumes "address_wf s"
  shows "addr_lists_ok (relay_addrs (get_or empty_oracle (address_oracle s) peer))
    (direct_addrs (get_or empty_oracle (address_oracle s) peer))"
proof (cases "fmlookup (address_oracle s) peer")
  case None
  then show ?thesis by (simp add: empty_oracle_def)
next
  case (Some book)
  with assms have "addr_lists_ok (relay_addrs book) (direct_addrs book)"
    unfolding address_wf_def by (blast dest: fmpredD)
  with Some show ?thesis by simp
qed

lemma address_begin: "address_wf s \<Longrightarrow> address_wf (begin_holepunch_attempt peer i s)"
  by (simp add: begin_holepunch_attempt_def Let_def address_session_upd address_book)

lemma see_addr_fold:
  "fmpred (\<lambda>addr _. has_p2p_circuit addr \<or> is_supported_direct_candidate addr) m \<Longrightarrow>
   fmpred (\<lambda>addr _. has_p2p_circuit addr \<or> is_supported_direct_candidate addr)
     (fold (see_addr now) addrs m)"
  by (induction addrs arbitrary: m) (simp_all add: see_addr_def fmpred_upd)

lemma fmpred_map_retain: "fmpred P m \<Longrightarrow> fmpred P (map_retain Q m)"
  by (auto intro!: fmpredI dest: fmpredD split: option.splits if_splits)

lemma address_record:
  assumes wf: "address_wf s"
  shows "address_wf (record_address_candidates peer addrs now s)"
proof -
  have "fmpred (\<lambda>addr _. has_p2p_circuit addr \<or> is_supported_direct_candidate addr)
      (get_or fmempty (address_last_seen s) peer)"
  proof (cases "fmlookup (address_last_seen s) peer")
    case (Some last_seen)
    with wf show ?thesis unfolding address_wf_def by (auto dest: fmpredD)
  qed simp
  from fmpred_map_retain [OF see_addr_fold [OF this]] wf show ?thesis
    by (simp add: record_address_candidates_def Let_def address_wf_def fmpred_drop fmpred_upd)
qed

lemma fresh_lists_ok:
  "env_ok env \<Longrightarrow> addr_lists_ok
     (fresh_candidates env s peer now has_p2p_circuit MAX_RELAY_CANDIDATES)
     (fresh_candidates env s peer now is_supported_direct_candidate MAX_DIRECT_CANDIDATES)"
  by (auto simp: addr_lists_ok_def fresh_candidates_distinct fresh_candidates_length list_all_iff
      intro: fresh_candidates_predicate)

lemma refresh_lists_ok:
  assumes "addr_lists_ok relays directs"
    and "addr_lists_ok (relay_redial_addrs session) (direct_snapshot session)"
  shows "addr_lists_ok (relay_redial_addrs (refresh_session relays directs session))
    (direct_snapshot (refresh_session relays directs session))"
  using assms by (auto simp: refresh_session_def addr_lists_ok_def Let_def)

lemma address_oracle_upd:
  "address_wf s \<Longrightarrow> addr_lists_ok relays directs \<Longrightarrow>
     address_wf (s\<lparr>address_oracle :=
       fmupd peer \<lparr>relay_addrs = relays, direct_addrs = directs\<rparr> (address_oracle s)\<rparr>)"
  by (simp add: address_wf_def fmpred_upd)

lemma address_update_oracle:
  assumes env: "env_ok env" and wf: "address_wf s"
  shows "address_wf (update_address_oracle env peer addrs s)"
proof -
  let ?r = "record_address_candidates peer addrs (clock env) s"
  let ?relays = "fresh_candidates env ?r peer (clock env) has_p2p_circuit MAX_RELAY_CANDIDATES"
  let ?directs = "fresh_candidates env ?r peer (clock env) is_supported_direct_candidate
    MAX_DIRECT_CANDIDATES"
  have r: "address_wf ?r" using wf by (rule address_record)
  have ok: "addr_lists_ok ?relays ?directs" using env by (rule fresh_lists_ok)
  show ?thesis
  proof (cases "fmlookup (holepunch_sessions ?r) peer")
    case None
    from address_oracle_upd [OF r ok] None show ?thesis
      by (simp add: update_address_oracle_def Let_def)
  next
    case (Some session)
    from address_oracle_upd [OF address_session_upd
        [OF r refresh_lists_ok [OF ok address_session [OF r Some]]] ok] Some
    show ?thesis
      by (simp add: update_address_oracle_def Let_def)
  qed
qed

lemma address_reroute_fold:
  "address_wf s \<Longrightarrow> fold (reroute_one peer) specs (s, reassign, refresh) = (s', reassign', refresh') \<Longrightarrow>
     address_wf s'"
proof (induction specs arbitrary: s reassign refresh)
  case Nil
  then show ?case by simp
next
  case (Cons spec specs)
  obtain service bind where spec: "spec = (service, bind)" by (cases spec)
  obtain r t where n: "next_fallback_provider service peer s = (r, t)" by (metis surj_pair)
  have t: "address_wf t" using address_misc(4) [of service peer s] n Cons.prems(1) by simp
  show ?case
  proof (cases r)
    case None
    with Cons.IH [of "t\<lparr>pending_by_service := entry_extend service [bind] (pending_by_service t)\<rparr>"]
      Cons.prems(2) t show ?thesis by (simp add: reroute_one_def spec n)
  next
    case (Some q)
    with Cons.IH [OF t] Cons.prems(2) show ?thesis by (simp add: reroute_one_def spec n)
  qed
qed

lemma address_assign_fold:
  "address_wf (fold (assign_to_peer reassign) peers s) = address_wf s"
  by (induction peers arbitrary: s) (simp_all add: assign_to_peer_def)

lemma address_reroute:
  assumes wf: "address_wf s"
  shows "address_wf (fst (reroute_specs_after_dial_failure env peer s))"
proof (cases "fmlookup (pending_by_peer s) peer")
  case None
  with wf show ?thesis by (simp add: reroute_specs_after_dial_failure_def)
next
  case (Some specs)
  obtain s1 reassign refresh where
    f: "fold (reroute_one peer) specs
      (s\<lparr>pending_by_peer := fmdrop peer (pending_by_peer s)\<rparr>, fmempty, {||}) = (s1, reassign, refresh)"
    by (metis surj_pair)
  from address_reroute_fold [OF _ f] wf show ?thesis
    by (simp add: reroute_specs_after_dial_failure_def Some f Let_def address_assign_fold)
qed

lemma address_step:
  assumes env: "env_ok env" and wf: "address_wf s"
  shows "address_wf (fst (tunnel_transition env s e))"
proof (cases e)
  case (PhaseChanged old new)
  with wf show ?thesis by (cases new) (simp_all add: on_phase_ready_def)
next
  case (DhtServiceResolved service providers)
  with wf show ?thesis
    by (simp add: on_dht_service_resolved_def Let_def split: option.split list.split prod.split)
qed (use wf in \<open>simp_all add: on_dht_peer_lookup_complete_def
    on_dht_service_failed_def on_tunnel_dial_failed_def on_tunnel_peer_connected_def
    on_all_connections_lost_def retry_holepunch_attempt_def Let_def address_mark address_reroute
    address_update_oracle [OF env] address_begin address_clear address_set_phase
    split: option.split\<close>)

section \<open>The invariant\<close>

definition tunnel_wf :: "tunnel_state \<Rightarrow> bool" where
  "tunnel_wf s \<longleftrightarrow> queues_wf s \<and> retry_wf s \<and> address_wf s"

lemma tunnel_wf_new [simp]: "tunnel_wf new_tunnel_state"
  by (simp add: tunnel_wf_def queues_wf_def retry_wf_def address_wf_def new_tunnel_state_def)

lemma tunnel_wf_requests:
  "tunnel_wf s \<Longrightarrow> tunnel_wf (add_peer_tunnel peer service bind s)"
  "tunnel_wf s \<Longrightarrow> tunnel_wf (add_service_tunnel service bind s)"
  "tunnel_wf s \<Longrightarrow> tunnel_wf (set_nat_mapping m s)"
  by (simp_all add: tunnel_wf_def add_peer_tunnel_def add_service_tunnel_def queues_extend
      set_nat_mapping_def) (simp add: queues_wf_def retry_wf_def address_wf_def)

interpretation tunnel_machine: mealy_invariant tunnel_transition env_ok tunnel_wf
  by unfold_locales (simp add: tunnel_wf_def queues_step retry_step address_step)

text \<open>C18: The bookkeeping of the tunnel machine stays consistent over any sequence of events: no
  queue is empty, fallback providers are distinct, every retry counter is between one and three
  and belongs to a session, a session waits for a disconnect only while its redial is pending, a
  tunnel waits for a direct path only to a peer that is relayed or being retried, and the address
  lists are bounded, distinct and of the right kind.\<close>

theorem tunnel_wf_kept:
  assumes "tunnel_wf s" and "\<forall>(env, e)\<in>set es. env_ok env"
  shows "tunnel_wf (fst (mealy_run tunnel_transition s es))"
  using assms by (rule tunnel_machine.run_inv)

theorem tunnel_wf_kept_witness:
  "tunnel_wf (fst (mealy_run tunnel_transition
      (add_peer_tunnel (PeerId ''w'') (ServiceName ''ssh'') sample_bind new_tunnel_state)
      [(sample_env 0, TunnelPeerConnected (PeerId ''w'') True),
       (sample_env 1, HolePunchAttemptStarted (PeerId ''w'') 1),
       (sample_env 2, HolePunchAttemptTimeout (PeerId ''w'') 1),
       (sample_env 3, ConnectionLost (PeerId ''w'') 0)]))"
  by (rule tunnel_wf_kept) (simp_all add: tunnel_wf_requests)

end
