(* ===== verification/Tunnel_Facts.thy ===== *)
theory Tunnel_Facts
  imports Tunnel_Addrs
begin

text \<open>
  What \<open>TunnelState::transition\<close> guarantees: when a tunnel is opened, when a relayed peer is
  disconnected for a retry, what is redialled, and how failed dials and stale attempt reports
  are treated.
\<close>

section \<open>The commands of the arms\<close>

text \<open>Rerouting touches the pending tunnels and the fallback providers only.\<close>

definition same_punches :: "tunnel_state \<Rightarrow> tunnel_state \<Rightarrow> bool" where
  "same_punches s s' \<longleftrightarrow>
     awaiting_holepunch s' = awaiting_holepunch s \<and> relayed_peers s' = relayed_peers s \<and>
     holepunch_retry_attempts s' = holepunch_retry_attempts s \<and>
     pending_retry_redial s' = pending_retry_redial s \<and> holepunch_sessions s' = holepunch_sessions s"

lemma same_punches_refl [simp]: "same_punches s s"
  by (simp add: same_punches_def)

lemma same_punches_trans: "same_punches a b \<Longrightarrow> same_punches b c \<Longrightarrow> same_punches a c"
  by (simp add: same_punches_def)

lemma reroute_one_punches: "same_punches (fst acc) (fst (reroute_one peer spec acc))"
proof -
  have "same_punches t (snd (next_fallback_provider sv q t))" for sv q t
    by (auto simp: next_fallback_provider_def same_punches_def split: option.splits prod.splits)
  then show ?thesis
    by (cases acc; cases spec)
      (auto simp: reroute_one_def same_punches_def split: prod.splits option.splits, (metis snd_conv)+)
qed

lemma reroute_punches: "same_punches s (fst (reroute_specs_after_dial_failure env peer s))"
proof -
  have many: "same_punches (fst acc) (fst (fold (reroute_one peer) specs acc))" for specs acc
  proof (induction specs arbitrary: acc)
    case (Cons spec specs)
    show ?case
      using reroute_one_punches [of acc peer spec] Cons.IH [of "reroute_one peer spec acc"]
      by (simp del: split_paired_All) (rule same_punches_trans)
  qed simp
  have assign: "same_punches t (fold (assign_to_peer m) ps t)" for m ps t
  proof (induction ps arbitrary: t)
    case (Cons p ps)
    have "same_punches t (assign_to_peer m p t)" by (simp add: assign_to_peer_def same_punches_def)
    with Cons.IH show ?case by (auto intro: same_punches_trans)
  qed simp
  have "same_punches s (fold (assign_to_peer m) ps t)"
    if "fold (reroute_one peer) specs (s\<lparr>pending_by_peer := q\<rparr>, r, f) = (t, r', f')"
    for specs q r f t r' f' m ps
  proof (rule same_punches_trans [OF _ assign])
    have "same_punches (s\<lparr>pending_by_peer := q\<rparr>) t"
      using many [of "(s\<lparr>pending_by_peer := q\<rparr>, r, f)" specs] that by simp
    then show "same_punches s t" by (simp add: same_punches_def)
  qed
  then show ?thesis
    by (auto simp: reroute_specs_after_dial_failure_def Let_def split: option.split prod.split)
qed

lemma reroute_frame:
  "awaiting_holepunch (fst (reroute_specs_after_dial_failure env peer s)) = awaiting_holepunch s"
  "relayed_peers (fst (reroute_specs_after_dial_failure env peer s)) = relayed_peers s"
  "holepunch_retry_attempts (fst (reroute_specs_after_dial_failure env peer s)) = holepunch_retry_attempts s"
  "pending_retry_redial (fst (reroute_specs_after_dial_failure env peer s)) = pending_retry_redial s"
  "holepunch_sessions (fst (reroute_specs_after_dial_failure env peer s)) = holepunch_sessions s"
  using reroute_punches [of s env peer] by (simp_all add: same_punches_def)

lemma reroute_commands:
  "c \<in> set (snd (reroute_specs_after_dial_failure env peer s)) \<Longrightarrow>
     (\<exists>p. c = DhtLookupPeer p) \<or> (\<exists>service. c = DhtGetProviders service (for_service service))"
  by (auto simp: reroute_specs_after_dial_failure_def Let_def split: option.splits prod.splits)

lemma lookups_commands:
  "c \<in> set (initiate_lookups env s) \<Longrightarrow>
     (\<exists>p. c = DhtLookupPeer p) \<or> (\<exists>service. c = DhtGetProviders service (for_service service))"
  by (auto simp: initiate_lookups_def)

lemma spawn_all_commands: "c \<in> set (spawn_all peer specs) \<longleftrightarrow>
    (\<exists>service bind. (service, bind) \<in> set specs \<and> c = SpawnTunnel peer service bind)"
  by (force simp: spawn_all_def)

lemma redial_command_cases:
  "redial_command peer addrs i = c \<longleftrightarrow>
     addrs = [] \<and> c = DialPeer peer \<or> addrs \<noteq> [] \<and> c = DialPeerWithAddrs peer addrs i"
  by (auto simp: redial_command_def)

lemma store_relayed [simp]:
  "relayed_peers (store_provider_candidates service ps s) = relayed_peers s"
  by (simp add: store_provider_candidates_def Let_def)

section \<open>Opening tunnels\<close>

text \<open>The reports that end an attempt.\<close>

fun attempt_report :: "event \<Rightarrow> (peer_id \<times> 64 word) option" where
  "attempt_report (HolePunchAttemptFailed peer i _) = Some (peer, i)"
| "attempt_report (HolePunchAttemptTimeout peer i) = Some (peer, i)"
| "attempt_report _ = None"

lemma step_attempt_report:
  "attempt_report e = Some (peer, i) \<Longrightarrow>
     tunnel_transition env s e = retry_holepunch_attempt peer i s"
  by (cases e) auto

text \<open>A session that an attempt report concerns.\<close>

definition attempt_active :: "tunnel_state \<Rightarrow> peer_id \<Rightarrow> 64 word \<Rightarrow> bool" where
  "attempt_active s peer i \<longleftrightarrow>
     (case fmlookup (holepunch_sessions s) peer of
        None \<Rightarrow> False
      | Some session \<Rightarrow> sess_attempt_id session = i \<and> sess_phase session = Punching) \<and>
     contains_key (awaiting_holepunch s) peer"

lemma retry_inactive: "\<not> attempt_active s peer i \<Longrightarrow> retry_holepunch_attempt peer i s = (s, [])"
  by (auto simp: attempt_active_def retry_holepunch_attempt_def split: option.splits)

lemma retry_active:
  "attempt_active s peer i \<Longrightarrow> retry_holepunch_attempt peer i s =
     (if MAX_RELAY_RECONNECT_RETRIES \<le> get_or 0 (holepunch_retry_attempts s) peer
      then (clear_retry_state peer (s\<lparr>awaiting_holepunch := fmdrop peer (awaiting_holepunch s)\<rparr>),
            spawn_all peer (get_or [] (awaiting_holepunch s) peer))
      else (set_session_phase peer WaitingDisconnect (schedule_holepunch_retry peer s),
            [DisconnectPeer peer]))"
  by (auto simp: attempt_active_def retry_holepunch_attempt_def split: option.splits)

lemma attempts_at_most:
  "tunnel_wf s \<Longrightarrow> get_or 0 (holepunch_retry_attempts s) peer \<le> MAX_RELAY_RECONNECT_RETRIES"
proof (cases "fmlookup (holepunch_retry_attempts s) peer")
  case None
  then show ?thesis by (simp add: word_le_nat_alt)
next
  case (Some n)
  assume "tunnel_wf s"
  with Some show ?thesis
    unfolding tunnel_wf_def retry_wf_def by (auto dest: fmpredD)
qed

text \<open>What a retry of an attempt does.\<close>

lemma retry_spawns:
  assumes "tunnel_wf s" and "SpawnTunnel peer service bind \<in> set (snd (retry_holepunch_attempt p i s))"
  shows "p = peer \<and> attempt_active s p i \<and>
    fmlookup (holepunch_retry_attempts s) p = Some MAX_RELAY_RECONNECT_RETRIES"
proof -
  from assms(2) have active: "attempt_active s p i"
    by (cases "attempt_active s p i") (simp_all add: retry_inactive)
  with assms(2) have full: "MAX_RELAY_RECONNECT_RETRIES \<le> get_or 0 (holepunch_retry_attempts s) p"
    and p: "p = peer"
    by (auto simp: retry_active spawn_all_commands split: if_splits)
  then have "get_or 0 (holepunch_retry_attempts s) p = MAX_RELAY_RECONNECT_RETRIES"
    using attempts_at_most [OF assms(1), of p] by simp
  then have "fmlookup (holepunch_retry_attempts s) p = Some MAX_RELAY_RECONNECT_RETRIES"
    by (cases "fmlookup (holepunch_retry_attempts s) p")
      (simp_all add: MAX_RELAY_RECONNECT_RETRIES_def)
  with active p show ?thesis by blast
qed

lemma retry_disconnects:
  assumes "DisconnectPeer peer \<in> set (snd (retry_holepunch_attempt p i s))"
  shows "p = peer \<and> attempt_active s p i \<and>
    get_or 0 (holepunch_retry_attempts s) p < MAX_RELAY_RECONNECT_RETRIES \<and>
    (\<exists>session. fmlookup (holepunch_sessions s) p = Some session \<and>
      fst (retry_holepunch_attempt p i s) = s\<lparr>
        holepunch_retry_attempts := fmupd p (get_or 0 (holepunch_retry_attempts s) p + 1)
          (holepunch_retry_attempts s),
        pending_retry_redial := finsert p (pending_retry_redial s),
        holepunch_sessions := fmupd p (session\<lparr>sess_phase := WaitingDisconnect\<rparr>)
          (holepunch_sessions s)\<rparr>)"
proof -
  from assms have active: "attempt_active s p i"
    by (cases "attempt_active s p i") (simp_all add: retry_inactive)
  with assms have room: "get_or 0 (holepunch_retry_attempts s) p < MAX_RELAY_RECONNECT_RETRIES"
    and p: "p = peer" by (auto simp: retry_active spawn_all_commands split: if_splits)
  obtain session where session: "fmlookup (holepunch_sessions s) p = Some session"
    using active by (auto simp: attempt_active_def split: option.splits)
  have "unat (get_or 0 (holepunch_retry_attempts s) p) < 3"
    using room by (simp add: MAX_RELAY_RECONNECT_RETRIES_def word_less_nat_alt)
  then have "saturating_add (get_or 0 (holepunch_retry_attempts s) p) 1 =
      get_or 0 (holepunch_retry_attempts s) p + 1"
    by (simp add: saturating_add_def)
  with active session room p show ?thesis
    by (simp add: retry_active set_session_phase_def schedule_holepunch_retry_def)
qed

lemma disconnect_source:
  assumes "DisconnectPeer peer \<in> set (snd (tunnel_transition env s e))"
  obtains p i where "attempt_report e = Some (p, i)"
proof -
  have "attempt_report e \<noteq> None"
  proof (cases e)
    case (PhaseChanged old new)
    then show ?thesis
      using assms by (cases new) (auto simp: on_phase_ready_def dest: lookups_commands)
  qed (use assms in \<open>auto simp: on_dht_peer_lookup_complete_def route_connected_peer_def
      on_dht_service_resolved_def on_dht_service_failed_def on_tunnel_peer_connected_def
      on_tunnel_dial_failed_def on_all_connections_lost_def redial_command_def Let_def
      spawn_all_commands split: option.splits if_splits list.splits prod.splits
      dest: reroute_commands\<close>)
  then show ?thesis using that by auto
qed

text \<open>C5: A tunnel is opened over a peer only when the node has a connection to it that is not
  known to be relayed (it has just connected directly, or a lookup found it connected), or, as the
  fallback onto the relay, when the hole-punch attempt under way for the peer ended after all
  three retries were used.\<close>

theorem spawn_needs_direct_path:
  assumes "tunnel_wf s"
    and "SpawnTunnel peer service bind \<in> set (snd (tunnel_transition env s e))"
  shows "e = TunnelPeerConnected peer False \<or>
    (peer |\<notin>| relayed_peers s \<and>
       (e = DhtPeerLookupComplete peer True \<or>
        (\<exists>providers. e = DhtServiceResolved service providers \<and> (peer, True) \<in> set providers))) \<or>
    (\<exists>i. attempt_report e = Some (peer, i) \<and> attempt_active s peer i \<and>
       fmlookup (holepunch_retry_attempts s) peer = Some MAX_RELAY_RECONNECT_RETRIES)"
proof -
  have retry: ?thesis if "attempt_report e = Some (p, i)" for p i
    using retry_spawns [OF assms(1)] assms(2) step_attempt_report [OF that, of env s] that by force
  show ?thesis
  proof (cases e)
    case (PhaseChanged old new)
    then show ?thesis
      using assms(2) by (cases new) (auto simp: on_phase_ready_def dest: lookups_commands)
  next
    case (DhtServiceResolved sv providers)
    have "(p, c) \<in> set providers" if "dedup_provider_candidates providers = (p, c) # rest" for p c rest
      using set_dedup_by_subset [of fst "{||}" providers] that
      by (auto simp: dedup_provider_candidates_def)
    then show ?thesis
      using assms(2) DhtServiceResolved
      by (auto simp: on_dht_service_resolved_def route_connected_peer_def Let_def spawn_all_commands
          split: option.splits list.splits prod.splits if_splits)
  next
    case (TunnelDialFailed p r)
    then show ?thesis
      using assms(2)
      by (auto simp: on_tunnel_dial_failed_def Let_def redial_command_def
          split: option.splits if_splits dest: reroute_commands)
  next
    case (HolePunchAttemptFailed p i r)
    then show ?thesis by (intro retry [of p i]) simp
  next
    case (HolePunchAttemptTimeout p i)
    then show ?thesis by (intro retry [of p i]) simp
  next
    case (ConnectionLost p n)
    then show ?thesis
      using assms(2)
      by (auto simp: on_all_connections_lost_def Let_def redial_command_def
          split: option.splits if_splits)
  qed (use assms(2) in \<open>auto simp: on_dht_peer_lookup_complete_def route_connected_peer_def
      on_dht_service_failed_def on_tunnel_peer_connected_def Let_def spawn_all_commands
      split: option.splits if_splits\<close>)
qed

text \<open>A relayed peer whose retries are used up, in the middle of an attempt.\<close>

definition sample_spec :: tunnel_target where
  "sample_spec = (ServiceName ''ssh'', sample_bind)"

definition sample_session :: hole_punch_session where
  "sample_session = \<lparr>sess_attempt_id = 7, sess_phase = Punching, relay_redial_addrs = [sample_relay 1],
     direct_snapshot = [], dial_retry_dispatched = False\<rparr>"

definition sample_waiting :: "32 word \<Rightarrow> tunnel_state" where
  "sample_waiting n = new_tunnel_state\<lparr>
     awaiting_holepunch := fmupd (PeerId ''w'') [sample_spec] fmempty,
     relayed_peers := {|PeerId ''w''|},
     holepunch_retry_attempts := fmupd (PeerId ''w'') n fmempty,
     holepunch_sessions := fmupd (PeerId ''w'') sample_session fmempty\<rparr>"

lemma sample_waiting_wf:
  "1 \<le> n \<Longrightarrow> n \<le> MAX_RELAY_RECONNECT_RETRIES \<Longrightarrow> tunnel_wf (sample_waiting n)"
  by (simp add: tunnel_wf_def queues_wf_def retry_wf_def address_wf_def sample_waiting_def
      new_tunnel_state_def fmpred_upd sample_session_def addr_lists_ok_def MAX_RELAY_CANDIDATES_def
      sample_relay_def has_p2p_circuit_def)

lemma sample_waiting_active: "attempt_active (sample_waiting n) (PeerId ''w'') 7"
  by (simp add: attempt_active_def sample_waiting_def sample_session_def)

theorem spawn_needs_direct_path_witness:
  "attempt_active (sample_waiting 3) (PeerId ''w'') 7 \<and>
   fmlookup (holepunch_retry_attempts (sample_waiting 3)) (PeerId ''w'') =
     Some MAX_RELAY_RECONNECT_RETRIES"
proof -
  have "SpawnTunnel (PeerId ''w'') (ServiceName ''ssh'') sample_bind \<in>
      set (snd (tunnel_transition (sample_env 0) (sample_waiting 3)
        (HolePunchAttemptTimeout (PeerId ''w'') 7)))"
    by (simp add: retry_active sample_waiting_active)
      (simp add: sample_waiting_def sample_spec_def spawn_all_def MAX_RELAY_RECONNECT_RETRIES_def)
  from spawn_needs_direct_path [OF sample_waiting_wf this]
  show ?thesis by (simp add: MAX_RELAY_RECONNECT_RETRIES_def)
qed

section \<open>Retries\<close>

text \<open>C17: A peer is disconnected only to retry a hole punch: when the attempt under way for it
  ended and fewer than three retries were used.  The retry counter then goes up by one, the
  redial is marked pending, the session waits for the disconnect, and no waiting tunnel is
  touched.\<close>

theorem disconnect_only_to_retry:
  assumes "DisconnectPeer peer \<in> set (snd (tunnel_transition env s e))"
  shows "\<exists>i session. attempt_report e = Some (peer, i) \<and> attempt_active s peer i \<and>
    fmlookup (holepunch_sessions s) peer = Some session \<and>
    get_or 0 (holepunch_retry_attempts s) peer < MAX_RELAY_RECONNECT_RETRIES \<and>
    fst (tunnel_transition env s e) = s\<lparr>
      holepunch_retry_attempts := fmupd peer (get_or 0 (holepunch_retry_attempts s) peer + 1)
        (holepunch_retry_attempts s),
      pending_retry_redial := finsert peer (pending_retry_redial s),
      holepunch_sessions := fmupd peer (session\<lparr>sess_phase := WaitingDisconnect\<rparr>)
        (holepunch_sessions s)\<rparr>"
proof -
  obtain p i where report: "attempt_report e = Some (p, i)"
    using assms by (rule disconnect_source)
  have step: "tunnel_transition env s e = retry_holepunch_attempt p i s"
    using report by (rule step_attempt_report)
  with assms have r: "DisconnectPeer peer \<in> set (snd (retry_holepunch_attempt p i s))" by simp
  have "p = peer" using retry_disconnects [OF r] by blast
  with retry_disconnects [OF r] report step show ?thesis by auto
qed

theorem disconnect_only_to_retry_witness:
  "get_or 0 (holepunch_retry_attempts (sample_waiting 2)) (PeerId ''w'') < MAX_RELAY_RECONNECT_RETRIES"
proof -
  have "DisconnectPeer (PeerId ''w'') \<in> set (snd (tunnel_transition (sample_env 0) (sample_waiting 2)
      (HolePunchAttemptFailed (PeerId ''w'') 7 ''timeout'')))"
    by (simp add: retry_active sample_waiting_active)
      (simp add: sample_waiting_def MAX_RELAY_RECONNECT_RETRIES_def word_le_nat_alt)
  from disconnect_only_to_retry [OF this] show ?thesis by blast
qed

text \<open>A report about an attempt is handled at most once: after a failure or timeout of an
  attempt was processed, any further failure or timeout report of the same attempt changes nothing
  and issues no command.\<close>

lemma attempt_reported_once:
  assumes "attempt_report e = Some (peer, i)" and "attempt_report e' = Some (peer, i)"
  shows "tunnel_transition env' (fst (tunnel_transition env s e)) e' =
    (fst (tunnel_transition env s e), [])"
proof -
  let ?s' = "fst (retry_holepunch_attempt peer i s)"
  have "\<not> attempt_active ?s' peer i"
  proof (cases "attempt_active s peer i")
    case True
    then show ?thesis
      by (auto simp: retry_active attempt_active_def set_session_phase_def clear_retry_state_def
          split: option.splits)
  next
    case False
    then show ?thesis by (simp add: retry_inactive)
  qed
  then show ?thesis
    using assms by (simp add: step_attempt_report retry_inactive)
qed

lemma attempt_reported_once_witness:
  "tunnel_transition (sample_env 9)
     (fst (tunnel_transition (sample_env 0) (sample_waiting 1)
        (HolePunchAttemptTimeout (PeerId ''w'') 7)))
     (HolePunchAttemptFailed (PeerId ''w'') 7 ''late'') =
   (fst (tunnel_transition (sample_env 0) (sample_waiting 1)
        (HolePunchAttemptTimeout (PeerId ''w'') 7)), [])"
  by (rule attempt_reported_once) simp_all

section \<open>Redials\<close>

lemma dedup_addrs_props:
  "distinct (dedup_addrs addrs)" "set (dedup_addrs addrs) = set addrs"
  using dedup_by_keys [of "\<lambda>a. a" "{||}" addrs] by (simp_all add: dedup_addrs_def)

text \<open>Direct addresses first, then circuits.\<close>

definition directs_first :: "multiaddr list \<Rightarrow> bool" where
  "directs_first addrs \<longleftrightarrow> sorted_wrt (\<lambda>a b. has_p2p_circuit a \<longrightarrow> has_p2p_circuit b) addrs"

lemma directs_first_append:
  assumes "list_all is_supported_direct_candidate ds" and "list_all has_p2p_circuit rs"
  shows "directs_first (ds @ rs)"
proof -
  have "sorted_wrt (\<lambda>a b. has_p2p_circuit a \<longrightarrow> has_p2p_circuit b) ds"
    by (rule sorted_wrt_mono_rel [of _ "\<lambda>_ _. True"])
      (use assms(1) in \<open>auto simp: list_all_iff dest: direct_candidate_not_circuit\<close>)
  moreover have "sorted_wrt (\<lambda>a b. has_p2p_circuit a \<longrightarrow> has_p2p_circuit b) rs"
    by (rule sorted_wrt_mono_rel [of _ "\<lambda>_ _. True"]) (use assms(2) in \<open>auto simp: list_all_iff\<close>)
  ultimately show ?thesis
    using assms by (auto simp: directs_first_def sorted_wrt_append list_all_iff)
qed

lemma directs_first_take: "directs_first addrs \<Longrightarrow> directs_first (take n addrs)"
  by (simp add: directs_first_def sorted_wrt_take)

lemma prioritized_redial_props:
  assumes env: "env_ok env" and wf: "address_wf s"
    and session: "addr_lists_ok (relay_redial_addrs session) (direct_snapshot session)"
  shows "let addrs = prioritized_redial_addrs env s peer session in
    distinct addrs \<and> length addrs \<le> MAX_REDIAL_ADDRESSES \<and> directs_first addrs \<and>
    (\<forall>a\<in>set addrs. is_supported_direct_candidate a \<or> has_p2p_circuit a)"
proof -
  let ?book = "get_or empty_oracle (address_oracle s) peer"
  let ?ds = "direct_snapshot session @ direct_addrs ?book @
    fresh_candidates env s peer (clock env) is_supported_direct_candidate MAX_DIRECT_CANDIDATES"
  let ?rs = "relay_redial_addrs session @ relay_addrs ?book @
    fresh_candidates env s peer (clock env) has_p2p_circuit MAX_RELAY_CANDIDATES"
  have ds: "list_all is_supported_direct_candidate ?ds" and rs: "list_all has_p2p_circuit ?rs"
    using session address_book [OF wf, of peer] fresh_candidates_predicate [OF env]
    by (auto simp: addr_lists_ok_def list_all_iff)
  have split: "dedup_addrs (?ds @ ?rs) = dedup_by (\<lambda>a. a) {||} ?ds @
      dedup_by (\<lambda>a. a) ({||} |\<union>| fset_of_list (map (\<lambda>a. a) ?ds)) ?rs"
    unfolding dedup_addrs_def by (rule dedup_by_append)
  have "list_all is_supported_direct_candidate (dedup_by (\<lambda>a. a) seen ?ds)"
    and "list_all has_p2p_circuit (dedup_by (\<lambda>a. a) seen ?rs)" for seen
    using ds rs set_dedup_by_subset [of "\<lambda>a. a" seen] by (simp_all only: list_all_iff) blast+
  then have "directs_first (dedup_addrs (?ds @ ?rs))"
    unfolding split by (rule directs_first_append)
  moreover have "prioritized_redial_addrs env s peer session =
      take MAX_REDIAL_ADDRESSES (dedup_addrs (?ds @ ?rs))"
    by (simp add: prioritized_redial_addrs_def Let_def)
  moreover have "is_supported_direct_candidate a \<or> has_p2p_circuit a" if "a \<in> set (?ds @ ?rs)" for a
    using that ds rs unfolding list_all_iff set_append by blast
  ultimately show ?thesis
    unfolding Let_def
    by (metis dedup_addrs_props directs_first_take distinct_take in_set_takeD length_take
        min.cobounded2)
qed

lemma redial_sound:
  assumes "redial_command p (prioritized_redial_addrs env t p session) (sess_attempt_id session) =
      DialPeerWithAddrs peer addrs i"
    and env: "env_ok env" and wf: "tunnel_wf s"
    and session: "fmlookup (holepunch_sessions s) p = Some session" and t: "address_wf t"
  shows "addrs \<noteq> [] \<and> distinct addrs \<and> length addrs \<le> 12 \<and> directs_first addrs \<and>
    (\<forall>a\<in>set addrs. is_supported_direct_candidate a \<or> has_p2p_circuit a) \<and>
    (\<exists>session. fmlookup (holepunch_sessions s) peer = Some session \<and> sess_attempt_id session = i)"
proof -
  have a: "p = peer" "addrs = prioritized_redial_addrs env t p session" "addrs \<noteq> []"
    "i = sess_attempt_id session"
    using assms(1) by (auto simp: redial_command_cases)
  have "addr_lists_ok (relay_redial_addrs session) (direct_snapshot session)"
    using wf session by (auto simp: tunnel_wf_def intro: address_session)
  from prioritized_redial_props [OF env t this, of p] a session show ?thesis
    by (simp add: Let_def MAX_REDIAL_ADDRESSES_def)
qed

text \<open>A redial with addresses goes to the peer of a hole-punch session under the attempt id of
  that session, with at least one and at most twelve distinct addresses, each either a supported
  direct candidate or a relay circuit, every direct one before the circuits.\<close>

lemma redial_addresses:
  assumes env: "env_ok env" and wf: "tunnel_wf s"
    and dial: "DialPeerWithAddrs peer addrs i \<in> set (snd (tunnel_transition env s e))"
  shows "addrs \<noteq> [] \<and> distinct addrs \<and> length addrs \<le> 12 \<and> directs_first addrs \<and>
    (\<forall>a\<in>set addrs. is_supported_direct_candidate a \<or> has_p2p_circuit a) \<and>
    (\<exists>session. fmlookup (holepunch_sessions s) peer = Some session \<and> sess_attempt_id session = i)"
proof -
  note found = redial_sound [OF _ env wf]
  have wf': "address_wf s" using wf by (simp add: tunnel_wf_def)
  show ?thesis
  proof (cases e)
    case (PhaseChanged old new)
    then show ?thesis
      using dial by (cases new) (auto simp: on_phase_ready_def dest: lookups_commands)
  next
    case (TunnelDialFailed p r)
    with dial obtain session where
      "redial_command p (prioritized_redial_addrs env (mark_dial_retry p (sess_attempt_id session) s)
         p session) (sess_attempt_id session) = DialPeerWithAddrs peer addrs i"
      "fmlookup (holepunch_sessions s) p = Some session"
      by (auto simp: on_tunnel_dial_failed_def Let_def split: option.splits if_splits
          dest: reroute_commands)
    then show ?thesis by (rule found) (rule address_mark [OF wf'])
  next
    case (ConnectionLost p n)
    let ?t = "set_session_phase p WaitingRedial (s\<lparr>relayed_peers := relayed_peers s |-| {|p|},
       pending_retry_redial := pending_retry_redial s |-| {|p|}\<rparr>)"
    from ConnectionLost dial obtain session where
      "redial_command p (prioritized_redial_addrs env ?t p session) (sess_attempt_id session) =
         DialPeerWithAddrs peer addrs i"
      "fmlookup (holepunch_sessions s) p = Some session"
      by (auto simp: on_all_connections_lost_def Let_def split: option.splits if_splits)
    then show ?thesis by (rule found) (simp add: address_set_phase wf')
  qed (use dial in \<open>auto simp: on_dht_peer_lookup_complete_def route_connected_peer_def
      on_dht_service_resolved_def on_dht_service_failed_def on_tunnel_peer_connected_def
      retry_holepunch_attempt_def Let_def spawn_all_commands
      split: option.splits if_splits list.splits prod.splits\<close>)
qed

lemma redial_addresses_witness:
  "distinct [sample_relay 1] \<and> directs_first [sample_relay 1] \<and>
   (\<exists>session. fmlookup (holepunch_sessions (sample_waiting 1)) (PeerId ''w'') = Some session \<and>
      sess_attempt_id session = 7)"
proof -
  have "DialPeerWithAddrs (PeerId ''w'') [sample_relay 1] 7 \<in>
      set (snd (tunnel_transition (sample_env 0) (sample_waiting 1)
        (TunnelDialFailed (PeerId ''w'') ''refused'')))"
    by (simp add: on_tunnel_dial_failed_def sample_waiting_def sample_session_def new_tunnel_state_def
        is_pending_abort_dial_error_def str_contains_def mark_dial_retry_def
        redial_command_def prioritized_redial_addrs_def fresh_candidates_def empty_oracle_def
        dedup_addrs_def MAX_REDIAL_ADDRESSES_def Let_def)
  from redial_addresses [OF env_ok_sample sample_waiting_wf this]
  show ?thesis by (auto simp: MAX_RELAY_RECONNECT_RETRIES_def word_le_nat_alt)
qed

text \<open>A failed dial of a peer to which tunnels wait is answered with at most one redial per
  session: the redial marks the session, and until the session changes every further dial
  failure of that peer is ignored.\<close>

lemma dial_failure_redials_once:
  assumes "contains_key (awaiting_holepunch s) peer"
    and "contains_key (holepunch_sessions s) peer"
  shows "tunnel_transition env' (fst (tunnel_transition env s (TunnelDialFailed peer r)))
      (TunnelDialFailed peer r') =
    (if is_pending_abort_dial_error r \<and> \<not> is_pending_abort_dial_error r'
     then tunnel_transition env' s (TunnelDialFailed peer r')
     else (fst (tunnel_transition env s (TunnelDialFailed peer r)), []))"
  using assms
  by (auto simp: on_tunnel_dial_failed_def mark_dial_retry_def Let_def contains_key_def
      split: option.splits)

lemma dial_failure_redials_once_witness:
  "snd (tunnel_transition (sample_env 2)
      (fst (tunnel_transition (sample_env 0) (sample_waiting 1)
        (TunnelDialFailed (PeerId ''w'') ''refused'')))
      (TunnelDialFailed (PeerId ''w'') ''refused'')) = []"
  by (subst dial_failure_redials_once) (simp_all add: sample_waiting_def)

end
