(* ===== verification/Tunnel_Reroute.thy ===== *)
theory Tunnel_Reroute
  imports Tunnel_Facts
begin

text \<open>
  Where the requests of the tunnel machine go: after a failed dial, on a direct connection, and
  when the node becomes ready.
\<close>

section \<open>After a failed dial\<close>

text \<open>A request is placed when another peer has it, or its service is looked up again.\<close>

definition placed :: "peer_id \<Rightarrow> tunnel_target \<Rightarrow> reroute_acc \<Rightarrow> bool" where
  "placed failed spec acc \<longleftrightarrow>
     (case (spec, acc) of ((service, bind), (s, reassign, refresh)) \<Rightarrow>
       (\<exists>q. q \<noteq> failed \<and> (service, bind) \<in> set (get_or [] reassign q)) \<or>
       (bind \<in> set (get_or [] (pending_by_service s) service) \<and> service |\<in>| refresh))"

text \<open>What holds between two specs: the failed peer has nothing, neither kept nor given.\<close>

definition reroute_inv :: "peer_id \<Rightarrow> reroute_acc \<Rightarrow> bool" where
  "reroute_inv failed acc \<longleftrightarrow>
     (case acc of (s, reassign, refresh) \<Rightarrow>
       \<not> contains_key (pending_by_peer s) failed \<and> \<not> contains_key reassign failed)"

lemma next_fallback_frame:
  "next_fallback_provider service peer s = (r, t) \<Longrightarrow>
     pending_by_peer t = pending_by_peer s \<and> pending_by_service t = pending_by_service s \<and>
     r \<noteq> Some peer"
  by (auto simp: next_fallback_provider_def split: option.splits prod.splits if_splits
      dest: pop_fallback_Some)

lemma reroute_one_step:
  assumes "reroute_inv failed acc"
  shows "reroute_inv failed (reroute_one failed spec acc)"
    and "placed failed spec (reroute_one failed spec acc)"
    and "placed failed x acc \<Longrightarrow> placed failed x (reroute_one failed spec acc)"
proof -
  obtain s reassign refresh where acc: "acc = (s, reassign, refresh)" by (cases acc)
  obtain service bind where spec: "spec = (service, bind)" by (cases spec)
  obtain sv b where x: "x = (sv, b)" by (cases x)
  obtain r t where n: "next_fallback_provider service failed s = (r, t)" by (metis surj_pair)
  note t = next_fallback_frame [OF n]
  show "reroute_inv failed (reroute_one failed spec acc)"
    using assms t by (cases r) (auto simp: reroute_inv_def reroute_one_def acc spec n)
  show "placed failed spec (reroute_one failed spec acc)"
    using t by (cases r) (auto simp: placed_def reroute_one_def acc spec n)
  show "placed failed x acc \<Longrightarrow> placed failed x (reroute_one failed spec acc)"
    using t by (cases r) (auto simp: placed_def reroute_one_def acc spec x n)
qed

lemma reroute_fold:
  "reroute_inv failed acc \<Longrightarrow> reroute_inv failed (fold (reroute_one failed) specs acc) \<and>
     (\<forall>x. placed failed x acc \<or> x \<in> set specs \<longrightarrow>
        placed failed x (fold (reroute_one failed) specs acc))"
proof (induction specs arbitrary: acc)
  case Nil
  then show ?case by simp
next
  case (Cons spec specs)
  note one = reroute_one_step [OF Cons.prems]
  from Cons.IH [OF one(1), of spec] show ?case
    using one(2,3) by (auto simp: fold_Cons)
qed

lemma assign_fold:
  assumes "distinct peers"
  shows "get_or [] (pending_by_peer (fold (assign_to_peer reassign) peers s)) q =
      get_or [] (pending_by_peer s) q @ (if q \<in> set peers then get_or [] reassign q else [])"
    and "contains_key (pending_by_peer (fold (assign_to_peer reassign) peers s)) q \<longleftrightarrow>
      q \<in> set peers \<or> contains_key (pending_by_peer s) q"
    and "pending_by_service (fold (assign_to_peer reassign) peers s) = pending_by_service s"
  using assms by (induction peers arbitrary: s) (auto simp: assign_to_peer_def)

text \<open>C12: When the dial of a peer fails and no tunnel to it waits for a direct path, the peer is
  given up: it keeps no pending request, and each of its requests is handed to another peer that
  is looked up, or is filed under its service, which is resolved again.\<close>

theorem failed_peer_given_up:
  assumes env: "env_ok env" and pending: "fmlookup (pending_by_peer s) peer = Some specs"
    and direct: "\<not> contains_key (awaiting_holepunch s) peer"
  shows "let (s', cmds) = tunnel_transition env s (TunnelDialFailed peer r) in
    \<not> contains_key (pending_by_peer s') peer \<and>
    (\<forall>(service, bind)\<in>set specs.
       (\<exists>q. q \<noteq> peer \<and> (service, bind) \<in> set (get_or [] (pending_by_peer s') q) \<and>
          DhtLookupPeer q \<in> set cmds) \<or>
       (bind \<in> set (get_or [] (pending_by_service s') service) \<and>
          DhtGetProviders service (for_service service) \<in> set cmds))"
proof -
  let ?s0 = "s\<lparr>pending_by_peer := fmdrop peer (pending_by_peer s)\<rparr>"
  obtain s1 reassign refresh where
    f: "fold (reroute_one peer) specs (?s0, fmempty, {||}) = (s1, reassign, refresh)"
    by (metis surj_pair)
  let ?peers = "peer_order env (fmdom reassign)"
  let ?s' = "fold (assign_to_peer reassign) ?peers s1"
  let ?cmds = "map DhtLookupPeer ?peers @
    map (\<lambda>service. DhtGetProviders service (for_service service)) (service_order env refresh)"
  have step: "tunnel_transition env s (TunnelDialFailed peer r) = (?s', ?cmds)"
    using pending direct
    by (simp add: on_tunnel_dial_failed_def reroute_specs_after_dial_failure_def contains_key_def f
        Let_def)
  have order: "distinct ?peers" "set ?peers = fset (fmdom reassign)"
    "set (service_order env refresh) = fset refresh"
    using env by (auto simp: env_ok_def iterates_def)
  note assign = assign_fold [OF order(1)]
  have "reroute_inv peer (?s0, fmempty, {||})" by (simp add: reroute_inv_def)
  from reroute_fold [OF this, of specs] f
  have inv: "\<not> contains_key (pending_by_peer s1) peer" "\<not> contains_key reassign peer"
    and placed: "\<forall>x\<in>set specs. placed peer x (s1, reassign, refresh)"
    by (auto simp: reroute_inv_def)
  have "\<not> contains_key (pending_by_peer ?s') peer"
    using inv(1,2) by (simp add: assign(2) order) (simp add: contains_key_dom)
  moreover have "(\<exists>q. q \<noteq> peer \<and> (service, bind) \<in> set (get_or [] (pending_by_peer ?s') q) \<and>
          DhtLookupPeer q \<in> set ?cmds) \<or>
       (bind \<in> set (get_or [] (pending_by_service ?s') service) \<and>
          DhtGetProviders service (for_service service) \<in> set ?cmds)"
    if spec: "(service, bind) \<in> set specs" for service bind
  proof -
    have given: "q |\<in>| fmdom reassign" if "x \<in> set (get_or [] reassign q)" for x q
      using that by (cases "fmlookup reassign q") (auto simp: fmdomI)
    from placed spec have "placed peer (service, bind) (s1, reassign, refresh)" by blast
    then show ?thesis
      using given by (auto simp: placed_def assign order)
  qed
  ultimately show ?thesis unfolding step Let_def prod.case by blast
qed

theorem failed_peer_given_up_witness:
  "\<not> contains_key (pending_by_peer (fst (tunnel_transition (sample_env 0)
      (add_peer_tunnel (PeerId ''w'') (ServiceName ''ssh'') sample_bind new_tunnel_state)
      (TunnelDialFailed (PeerId ''w'') ''refused'')))) (PeerId ''w'')"
  using failed_peer_given_up [OF env_ok_sample, of
      "add_peer_tunnel (PeerId ''w'') (ServiceName ''ssh'') sample_bind new_tunnel_state"
      "PeerId ''w''" "[(ServiceName ''ssh'', sample_bind)]" 0 "''refused''"]
  by (auto simp: add_peer_tunnel_def new_tunnel_state_def split_beta Let_def)

section \<open>On a direct connection\<close>

text \<open>A direct connection to a peer opens, in order, every tunnel that was pending or waiting
  for it, and leaves nothing of that peer behind: no queue, no retry counter, no session, no relay
  mark.  The queues, counters and sessions of other peers are not touched.\<close>

lemma direct_connection_opens_all:
  "let (s', cmds) = tunnel_transition env s (TunnelPeerConnected peer False) in
     cmds = spawn_all peer (get_or [] (pending_by_peer s) peer @ get_or [] (awaiting_holepunch s) peer) \<and>
     \<not> has_holepunch_intent s' peer \<and> peer |\<notin>| relayed_peers s' \<and>
     \<not> contains_key (holepunch_retry_attempts s') peer \<and>
     \<not> contains_key (holepunch_sessions s') peer \<and> peer |\<notin>| pending_retry_redial s' \<and>
     (\<forall>q. q \<noteq> peer \<longrightarrow>
        fmlookup (pending_by_peer s') q = fmlookup (pending_by_peer s) q \<and>
        fmlookup (awaiting_holepunch s') q = fmlookup (awaiting_holepunch s) q \<and>
        fmlookup (holepunch_retry_attempts s') q = fmlookup (holepunch_retry_attempts s) q \<and>
        fmlookup (holepunch_sessions s') q = fmlookup (holepunch_sessions s) q \<and>
        (q |\<in>| relayed_peers s' \<longleftrightarrow> q |\<in>| relayed_peers s))"
  by (auto simp: on_tunnel_peer_connected_def has_holepunch_intent_def clear_retry_state_def Let_def)

lemma direct_connection_opens_all_witness:
  "snd (tunnel_transition (sample_env 0) (sample_waiting 2) (TunnelPeerConnected (PeerId ''w'') False)) =
     [SpawnTunnel (PeerId ''w'') (ServiceName ''ssh'') sample_bind]"
  using direct_connection_opens_all [of "sample_env 0" "sample_waiting 2" "PeerId ''w''"]
  by (simp add: split_beta Let_def sample_waiting_def new_tunnel_state_def sample_spec_def
      spawn_all_def del: tunnel_transition.simps)

section \<open>When the node becomes ready\<close>

lemma count_list_map_inj: "inj f \<Longrightarrow> count_list (map f xs) (f x) = count_list xs x"
  by (induction xs) (auto dest: injD)

lemma count_list_distinct: "distinct xs \<Longrightarrow> count_list xs x = (if x \<in> set xs then 1 else 0)"
  by (induction xs) auto

lemma count_list_absent: "(\<And>y. y \<in> set xs \<Longrightarrow> y \<noteq> x) \<Longrightarrow> count_list xs x = 0"
  by (metis count_notin)

text \<open>When the node becomes ready it publishes its services first and then looks up every
  target exactly once: each peer with pending tunnels, and the providers of each service asked
  for by name; nothing else is looked up.\<close>

lemma ready_looks_up_every_target:
  assumes env: "env_ok env"
  shows "let cmds = snd (tunnel_transition env s (PhaseChanged old Ready)) in
    hd cmds = PublishServices \<and>
    (\<forall>p. count_list cmds (DhtLookupPeer p) = (if contains_key (pending_by_peer s) p then 1 else 0)) \<and>
    (\<forall>sv. count_list cmds (DhtGetProviders sv (for_service sv)) =
       (if contains_key (pending_by_service s) sv then 1 else 0)) \<and>
    length cmds = 1 + fcard (fmdom (pending_by_peer s)) + fcard (fmdom (pending_by_service s))"
proof -
  let ?peers = "peer_order env (fmdom (pending_by_peer s))"
  let ?services = "service_order env (fmdom (pending_by_service s))"
  let ?get = "\<lambda>service. DhtGetProviders service (for_service service)"
  have order: "distinct ?peers" "set ?peers = fset (fmdom (pending_by_peer s))"
    "distinct ?services" "set ?services = fset (fmdom (pending_by_service s))"
    using env by (auto simp: env_ok_def iterates_def)
  have "inj DhtLookupPeer" "inj ?get" by (auto intro: injI)
  note counts = this [THEN count_list_map_inj]
  have cross: "count_list (map ?get ?services) (DhtLookupPeer p) = 0"
    "count_list (map DhtLookupPeer ?peers) (?get sv) = 0" for p sv
    by (rule count_list_absent; auto)+
  have len: "length ?peers = fcard (fmdom (pending_by_peer s))"
    "length ?services = fcard (fmdom (pending_by_service s))"
    using order by (metis distinct_card fcard.rep_eq)+
  show ?thesis
    by (simp add: on_phase_ready_def initiate_lookups_def Let_def counts cross len order
        count_list_distinct contains_key_dom)
qed

lemma ready_looks_up_every_target_witness:
  "hd (snd (tunnel_transition (sample_env 0)
      (add_peer_tunnel (PeerId ''w'') (ServiceName ''ssh'') sample_bind new_tunnel_state)
      (PhaseChanged Joining Ready))) = PublishServices \<and>
   count_list (snd (tunnel_transition (sample_env 0)
      (add_peer_tunnel (PeerId ''w'') (ServiceName ''ssh'') sample_bind new_tunnel_state)
      (PhaseChanged Joining Ready))) (DhtLookupPeer (PeerId ''w'')) = 1"
  using ready_looks_up_every_target [OF env_ok_sample, of 0
      "add_peer_tunnel (PeerId ''w'') (ServiceName ''ssh'') sample_bind new_tunnel_state" Joining]
  by (auto simp: Let_def add_peer_tunnel_def simp del: tunnel_transition.simps)

end
