(* ===== verification/App_Machine.thy ===== *)
theory App_Machine
  imports Peer_Facts Tunnel_Reroute
begin

text \<open>
  The whole state machine of the node, \<open>AppState\<close> of \<open>src/src/state/app.rs\<close>: the peer machine
  runs first; a change of its phase is bridged to the tunnel machine as a \<open>PhaseChanged\<close> event
  before the event itself; the commands of the peer machine come before those of the tunnel
  machine.
\<close>

section \<open>The composition\<close>

record app_state =
  app_peer :: peer_state
  app_tunnel :: tunnel_state

definition new_app_state :: "peer_state \<Rightarrow> tunnel_state \<Rightarrow> app_state" where
  "new_app_state p t = \<lparr>app_peer = p, app_tunnel = t\<rparr>"

definition app_phase :: "app_state \<Rightarrow> phase" where
  "app_phase s = phase (app_peer s)"

text \<open>The fold over the bridge event and the event: the tunnel state and the commands so far.\<close>

definition tunnel_fold_step ::
  "step_env \<Rightarrow> event \<Rightarrow> tunnel_state \<times> command list \<Rightarrow> tunnel_state \<times> command list" where
  "tunnel_fold_step env evt acc =
     (let (state, cmds) = acc; (s, c) = tunnel_transition env state evt in (s, cmds @ c))"

definition app_transition :: "step_env \<Rightarrow> app_state \<Rightarrow> event \<Rightarrow> app_state \<times> command list" where
  "app_transition env s event =
     (let old_phase = phase (app_peer s);
          (p, peer_cmds) = peer_transition env (app_peer s) event;
          bridge = (if old_phase = phase p then [] else [PhaseChanged old_phase (phase p)]);
          (t, tunnel_cmds) = fold (tunnel_fold_step env) (bridge @ [event]) (app_tunnel s, [])
      in (\<lparr>app_peer = p, app_tunnel = t\<rparr>, peer_cmds @ tunnel_cmds))"

text \<open>The events the tunnel machine sees, in order.\<close>

definition tunnel_events :: "step_env \<Rightarrow> app_state \<Rightarrow> event \<Rightarrow> event list" where
  "tunnel_events env s event =
     (let new = phase (fst (peer_transition env (app_peer s) event)) in
      (if phase (app_peer s) = new then [] else [PhaseChanged (phase (app_peer s)) new]) @ [event])"

lemma fold_tunnel_run:
  "fold (tunnel_fold_step env) evts (t, cmds) =
     (fst (mealy_run tunnel_transition t (map (Pair env) evts)),
      cmds @ snd (mealy_run tunnel_transition t (map (Pair env) evts)))"
  by (induction evts arbitrary: t cmds)
    (simp_all add: tunnel_fold_step_def mealy_run_Cons split_beta Let_def del: mealy_run.simps(2))

text \<open>The transition in terms of a run of the tunnel machine.\<close>

lemma app_transition_run:
  fixes env s e
  defines "r \<equiv> mealy_run tunnel_transition (app_tunnel s) (map (Pair env) (tunnel_events env s e))"
  shows "app_transition env s e =
    (\<lparr>app_peer = fst (peer_transition env (app_peer s) e), app_tunnel = fst r\<rparr>,
     snd (peer_transition env (app_peer s) e) @ snd r)"
  unfolding r_def app_transition_def tunnel_events_def Let_def
  by (simp only: split_beta fold_tunnel_run fst_conv snd_conv append_Nil)

lemma tunnel_events_good: "env_ok env \<Longrightarrow> \<forall>(env', e')\<in>set (map (Pair env) evts). env_ok env'"
  by auto

section \<open>Commands\<close>

lemma tunnel_command_not_network:
  "c \<in> set (snd (tunnel_transition env s e)) \<Longrightarrow> \<not> is_network_command c"
proof (cases e)
  case (PhaseChanged old new)
  then show "c \<in> set (snd (tunnel_transition env s e)) \<Longrightarrow> \<not> is_network_command c"
    by (cases new) (auto simp: on_phase_ready_def dest: lookups_commands)
qed (auto simp: on_dht_peer_lookup_complete_def route_connected_peer_def
      on_dht_service_resolved_def on_dht_service_failed_def on_tunnel_peer_connected_def
      on_tunnel_dial_failed_def on_all_connections_lost_def retry_holepunch_attempt_def
      redial_command_def Let_def spawn_all_commands
      split: option.splits if_splits list.splits prod.splits dest: reroute_commands)

lemma tunnel_run_not_network:
  "c \<in> set (snd (mealy_run tunnel_transition s es)) \<Longrightarrow> \<not> is_network_command c"
proof (induction es arbitrary: s)
  case Nil
  then show ?case by simp
next
  case (Cons x es)
  obtain env e where x: "x = (env, e)" by (cases x)
  from Cons.prems show ?case
    unfolding x mealy_run_Cons
    using Cons.IH tunnel_command_not_network by auto
qed

text \<open>The commands of one transition come in two blocks: first the network commands of the
  peer machine, then the tunnel commands, none of which is a network command; and the node is
  told to shut down exactly when a shutdown was requested.\<close>

lemma command_blocks:
  "(let cmds = snd (app_transition env s e) in
    cmds = filter is_network_command cmds @ filter (\<lambda>c. \<not> is_network_command c) cmds \<and>
    filter is_network_command cmds = snd (peer_transition env (app_peer s) e) \<and>
    (Shutdown \<in> set cmds \<longleftrightarrow> e = ShutdownRequested))"
proof -
  let ?p = "snd (peer_transition env (app_peer s) e)"
  let ?t = "snd (mealy_run tunnel_transition (app_tunnel s) (map (Pair env) (tunnel_events env s e)))"
  have cmds: "snd (app_transition env s e) = ?p @ ?t" by (simp add: app_transition_run)
  have p: "\<forall>c\<in>set ?p. is_network_command c" "Shutdown \<in> set ?p \<longleftrightarrow> e = ShutdownRequested"
    using peer_commands_are_network by auto
  have t: "\<forall>c\<in>set ?t. \<not> is_network_command c" using tunnel_run_not_network by blast
  then have no: "Shutdown \<notin> set ?t" by auto
  have "filter is_network_command (?p @ ?t) = ?p"
    "filter (\<lambda>c. \<not> is_network_command c) (?p @ ?t) = ?t"
    using p(1) t by (simp_all add: filter_empty_conv)
  with p(2) no show ?thesis unfolding Let_def cmds by simp
qed

section \<open>Invariants\<close>

definition app_wf :: "app_state \<Rightarrow> bool" where
  "app_wf s \<longleftrightarrow> tunnel_wf (app_tunnel s)"

interpretation app_machine: mealy_invariant app_transition env_ok app_wf
  by unfold_locales
    (simp add: app_wf_def app_transition_run tunnel_machine.run_inv tunnel_events_good)

lemma spawned_bag_network: "\<forall>c\<in>set cmds. is_network_command c \<Longrightarrow> spawned_bag cmds = {#}"
  by (rule spawned_bag_none) (auto intro: network_command_spawns_nothing)

interpretation app_flow:
  mealy_conserving app_transition env_ok app_wf "\<lambda>s. targets_held (app_tunnel s)" spawned_bag
proof unfold_locales
  fix env :: step_env and s :: app_state and e :: event
  assume env: "env_ok env"
  have "spawned_bag (snd (peer_transition env (app_peer s) e)) = {#}"
    using peer_commands_are_network by (intro spawned_bag_network) blast
  then show "targets_held (app_tunnel (fst (app_transition env s e))) +
      spawned_bag (snd (app_transition env s e)) = targets_held (app_tunnel s)"
    using tunnel_flow.run_conserves [OF TrueI tunnel_events_good [OF env]]
    by (simp add: app_transition_run)
qed simp_all

text \<open>Over any run of the whole node, the tunnels asked for on the command line are neither
  lost nor duplicated, and the bookkeeping of the tunnel machine stays consistent.\<close>

lemma node_keeps_every_tunnel:
  assumes "app_wf s" and "\<forall>(env, e)\<in>set es. env_ok env"
  shows "targets_held (app_tunnel (fst (mealy_run app_transition s es))) +
      spawned_bag (snd (mealy_run app_transition s es)) = targets_held (app_tunnel s) \<and>
    app_wf (fst (mealy_run app_transition s es))"
  using assms app_flow.run_conserves app_machine.run_inv by simp

definition sample_app :: app_state where
  "sample_app = new_app_state new_peer_state
     (add_peer_tunnel (PeerId ''w'') (ServiceName ''ssh'') sample_bind new_tunnel_state)"

lemma sample_app_wf: "app_wf sample_app"
  by (simp add: app_wf_def sample_app_def new_app_state_def tunnel_wf_requests)

lemma node_keeps_every_tunnel_witness:
  "targets_held (app_tunnel (fst (mealy_run app_transition sample_app
        [(sample_env 0, NoBootstrapPeers), (sample_env 1, TunnelPeerConnected (PeerId ''w'') False)]))) +
   spawned_bag (snd (mealy_run app_transition sample_app
        [(sample_env 0, NoBootstrapPeers), (sample_env 1, TunnelPeerConnected (PeerId ''w'') False)])) =
   {#(ServiceName ''ssh'', sample_bind)#}"
  using node_keeps_every_tunnel [OF sample_app_wf, of
      "[(sample_env 0, NoBootstrapPeers), (sample_env 1, TunnelPeerConnected (PeerId ''w'') False)]"]
  by (simp add: sample_app_def new_app_state_def hold_simps del: mealy_run.simps)

section \<open>The bridge\<close>

lemma ready_step_commands:
  assumes "app_phase s \<noteq> Ready" and "app_phase (fst (app_transition env s e)) = Ready"
  shows "\<exists>rest. snd (app_transition env s e) =
    snd (peer_transition env (app_peer s) e) @ PublishServices # initiate_lookups env (app_tunnel s) @ rest"
proof -
  have "tunnel_events env s e = [PhaseChanged (phase (app_peer s)) Ready, e]"
    using assms by (simp add: tunnel_events_def app_phase_def app_transition_run)
  then show ?thesis
    by (simp add: app_transition_run on_phase_ready_def split_beta)
qed

text \<open>C22: Whenever an event makes the node ready, the same transition publishes its services and
  looks up every peer and every service for which tunnels are pending.\<close>

theorem becoming_ready_starts_lookups:
  assumes env: "env_ok env" and before: "app_phase s \<noteq> Ready"
    and after: "app_phase (fst (app_transition env s e)) = Ready"
  shows "let cmds = snd (app_transition env s e) in
    PublishServices \<in> set cmds \<and>
    (\<forall>p. contains_key (pending_by_peer (app_tunnel s)) p \<longrightarrow> DhtLookupPeer p \<in> set cmds) \<and>
    (\<forall>sv. contains_key (pending_by_service (app_tunnel s)) sv \<longrightarrow>
       DhtGetProviders sv (for_service sv) \<in> set cmds)"
proof -
  obtain rest where "snd (app_transition env s e) =
    snd (peer_transition env (app_peer s) e) @ PublishServices # initiate_lookups env (app_tunnel s) @ rest"
    using ready_step_commands [OF before after] by blast
  then show ?thesis
    using env by (auto simp: Let_def initiate_lookups_def contains_key_dom env_ok_def iterates_def)
qed

theorem becoming_ready_starts_lookups_witness:
  "DhtLookupPeer (PeerId ''w'') \<in> set (snd (app_transition (sample_env 0) sample_app NoBootstrapPeers))"
proof -
  have "app_phase sample_app \<noteq> Ready"
    "app_phase (fst (app_transition (sample_env 0) sample_app NoBootstrapPeers)) = Ready"
    by (simp_all add: app_phase_def sample_app_def new_app_state_def new_peer_state_def
        app_transition_run)
  from becoming_ready_starts_lookups [OF env_ok_sample this]
  show ?thesis
    by (simp add: Let_def sample_app_def new_app_state_def add_peer_tunnel_def)
qed

end
