(* ===== verification/Connection_Machine.thy ===== *)
theory Connection_Machine
  imports Net_Types
begin

text \<open>
  The bookkeeping of connections and hole-punch attempts, \<open>ConnectionStateMachine\<close> of
  \<open>src/src/node/connection_state.rs\<close>: the relayed and direct connections of each peer, the attempt
  under way for it with its deadline and counters, and the dials that belong to attempts.  A
  method that takes \<open>&mut self\<close> and returns a value is a function to the new state and the value.
  The identifier of a connection is opaque in libp2p; here it is a number.
\<close>

section \<open>State\<close>

type_synonym connection_id = nat

record hole_punch_attempt_stats =
  stats_attempt_id :: "64 word"
  started_at :: instant
  dials_started :: "32 word"
  dials_failed :: "32 word"
  last_dial_error :: "string option"

definition new_attempt_stats :: "64 word \<Rightarrow> instant \<Rightarrow> hole_punch_attempt_stats" where
  "new_attempt_stats i now =
     \<lparr>stats_attempt_id = i, started_at = now, dials_started = 0, dials_failed = 0,
      last_dial_error = None\<rparr>"

definition elapsed_ms :: "hole_punch_attempt_stats \<Rightarrow> instant \<Rightarrow> nat" where
  "elapsed_ms stats now = (now - started_at stats) div 1000000"

record hole_punch_deadline =
  deadline_attempt_id :: "64 word"
  deadline_at :: instant

record connection_established_update =
  started_attempt_id :: "64 word option"
  completed_attempt :: "hole_punch_attempt_stats option"
  relayed_connections_to_close :: "connection_id list"
  direct_connection_established :: bool

record connection_closed_update =
  clear_direct_registry :: bool
  peer_fully_disconnected :: bool

datatype dialing_update =
    DialTracked "64 word" "32 word"
  | RelayOnlyWithoutActiveAttempt
  | DialIgnored

datatype outgoing_error_update =
    ErrorTracked peer_id "64 word" "32 word" "32 word"
  | StaleTracked peer_id "64 word" "64 word"
  | RelayOnlyUntracked peer_id
  | ErrorIgnored

record connection_state =
  relayed_connections :: "(peer_id, connection_id fset) fmap"
  direct_connections :: "(peer_id, connection_id fset) fmap"
  hole_punch_deadlines :: "(peer_id, hole_punch_deadline) fmap"
  hole_punch_attempts :: "(peer_id, hole_punch_attempt_stats) fmap"
  hole_punch_attempt_seq :: "(peer_id, 64 word) fmap"
  pending_hole_punch_dials :: "(connection_id, peer_id \<times> 64 word) fmap"

definition new_connection_state :: connection_state where
  "new_connection_state =
     \<lparr>relayed_connections = fmempty, direct_connections = fmempty, hole_punch_deadlines = fmempty,
      hole_punch_attempts = fmempty, hole_punch_attempt_seq = fmempty,
      pending_hole_punch_dials = fmempty\<rparr>"

section \<open>Helpers\<close>

definition has_relayed_connection :: "connection_state \<Rightarrow> peer_id \<Rightarrow> bool" where
  "has_relayed_connection s peer \<longleftrightarrow> contains_key (relayed_connections s) peer"

definition has_direct_connection :: "connection_state \<Rightarrow> peer_id \<Rightarrow> bool" where
  "has_direct_connection s peer \<longleftrightarrow> contains_key (direct_connections s) peer"

definition peer_is_relay_only :: "connection_state \<Rightarrow> peer_id \<Rightarrow> bool" where
  "peer_is_relay_only s peer \<longleftrightarrow> has_relayed_connection s peer \<and> \<not> has_direct_connection s peer"

definition connection_count_for_peer :: "(peer_id, connection_id fset) fmap \<Rightarrow> peer_id \<Rightarrow> nat" where
  "connection_count_for_peer by_peer peer =
     (case fmlookup by_peer peer of None \<Rightarrow> 0 | Some ids \<Rightarrow> fcard ids)"

definition direct_connection_count :: "connection_state \<Rightarrow> peer_id \<Rightarrow> nat" where
  "direct_connection_count s peer = connection_count_for_peer (direct_connections s) peer"

definition relayed_connection_count :: "connection_state \<Rightarrow> peer_id \<Rightarrow> nat" where
  "relayed_connection_count s peer = connection_count_for_peer (relayed_connections s) peer"

definition active_attempt_stats ::
  "connection_state \<Rightarrow> peer_id \<Rightarrow> hole_punch_attempt_stats option" where
  "active_attempt_stats s peer = fmlookup (hole_punch_attempts s) peer"

definition remove_connection_id ::
  "(peer_id, connection_id fset) fmap \<Rightarrow> peer_id \<Rightarrow> connection_id \<Rightarrow>
   (peer_id, connection_id fset) fmap \<times> bool" where
  "remove_connection_id by_peer peer connection_id =
     (case fmlookup by_peer peer of
        Some ids \<Rightarrow>
          (let ids' = ids |-| {|connection_id|} in
           if ids' = {||} then (fmdrop peer by_peer, True) else (fmupd peer ids' by_peer, False))
      | None \<Rightarrow> (by_peer, False))"

definition next_hole_punch_attempt_id :: "peer_id \<Rightarrow> connection_state \<Rightarrow> connection_state \<times> 64 word"
where
  "next_hole_punch_attempt_id peer s =
     (let entry = saturating_add (get_or 0 (hole_punch_attempt_seq s) peer) 1
      in (s\<lparr>hole_punch_attempt_seq := fmupd peer entry (hole_punch_attempt_seq s)\<rparr>, entry))"

definition remove_pending_hole_punch_dials_for_peer ::
  "peer_id \<Rightarrow> connection_state \<Rightarrow> connection_state" where
  "remove_pending_hole_punch_dials_for_peer peer s =
     s\<lparr>pending_hole_punch_dials :=
         map_retain (\<lambda>_ (tracked_peer, _). tracked_peer \<noteq> peer) (pending_hole_punch_dials s)\<rparr>"

definition complete_hole_punch_attempt ::
  "peer_id \<Rightarrow> connection_state \<Rightarrow> connection_state \<times> hole_punch_attempt_stats option" where
  "complete_hole_punch_attempt peer s =
     (remove_pending_hole_punch_dials_for_peer peer
        (s\<lparr>hole_punch_attempts := fmdrop peer (hole_punch_attempts s),
           hole_punch_deadlines := fmdrop peer (hole_punch_deadlines s)\<rparr>),
      fmlookup (hole_punch_attempts s) peer)"

section \<open>Operations\<close>

text \<open>The argument \<open>ord\<close> is the iteration order of the set of relayed connections.\<close>

definition on_connection_established ::
  "(connection_id fset \<Rightarrow> connection_id list) \<Rightarrow> peer_id \<Rightarrow> connection_id \<Rightarrow> bool \<Rightarrow>
   connection_state \<Rightarrow> connection_state \<times> connection_established_update" where
  "on_connection_established ord peer connection_id relayed s0 =
     (let s = s0\<lparr>pending_hole_punch_dials := fmdrop connection_id (pending_hole_punch_dials s0)\<rparr> in
      if relayed then
        (s\<lparr>relayed_connections := entry_insert peer connection_id (relayed_connections s)\<rparr>,
         \<lparr>started_attempt_id = None, completed_attempt = None, relayed_connections_to_close = [],
          direct_connection_established = False\<rparr>)
      else
        (let s1 = s\<lparr>direct_connections := entry_insert peer connection_id (direct_connections s)\<rparr>;
             (s2, completed) = complete_hole_punch_attempt peer s1;
             to_close = (case fmlookup (relayed_connections s2) peer of
                           None \<Rightarrow> [] | Some ids \<Rightarrow> ord ids)
         in (s2\<lparr>relayed_connections := fmdrop peer (relayed_connections s2)\<rparr>,
             \<lparr>started_attempt_id = None, completed_attempt = completed,
              relayed_connections_to_close = to_close, direct_connection_established = True\<rparr>)))"

definition start_hole_punch_attempt ::
  "instant \<Rightarrow> peer_id \<Rightarrow> duration \<Rightarrow> connection_state \<Rightarrow> connection_state \<times> 64 word option" where
  "start_hole_punch_attempt now peer hole_punch_timeout s =
     (if \<not> peer_is_relay_only s peer \<or> contains_key (hole_punch_attempts s) peer then (s, None)
      else
        (let (s1, i) = next_hole_punch_attempt_id peer s
         in (s1\<lparr>hole_punch_attempts := fmupd peer (new_attempt_stats i now) (hole_punch_attempts s1),
                hole_punch_deadlines :=
                  fmupd peer \<lparr>deadline_attempt_id = i, deadline_at = now + hole_punch_timeout\<rparr>
                    (hole_punch_deadlines s1)\<rparr>,
             Some i)))"

definition on_connection_closed ::
  "peer_id \<Rightarrow> connection_id \<Rightarrow> 32 word \<Rightarrow> connection_state \<Rightarrow>
   connection_state \<times> connection_closed_update" where
  "on_connection_closed peer connection_id num_established s0 =
     (let s1 = s0\<lparr>pending_hole_punch_dials := fmdrop connection_id (pending_hole_punch_dials s0)\<rparr>;
          (relayed, _) = remove_connection_id (relayed_connections s1) peer connection_id;
          s2 = s1\<lparr>relayed_connections := relayed\<rparr>;
          (direct, direct_exhausted) = remove_connection_id (direct_connections s2) peer connection_id;
          s3 = s2\<lparr>direct_connections := direct\<rparr>;
          tracked_connection_alive = (has_relayed_connection s3 peer \<or> has_direct_connection s3 peer);
          fully = (num_established = 0 \<and> \<not> tracked_connection_alive);
          s4 = (if fully then
                  (let s = fst (complete_hole_punch_attempt peer s3) in
                   s\<lparr>relayed_connections := fmdrop peer (relayed_connections s),
                     direct_connections := fmdrop peer (direct_connections s)\<rparr>)
                else s3)
      in (s4, \<lparr>clear_direct_registry = (direct_exhausted \<or> fully), peer_fully_disconnected = fully\<rparr>))"

definition on_dialing ::
  "peer_id \<Rightarrow> connection_id \<Rightarrow> connection_state \<Rightarrow> connection_state \<times> dialing_update" where
  "on_dialing peer connection_id s =
     (if \<not> peer_is_relay_only s peer then (s, DialIgnored)
      else
        (case fmlookup (hole_punch_attempts s) peer of
           Some stats \<Rightarrow>
             (let stats' = stats\<lparr>dials_started := saturating_add (dials_started stats) 1\<rparr>
              in (s\<lparr>hole_punch_attempts := fmupd peer stats' (hole_punch_attempts s),
                    pending_hole_punch_dials :=
                      fmupd connection_id (peer, stats_attempt_id stats') (pending_hole_punch_dials s)\<rparr>,
                  DialTracked (stats_attempt_id stats') (dials_started stats')))
         | None \<Rightarrow> (s, RelayOnlyWithoutActiveAttempt)))"

definition on_outgoing_connection_error ::
  "peer_id option \<Rightarrow> connection_id \<Rightarrow> string \<Rightarrow> connection_state \<Rightarrow>
   connection_state \<times> outgoing_error_update" where
  "on_outgoing_connection_error peer_opt connection_id error_text s =
     (let (s1, update) =
        (case fmlookup (pending_hole_punch_dials s) connection_id of
           Some (peer, i) \<Rightarrow>
             if peer_is_relay_only s peer then
               (case fmlookup (hole_punch_attempts s) peer of
                  Some stats \<Rightarrow>
                    if stats_attempt_id stats = i then
                      (let stats' = stats\<lparr>dials_failed := saturating_add (dials_failed stats) 1,
                                          last_dial_error := Some error_text\<rparr>
                       in (s\<lparr>hole_punch_attempts := fmupd peer stats' (hole_punch_attempts s)\<rparr>,
                           ErrorTracked peer i (dials_started stats') (dials_failed stats')))
                    else (s, StaleTracked peer (stats_attempt_id stats) i)
                | None \<Rightarrow> (s, RelayOnlyUntracked peer))
             else (s, ErrorIgnored)
         | None \<Rightarrow>
             (case peer_opt of
                Some peer \<Rightarrow>
                  if peer_is_relay_only s peer then (s, RelayOnlyUntracked peer) else (s, ErrorIgnored)
              | None \<Rightarrow> (s, ErrorIgnored)))
      in (s1\<lparr>pending_hole_punch_dials := fmdrop connection_id (pending_hole_punch_dials s1)\<rparr>, update))"

text \<open>The minimum of the deadlines; the order of iteration does not matter for it.\<close>

fun min_of :: "nat list \<Rightarrow> nat option" where
  "min_of [] = None"
| "min_of (x # xs) = Some (fold min xs x)"

definition next_hole_punch_deadline :: "step_env \<Rightarrow> connection_state \<Rightarrow> instant option" where
  "next_hole_punch_deadline env s =
     min_of (List.map_filter (\<lambda>p. map_option deadline_at (fmlookup (hole_punch_deadlines s) p))
       (peer_order env (fmdom (hole_punch_deadlines s))))"

definition due_timeouts :: "step_env \<Rightarrow> instant \<Rightarrow> connection_state \<Rightarrow> (peer_id \<times> 64 word) list" where
  "due_timeouts env now s =
     List.map_filter
       (\<lambda>p. case fmlookup (hole_punch_deadlines s) p of
               Some entry \<Rightarrow>
                 if deadline_at entry \<le> now then Some (p, deadline_attempt_id entry) else None
             | None \<Rightarrow> None)
       (peer_order env (fmdom (hole_punch_deadlines s)))"

definition take_due_hole_punch_timeouts ::
  "step_env \<Rightarrow> instant \<Rightarrow> connection_state \<Rightarrow> connection_state \<times> (peer_id \<times> 64 word) list" where
  "take_due_hole_punch_timeouts env now s =
     (let due = due_timeouts env now s
      in (s\<lparr>hole_punch_deadlines :=
              fold (\<lambda>(peer, _). fmdrop peer) due (hole_punch_deadlines s)\<rparr>, due))"

end
