(* ===== verification/Translate.thy ===== *)
theory Translate
  imports App_Machine Connection_Machine
begin

text \<open>
  From swarm events to the events of the state machine, \<open>src/src/node/translate.rs\<close>.  The events
  of libp2p are datatypes that hold the fields the code reads; an error is its printed form.
  Query identifiers are opaque in libp2p; here they are numbers.
\<close>

section \<open>Swarm events\<close>

type_synonym query_id = nat

datatype connected_point = Dialer multiaddr | Listener multiaddr multiaddr

datatype get_providers_ok =
    FoundProviders "peer_id fset"
  | FinishedWithNoAdditionalRecord

datatype query_result =
    QueryBootstrap "string + unit"
  | QueryGetClosestPeers
  | QueryGetProviders "string + get_providers_ok"
  | QueryOther

text \<open>\<open>OutboundQueryProgressed\<close> with its identifier, result and \<open>step.last\<close>.\<close>

datatype kad_event =
    OutboundQueryProgressed query_id query_result bool
  | KadOther

datatype autonat_status = AutonatPublic multiaddr | AutonatPrivate | AutonatUnknown

datatype behaviour_event =
    BehKademlia kad_event
  | BehMdnsDiscovered "(peer_id \<times> multiaddr) list"
  | BehMdnsExpired "(peer_id \<times> multiaddr) list"
  | BehIdentifyReceived peer_id "multiaddr list" multiaddr
  | BehIdentifyOther
  | BehAutonatStatusChanged autonat_status
  | BehAutonatOther
  | BehReservationReqAccepted peer_id
  | BehRelayClientOther
  | BehDcutr peer_id "string + connection_id"
  | BehRelayServer
  | BehPing peer_id
  | BehStream

datatype swarm_event =
    SwNewListenAddr multiaddr
  | SwConnectionEstablished peer_id connection_id connected_point
  | SwConnectionClosed peer_id connection_id connected_point "32 word"
  | SwBehaviour behaviour_event
  | SwListenerError string
  | SwListenerClosed "string + unit" "multiaddr list"
  | SwOutgoingConnectionError "peer_id option" connection_id string
  | SwExternalAddrConfirmed multiaddr
  | SwExternalAddrExpired multiaddr
  | SwDialing "peer_id option" connection_id
  | SwNewExternalAddrCandidate multiaddr
  | SwOther

section \<open>Helpers\<close>

definition is_active_bootstrap_result :: "query_id \<Rightarrow> query_id option \<Rightarrow> bool \<Rightarrow> bool" where
  "is_active_bootstrap_result event_id active step_last \<longleftrightarrow> active = Some event_id \<and> step_last"

definition has_circuit :: "multiaddr \<Rightarrow> bool" where
  "has_circuit addr \<longleftrightarrow> list_ex (\<lambda>p. p = P2pCircuit) addr"

fun is_relayed :: "connected_point \<Rightarrow> bool" where
  "is_relayed (Dialer address) = has_circuit address"
| "is_relayed (Listener here send_back) =
     (has_circuit here \<or> has_circuit send_back)"

text \<open>The inner loop over the protocols of an address.\<close>

fun relay_scan :: "protocol \<Rightarrow> peer_id option \<times> bool \<Rightarrow> peer_id option \<times> bool" where
  "relay_scan (P2p pid) (peer, circuit) = (Some pid, circuit)"
| "relay_scan P2pCircuit (peer, circuit) = (peer, True)"
| "relay_scan _ acc = acc"

fun extract_relay_peer_from_addrs :: "multiaddr list \<Rightarrow> peer_id option" where
  "extract_relay_peer_from_addrs [] = None"
| "extract_relay_peer_from_addrs (addr # addrs) =
     (case fold relay_scan addr (None, False) of
        (Some peer, True) \<Rightarrow> Some peer
      | _ \<Rightarrow> extract_relay_peer_from_addrs addrs)"

section \<open>Providers\<close>

text \<open>Connected providers first, then by their printed form.\<close>

definition provider_le :: "step_env \<Rightarrow> peer_id \<times> bool \<Rightarrow> peer_id \<times> bool \<Rightarrow> bool" where
  "provider_le env a b \<longleftrightarrow>
     (snd a \<and> \<not> snd b) \<or> (snd a = snd b \<and> show_peer env (fst a) \<le> show_peer env (fst b))"

type_synonym service_queries = "(query_id, service_name) fmap"

definition translate_get_providers ::
  "step_env \<Rightarrow> query_id \<Rightarrow> string + get_providers_ok \<Rightarrow> service_queries \<Rightarrow> (peer_id \<Rightarrow> bool) \<Rightarrow>
   service_queries \<times> event list" where
  "translate_get_providers env i result queries is_connected =
     (case result of
        Inr (FoundProviders providers) \<Rightarrow>
          (case fmlookup queries i of
             Some service \<Rightarrow>
               (let candidates = sort_by (provider_le env)
                      (map (\<lambda>p. (p, is_connected p)) (peer_order env providers))
                in (fmdrop i queries,
                    if candidates = []
                    then [DhtServiceFailed service ''no providers found'']
                    else [DhtServiceResolved service candidates]))
           | None \<Rightarrow> (queries, []))
      | Inr FinishedWithNoAdditionalRecord \<Rightarrow>
          (case fmlookup queries i of
             Some service \<Rightarrow>
               (fmdrop i queries, [DhtServiceFailed service ''no providers found''])
           | None \<Rightarrow> (queries, []))
      | Inl e \<Rightarrow>
          (case fmlookup queries i of
             Some service \<Rightarrow> (fmdrop i queries, [DhtServiceFailed service e])
           | None \<Rightarrow> (queries, [])))"

section \<open>Translation\<close>

text \<open>The queries whose results are awaited, which the translation updates.\<close>

record query_tables =
  kad_tunnel_queries :: "(query_id, peer_id) fmap"
  kad_service_queries :: service_queries

fun nat_status_of :: "autonat_status \<Rightarrow> nat_status" where
  "nat_status_of (AutonatPublic _) = Public"
| "nat_status_of AutonatPrivate = Private"
| "nat_status_of AutonatUnknown = Unknown"

fun translate_kad_event ::
  "step_env \<Rightarrow> query_id option \<Rightarrow> (peer_id \<Rightarrow> bool) \<Rightarrow> kad_event \<Rightarrow> query_tables \<Rightarrow>
   query_tables \<times> event list" where
  "translate_kad_event env active is_connected
     (OutboundQueryProgressed i (QueryBootstrap result) step_last) q =
     (if is_active_bootstrap_result i active step_last then
        (case result of
           Inr _ \<Rightarrow> (q, [KademliaBootstrapOk])
         | Inl e \<Rightarrow> (q, [KademliaBootstrapFailed e]))
      else (q, []))"
| "translate_kad_event env active is_connected
     (OutboundQueryProgressed i QueryGetClosestPeers step_last) q =
     (if step_last then
        (case fmlookup (kad_tunnel_queries q) i of
           Some target \<Rightarrow>
             (q\<lparr>kad_tunnel_queries := fmdrop i (kad_tunnel_queries q)\<rparr>,
              [DhtPeerLookupComplete target (is_connected target)])
         | None \<Rightarrow> (q, []))
      else (q, []))"
| "translate_kad_event env active is_connected
     (OutboundQueryProgressed i (QueryGetProviders result) step_last) q =
     (if contains_key (kad_service_queries q) i then
        (let (queries, evts) =
           translate_get_providers env i result (kad_service_queries q) is_connected
         in (q\<lparr>kad_service_queries := queries\<rparr>, evts))
      else (q, []))"
| "translate_kad_event env active is_connected _ q = (q, [])"

fun translate_behaviour_event ::
  "step_env \<Rightarrow> query_id option \<Rightarrow> (peer_id \<Rightarrow> bool) \<Rightarrow> behaviour_event \<Rightarrow> query_tables \<Rightarrow>
   query_tables \<times> event list" where
  "translate_behaviour_event env active is_connected (BehKademlia e) q =
     translate_kad_event env active is_connected e q"
| "translate_behaviour_event env active is_connected (BehMdnsDiscovered peers) q =
     (q, [MdnsDiscovered peers])"
| "translate_behaviour_event env active is_connected (BehMdnsExpired peers) q =
     (q, [MdnsExpired peers])"
| "translate_behaviour_event env active is_connected (BehIdentifyReceived peer listen_addrs obs) q =
     (q, [PeerIdentified peer listen_addrs obs])"
| "translate_behaviour_event env active is_connected (BehAutonatStatusChanged new) q =
     (q, [NatStatusChanged (nat_status_of new)])"
| "translate_behaviour_event env active is_connected (BehReservationReqAccepted relay) q =
     (q, [RelayReservationAccepted relay])"
| "translate_behaviour_event env active is_connected (BehDcutr peer result) q =
     (case result of
        Inr _ \<Rightarrow> (q, [])
      | Inl e \<Rightarrow> (q, [HolePunchFailed peer e]))"
| "translate_behaviour_event env active is_connected _ q = (q, [])"

fun translate_swarm_event ::
  "step_env \<Rightarrow> peer_id fset \<Rightarrow> query_id option \<Rightarrow> (peer_id \<Rightarrow> bool) \<Rightarrow> swarm_event \<Rightarrow> query_tables \<Rightarrow>
   query_tables \<times> event list" where
  "translate_swarm_event env boot active is_connected (SwNewListenAddr address) q =
     (q, [ListeningOn address])"
| "translate_swarm_event env boot active is_connected (SwConnectionEstablished peer c endpoint) q =
     (q, (if peer |\<in>| boot
          then [BootstrapConnected peer
                  (case endpoint of Dialer address \<Rightarrow> address | Listener _ send_back \<Rightarrow> send_back)]
          else []) @
         [TunnelPeerConnected peer (is_relayed endpoint)])"
| "translate_swarm_event env boot active is_connected (SwBehaviour e) q =
     translate_behaviour_event env active is_connected e q"
| "translate_swarm_event env boot active is_connected (SwListenerClosed reason addresses) q =
     (q, (case (reason, extract_relay_peer_from_addrs addresses) of
            (Inl e, Some relay_peer) \<Rightarrow> [RelayReservationFailed relay_peer e]
          | _ \<Rightarrow> []))"
| "translate_swarm_event env boot active is_connected (SwOutgoingConnectionError peer_opt c err_msg) q =
     (q, (case peer_opt of
            Some peer \<Rightarrow>
              if peer |\<notin>| boot \<and> \<not> str_contains ''local peer id'' err_msg
              then [TunnelDialFailed peer err_msg] else []
          | None \<Rightarrow> []))"
| "translate_swarm_event env boot active is_connected (SwExternalAddrConfirmed address) q =
     (q, [ExternalAddrConfirmed address])"
| "translate_swarm_event env boot active is_connected (SwExternalAddrExpired address) q =
     (q, [ExternalAddrExpired address])"
| "translate_swarm_event env boot active is_connected _ q = (q, [])"

section \<open>Properties\<close>

interpretation provider: total_comparison "provider_le env" for env :: step_env
  by unfold_locales (auto simp: provider_le_def)

text \<open>A provider lookup that found providers resolves its service to exactly those providers,
  each once, with whether the node is connected to it, every connected one before the others; the
  query is then forgotten.\<close>

lemma providers_connected_first:
  assumes env: "env_ok env" and query: "fmlookup queries i = Some service"
    and some: "providers \<noteq> {||}"
  shows "\<exists>candidates. translate_get_providers env i (Inr (FoundProviders providers)) queries is_connected =
      (fmdrop i queries, [DhtServiceResolved service candidates]) \<and>
    distinct (map fst candidates) \<and> set candidates = (\<lambda>p. (p, is_connected p)) ` fset providers \<and>
    sorted_wrt (\<lambda>a b. snd b \<longrightarrow> snd a) candidates"
proof -
  let ?pairs = "map (\<lambda>p. (p, is_connected p)) (peer_order env providers)"
  let ?cs = "sort_by (provider_le env) ?pairs"
  have order: "distinct (peer_order env providers)" "set (peer_order env providers) = fset providers"
    using env by (auto simp: env_ok_def iterates_def)
  have set_cs: "set ?cs = (\<lambda>p. (p, is_connected p)) ` fset providers"
    by (simp add: order)
  have "fset providers \<noteq> {}" using some by (auto simp: fset_eq_iff)
  then have "?cs \<noteq> []" using set_cs by (metis image_is_empty set_empty)
  moreover have "distinct (map fst ?cs)"
    unfolding distinct_map_fst_sort_by using order(1) by (simp add: comp_def)
  moreover have "sorted_wrt (\<lambda>a b. snd b \<longrightarrow> snd a) ?cs"
    by (rule sorted_wrt_mono_rel [OF _ provider.sorted_sort_by]) (auto simp: provider_le_def)
  ultimately show ?thesis
    using set_cs query by (simp add: translate_get_providers_def Let_def)
qed

lemma providers_connected_first_witness:
  "\<exists>candidates. translate_get_providers (sample_env 0) 4
      (Inr (FoundProviders {|PeerId ''a'', PeerId ''w''|})) (fmupd 4 (ServiceName ''ssh'') fmempty)
      (\<lambda>p. p = PeerId ''w'') =
    (fmdrop 4 (fmupd 4 (ServiceName ''ssh'') fmempty),
     [DhtServiceResolved (ServiceName ''ssh'') candidates]) \<and>
    sorted_wrt (\<lambda>a b. snd b \<longrightarrow> snd a) candidates"
  using providers_connected_first [OF env_ok_sample, of "fmupd 4 (ServiceName ''ssh'') fmempty" 4
      "ServiceName ''ssh''" "{|PeerId ''a'', PeerId ''w''|}" 0 "\<lambda>p. p = PeerId ''w''"]
  by auto

text \<open>The relay of a listening address on a circuit, and what the scan finds.\<close>

lemma relay_scan_fold:
  "fold relay_scan addr (p, c) =
     (case rev (List.map_filter (\<lambda>x. case x of P2p pid \<Rightarrow> Some pid | _ \<Rightarrow> None) addr) of
        [] \<Rightarrow> p | q # _ \<Rightarrow> Some q, c \<or> has_circuit addr)"
proof (induction addr arbitrary: p c)
  case Nil
  then show ?case by (simp add: List.map_filter_simps has_circuit_def)
next
  case (Cons x addr)
  then show ?case
    by (cases x) (auto simp: List.map_filter_simps has_circuit_def split: list.splits)
qed

text \<open>The results of lookups: those that end a lookup, whether a lookup is awaited, and results of the same
  kind.\<close>

fun ends_lookup :: "query_result \<Rightarrow> bool \<Rightarrow> bool" where
  "ends_lookup QueryGetClosestPeers step_last \<longleftrightarrow> step_last"
| "ends_lookup (QueryGetProviders _) step_last \<longleftrightarrow> True"
| "ends_lookup _ step_last \<longleftrightarrow> False"

fun awaited :: "query_id \<Rightarrow> query_result \<Rightarrow> query_tables \<Rightarrow> bool" where
  "awaited i QueryGetClosestPeers q \<longleftrightarrow> contains_key (kad_tunnel_queries q) i"
| "awaited i (QueryGetProviders _) q \<longleftrightarrow> contains_key (kad_service_queries q) i"
| "awaited i _ q \<longleftrightarrow> False"

fun same_lookup :: "query_result \<Rightarrow> query_result \<Rightarrow> bool" where
  "same_lookup QueryGetClosestPeers QueryGetClosestPeers \<longleftrightarrow> True"
| "same_lookup (QueryGetProviders _) (QueryGetProviders _) \<longleftrightarrow> True"
| "same_lookup _ _ \<longleftrightarrow> False"

lemma unawaited_silent:
  "same_lookup r r' \<Longrightarrow> \<not> awaited i r q \<Longrightarrow>
     translate_kad_event env active conn (OutboundQueryProgressed i r' step_last) q = (q, [])"
  by (cases r; cases r') (auto simp: contains_key_def split: option.splits)

text \<open>C31: A lookup is answered once.  A peer lookup is ended by its last result, a provider lookup by
  any result, whether it is its last or not, and whether it found providers, found none or failed.  The
  result that ends an awaited lookup produces exactly one event and removes the lookup, so that every later
  result for it, of whatever content, produces nothing; a result for a lookup that is not awaited
  produces nothing, nor does one that does not end its lookup; and no result touches another lookup.\<close>

theorem queries_answered_once:
  assumes "translate_kad_event env active conn (OutboundQueryProgressed i r step_last) q = (q', evts)"
    and "r = QueryGetClosestPeers \<or> (\<exists>x. r = QueryGetProviders x)"
  shows "length evts = (if awaited i r q \<and> ends_lookup r step_last then 1 else 0) \<and>
    (\<not> ends_lookup r step_last \<longrightarrow> q' = q) \<and>
    (ends_lookup r step_last \<longrightarrow> \<not> awaited i r q' \<and>
       (\<forall>env' active' conn' r' step_last'. same_lookup r r' \<longrightarrow>
          translate_kad_event env' active' conn' (OutboundQueryProgressed i r' step_last') q' = (q', []))) \<and>
    (\<forall>j. j \<noteq> i \<longrightarrow> fmlookup (kad_tunnel_queries q') j = fmlookup (kad_tunnel_queries q) j \<and>
       fmlookup (kad_service_queries q') j = fmlookup (kad_service_queries q) j)"
proof -
  have one: "length evts = (if awaited i r q \<and> ends_lookup r step_last then 1 else 0) \<and>
      (\<not> ends_lookup r step_last \<longrightarrow> q' = q) \<and> (ends_lookup r step_last \<longrightarrow> \<not> awaited i r q') \<and>
      (\<forall>j. j \<noteq> i \<longrightarrow> fmlookup (kad_tunnel_queries q') j = fmlookup (kad_tunnel_queries q) j \<and>
         fmlookup (kad_service_queries q') j = fmlookup (kad_service_queries q) j)"
    using assms(2)
  proof
    assume "r = QueryGetClosestPeers"
    with assms(1) show ?thesis by (auto simp: contains_key_def split: if_splits option.splits)
  next
    assume "\<exists>x. r = QueryGetProviders x"
    with assms(1) show ?thesis
      by (auto simp: translate_get_providers_def contains_key_def Let_def
          split: option.splits sum.splits get_providers_ok.splits if_splits)
  qed
  with unawaited_silent [of r _ i q'] show ?thesis by blast
qed

text \<open>A provider lookup that fails before its last result: a later result with providers is silent.\<close>

theorem queries_answered_once_witness:
  "translate_kad_event (sample_env 1) None (\<lambda>_. False)
     (OutboundQueryProgressed 3 (QueryGetProviders (Inr (FoundProviders {|PeerId ''w''|}))) True)
     \<lparr>kad_tunnel_queries = fmempty, kad_service_queries = fmdrop 3 (fmupd 3 (ServiceName ''ssh'') fmempty)\<rparr> =
   (\<lparr>kad_tunnel_queries = fmempty, kad_service_queries = fmdrop 3 (fmupd 3 (ServiceName ''ssh'') fmempty)\<rparr>, [])"
proof -
  have first: "translate_kad_event (sample_env 0) None (\<lambda>_. True)
      (OutboundQueryProgressed 3 (QueryGetProviders (Inl ''timeout'')) False)
      \<lparr>kad_tunnel_queries = fmempty, kad_service_queries = fmupd 3 (ServiceName ''ssh'') fmempty\<rparr> =
    (\<lparr>kad_tunnel_queries = fmempty, kad_service_queries = fmdrop 3 (fmupd 3 (ServiceName ''ssh'') fmempty)\<rparr>,
     [DhtServiceFailed (ServiceName ''ssh'') ''timeout''])"
    by (simp add: translate_get_providers_def)
  have "same_lookup (QueryGetProviders (Inl ''timeout'')) (QueryGetProviders (Inr (FoundProviders {|PeerId ''w''|})))"
    "ends_lookup (QueryGetProviders (Inl ''timeout'')) False" by simp_all
  with queries_answered_once [OF first] show ?thesis by blast
qed

text \<open>Failed dials reach the state machine only for other peers: never for a bootstrap peer,
  which the reconnect backoff handles, and never for a dial of the node itself.\<close>

lemma dial_failures_reported:
  "TunnelDialFailed peer reason \<in>
      set (snd (translate_swarm_event env boot active is_connected e q)) \<longleftrightarrow>
    (\<exists>c. e = SwOutgoingConnectionError (Some peer) c reason) \<and> peer |\<notin>| boot \<and>
      \<not> str_contains ''local peer id'' reason"
proof (cases e)
  case (SwBehaviour b)
  have kad: "TunnelDialFailed peer reason \<notin> set (snd (translate_kad_event env active is_connected k q))"
    for k
  proof (cases k)
    case (OutboundQueryProgressed i r l)
    then show ?thesis
      by (cases r) (auto simp: translate_get_providers_def Let_def
          split: option.splits sum.splits get_providers_ok.splits if_splits)
  qed simp
  then show ?thesis
    unfolding SwBehaviour by (cases b) (auto split: sum.splits)
next
  case (SwListenerClosed r addrs)
  then show ?thesis by (auto split: sum.splits option.splits)
next
  case (SwOutgoingConnectionError p c m)
  then show ?thesis by (auto split: option.splits)
qed auto

lemma dial_failures_reported_witness:
  "TunnelDialFailed (PeerId ''w'') ''refused'' \<in>
     set (snd (translate_swarm_event (sample_env 0) {||} None (\<lambda>_. False)
       (SwOutgoingConnectionError (Some (PeerId ''w'')) 5 ''refused'')
       \<lparr>kad_tunnel_queries = fmempty, kad_service_queries = fmempty\<rparr>))"
  by (subst dial_failures_reported) (simp add: str_contains_def)

end
