(* ===== verification/Registry.thy ===== *)
theory Registry
  imports Net_Types
begin

text \<open>
  The two registries of \<open>src/src/tunnel.rs\<close>: the peers with a direct connection
  (\<open>DirectPeerRegistry\<close>) and the running tunnel tasks (\<open>TunnelRegistry\<close>).  A task handle is
  opaque; it is a type variable.
\<close>

section \<open>Direct peers\<close>

text \<open>The set behind the lock; each operation holds the lock for its single access.\<close>

type_synonym direct_peer_registry = "peer_id fset"

definition new_direct_peers :: direct_peer_registry where
  "new_direct_peers = {||}"

definition mark_direct :: "peer_id \<Rightarrow> direct_peer_registry \<Rightarrow> direct_peer_registry" where
  "mark_direct peer r = finsert peer r"

definition clear_direct :: "peer_id \<Rightarrow> direct_peer_registry \<Rightarrow> direct_peer_registry" where
  "clear_direct peer r = r |-| {|peer|}"

definition is_direct :: "direct_peer_registry \<Rightarrow> peer_id \<Rightarrow> bool" where
  "is_direct r peer \<longleftrightarrow> peer |\<in>| r"

lemma direct_registry_simps [simp]:
  "is_direct (mark_direct p r) q \<longleftrightarrow> p = q \<or> is_direct r q"
  "is_direct (clear_direct p r) q \<longleftrightarrow> p \<noteq> q \<and> is_direct r q"
  "\<not> is_direct new_direct_peers q"
  by (auto simp: is_direct_def mark_direct_def clear_direct_def new_direct_peers_def)

section \<open>Tunnel tasks\<close>

record 'h tunnel_registry =
  tunnels :: "(64 word, string \<times> 'h) fmap"
  next_id :: "64 word"

definition new_tunnel_registry :: "'h tunnel_registry" where
  "new_tunnel_registry = \<lparr>tunnels = fmempty, next_id = 0\<rparr>"

text \<open>\<open>None\<close> is the panic of \<open>checked_add(1).expect(..)\<close>.\<close>

definition register ::
  "string \<Rightarrow> 'h \<Rightarrow> 'h tunnel_registry \<Rightarrow> ('h tunnel_registry \<times> 64 word) option" where
  "register label h r =
     (let i = next_id r in
      case checked_add (next_id r) 1 of
        None \<Rightarrow> None
      | Some n \<Rightarrow> Some (r\<lparr>next_id := n, tunnels := fmupd i (label, h) (tunnels r)\<rparr>, i))"

definition unregister :: "64 word \<Rightarrow> 'h tunnel_registry \<Rightarrow> 'h tunnel_registry" where
  "unregister i r = r\<lparr>tunnels := fmdrop i (tunnels r)\<rparr>"

definition active_count :: "'h tunnel_registry \<Rightarrow> nat" where
  "active_count r = fcard (fmdom (tunnels r))"

text \<open>
  \<open>shutdown_all\<close>: drain the map, abort each task and wait for it up to the timeout.  The result
  lists the aborted tasks in the order of the drain (\<open>ord\<close>), each with whether it ended in time
  (\<open>ends_in\<close> says how long the task takes to end after the abort).
\<close>

definition shutdown_all ::
  "(64 word fset \<Rightarrow> 64 word list) \<Rightarrow> ('h \<Rightarrow> duration option) \<Rightarrow> duration \<Rightarrow> 'h tunnel_registry \<Rightarrow>
   'h tunnel_registry \<times> (string \<times> 'h \<times> bool) list" where
  "shutdown_all ord ends_in timeout r =
     (if fmdom (tunnels r) = {||} then (r, [])
      else
        (r\<lparr>tunnels := fmempty\<rparr>,
         List.map_filter
           (\<lambda>i. map_option
              (\<lambda>(label, h). (label, h, case ends_in h of None \<Rightarrow> False | Some d \<Rightarrow> d \<le> timeout))
              (fmlookup (tunnels r) i))
           (ord (fmdom (tunnels r)))))"

section \<open>Properties\<close>

definition registry_wf :: "'h tunnel_registry \<Rightarrow> bool" where
  "registry_wf r \<longleftrightarrow> fmpred (\<lambda>i _. i < next_id r) (tunnels r)"

lemma registry_wf_new [simp]: "registry_wf new_tunnel_registry"
  by (simp add: registry_wf_def new_tunnel_registry_def)

lemma registry_wf_unregister: "registry_wf r \<Longrightarrow> registry_wf (unregister i r)"
  by (simp add: registry_wf_def unregister_def fmpred_drop)

lemma checked_succ_less: "checked_add n 1 = Some m \<Longrightarrow> n < (m :: 64 word)"
  using checked_add_Some [of n 1 m] by (simp add: word_less_nat_alt)

lemma register_wf:
  assumes "registry_wf r" and "register label h r = Some (r', i)"
  shows "registry_wf r' \<and> i \<notin> fset (fmdom (tunnels r)) \<and> i = next_id r \<and>
    tunnels r' = fmupd i (label, h) (tunnels r) \<and> next_id r < next_id r'"
proof -
  from assms(2) obtain n where n: "checked_add (next_id r) 1 = Some n" "i = next_id r"
    "r' = r\<lparr>next_id := n, tunnels := fmupd i (label, h) (tunnels r)\<rparr>"
    by (auto simp: register_def Let_def split: option.splits)
  have less: "next_id r < n" using checked_succ_less [OF n(1)] .
  have old: "j < next_id r" if "fmlookup (tunnels r) j = Some x" for j x
    using assms(1) that unfolding registry_wf_def by (blast dest: fmpredD)
  have "registry_wf r'"
    unfolding registry_wf_def n using less old by (fastforce simp: fmpred_iff intro: less_trans)
  moreover have "i \<notin> fset (fmdom (tunnels r))"
    using old n(2) by (auto simp: fmlookup_dom_iff)
  ultimately show ?thesis using n less by simp
qed

text \<open>A registered tunnel task gets an identifier no running task has, and adds exactly one
  running task; registering fails only when all 64-bit identifiers are used.\<close>

lemma register_fresh_id:
  assumes "registry_wf r"
  shows "case register label h r of
      None \<Rightarrow> next_id r = - 1
    | Some (r', i) \<Rightarrow> registry_wf r' \<and> fmlookup (tunnels r) i = None \<and>
        fmlookup (tunnels r') i = Some (label, h) \<and> active_count r' = active_count r + 1 \<and>
        unregister i r' = r\<lparr>next_id := next_id r'\<rparr>"
proof (cases "register label h r")
  case None
  then have "\<not> unat (next_id r) + 1 < 2 ^ 64"
    by (auto simp: register_def checked_add_def Let_def split: option.splits if_splits)
  moreover have "unat (next_id r) < 2 ^ 64" using unsigned_less [of "next_id r"] by simp
  ultimately have "unat (next_id r) = 2 ^ 64 - 1" by simp
  then show ?thesis
    using None by (simp add: word_unat_eq_iff unsigned_minus_1_eq_mask mask_eq_exp_minus_1)
next
  case (Some ri)
  obtain r' i where ri: "ri = (r', i)" by (cases ri)
  note wf = register_wf [OF assms Some [unfolded ri]]
  then have free: "i |\<notin>| fmdom (tunnels r)" by metis
  then have "fmdrop i (fmupd i (label, h) (tunnels r)) = tunnels r"
    by (simp add: fmdrop_fmupd fmdrop_idle)
  moreover have "r'\<lparr>tunnels := tunnels r\<rparr> = r\<lparr>next_id := next_id r'\<rparr>"
    using Some ri by (auto simp: register_def Let_def split: option.splits)
  ultimately show ?thesis
    using wf free Some ri
    by (simp add: active_count_def unregister_def fcard_finsert_disjoint fmdom_notD)
qed

lemma register_fresh_id_witness:
  "case register ''w:ssh'' (7::nat) new_tunnel_registry of
      None \<Rightarrow> next_id (new_tunnel_registry :: nat tunnel_registry) = - 1
    | Some (r', i) \<Rightarrow> active_count r' = 1"
  using register_fresh_id [OF registry_wf_new, of "''w:ssh''" "7 :: nat"]
  by (auto simp: new_tunnel_registry_def [where 'h = nat] active_count_def fcard.rep_eq
      split: option.splits)

lemma shutdown_all_count:
  assumes "iterates ord"
  shows "let (r', aborted) = shutdown_all ord ends_in timeout r in
    active_count r' = 0 \<and> length aborted = active_count r \<and>
    mset (map (\<lambda>(label, h, _). (label, h)) aborted) =
      {# the (fmlookup (tunnels r) i). i \<in># mset_set (fset (fmdom (tunnels r))) #}"
proof (cases "fmdom (tunnels r) = {||}")
  case True
  then show ?thesis by (simp add: shutdown_all_def active_count_def)
next
  case False
  let ?D = "fmdom (tunnels r)"
  have ord: "hash_order ord" using assms by (rule hash_orderI)
  have set: "set (ord ?D) = fset ?D" by (rule hash_order.set_ord [OF ord])
  have pick: "List.map_filter (\<lambda>i. map_option f (fmlookup (tunnels r) i)) xs =
      map (\<lambda>i. f (the (fmlookup (tunnels r) i))) xs"
    if "set xs \<subseteq> fset ?D" for xs and f :: "string \<times> 'a \<Rightarrow> string \<times> 'a \<times> bool"
    using that by (induction xs) (auto simp: List.map_filter_simps fmlookup_dom_iff)
  have len: "length (ord ?D) = fcard ?D"
    by (metis distinct_card fcard.rep_eq hash_order.distinct_ord [OF ord] set)
  have bag: "{# the (fmlookup (tunnels r) i). i \<in># mset_set (fset ?D) #} =
      mset (map (\<lambda>i. the (fmlookup (tunnels r) i)) (ord ?D))"
    by (simp add: hash_order.mset_ord [OF ord])
  have aborted: "snd (shutdown_all ord ends_in timeout r) =
      map (\<lambda>i. case the (fmlookup (tunnels r) i) of (label, h) \<Rightarrow>
        (label, h, case ends_in h of None \<Rightarrow> False | Some d \<Rightarrow> d \<le> timeout)) (ord ?D)"
    using False set by (simp add: shutdown_all_def pick)
  have left: "active_count (fst (shutdown_all ord ends_in timeout r)) = 0"
    using False by (simp add: shutdown_all_def active_count_def)
  show ?thesis
    unfolding split_beta Let_def bag aborted
    using left len by (simp add: active_count_def split_beta comp_def)
qed

text \<open>Shutting down aborts every running tunnel task exactly once and leaves none running.\<close>

lemma shutdown_aborts_all:
  assumes "iterates ord"
  shows "let (r', aborted) = shutdown_all ord ends_in timeout r in
    active_count r' = 0 \<and> length aborted = active_count r \<and>
    mset (map (\<lambda>(label, h, _). (label, h)) aborted) =
      {# the (fmlookup (tunnels r) i). i \<in># mset_set (fset (fmdom (tunnels r))) #}"
  using assms by (rule shutdown_all_count)

lemma shutdown_aborts_all_witness:
  "active_count (fst (shutdown_all sorted_list_of_fset (\<lambda>h. None) (from_secs 5)
      (fst (the (register ''w:ssh'' (7::nat) new_tunnel_registry))))) = 0"
  using shutdown_aborts_all [OF iterates_sorted, of "\<lambda>h. None" "from_secs 5"
      "fst (the (register ''w:ssh'' (7::nat) new_tunnel_registry))"]
  by (simp add: split_beta Let_def)

end
