(* ===== verification/Execute.thy ===== *)
theory Execute
  imports Translate Registry
begin

text \<open>
  Carrying out commands, \<open>src/src/node/execute.rs\<close>.  The libp2p swarm is a parameter: a record
  of the calls the code makes on it, over a swarm state of any type.  Failures of calls that the
  code only logs leave no trace in the model.
\<close>

section \<open>The swarm\<close>

record dht_record =
  rec_key :: kademlia_key
  rec_value :: string
  rec_publisher :: peer_id
  rec_expires :: instant

record 'sw swarm_api =
  api_local_peer :: "'sw \<Rightarrow> peer_id"
  api_is_connected :: "'sw \<Rightarrow> peer_id \<Rightarrow> bool"
  api_bootstrap :: "'sw \<Rightarrow> 'sw \<times> (string + query_id)"
  api_add_address :: "peer_id \<Rightarrow> multiaddr \<Rightarrow> 'sw \<Rightarrow> 'sw"
  api_listen_on :: "multiaddr \<Rightarrow> 'sw \<Rightarrow> 'sw \<times> (string + unit)"
  api_get_closest_peers :: "peer_id \<Rightarrow> 'sw \<Rightarrow> 'sw \<times> query_id"
  api_get_providers :: "kademlia_key \<Rightarrow> 'sw \<Rightarrow> 'sw \<times> query_id"
  api_dial_peer :: "peer_id \<Rightarrow> multiaddr list \<Rightarrow> 'sw \<Rightarrow> 'sw \<times> (string + unit)"
  api_dial_addr :: "multiaddr \<Rightarrow> 'sw \<Rightarrow> 'sw \<times> (string + unit)"
  api_disconnect :: "peer_id \<Rightarrow> 'sw \<Rightarrow> 'sw"
  api_start_providing :: "kademlia_key \<Rightarrow> 'sw \<Rightarrow> 'sw"
  api_put_record :: "dht_record \<Rightarrow> 'sw \<Rightarrow> 'sw"
  api_close_connection :: "connection_id \<Rightarrow> 'sw \<Rightarrow> 'sw"
  api_add_external :: "multiaddr \<Rightarrow> 'sw \<Rightarrow> 'sw"
  api_remove_external :: "multiaddr \<Rightarrow> 'sw \<Rightarrow> 'sw"
  api_dcutr_candidate :: "multiaddr \<Rightarrow> 'sw \<Rightarrow> 'sw"

text \<open>\<open>serde_json::to_vec\<close> of a service name.\<close>

type_synonym name_json = "service_name \<Rightarrow> string option"

section \<open>The context\<close>

text \<open>A spawned tunnel task is what \<open>connect_tunnel\<close> was called with.\<close>

type_synonym tunnel_task = "peer_id \<times> service_name \<times> service_addr"

record execution_context =
  active_bootstrap_query :: "query_id option"
  queries :: query_tables
  direct_peers :: direct_peer_registry
  tasks :: "tunnel_task tunnel_registry"

definition new_execution_context :: execution_context where
  "new_execution_context =
     \<lparr>active_bootstrap_query = None,
      queries = \<lparr>kad_tunnel_queries = fmempty, kad_service_queries = fmempty\<rparr>,
      direct_peers = new_direct_peers, tasks = new_tunnel_registry\<rparr>"

section \<open>Commands\<close>

definition is_p2p :: "protocol \<Rightarrow> bool" where
  "is_p2p p \<longleftrightarrow> (case p of P2p _ \<Rightarrow> True | _ \<Rightarrow> False)"

definition relay_listen_addr :: "peer_id \<Rightarrow> multiaddr \<Rightarrow> multiaddr" where
  "relay_listen_addr relay_peer relay_addr =
     takeWhile (\<lambda>p. \<not> is_p2p p) relay_addr @ [P2p relay_peer, P2pCircuit]"

definition publish_one ::
  "'sw swarm_api \<Rightarrow> name_json \<Rightarrow> instant \<Rightarrow> exposed_service \<Rightarrow> 'sw \<Rightarrow> 'sw" where
  "publish_one api json now svc sw =
     (let key = for_service (svc_name svc);
          local_peer = api_local_peer api sw;
          sw1 = api_start_providing api key sw
      in case json (svc_name svc) of
           None \<Rightarrow> sw1
         | Some metadata \<Rightarrow>
             api_put_record api
               \<lparr>rec_key = key, rec_value = metadata, rec_publisher = local_peer,
                rec_expires = now + DHT_RECORD_TTL\<rparr> sw1)"

definition publish_services ::
  "'sw swarm_api \<Rightarrow> name_json \<Rightarrow> instant \<Rightarrow> exposed_service list \<Rightarrow> 'sw \<Rightarrow> 'sw" where
  "publish_services api json now exposed sw = fold (publish_one api json now) exposed sw"

text \<open>The label of a tunnel task: \<open>peer:service@bind\<close>.\<close>

definition task_label :: "step_env \<Rightarrow> v6_text \<Rightarrow> peer_id \<Rightarrow> service_name \<Rightarrow> service_addr \<Rightarrow> string" where
  "task_label env t peer svc addr =
     show_peer env peer @ '':'' @ service_name_str svc @ ''@'' @ show_service_addr t addr"

text \<open>What execution reads besides the swarm.\<close>

record exec_env =
  exec_step :: step_env
  exec_v6 :: v6_text
  exec_json :: name_json
  exec_exposed :: "exposed_service list"

fun execute_command ::
  "'sw swarm_api \<Rightarrow> exec_env \<Rightarrow> command \<Rightarrow> 'sw \<times> execution_context \<Rightarrow>
   ('sw \<times> execution_context) option" where
  "execute_command api x KademliaBootstrap (sw, ctx) =
     (case api_bootstrap api sw of
        (sw', Inr q) \<Rightarrow> Some (sw', ctx\<lparr>active_bootstrap_query := Some q\<rparr>)
      | (sw', Inl _) \<Rightarrow> Some (sw', ctx\<lparr>active_bootstrap_query := None\<rparr>))"
| "execute_command api x (KademliaAddAddress peer addr) (sw, ctx) =
     Some (api_add_address api peer addr sw, ctx)"
| "execute_command api x (RequestRelayReservation relay_peer relay_addr) (sw, ctx) =
     Some (fst (api_listen_on api (relay_listen_addr relay_peer relay_addr) sw), ctx)"
| "execute_command api x PublishServices (sw, ctx) =
     Some (publish_services api (exec_json x) (clock (exec_step x)) (exec_exposed x) sw, ctx)"
| "execute_command api x Shutdown (sw, ctx) = Some (sw, ctx)"
| "execute_command api x (DhtLookupPeer peer) (sw, ctx) =
     (case api_get_closest_peers api peer sw of (sw', q) \<Rightarrow>
        Some (sw', ctx\<lparr>queries := queries ctx\<lparr>kad_tunnel_queries :=
          fmupd q peer (kad_tunnel_queries (queries ctx))\<rparr>\<rparr>))"
| "execute_command api x (DhtGetProviders service key) (sw, ctx) =
     (case api_get_providers api key sw of (sw', q) \<Rightarrow>
        Some (sw', ctx\<lparr>queries := queries ctx\<lparr>kad_service_queries :=
          fmupd q service (kad_service_queries (queries ctx))\<rparr>\<rparr>))"
| "execute_command api x (DialPeer peer) (sw, ctx) =
     Some (fst (api_dial_peer api peer [] sw), ctx)"
| "execute_command api x (DialPeerWithAddrs peer addresses _) (sw, ctx) =
     Some (fst (api_dial_peer api peer addresses sw), ctx)"
| "execute_command api x (DisconnectPeer peer) (sw, ctx) = Some (api_disconnect api peer sw, ctx)"
| "execute_command api x (SpawnTunnel peer svc bind) (sw, ctx) =
     map_option (\<lambda>(r, _). (sw, ctx\<lparr>tasks := r\<rparr>))
       (register (task_label (exec_step x) (exec_v6 x) peer svc bind) (peer, svc, bind) (tasks ctx))"

text \<open>The loop; \<open>None\<close> is the panic of a full task registry.\<close>

fun execute_commands ::
  "'sw swarm_api \<Rightarrow> exec_env \<Rightarrow> command list \<Rightarrow> 'sw \<times> execution_context \<Rightarrow>
   ('sw \<times> execution_context) option" where
  "execute_commands api x [] sc = Some sc"
| "execute_commands api x (c # cs) sc =
     (case execute_command api x c sc of
        None \<Rightarrow> None
      | Some sc' \<Rightarrow> execute_commands api x cs sc')"

section \<open>Relay addresses\<close>

text \<open>The address a relay reservation listens on is a circuit through the requested relay: the
  transport part of the relay's address, without any peer component of its own, then the relay and
  the circuit marker; the relay is the only peer it names.\<close>

lemma relay_listen_addr_names_relay:
  "has_circuit (relay_listen_addr relay addr) \<and>
   extract_relay_peer_from_addrs [relay_listen_addr relay addr] = Some relay \<and>
   filter is_p2p (relay_listen_addr relay addr) = [P2p relay] \<and>
   (\<exists>rest. addr = takeWhile (\<lambda>p. \<not> is_p2p p) addr @ rest \<and> (rest = [] \<or> is_p2p (hd rest)))"
proof -
  have scan: "fold relay_scan (takeWhile (\<lambda>p. \<not> is_p2p p) addr) (None, c) =
      (None, c \<or> has_circuit (takeWhile (\<lambda>p. \<not> is_p2p p) addr))" for c
    by (induction addr arbitrary: c)
      (auto simp: has_circuit_def is_p2p_def split: protocol.splits elim!: relay_scan.elims)
  have "filter is_p2p (takeWhile (\<lambda>p. \<not> is_p2p p) addr) = []"
    by (auto simp: filter_empty_conv dest: set_takeWhileD)
  moreover have "addr = takeWhile (\<lambda>p. \<not> is_p2p p) addr @ dropWhile (\<lambda>p. \<not> is_p2p p) addr"
    "dropWhile (\<lambda>p. \<not> is_p2p p) addr = [] \<or> is_p2p (hd (dropWhile (\<lambda>p. \<not> is_p2p p) addr))"
    using hd_dropWhile [of "\<lambda>p. \<not> is_p2p p" addr] by auto
  ultimately have rest: "\<exists>rest. addr = takeWhile (\<lambda>p. \<not> is_p2p p) addr @ rest \<and> (rest = [] \<or> is_p2p (hd rest))"
    and none: "filter is_p2p (takeWhile (\<lambda>p. \<not> is_p2p p) addr) = []" by blast+
  have "is_p2p (P2p relay)" "\<not> is_p2p P2pCircuit" by (simp_all add: is_p2p_def)
  with scan [of False] rest none show ?thesis
    by (simp add: relay_listen_addr_def has_circuit_def)
qed

section \<open>Tasks\<close>

lemma execute_command_tasks:
  assumes "execute_command api x c (sw, ctx) = Some (sw', ctx')" and "registry_wf (tasks ctx)"
  shows "registry_wf (tasks ctx') \<and>
    image_mset (\<lambda>i. snd (the (fmlookup (tunnels (tasks ctx')) i)))
        (mset_set (fset (fmdom (tunnels (tasks ctx'))))) =
      image_mset (\<lambda>i. snd (the (fmlookup (tunnels (tasks ctx)) i)))
        (mset_set (fset (fmdom (tunnels (tasks ctx))))) + mset (spawned c)"
proof (cases c)
  case (SpawnTunnel peer svc bind)
  then obtain r i where r: "register (task_label (exec_step x) (exec_v6 x) peer svc bind)
      (peer, svc, bind) (tasks ctx) = Some (r, i)" and ctx': "ctx' = ctx\<lparr>tasks := r\<rparr>"
    using assms(1) by auto
  note wf = register_wf [OF assms(2) r]
  have new: "i \<notin> fset (fmdom (tunnels (tasks ctx)))" using wf by blast
  have tun: "tunnels r = fmupd i (task_label (exec_step x) (exec_v6 x) peer svc bind, (peer, svc, bind))
      (tunnels (tasks ctx))" using wf by blast
  have "image_mset (\<lambda>j. snd (the (fmlookup (tunnels r) j))) (mset_set (fset (fmdom (tunnels (tasks ctx))))) =
      image_mset (\<lambda>j. snd (the (fmlookup (tunnels (tasks ctx)) j)))
        (mset_set (fset (fmdom (tunnels (tasks ctx)))))"
    by (rule image_mset_cong) (use new tun in auto)
  with wf new tun show ?thesis by (simp add: ctx' SpawnTunnel)
qed (use assms in \<open>auto simp: split_beta split: prod.splits sum.splits\<close>)

text \<open>The tunnel tasks that run.\<close>

definition running_tasks :: "execution_context \<Rightarrow> tunnel_task multiset" where
  "running_tasks ctx = image_mset (\<lambda>i. snd (the (fmlookup (tunnels (tasks ctx)) i)))
     (mset_set (fset (fmdom (tunnels (tasks ctx)))))"

lemma execute_commands_tasks:
  "execute_commands api x cs (sw, ctx) = Some (sw', ctx') \<Longrightarrow> registry_wf (tasks ctx) \<Longrightarrow>
     registry_wf (tasks ctx') \<and>
     running_tasks ctx' = running_tasks ctx + mset (concat (map spawned cs))"
proof (induction cs arbitrary: sw ctx)
  case Nil
  then show ?case by simp
next
  case (Cons c cs)
  then obtain sw1 ctx1 where one: "execute_command api x c (sw, ctx) = Some (sw1, ctx1)"
    and rest: "execute_commands api x cs (sw1, ctx1) = Some (sw', ctx')"
    by (auto split: option.splits)
  from execute_command_tasks [OF one Cons.prems(2)] Cons.IH [OF rest]
  show ?case by (simp add: running_tasks_def)
qed

text \<open>Executing commands starts exactly one tunnel task for each \<open>SpawnTunnel\<close> command, for its
  peer, service and bind address, and stops none.\<close>

lemma spawn_commands_start_tasks:
  assumes "execute_commands api x cs (sw, ctx) = Some (sw', ctx')" and "registry_wf (tasks ctx)"
  shows "running_tasks ctx' = running_tasks ctx + mset (concat (map spawned cs))"
  using execute_commands_tasks [OF assms] by blast

section \<open>A recording swarm\<close>

text \<open>A concrete swarm for the examples: it counts its queries and records its calls.\<close>

datatype swarm_call =
    CallAddAddress peer_id multiaddr
  | CallListen multiaddr
  | CallDial peer_id "multiaddr list"
  | CallDialAddr multiaddr
  | CallDisconnect peer_id
  | CallProvide kademlia_key
  | CallPut dht_record
  | CallClose connection_id
  | CallAddExternal multiaddr
  | CallRemoveExternal multiaddr
  | CallCandidate multiaddr

record recording_swarm =
  calls :: "swarm_call list"
  next_query :: query_id
  connected_peers :: "peer_id fset"

definition recording :: "swarm_call \<Rightarrow> recording_swarm \<Rightarrow> recording_swarm" where
  "recording c sw = sw\<lparr>calls := calls sw @ [c]\<rparr>"

definition ask :: "recording_swarm \<Rightarrow> recording_swarm \<times> query_id" where
  "ask sw = (sw\<lparr>next_query := Suc (next_query sw)\<rparr>, next_query sw)"

definition sample_api :: "recording_swarm swarm_api" where
  "sample_api =
     \<lparr>api_local_peer = (\<lambda>_. PeerId ''me''),
      api_is_connected = (\<lambda>sw p. p |\<in>| connected_peers sw),
      api_bootstrap = (\<lambda>sw. map_prod id Inr (ask sw)),
      api_add_address = (\<lambda>p a. recording (CallAddAddress p a)),
      api_listen_on = (\<lambda>a sw. (recording (CallListen a) sw, Inr ())),
      api_get_closest_peers = (\<lambda>p. ask),
      api_get_providers = (\<lambda>k. ask),
      api_dial_peer = (\<lambda>p as sw. (recording (CallDial p as) sw, Inr ())),
      api_dial_addr = (\<lambda>a sw. (recording (CallDialAddr a) sw, Inr ())),
      api_disconnect = (\<lambda>p. recording (CallDisconnect p)),
      api_start_providing = (\<lambda>k. recording (CallProvide k)),
      api_put_record = (\<lambda>r. recording (CallPut r)),
      api_close_connection = (\<lambda>c. recording (CallClose c)),
      api_add_external = (\<lambda>a. recording (CallAddExternal a)),
      api_remove_external = (\<lambda>a. recording (CallRemoveExternal a)),
      api_dcutr_candidate = (\<lambda>a. recording (CallCandidate a))\<rparr>"

definition empty_swarm :: recording_swarm where
  "empty_swarm = \<lparr>calls = [], next_query = 0, connected_peers = {||}\<rparr>"

definition sample_exec :: "instant \<Rightarrow> exec_env" where
  "sample_exec t =
     \<lparr>exec_step = sample_env t, exec_v6 = \<lparr>v6_parse = (\<lambda>_. None), v6_show = (\<lambda>_. [])\<rparr>,
      exec_json = (\<lambda>n. Some (service_name_str n)), exec_exposed = []\<rparr>"

lemma spawn_commands_start_tasks_witness:
  "running_tasks (snd (the (execute_commands sample_api (sample_exec 0)
      [SpawnTunnel (PeerId ''w'') (ServiceName ''ssh'') sample_bind] (empty_swarm, new_execution_context)))) =
   {#(PeerId ''w'', ServiceName ''ssh'', sample_bind)#}"
proof -
  obtain sw' ctx' where e: "execute_commands sample_api (sample_exec 0)
      [SpawnTunnel (PeerId ''w'') (ServiceName ''ssh'') sample_bind] (empty_swarm, new_execution_context) =
      Some (sw', ctx')"
    by (simp add: register_def new_execution_context_def new_tunnel_registry_def checked_add_def Let_def)
  have "registry_wf (tasks new_execution_context)" and "running_tasks new_execution_context = {#}"
    by (simp_all add: new_execution_context_def running_tasks_def) (simp add: new_tunnel_registry_def)
  with spawn_commands_start_tasks [OF e] show ?thesis unfolding e by simp
qed

section \<open>Queries\<close>

text \<open>
  libp2p gives every Kademlia query an identifier of its own: \<open>issued\<close> collects the identifiers
  given out so far, every call only adds to them, and a new query gets one that is not among them.
\<close>

definition fresh_queries :: "'sw swarm_api \<Rightarrow> ('sw \<Rightarrow> query_id set) \<Rightarrow> bool" where
  "fresh_queries api issued \<longleftrightarrow>
     (\<forall>sw p. issued (fst (api_get_closest_peers api p sw)) =
          insert (snd (api_get_closest_peers api p sw)) (issued sw) \<and>
        snd (api_get_closest_peers api p sw) \<notin> issued sw) \<and>
     (\<forall>sw k. issued (fst (api_get_providers api k sw)) =
          insert (snd (api_get_providers api k sw)) (issued sw) \<and>
        snd (api_get_providers api k sw) \<notin> issued sw) \<and>
     (\<forall>sw. issued sw \<subseteq> issued (fst (api_bootstrap api sw))) \<and>
     (\<forall>sw p a. issued sw \<subseteq> issued (api_add_address api p a sw)) \<and>
     (\<forall>sw a. issued sw \<subseteq> issued (fst (api_listen_on api a sw))) \<and>
     (\<forall>sw p as. issued sw \<subseteq> issued (fst (api_dial_peer api p as sw))) \<and>
     (\<forall>sw p. issued sw \<subseteq> issued (api_disconnect api p sw)) \<and>
     (\<forall>sw k. issued sw \<subseteq> issued (api_start_providing api k sw)) \<and>
     (\<forall>sw r. issued sw \<subseteq> issued (api_put_record api r sw))"

text \<open>The peers and services that are looked up.\<close>

definition peers_asked :: "query_tables \<Rightarrow> peer_id multiset" where
  "peers_asked q = image_mset (\<lambda>i. the (fmlookup (kad_tunnel_queries q) i))
     (mset_set (fset (fmdom (kad_tunnel_queries q))))"

definition services_asked :: "query_tables \<Rightarrow> service_name multiset" where
  "services_asked q = image_mset (\<lambda>i. the (fmlookup (kad_service_queries q) i))
     (mset_set (fset (fmdom (kad_service_queries q))))"

definition queries_known :: "('sw \<Rightarrow> query_id set) \<Rightarrow> 'sw \<Rightarrow> query_tables \<Rightarrow> bool" where
  "queries_known issued sw q \<longleftrightarrow>
     fset (fmdom (kad_tunnel_queries q)) \<union> fset (fmdom (kad_service_queries q)) \<subseteq> issued sw"

fun lookups_of :: "command \<Rightarrow> peer_id list" where
  "lookups_of (DhtLookupPeer p) = [p]"
| "lookups_of _ = []"

fun provider_lookups_of :: "command \<Rightarrow> service_name list" where
  "provider_lookups_of (DhtGetProviders service _) = [service]"
| "provider_lookups_of _ = []"

lemma values_fmupd:
  assumes "k |\<notin>| fmdom m"
  shows "image_mset (\<lambda>i. the (fmlookup (fmupd k v m) i)) (mset_set (fset (fmdom (fmupd k v m)))) =
    add_mset v (image_mset (\<lambda>i. the (fmlookup m i)) (mset_set (fset (fmdom m))))"
proof -
  have "image_mset (\<lambda>i. the (fmlookup (fmupd k v m) i)) (mset_set (fset (fmdom m))) =
      image_mset (\<lambda>i. the (fmlookup m i)) (mset_set (fset (fmdom m)))"
    by (rule image_mset_cong) (use assms in auto)
  with assms show ?thesis by simp
qed

lemma publish_issued:
  "fresh_queries api issued \<Longrightarrow> issued sw \<subseteq> issued (publish_services api json now svcs sw)"
proof (induction svcs arbitrary: sw)
  case Nil
  then show ?case by (simp add: publish_services_def)
next
  case (Cons svc svcs)
  have "issued sw \<subseteq> issued (publish_one api json now svc sw)"
    using Cons.prems unfolding fresh_queries_def publish_one_def Let_def
    by (cases "json (svc_name svc)") (simp_all, meson subset_trans)
  with Cons.IH [OF Cons.prems, of "publish_one api json now svc sw"] show ?case
    by (auto simp: publish_services_def)
qed

lemma fresh_monos:
  assumes "fresh_queries api issued"
  shows "issued sw \<subseteq> issued (fst (api_bootstrap api sw))"
    and "issued sw \<subseteq> issued (api_add_address api p a sw)"
    and "issued sw \<subseteq> issued (fst (api_listen_on api a sw))"
    and "issued sw \<subseteq> issued (fst (api_dial_peer api p as sw))"
    and "issued sw \<subseteq> issued (api_disconnect api p sw)"
  using assms by (simp_all add: fresh_queries_def)

lemma known_mono: "queries_known issued sw q \<Longrightarrow> issued sw \<subseteq> issued sw' \<Longrightarrow> queries_known issued sw' q"
  by (auto simp: queries_known_def)

lemma execute_command_queries:
  assumes fresh: "fresh_queries api issued"
    and run: "execute_command api x c (sw, ctx) = Some (sw', ctx')"
    and known: "queries_known issued sw (queries ctx)"
  shows "queries_known issued sw' (queries ctx') \<and>
    peers_asked (queries ctx') = peers_asked (queries ctx) + mset (lookups_of c) \<and>
    services_asked (queries ctx') = services_asked (queries ctx) + mset (provider_lookups_of c)"
proof (cases c)
  case (DhtLookupPeer peer)
  obtain s q where s: "api_get_closest_peers api peer sw = (s, q)" by (metis surj_pair)
  have q: "issued s = insert q (issued sw)" "q \<notin> issued sw"
    using fresh s unfolding fresh_queries_def by (metis fst_conv snd_conv)+
  then have "q |\<notin>| fmdom (kad_tunnel_queries (queries ctx))"
    using known by (auto simp: queries_known_def)
  from values_fmupd [OF this] q(1) s run known show ?thesis
    by (auto simp: DhtLookupPeer peers_asked_def services_asked_def queries_known_def)
next
  case (DhtGetProviders service key)
  obtain s q where s: "api_get_providers api key sw = (s, q)" by (metis surj_pair)
  have q: "issued s = insert q (issued sw)" "q \<notin> issued sw"
    using fresh s unfolding fresh_queries_def by (metis fst_conv snd_conv)+
  then have "q |\<notin>| fmdom (kad_service_queries (queries ctx))"
    using known by (auto simp: queries_known_def)
  from values_fmupd [OF this] q(1) s run known show ?thesis
    by (auto simp: DhtGetProviders peers_asked_def services_asked_def queries_known_def)
next
  case PublishServices
  then have "ctx' = ctx" "issued sw \<subseteq> issued sw'"
    using run publish_issued [OF fresh, of sw] by auto
  with known PublishServices show ?thesis by (auto simp: queries_known_def)
next
  case (SpawnTunnel p s b)
  with run known show ?thesis by auto
next
  case KademliaBootstrap
  obtain s r where "api_bootstrap api sw = (s, r)" by (metis surj_pair)
  moreover from this have "issued sw \<subseteq> issued s"
    using fresh unfolding fresh_queries_def by (metis fst_conv)
  ultimately show ?thesis
    using run known by (cases r) (auto simp: KademliaBootstrap queries_known_def)
qed (use run known in \<open>auto elim!: known_mono intro!: fresh_monos [OF fresh, THEN subsetD]\<close>)

text \<open>No lookup is lost between the commands and the query tables: after commands were
  executed, the peers and the services with an open query are those from before together with one
  for each lookup command (no query replaces another's entry).\<close>

lemma lookups_recorded:
  assumes fresh: "fresh_queries api issued"
    and run: "execute_commands api x cs (sw, ctx) = Some (sw', ctx')"
    and known: "queries_known issued sw (queries ctx)"
  shows "peers_asked (queries ctx') = peers_asked (queries ctx) + mset (concat (map lookups_of cs)) \<and>
    services_asked (queries ctx') =
      services_asked (queries ctx) + mset (concat (map provider_lookups_of cs)) \<and>
    queries_known issued sw' (queries ctx')"
  using run known
proof (induction cs arbitrary: sw ctx)
  case Nil
  then show ?case by simp
next
  case (Cons c cs)
  then obtain sw1 ctx1 where one: "execute_command api x c (sw, ctx) = Some (sw1, ctx1)"
    and rest: "execute_commands api x cs (sw1, ctx1) = Some (sw', ctx')"
    by (auto split: option.splits)
  note q = execute_command_queries [OF fresh one Cons.prems(2)]
  from Cons.IH [OF rest] q show ?case by simp
qed

lemma sample_api_fresh: "fresh_queries sample_api (\<lambda>sw. {..<next_query sw})"
  by (auto simp: fresh_queries_def sample_api_def ask_def recording_def lessThan_Suc)

lemma lookups_recorded_witness:
  "peers_asked (queries (snd (the (execute_commands sample_api (sample_exec 0)
      [DhtLookupPeer (PeerId ''v''), DhtLookupPeer (PeerId ''w'')]
      (empty_swarm, new_execution_context))))) = {#PeerId ''v'', PeerId ''w''#}"
proof -
  obtain sw' ctx' where e: "execute_commands sample_api (sample_exec 0)
      [DhtLookupPeer (PeerId ''v''), DhtLookupPeer (PeerId ''w'')]
      (empty_swarm, new_execution_context) = Some (sw', ctx')"
    by (simp add: sample_api_def ask_def)
  have "queries_known (\<lambda>sw. {..<next_query sw}) empty_swarm (queries new_execution_context)"
    "peers_asked (queries new_execution_context) = {#}"
    by (simp_all add: new_execution_context_def queries_known_def peers_asked_def)
  with lookups_recorded [OF sample_api_fresh e] show ?thesis unfolding e by simp
qed

text \<open>What a lookup command asks for is what its answer reports: when the query started by a
  \<open>DhtLookupPeer\<close> command ends, the state machine is told that the lookup of that peer is complete
  and whether the peer is connected, and the query is forgotten.\<close>

lemma lookup_answered:
  assumes run: "execute_command api x (DhtLookupPeer peer) (sw, ctx) = Some (sw', ctx')"
    and q: "snd (api_get_closest_peers api peer sw) = q"
  shows "translate_swarm_event env boot active conn
      (SwBehaviour (BehKademlia (OutboundQueryProgressed q QueryGetClosestPeers True))) (queries ctx') =
    (queries ctx\<lparr>kad_tunnel_queries := fmdrop q (kad_tunnel_queries (queries ctx))\<rparr>,
     [DhtPeerLookupComplete peer (conn peer)])"
proof -
  have "queries ctx' = queries ctx\<lparr>kad_tunnel_queries := fmupd q peer (kad_tunnel_queries (queries ctx))\<rparr>"
    using run q by (auto split: prod.splits)
  moreover have "fmdrop q (fmupd q peer m) = fmdrop q m" for m
    by (rule fmap_ext) simp
  ultimately show ?thesis by simp
qed

lemma lookup_answered_witness:
  "snd (translate_swarm_event (sample_env 1) {||} None (\<lambda>_. True)
      (SwBehaviour (BehKademlia (OutboundQueryProgressed 0 QueryGetClosestPeers True)))
      (queries (snd (the (execute_command sample_api (sample_exec 0) (DhtLookupPeer (PeerId ''w''))
         (empty_swarm, new_execution_context)))))) =
   [DhtPeerLookupComplete (PeerId ''w'') True]"
proof -
  obtain sw' ctx' where e: "execute_command sample_api (sample_exec 0) (DhtLookupPeer (PeerId ''w''))
      (empty_swarm, new_execution_context) = Some (sw', ctx')"
    by (simp add: sample_api_def ask_def)
  from lookup_answered [OF this, of 0 "sample_env 1" "{||}" None "\<lambda>_. True"]
  show ?thesis unfolding e by (simp add: sample_api_def ask_def empty_swarm_def)
qed

end
