(* ===== verification/Connection_Facts.thy ===== *)
theory Connection_Facts
  imports Connection_Machine
begin

text \<open>
  The reachable states of \<open>ConnectionStateMachine\<close> and what holds in them: deadlines and pending
  dials always belong to the attempt under way, attempts get fresh identifiers, a peer with a
  direct connection has no attempt, and the dial counters are consistent.
\<close>

section \<open>Steps and reachable states\<close>

inductive conn_step :: "connection_state \<Rightarrow> connection_state \<Rightarrow> bool" where
  step_established: "conn_step s (fst (on_connection_established ord peer c relayed s))"
| step_start: "conn_step s (fst (start_hole_punch_attempt now peer timeout s))"
| step_closed: "conn_step s (fst (on_connection_closed peer c n s))"
| step_dialing: "conn_step s (fst (on_dialing peer c s))"
| step_error: "conn_step s (fst (on_outgoing_connection_error peer_opt c text s))"
| step_complete: "conn_step s (fst (complete_hole_punch_attempt peer s))"
| step_due: "env_ok env \<Longrightarrow> conn_step s (fst (take_due_hole_punch_timeouts env now s))"

inductive conn_reachable :: "connection_state \<Rightarrow> bool" where
  reach_new: "conn_reachable new_connection_state"
| reach_step: "conn_reachable s \<Longrightarrow> conn_step s s' \<Longrightarrow> conn_reachable s'"

section \<open>The invariant\<close>

definition attempt_id_of :: "connection_state \<Rightarrow> peer_id \<Rightarrow> 64 word option" where
  "attempt_id_of s peer = map_option stats_attempt_id (fmlookup (hole_punch_attempts s) peer)"

text \<open>The dials pending for a peer.\<close>

definition dials_of :: "(connection_id, peer_id \<times> 64 word) fmap \<Rightarrow> peer_id \<Rightarrow> nat" where
  "dials_of pending peer =
     fcard (ffilter (\<lambda>c. map_option fst (fmlookup pending c) = Some peer) (fmdom pending))"

definition conn_wf :: "connection_state \<Rightarrow> bool" where
  "conn_wf s \<longleftrightarrow>
     fmpred (\<lambda>_ ids. ids \<noteq> {||}) (relayed_connections s) \<and>
     fmpred (\<lambda>_ ids. ids \<noteq> {||}) (direct_connections s) \<and>
     fmpred (\<lambda>p d. attempt_id_of s p = Some (deadline_attempt_id d)) (hole_punch_deadlines s) \<and>
     fmpred (\<lambda>_ (p, i). attempt_id_of s p = Some i) (pending_hole_punch_dials s) \<and>
     fmpred (\<lambda>p stats. fmlookup (hole_punch_attempt_seq s) p = Some (stats_attempt_id stats))
       (hole_punch_attempts s) \<and>
     fmpred (\<lambda>p _. \<not> contains_key (direct_connections s) p) (hole_punch_attempts s)"

text \<open>Failed and pending dials together are no more than the dials started, unless that counter
  is saturated.\<close>

definition counters_wf :: "connection_state \<Rightarrow> bool" where
  "counters_wf s \<longleftrightarrow>
     fmpred (\<lambda>p stats. dials_started stats = - 1 \<or>
         unat (dials_failed stats) + dials_of (pending_hole_punch_dials s) p
           \<le> unat (dials_started stats))
       (hole_punch_attempts s)"

named_theorems conn_simps \<open>unfolding of the invariant over the finite maps\<close>

lemmas [conn_simps] = conn_wf_def attempt_id_of_def fmpred_iff Let_def split_beta
  complete_hole_punch_attempt_def remove_pending_hole_punch_dials_for_peer_def

lemma wf_new: "conn_wf new_connection_state" "counters_wf new_connection_state"
  by (simp_all add: conn_wf_def counters_wf_def new_connection_state_def)

subsection \<open>Identifiers\<close>

lemma wf_drop_dial:
  "conn_wf s \<Longrightarrow> conn_wf (s\<lparr>pending_hole_punch_dials := fmdrop c (pending_hole_punch_dials s)\<rparr>)"
  by (auto simp: conn_simps split: if_splits)

lemma wf_complete: "conn_wf s \<Longrightarrow> conn_wf (fst (complete_hole_punch_attempt peer s))"
  by (fastforce simp: conn_simps split: if_splits option.splits)

lemma wf_established:
  assumes "conn_wf s"
  shows "conn_wf (fst (on_connection_established ord peer c relayed s))"
proof (cases relayed)
  case True
  then show ?thesis
    using wf_drop_dial [OF assms, of c]
    by (auto simp: on_connection_established_def conn_simps split: if_splits)
next
  case False
  let ?s = "s\<lparr>pending_hole_punch_dials := fmdrop c (pending_hole_punch_dials s)\<rparr>"
  have "conn_wf (fst (complete_hole_punch_attempt peer ?s))"
    using wf_drop_dial [OF assms] by (rule wf_complete)
  with False show ?thesis
    by (auto simp: on_connection_established_def conn_simps split: if_splits)
qed

lemma relay_only_no_direct: "peer_is_relay_only s peer \<Longrightarrow> \<not> contains_key (direct_connections s) peer"
  by (simp add: peer_is_relay_only_def has_direct_connection_def)

lemma wf_start:
  assumes "conn_wf s"
  shows "conn_wf (fst (start_hole_punch_attempt now peer timeout s))"
proof (cases "peer_is_relay_only s peer \<and> \<not> contains_key (hole_punch_attempts s) peer")
  case True
  moreover have "fst q \<noteq> peer" if "fmlookup (pending_hole_punch_dials s) c = Some q" for c q
    using that assms True by (cases q) (fastforce simp: conn_simps contains_key_def)
  ultimately show ?thesis
    using assms relay_only_no_direct [of s peer]
    by (fastforce simp: start_hole_punch_attempt_def next_hole_punch_attempt_id_def
        new_attempt_stats_def conn_simps)
next
  case False
  with assms show ?thesis by (auto simp: start_hole_punch_attempt_def)
qed

lemma remove_connection_id_cases:
  "remove_connection_id m peer c = (m', gone) \<Longrightarrow>
     (\<forall>q. q \<noteq> peer \<longrightarrow> fmlookup m' q = fmlookup m q) \<and>
     fmlookup m' peer = (case fmlookup m peer of None \<Rightarrow> None
       | Some ids \<Rightarrow> if ids |-| {|c|} = {||} then None else Some (ids |-| {|c|})) \<and>
     (gone \<longleftrightarrow> contains_key m peer \<and> \<not> contains_key m' peer)"
  by (auto simp: remove_connection_id_def contains_key_def Let_def split: option.splits if_splits)

lemma remove_nonempty:
  assumes "fmpred (\<lambda>_ ids. ids \<noteq> {||}) m"
  shows "fmpred (\<lambda>_ ids. ids \<noteq> {||}) (fst (remove_connection_id m peer c))"
  using assms by (auto simp: remove_connection_id_def Let_def fmpred_drop fmpred_upd split: option.split)

lemma remove_contains:
  "contains_key (fst (remove_connection_id m peer c)) q \<Longrightarrow> contains_key m q"
  by (auto simp: remove_connection_id_def contains_key_def Let_def split: option.splits if_splits)

lemma wf_remove_relayed:
  "conn_wf s \<Longrightarrow> conn_wf (s\<lparr>relayed_connections :=
     fst (remove_connection_id (relayed_connections s) peer c)\<rparr>)"
  using remove_nonempty [of "relayed_connections s"] by (simp add: conn_wf_def attempt_id_of_def)

lemma wf_remove_direct:
  assumes "conn_wf s"
  shows "conn_wf (s\<lparr>direct_connections :=
     fst (remove_connection_id (direct_connections s) peer c)\<rparr>)"
proof -
  have "fmpred (\<lambda>_ ids. ids \<noteq> {||}) (fst (remove_connection_id (direct_connections s) peer c))"
    using assms by (intro remove_nonempty) (simp add: conn_wf_def)
  moreover have "fmpred (\<lambda>p _. \<not> contains_key (fst (remove_connection_id (direct_connections s) peer c)) p)
      (hole_punch_attempts s)"
    using assms remove_contains unfolding conn_wf_def fmpred_iff by blast
  ultimately show ?thesis using assms by (simp add: conn_wf_def attempt_id_of_def)
qed

lemma wf_forget:
  "conn_wf s \<Longrightarrow> conn_wf (s\<lparr>relayed_connections := fmdrop peer (relayed_connections s),
     direct_connections := fmdrop peer (direct_connections s)\<rparr>)"
  by (simp add: conn_wf_def attempt_id_of_def fmpred_drop) (auto simp: fmpred_iff)

text \<open>The connections left after one was closed.\<close>

definition closed_base :: "peer_id \<Rightarrow> connection_id \<Rightarrow> connection_state \<Rightarrow> connection_state" where
  "closed_base peer c s =
     s\<lparr>pending_hole_punch_dials := fmdrop c (pending_hole_punch_dials s),
       relayed_connections := fst (remove_connection_id (relayed_connections s) peer c),
       direct_connections := fst (remove_connection_id (direct_connections s) peer c)\<rparr>"

lemma closed_alt:
  fixes s peer c n
  defines "fully \<equiv> n = 0 \<and> \<not> has_relayed_connection (closed_base peer c s) peer \<and>
    \<not> has_direct_connection (closed_base peer c s) peer"
  shows "on_connection_closed peer c n s =
    (if fully then
       (let t = fst (complete_hole_punch_attempt peer (closed_base peer c s)) in
        t\<lparr>relayed_connections := fmdrop peer (relayed_connections t),
          direct_connections := fmdrop peer (direct_connections t)\<rparr>)
     else closed_base peer c s,
     \<lparr>clear_direct_registry = (snd (remove_connection_id (direct_connections s) peer c) \<or> fully),
      peer_fully_disconnected = fully\<rparr>)"
  unfolding fully_def on_connection_closed_def closed_base_def
  by (simp add: Let_def split_beta)

lemma wf_closed_base: "conn_wf s \<Longrightarrow> conn_wf (closed_base peer c s)"
  using wf_remove_direct [OF wf_remove_relayed [OF wf_drop_dial [of s c]], of peer c peer c]
  by (simp add: closed_base_def)

lemma wf_closed:
  assumes "conn_wf s"
  shows "conn_wf (fst (on_connection_closed peer c n s))"
  using wf_closed_base [OF assms, of peer c]
    wf_forget [OF wf_complete [OF wf_closed_base [OF assms, of peer c]], of peer]
  by (auto simp: closed_alt Let_def)

lemma wf_stats_upd:
  assumes "conn_wf s" and "fmlookup (hole_punch_attempts s) peer = Some stats"
    and "stats_attempt_id stats' = stats_attempt_id stats"
  shows "conn_wf (s\<lparr>hole_punch_attempts := fmupd peer stats' (hole_punch_attempts s)\<rparr>)"
proof -
  let ?s' = "s\<lparr>hole_punch_attempts := fmupd peer stats' (hole_punch_attempts s)\<rparr>"
  have "attempt_id_of ?s' q = attempt_id_of s q" for q
    using assms(2,3) by (auto simp: attempt_id_of_def)
  with assms show ?thesis by (simp add: conn_wf_def fmpred_upd) (auto simp: fmpred_iff)
qed

lemma wf_add_dial:
  "conn_wf s \<Longrightarrow> attempt_id_of s p = Some i \<Longrightarrow>
     conn_wf (s\<lparr>pending_hole_punch_dials := fmupd c (p, i) (pending_hole_punch_dials s)\<rparr>)"
  by (simp add: conn_wf_def attempt_id_of_def fmpred_upd)

lemma wf_dialing:
  assumes wf: "conn_wf s"
  shows "conn_wf (fst (on_dialing peer c s))"
proof (cases "fmlookup (hole_punch_attempts s) peer")
  case None
  with wf show ?thesis by (simp add: on_dialing_def)
next
  case (Some stats)
  let ?stats = "stats\<lparr>dials_started := saturating_add (dials_started stats) 1\<rparr>"
  have "conn_wf (s\<lparr>hole_punch_attempts := fmupd peer ?stats (hole_punch_attempts s)\<rparr>)"
    by (rule wf_stats_upd [OF wf Some]) simp
  from wf_add_dial [OF this, of peer "stats_attempt_id stats" c] wf Some show ?thesis
    by (simp add: on_dialing_def attempt_id_of_def Let_def)
qed

lemma wf_error:
  assumes wf: "conn_wf s"
  shows "conn_wf (fst (on_outgoing_connection_error peer_opt c text s))"
proof (cases "fmlookup (pending_hole_punch_dials s) c")
  case None
  then show ?thesis
    using wf_drop_dial [OF wf, of c]
    by (auto simp: on_outgoing_connection_error_def split: option.split)
next
  case (Some q)
  obtain p i where q: "q = (p, i)" by (cases q)
  show ?thesis
  proof (cases "fmlookup (hole_punch_attempts s) p")
    case None
    then show ?thesis
      using wf_drop_dial [OF wf, of c] Some q by (auto simp: on_outgoing_connection_error_def)
  next
    case (Some stats)
    let ?t = "s\<lparr>hole_punch_attempts := fmupd p
      (stats\<lparr>dials_failed := saturating_add (dials_failed stats) 1, last_dial_error := Some text\<rparr>)
      (hole_punch_attempts s)\<rparr>"
    have "conn_wf ?t" by (rule wf_stats_upd [OF wf Some]) simp
    from wf_drop_dial [OF this, of c] wf_drop_dial [OF wf, of c]
    show ?thesis
      using Some \<open>fmlookup (pending_hole_punch_dials s) c = Some q\<close> q
      by (simp add: on_outgoing_connection_error_def Let_def)
  qed
qed

lemma fold_drop_lookup:
  "fmlookup (fold (\<lambda>(p, _). fmdrop p) due m) q = (if q \<in> fst ` set due then None else fmlookup m q)"
  by (induction due arbitrary: m) auto

lemma wf_due: "conn_wf s \<Longrightarrow> conn_wf (fst (take_due_hole_punch_timeouts env now s))"
  by (auto simp: take_due_hole_punch_timeouts_def conn_simps fold_drop_lookup split: if_splits)

lemma conn_step_wf: "conn_step s s' \<Longrightarrow> conn_wf s \<Longrightarrow> conn_wf s'"
  by (induction rule: conn_step.induct)
    (simp_all add: wf_established wf_start wf_closed wf_dialing wf_error wf_complete wf_due)

lemma conn_reachable_wf: "conn_reachable s \<Longrightarrow> conn_wf s"
  by (induction rule: conn_reachable.induct) (auto simp: wf_new intro: conn_step_wf)

subsection \<open>Counters\<close>

text \<open>The connections whose dial is pending for a peer.\<close>

lemma dials_of_card: "dials_of m p = card {c. \<exists>i. fmlookup m c = Some (p, i)}"
proof -
  have "fset (ffilter (\<lambda>c. map_option fst (fmlookup m c) = Some p) (fmdom m)) =
      {c. \<exists>i. fmlookup m c = Some (p, i)}"
    by (auto simp: fmlookup_dom_iff)
  then show ?thesis by (simp add: dials_of_def fcard.rep_eq)
qed

lemma finite_dials: "finite {c. \<exists>i. fmlookup m c = Some (p, i)}"
  by (rule finite_subset [of _ "fset (fmdom m)"]) (auto intro: fmdomI)

lemma dials_mono:
  assumes "\<And>c i. fmlookup m' c = Some (p, i) \<Longrightarrow> \<exists>j. fmlookup m c = Some (p, j)"
  shows "dials_of m' p \<le> dials_of m p"
  unfolding dials_of_card by (rule card_mono [OF finite_dials]) (use assms in blast)

lemma dials_drop: "dials_of (fmdrop c m) p \<le> dials_of m p"
  by (rule dials_mono) (auto split: if_splits)

definition dial_set :: "(connection_id, peer_id \<times> 64 word) fmap \<Rightarrow> peer_id \<Rightarrow> connection_id set" where
  "dial_set m p = {c. \<exists>i. fmlookup m c = Some (p, i)}"

lemma dials_of_set: "dials_of m p = card (dial_set m p)" "finite (dial_set m p)"
  by (simp_all add: dial_set_def dials_of_card finite_dials)

lemma dials_drop_own:
  assumes "fmlookup m c = Some (p, i)"
  shows "Suc (dials_of (fmdrop c m) p) = dials_of m p"
proof -
  have "dial_set (fmdrop c m) p = dial_set m p - {c}" "c \<in> dial_set m p"
    using assms by (auto simp: dial_set_def)
  then show ?thesis by (metis dials_of_set card_Suc_Diff1)
qed

lemma dials_upd_own: "dials_of (fmupd c (p, i) m) p \<le> Suc (dials_of m p)"
proof -
  have "dial_set (fmupd c (p, i) m) p = insert c (dial_set m p)"
    by (auto simp: dial_set_def)
  then show ?thesis by (simp add: dials_of_set card_insert_if)
qed

lemma dials_upd_other: "p \<noteq> q \<Longrightarrow> dials_of (fmupd c (p, i) m) q \<le> dials_of m q"
  by (rule dials_mono) (auto split: if_splits)

lemma counters_mono:
  assumes "counters_wf s"
    and "\<And>p stats. fmlookup (hole_punch_attempts s') p = Some stats \<Longrightarrow>
      fmlookup (hole_punch_attempts s) p = Some stats \<and>
      dials_of (pending_hole_punch_dials s') p \<le> dials_of (pending_hole_punch_dials s) p"
  shows "counters_wf s'"
  using assms unfolding counters_wf_def fmpred_iff by (metis add_left_mono order_trans)

lemma counters_frame [simp]:
  "counters_wf (s\<lparr>relayed_connections := a\<rparr>) = counters_wf s"
  "counters_wf (s\<lparr>direct_connections := b\<rparr>) = counters_wf s"
  "counters_wf (s\<lparr>hole_punch_deadlines := c\<rparr>) = counters_wf s"
  "counters_wf (s\<lparr>hole_punch_attempt_seq := d\<rparr>) = counters_wf s"
  by (simp_all add: counters_wf_def)

lemma counters_drop_dial:
  "counters_wf s \<Longrightarrow> counters_wf (s\<lparr>pending_hole_punch_dials := fmdrop c (pending_hole_punch_dials s)\<rparr>)"
  by (erule counters_mono) (simp add: dials_drop)

lemma counters_complete:
  "counters_wf s \<Longrightarrow> counters_wf (fst (complete_hole_punch_attempt peer s))"
  by (erule counters_mono)
    (auto simp: complete_hole_punch_attempt_def remove_pending_hole_punch_dials_for_peer_def
      intro!: dials_mono split: if_splits option.splits)

lemma counters_start:
  assumes "counters_wf s" and "conn_wf s"
  shows "counters_wf (fst (start_hole_punch_attempt now peer timeout s))"
proof (cases "peer_is_relay_only s peer \<and> \<not> contains_key (hole_punch_attempts s) peer")
  case True
  have "{c. \<exists>i. fmlookup (pending_hole_punch_dials s) c = Some (peer, i)} = {}"
    using assms(2) True by (fastforce simp: conn_wf_def attempt_id_of_def fmpred_iff contains_key_def)
  then have "dials_of (pending_hole_punch_dials s) peer = 0" by (simp add: dials_of_card)
  with True assms(1) show ?thesis
    by (auto simp: start_hole_punch_attempt_def next_hole_punch_attempt_id_def new_attempt_stats_def
        Let_def counters_wf_def fmpred_upd)
next
  case False
  with assms show ?thesis by (auto simp: start_hole_punch_attempt_def)
qed

lemma counters_dialing:
  assumes "counters_wf s"
  shows "counters_wf (fst (on_dialing peer c s))"
proof (cases "fmlookup (hole_punch_attempts s) peer")
  case None
  with assms show ?thesis by (simp add: on_dialing_def)
next
  case (Some stats)
  let ?m = "pending_hole_punch_dials s"
  let ?m' = "fmupd c (peer, stats_attempt_id stats) ?m"
  have old: "dials_started stats = - 1 \<or>
      unat (dials_failed stats) + dials_of ?m peer \<le> unat (dials_started stats)"
    using assms Some unfolding counters_wf_def by (blast dest: fmpredD)
  have own: "saturating_add (dials_started stats) 1 = - 1 \<or>
      unat (dials_failed stats) + dials_of ?m' peer \<le> unat (saturating_add (dials_started stats) 1)"
  proof (cases "unat (dials_started stats) + 1 < 2 ^ 32")
    case True
    then have "dials_started stats \<noteq> - 1"
      by (auto simp: unsigned_minus_1_eq_mask mask_eq_exp_minus_1)
    with old True show ?thesis
      using dials_upd_own [of c peer "stats_attempt_id stats" ?m]
      by (simp add: unat_saturating_add)
  next
    case False
    then show ?thesis by (simp add: saturating_add_def)
  qed
  have others: "stats'' = stats'' \<and> (dials_started stats'' = - 1 \<or>
      unat (dials_failed stats'') + dials_of ?m' q \<le> unat (dials_started stats''))"
    if "q \<noteq> peer" "fmlookup (hole_punch_attempts s) q = Some stats''" for q stats''
  proof -
    have "dials_started stats'' = - 1 \<or>
        unat (dials_failed stats'') + dials_of ?m q \<le> unat (dials_started stats'')"
      using assms that(2) unfolding counters_wf_def by (blast dest: fmpredD)
    with dials_upd_other [of peer q c "stats_attempt_id stats" ?m] that(1) show ?thesis by auto
  qed
  show ?thesis
    using assms Some own others
    by (auto simp: on_dialing_def Let_def counters_wf_def fmpred_iff split: if_splits)
qed

lemma counters_error:
  assumes wf: "counters_wf s"
  shows "counters_wf (fst (on_outgoing_connection_error peer_opt c text s))"
proof (cases "fmlookup (pending_hole_punch_dials s) c")
  case None
  then show ?thesis
    using counters_drop_dial [OF wf, of c]
    by (auto simp: on_outgoing_connection_error_def split: option.split)
next
  case (Some q)
  obtain p i where q: "q = (p, i)" by (cases q)
  note pend = Some [unfolded q]
  show ?thesis
  proof (cases "fmlookup (hole_punch_attempts s) p")
    case None
    then show ?thesis
      using counters_drop_dial [OF wf, of c] pend by (auto simp: on_outgoing_connection_error_def)
  next
    case (Some stats)
    let ?m = "pending_hole_punch_dials s"
    let ?stats = "stats\<lparr>dials_failed := saturating_add (dials_failed stats) 1,
      last_dial_error := Some text\<rparr>"
    let ?t = "s\<lparr>hole_punch_attempts := fmupd p ?stats (hole_punch_attempts s),
      pending_hole_punch_dials := fmdrop c ?m\<rparr>"
    have old: "dials_started st = - 1 \<or>
        unat (dials_failed st) + dials_of ?m r \<le> unat (dials_started st)"
      if "fmlookup (hole_punch_attempts s) r = Some st" for r st
      using wf that unfolding counters_wf_def by (blast dest: fmpredD)
    have failed: "unat (saturating_add (dials_failed stats) 1) \<le> unat (dials_failed stats) + 1"
      by (simp add: unat_saturating_add)
    have "dials_started ?stats = - 1 \<or>
        unat (dials_failed ?stats) + dials_of (fmdrop c ?m) p \<le> unat (dials_started ?stats)"
      using old [OF Some] failed dials_drop_own [OF pend] by auto
    moreover have "dials_started st = - 1 \<or>
        unat (dials_failed st) + dials_of (fmdrop c ?m) r \<le> unat (dials_started st)"
      if "fmlookup (hole_punch_attempts s) r = Some st" for r st
      using old [OF that] dials_drop [of c ?m r] by linarith
    ultimately have t: "counters_wf ?t"
      by (auto simp: counters_wf_def fmpred_iff)
    show ?thesis
      using t counters_drop_dial [OF wf, of c] Some pend
      by (simp add: on_outgoing_connection_error_def Let_def)
  qed
qed

lemma counters_closed_base: "counters_wf s \<Longrightarrow> counters_wf (closed_base peer c s)"
  using counters_drop_dial [of s c] by (simp add: closed_base_def)

lemma conn_step_counters: "conn_step s s' \<Longrightarrow> conn_wf s \<Longrightarrow> counters_wf s \<Longrightarrow> counters_wf s'"
proof (induction rule: conn_step.induct)
  case (step_established s ord peer c relayed)
  then show ?case
    using counters_drop_dial [of s c] counters_complete
    by (auto simp: on_connection_established_def Let_def split_beta)
next
  case (step_closed s peer c n)
  then show ?case
    using counters_closed_base [of s peer c] counters_complete [of "closed_base peer c s" peer]
    by (auto simp: closed_alt Let_def)
qed (simp_all add: counters_start counters_dialing counters_error counters_complete
    take_due_hole_punch_timeouts_def Let_def)

lemma conn_reachable_counters: "conn_reachable s \<Longrightarrow> counters_wf s"
  by (induction rule: conn_reachable.induct)
    (auto simp: wf_new intro: conn_step_counters conn_reachable_wf)

end
