(* ===== verification/Connection_Props.thy ===== *)
theory Connection_Props
  imports Connection_Facts
begin

text \<open>
  What the node relies on of \<open>ConnectionStateMachine\<close>: its consistency in every reachable state,
  and the contracts of its operations.
\<close>

inductive_simps conn_step_from: "conn_step s s'"

section \<open>Concrete states\<close>

definition sample_peer :: peer_id where
  "sample_peer = PeerId ''w''"

text \<open>A relayed connection, then an attempt on it, then a dial that belongs to it.\<close>

definition sample_relayed :: connection_state where
  "sample_relayed =
     fst (on_connection_established sorted_list_of_fset sample_peer 1 True new_connection_state)"

definition sample_attempt :: connection_state where
  "sample_attempt = fst (start_hole_punch_attempt 100 sample_peer 50 sample_relayed)"

definition sample_dialing :: connection_state where
  "sample_dialing = fst (on_dialing sample_peer 2 sample_attempt)"

lemma sample_relayed_reachable: "conn_reachable sample_relayed"
  unfolding sample_relayed_def by (rule reach_step [OF reach_new step_established])

lemma sample_attempt_reachable: "conn_reachable sample_attempt"
  unfolding sample_attempt_def by (rule reach_step [OF sample_relayed_reachable step_start])

lemma sample_dialing_reachable: "conn_reachable sample_dialing"
  unfolding sample_dialing_def by (rule reach_step [OF sample_attempt_reachable step_dialing])

lemma sample_relayed_only: "peer_is_relay_only sample_relayed sample_peer"
  by (simp add: sample_relayed_def on_connection_established_def new_connection_state_def
      peer_is_relay_only_def has_relayed_connection_def has_direct_connection_def)

lemma sample_relayed_idle: "\<not> contains_key (hole_punch_attempts sample_relayed) sample_peer"
  by (simp add: sample_relayed_def on_connection_established_def new_connection_state_def)

lemma sample_attempt_values:
  "fmlookup (hole_punch_attempts sample_attempt) sample_peer = Some (new_attempt_stats 1 100)"
  "fmlookup (hole_punch_deadlines sample_attempt) sample_peer =
     Some \<lparr>deadline_attempt_id = 1, deadline_at = 150\<rparr>"
  "peer_is_relay_only sample_attempt sample_peer"
  using sample_relayed_only sample_relayed_idle
  by (simp_all add: sample_attempt_def start_hole_punch_attempt_def next_hole_punch_attempt_id_def
      sample_relayed_def on_connection_established_def new_connection_state_def saturating_add_def
      peer_is_relay_only_def has_relayed_connection_def has_direct_connection_def)

lemma sample_dialing_values:
  "fmlookup (pending_hole_punch_dials sample_dialing) 2 = Some (sample_peer, 1)"
  "fmlookup (hole_punch_attempts sample_dialing) sample_peer =
     Some (new_attempt_stats 1 100\<lparr>dials_started := 1\<rparr>)"
  using sample_attempt_values
  by (simp_all add: sample_dialing_def on_dialing_def Let_def new_attempt_stats_def
      saturating_add_def)

section \<open>Consistency\<close>

lemma reachable_failed_le:
  assumes "conn_reachable s" and "fmlookup (hole_punch_attempts s) p = Some stats"
  shows "dials_failed stats \<le> dials_started stats"
proof -
  have "dials_started stats = - 1 \<or>
      unat (dials_failed stats) + dials_of (pending_hole_punch_dials s) p \<le> unat (dials_started stats)"
    using conn_reachable_counters [OF assms(1)] assms(2) unfolding counters_wf_def by (blast dest: fmpredD)
  then show ?thesis by (elim disjE) (simp, simp add: word_le_nat_alt)
qed

text \<open>C13: In every reachable state the hole-punch records agree: a deadline and every pending dial
  carry the identifier of the attempt under way for their peer, that identifier is the last one
  given out for the peer, a peer with an attempt has no direct connection, no set of connections
  is empty, and no more dials failed than were started.\<close>

theorem attempts_consistent:
  assumes "conn_reachable s"
  shows "conn_wf s \<and>
    (\<forall>p stats. fmlookup (hole_punch_attempts s) p = Some stats \<longrightarrow>
       dials_failed stats \<le> dials_started stats)"
  using conn_reachable_wf [OF assms] reachable_failed_le [OF assms] by blast

theorem attempts_consistent_witness:
  "conn_wf sample_dialing"
  using attempts_consistent [OF sample_dialing_reachable] by blast

text \<open>A failed dial is never reported as belonging to a superseded attempt: the branch
  \<open>StaleTracked\<close> of \<open>on_outgoing_connection_error\<close> cannot be taken in a reachable state.\<close>

lemma stale_dials_unreachable:
  assumes "conn_reachable s"
  shows "snd (on_outgoing_connection_error peer_opt c text s) \<noteq> StaleTracked p expected received"
proof -
  have "attempt_id_of s q = Some i" if "fmlookup (pending_hole_punch_dials s) c = Some (q, i)" for q i
    using conn_reachable_wf [OF assms] that unfolding conn_wf_def fmpred_iff by fastforce
  then show ?thesis
    by (auto simp: on_outgoing_connection_error_def attempt_id_of_def Let_def split_beta
        split: option.splits)
qed

lemma stale_dials_unreachable_witness:
  "snd (on_outgoing_connection_error None 2 ''refused'' sample_dialing) \<noteq>
     StaleTracked sample_peer 2 1"
  by (rule stale_dials_unreachable [OF sample_dialing_reachable])

section \<open>Attempts\<close>

lemma seq_covers_attempts:
  "conn_wf s \<Longrightarrow> fmlookup (hole_punch_attempts s) p = Some stats \<Longrightarrow>
     get_or 0 (hole_punch_attempt_seq s) p = stats_attempt_id stats"
  unfolding conn_wf_def fmpred_iff by auto

text \<open>A hole-punch attempt starts exactly when the peer is connected only through a relay and
  no attempt is under way for it; it then gets an identifier larger than every earlier one of that
  peer (as long as the 64-bit counter is not exhausted) and a deadline one timeout away, and
  nothing else of the state changes.  Otherwise the state is unchanged.\<close>

lemma attempt_starts_fresh:
  "let (s', started) = start_hole_punch_attempt now peer timeout s in
    (started \<noteq> None \<longleftrightarrow>
       peer_is_relay_only s peer \<and> \<not> contains_key (hole_punch_attempts s) peer) \<and>
    (case started of
       None \<Rightarrow> s' = s
     | Some i \<Rightarrow>
         (get_or 0 (hole_punch_attempt_seq s) peer = - 1 \<or>
          get_or 0 (hole_punch_attempt_seq s) peer < i) \<and>
         s' = s\<lparr>hole_punch_attempt_seq := fmupd peer i (hole_punch_attempt_seq s),
                hole_punch_attempts :=
                  fmupd peer (new_attempt_stats i now) (hole_punch_attempts s),
                hole_punch_deadlines :=
                  fmupd peer \<lparr>deadline_attempt_id = i, deadline_at = now + timeout\<rparr>
                    (hole_punch_deadlines s)\<rparr>)"
proof -
  let ?n = "get_or 0 (hole_punch_attempt_seq s) peer"
  have "?n = - 1 \<or> ?n < saturating_add ?n 1"
  proof (cases "unat ?n + 1 < 2 ^ 64")
    case True
    then show ?thesis by (simp add: word_less_nat_alt unat_saturating_add)
  next
    case False
    have "unat ?n < 2 ^ 64" using unsigned_less [of ?n] by simp
    with False have "unat ?n = 2 ^ 64 - 1" by simp
    then have "?n = - 1"
      by (simp add: word_unat_eq_iff unsigned_minus_1_eq_mask mask_eq_exp_minus_1)
    then show ?thesis ..
  qed
  then show ?thesis
    by (auto simp: start_hole_punch_attempt_def next_hole_punch_attempt_id_def Let_def)
qed

lemma attempt_starts_fresh_witness:
  "snd (start_hole_punch_attempt 100 sample_peer 50 sample_relayed) \<noteq> None"
  using attempt_starts_fresh [of 100 sample_peer 50 sample_relayed] sample_relayed_only
    sample_relayed_idle
  by (simp add: split_beta Let_def)

text \<open>A direct connection ends the attempt of its peer and hands back every relayed connection
  of that peer, each once, to be closed; afterwards the peer counts as directly connected, and
  neither an attempt, nor a deadline, nor a pending dial of it is left.\<close>

lemma direct_connection_ends_attempt:
  assumes ord: "iterates ord"
  shows "let (s', update) = on_connection_established ord peer c False s in
    direct_connection_established update \<and>
    completed_attempt update = fmlookup (hole_punch_attempts s) peer \<and>
    distinct (relayed_connections_to_close update) \<and>
    set (relayed_connections_to_close update) = fset (get_or {||} (relayed_connections s) peer) \<and>
    c |\<in>| get_or {||} (direct_connections s') peer \<and>
    \<not> has_relayed_connection s' peer \<and> \<not> peer_is_relay_only s' peer \<and>
    active_attempt_stats s' peer = None \<and>
    \<not> contains_key (hole_punch_deadlines s') peer \<and>
    dials_of (pending_hole_punch_dials s') peer = 0"
proof -
  let ?s' = "fst (on_connection_established ord peer c False s)"
  have "dial_set (pending_hole_punch_dials ?s') peer = {}"
    by (auto simp: on_connection_established_def complete_hole_punch_attempt_def dial_set_def
        remove_pending_hole_punch_dials_for_peer_def Let_def split: option.splits if_splits)
  then have "dials_of (pending_hole_punch_dials ?s') peer = 0" by (simp add: dials_of_set)
  moreover have "distinct (ord S)" "set (ord S) = fset S" for S
    using ord by (auto simp: iterates_def)
  ultimately show ?thesis
    by (simp add: on_connection_established_def complete_hole_punch_attempt_def
        remove_pending_hole_punch_dials_for_peer_def has_relayed_connection_def
        peer_is_relay_only_def active_attempt_stats_def get_or_def Let_def split: option.split)
qed

lemma direct_connection_ends_attempt_witness:
  "active_attempt_stats
     (fst (on_connection_established sorted_list_of_fset sample_peer 3 False sample_dialing))
     sample_peer = None"
  using direct_connection_ends_attempt [OF iterates_sorted, of sample_peer 3 sample_dialing]
  by (simp add: split_beta Let_def)

section \<open>Deadlines\<close>

lemma map_filter_image: "set (List.map_filter f xs) = {y. \<exists>x\<in>set xs. f x = Some y}"
  by (induction xs) (auto simp: List.map_filter_def)

lemma due_timeouts_set:
  assumes "env_ok env"
  shows "(p, i) \<in> set (due_timeouts env now s) \<longleftrightarrow>
    (\<exists>d. fmlookup (hole_punch_deadlines s) p = Some d \<and> deadline_at d \<le> now \<and>
       deadline_attempt_id d = i)"
proof -
  let ?pick = "\<lambda>p. case fmlookup (hole_punch_deadlines s) p of
      Some entry \<Rightarrow> if deadline_at entry \<le> now then Some (p, deadline_attempt_id entry) else None
    | None \<Rightarrow> None"
  have pick: "?pick q = Some (p, i) \<longleftrightarrow> q = p \<and>
      (\<exists>d. fmlookup (hole_punch_deadlines s) p = Some d \<and> deadline_at d \<le> now \<and>
         deadline_attempt_id d = i)" for q
    by (cases "fmlookup (hole_punch_deadlines s) q") auto
  have "set (peer_order env S) = fset S" for S
    using assms by (simp add: env_ok_def iterates_def)
  then show ?thesis
    unfolding due_timeouts_def map_filter_image mem_Collect_eq pick by (auto intro: fmdomI)
qed

lemma distinct_map_filter_fst:
  assumes "distinct xs" and "\<And>x y. f x = Some y \<Longrightarrow> fst y = x"
  shows "distinct (map fst (List.map_filter f xs))"
  using assms(1)
proof (induction xs)
  case Nil
  then show ?case by (simp add: List.map_filter_def)
next
  case (Cons x xs)
  have "x \<notin> fst ` set (List.map_filter f xs)"
    using Cons.prems assms(2) by (auto simp: map_filter_image)
  with Cons show ?case
    using assms(2) [of x] by (auto simp: List.map_filter_simps split: option.split)
qed

lemma fold_min_Some: "fold min xs (x::nat) \<in> set (x # xs) \<and> (\<forall>y\<in>set (x # xs). fold min xs x \<le> y)"
proof (induction xs arbitrary: x)
  case Nil
  then show ?case by simp
next
  case (Cons y ys)
  from Cons.IH [of "min y x"] show ?case by (auto simp: min_def split: if_splits)
qed

lemma next_deadline_spec:
  assumes "env_ok env"
  shows "case next_hole_punch_deadline env s of
      None \<Rightarrow> hole_punch_deadlines s = fmempty
    | Some t \<Rightarrow> (\<exists>p d. fmlookup (hole_punch_deadlines s) p = Some d \<and> deadline_at d = t) \<and>
        (\<forall>p d. fmlookup (hole_punch_deadlines s) p = Some d \<longrightarrow> t \<le> deadline_at d)"
proof -
  let ?ds = "List.map_filter (\<lambda>p. map_option deadline_at (fmlookup (hole_punch_deadlines s) p))
    (peer_order env (fmdom (hole_punch_deadlines s)))"
  have ds: "set ?ds = {t. \<exists>p d. fmlookup (hole_punch_deadlines s) p = Some d \<and> deadline_at d = t}"
    using assms by (auto simp: map_filter_image env_ok_def iterates_def fmlookup_dom_iff)
  show ?thesis
  proof (cases ?ds)
    case Nil
    have "hole_punch_deadlines s = fmempty"
      by (rule fmap_ext) (use ds Nil in \<open>auto intro: ccontr\<close>)
    with Nil show ?thesis by (simp add: next_hole_punch_deadline_def)
  next
    case (Cons t ts)
    have "fold min ts t \<in> set ?ds" and least: "\<And>u. u \<in> set ?ds \<Longrightarrow> fold min ts t \<le> u"
      using fold_min_Some [of ts t] unfolding Cons by blast+
    moreover have "deadline_at d \<in> set ?ds" if "fmlookup (hole_punch_deadlines s) p = Some d" for p d
      unfolding ds using that by blast
    moreover have "\<exists>p d. fmlookup (hole_punch_deadlines s) p = Some d \<and> deadline_at d = u"
      if "u \<in> set ?ds" for u
      using that unfolding ds by blast
    moreover have "next_hole_punch_deadline env s = Some (fold min ts t)"
      unfolding next_hole_punch_deadline_def Cons by simp
    ultimately show ?thesis by auto
  qed
qed

text \<open>Taking the due timeouts at a time yields exactly the attempts whose deadline has passed,
  each once and with the identifier of the attempt under way, and removes their deadlines: a second
  call at that time yields nothing, and the next deadline, if any, is later.\<close>

lemma due_timeouts_taken_once:
  assumes reach: "conn_reachable s" and env: "env_ok env"
  shows "let (s', due) = take_due_hole_punch_timeouts env now s in
    distinct (map fst due) \<and>
    (\<forall>p i. (p, i) \<in> set due \<longleftrightarrow>
       (\<exists>d. fmlookup (hole_punch_deadlines s) p = Some d \<and> deadline_at d \<le> now \<and>
          deadline_attempt_id d = i)) \<and>
    (\<forall>(p, i)\<in>set due. attempt_id_of s p = Some i) \<and>
    snd (take_due_hole_punch_timeouts env now s') = [] \<and>
    (case next_hole_punch_deadline env s' of None \<Rightarrow> True | Some t \<Rightarrow> now < t)"
proof -
  let ?due = "due_timeouts env now s"
  let ?s' = "fst (take_due_hole_punch_timeouts env now s)"
  have left: "now < deadline_at d" if "fmlookup (hole_punch_deadlines ?s') p = Some d" for p d
    using that due_timeouts_set [OF env, of p _ now s]
    by (force simp: take_due_hole_punch_timeouts_def fold_drop_lookup Let_def split: if_splits)
  have dist: "distinct (map fst ?due)"
    unfolding due_timeouts_def
    by (rule distinct_map_filter_fst)
      (use env in \<open>auto simp: env_ok_def iterates_def split: option.splits if_splits\<close>)
  have active: "\<forall>(p, i)\<in>set ?due. attempt_id_of s p = Some i"
    using conn_reachable_wf [OF reach]
    by (auto simp: due_timeouts_set [OF env] conn_wf_def fmpred_iff)
  have "x \<notin> set (due_timeouts env now ?s')" for x
    using left by (cases x) (fastforce simp: due_timeouts_set [OF env])
  then have again: "due_timeouts env now ?s' = []" by (cases "due_timeouts env now ?s'") auto
  have next_later: "case next_hole_punch_deadline env ?s' of None \<Rightarrow> True | Some t \<Rightarrow> now < t"
    using next_deadline_spec [OF env, of ?s'] left by (auto split: option.splits)
  show ?thesis
    using dist active again next_later
    by (simp add: take_due_hole_punch_timeouts_def Let_def due_timeouts_set [OF env])
qed

lemma due_timeouts_taken_once_witness:
  "(sample_peer, 1) \<in> set (snd (take_due_hole_punch_timeouts (sample_env 160) 160 sample_attempt))"
  using due_timeouts_taken_once [OF sample_attempt_reachable env_ok_sample, of 160 160]
    sample_attempt_values(2)
  by (simp add: split_beta Let_def)

text \<open>An attempt without a deadline.\<close>

definition timed_out :: "connection_state \<Rightarrow> peer_id \<Rightarrow> 64 word \<Rightarrow> bool" where
  "timed_out s p i \<longleftrightarrow> attempt_id_of s p = Some i \<and> \<not> contains_key (hole_punch_deadlines s) p"

lemma due_times_out:
  assumes "conn_reachable s" and "env_ok env"
    and "(p, i) \<in> set (snd (take_due_hole_punch_timeouts env now s))"
  shows "timed_out (fst (take_due_hole_punch_timeouts env now s)) p i"
proof -
  have "(p, i) \<in> set (due_timeouts env now s)"
    using assms(3) by (simp add: take_due_hole_punch_timeouts_def Let_def)
  moreover from this have "attempt_id_of s p = Some i"
    using conn_reachable_wf [OF assms(1)]
    by (auto simp: due_timeouts_set [OF assms(2)] conn_wf_def fmpred_iff)
  ultimately show ?thesis
    by (auto simp: timed_out_def take_due_hole_punch_timeouts_def attempt_id_of_def contains_key_def
        fold_drop_lookup Let_def rev_image_eqI)
qed

lemma timed_out_no_start:
  "timed_out s p i \<Longrightarrow> start_hole_punch_attempt now p timeout s = (s, None)"
  by (auto simp: timed_out_def attempt_id_of_def start_hole_punch_attempt_def contains_key_def)

lemma timed_out_kept:
  assumes "timed_out s p i" and "conn_step s s'"
  shows "timed_out s' p i \<or> attempt_id_of s' p = None"
  using assms(2)
proof cases
  case (step_established ord peer c relayed)
  with assms(1) show ?thesis
    by (auto simp: timed_out_def attempt_id_of_def on_connection_established_def complete_hole_punch_attempt_def
        remove_pending_hole_punch_dials_for_peer_def Let_def)
next
  case (step_start now peer timeout)
  show ?thesis
  proof (cases "peer = p")
    case True
    with assms(1) step_start show ?thesis by (simp add: timed_out_no_start)
  next
    case False
    with assms(1) step_start show ?thesis
      by (auto simp: timed_out_def attempt_id_of_def start_hole_punch_attempt_def
          next_hole_punch_attempt_id_def Let_def)
  qed
next
  case (step_closed peer c n)
  with assms(1) show ?thesis
    by (auto simp: timed_out_def attempt_id_of_def closed_alt closed_base_def complete_hole_punch_attempt_def
        remove_pending_hole_punch_dials_for_peer_def Let_def)
next
  case (step_dialing peer c)
  with assms(1) show ?thesis
    by (auto simp: timed_out_def attempt_id_of_def on_dialing_def Let_def split: option.splits)
next
  case (step_error peer_opt c error_text)
  with assms(1) show ?thesis
    by (auto simp: timed_out_def attempt_id_of_def on_outgoing_connection_error_def Let_def
        split: option.splits prod.splits if_splits)
next
  case (step_complete peer)
  with assms(1) show ?thesis
    by (auto simp: timed_out_def attempt_id_of_def complete_hole_punch_attempt_def
        remove_pending_hole_punch_dials_for_peer_def)
next
  case (step_due env now)
  with assms(1) show ?thesis
    by (auto simp: timed_out_def attempt_id_of_def take_due_hole_punch_timeouts_def contains_key_def
        fold_drop_lookup Let_def)
qed

text \<open>C25: An attempt that timed out stays on record without a deadline: through any further operations,
  for as long as none of them completes it (a direct connection or the full disconnection of the
  peer does), no new attempt is started for the peer and no timeout of it is due any more.\<close>

theorem timed_out_attempt_blocks:
  assumes "conn_reachable s" and "env_ok env" and take: "take_due_hole_punch_timeouts env now s = (t, due)"
    and "(p, i) \<in> set due" and path: "(\<lambda>a b. conn_step a b \<and> attempt_id_of b p \<noteq> None)\<^sup>*\<^sup>* t u"
    and "env_ok env'"
  shows "attempt_id_of u p = Some i \<and> start_hole_punch_attempt now' p timeout u = (u, None) \<and>
    p \<notin> fst ` set (due_timeouts env' now' u)"
proof -
  have "timed_out t p i"
    using due_times_out [OF assms(1,2), of p i now] assms(4) by (simp add: take)
  with path have out: "timed_out u p i"
    by (induction rule: rtranclp_induct) (auto dest: timed_out_kept)
  then have "p \<notin> fst ` set (due_timeouts env' now' u)"
    by (auto simp: due_timeouts_set [OF assms(6)] timed_out_def contains_key_def)
  with out timed_out_no_start [OF out] show ?thesis
    by (simp add: timed_out_def)
qed

theorem timed_out_attempt_blocks_witness:
  "start_hole_punch_attempt 170 sample_peer 50
     (fst (take_due_hole_punch_timeouts (sample_env 160) 160 sample_attempt)) =
   (fst (take_due_hole_punch_timeouts (sample_env 160) 160 sample_attempt), None)"
proof -
  obtain t due where take: "take_due_hole_punch_timeouts (sample_env 160) 160 sample_attempt = (t, due)"
    by fastforce
  have "(sample_peer, 1) \<in> set due"
    using due_timeouts_taken_once [OF sample_attempt_reachable env_ok_sample, of 160 160]
      sample_attempt_values(2)
    by (simp add: split_beta Let_def take)
  from timed_out_attempt_blocks [OF sample_attempt_reachable env_ok_sample take this rtranclp.rtrancl_refl
      env_ok_sample]
  show ?thesis by (simp add: take)
qed

section \<open>Disconnection\<close>

text \<open>A closed connection is reported as a full disconnection exactly when the swarm counts no
  connection to the peer and none is tracked any more; then nothing of the peer is remembered but
  its attempt counter.  Otherwise only the closed connection is forgotten.\<close>

lemma disconnection_forgets_peer:
  "let (s', update) = on_connection_closed peer c n s;
             left = (get_or {||} (relayed_connections s) peer |\<union>|
                     get_or {||} (direct_connections s) peer) |-| {|c|} in
    (peer_fully_disconnected update \<longleftrightarrow> n = 0 \<and> left = {||}) \<and>
    (if peer_fully_disconnected update
     then \<not> has_relayed_connection s' peer \<and> \<not> has_direct_connection s' peer \<and>
       active_attempt_stats s' peer = None \<and> \<not> contains_key (hole_punch_deadlines s') peer
     else hole_punch_attempts s' = hole_punch_attempts s \<and>
       hole_punch_deadlines s' = hole_punch_deadlines s \<and>
       get_or {||} (relayed_connections s') peer |\<union>| get_or {||} (direct_connections s') peer = left) \<and>
    hole_punch_attempt_seq s' = hole_punch_attempt_seq s"
proof -
  have lookup: "get_or {||} (fst (remove_connection_id m peer c)) peer = get_or {||} m peer |-| {|c|}"
    and gone: "contains_key (fst (remove_connection_id m peer c)) peer \<longleftrightarrow>
      get_or {||} m peer |-| {|c|} \<noteq> {||}" for m
    by (auto simp: remove_connection_id_def get_or_def contains_key_def Let_def split: option.splits)
  have union: "(A |-| {|c|}) |\<union>| (B |-| {|c|}) = (A |\<union>| B) |-| {|c|}" for A B :: "connection_id fset"
    by auto
  have empty: "(A |\<union>| B) |-| {|c|} = {||} \<longleftrightarrow> A |-| {|c|} = {||} \<and> B |-| {|c|} = {||}"
    for A B :: "connection_id fset" by auto
  show ?thesis
    by (simp add: closed_alt closed_base_def has_relayed_connection_def has_direct_connection_def
        complete_hole_punch_attempt_def remove_pending_hole_punch_dials_for_peer_def
        active_attempt_stats_def Let_def gone lookup union empty)
qed

lemma disconnection_forgets_peer_witness:
  "peer_fully_disconnected (snd (on_connection_closed sample_peer 1 0 sample_dialing))"
  using disconnection_forgets_peer [of sample_peer 1 0 sample_dialing]
  by (simp add: split_beta Let_def sample_dialing_def on_dialing_def sample_attempt_def
      sample_relayed_def on_connection_established_def start_hole_punch_attempt_def
      next_hole_punch_attempt_id_def new_connection_state_def peer_is_relay_only_def
      has_relayed_connection_def has_direct_connection_def)

end
