(* ===== verification/Backoff.thy ===== *)
theory Backoff
  imports Net_Types
begin

text \<open>
  The reconnect backoff of the bootstrap peers, \<open>ReconnectBackoff\<close> of
  \<open>src/src/node/backoff.rs\<close>: a delay per peer that starts at one second, doubles with every
  scheduled reconnect and is capped at sixty seconds.
\<close>

section \<open>Model\<close>

definition BACKOFF_INITIAL :: duration where
  "BACKOFF_INITIAL = from_secs 1"

definition BACKOFF_MAX :: duration where
  "BACKOFF_MAX = from_secs 60"

text \<open>\<open>Duration::MAX\<close> and \<open>Duration::saturating_mul\<close>.\<close>

definition DURATION_MAX :: duration where
  "DURATION_MAX = from_secs (2 ^ 64 - 1) + 999999999"

definition duration_saturating_mul :: "duration \<Rightarrow> nat \<Rightarrow> duration" where
  "duration_saturating_mul d k = min (d * k) DURATION_MAX"

record reconnect_backoff =
  delays :: "(peer_id, duration) fmap"
  addrs :: "(peer_id, multiaddr) fmap"

text \<open>Collecting pairs into a \<open>HashMap\<close>: a later pair replaces an earlier one of the same key.\<close>

definition new_reconnect_backoff :: "(peer_id \<times> multiaddr) list \<Rightarrow> reconnect_backoff" where
  "new_reconnect_backoff bootstrap =
     \<lparr>delays = fmempty, addrs = fold (\<lambda>(p, a). fmupd p a) bootstrap fmempty\<rparr>"

definition schedule_reconnect ::
  "peer_id \<Rightarrow> reconnect_backoff \<Rightarrow> reconnect_backoff \<times> (multiaddr \<times> duration) option" where
  "schedule_reconnect peer s =
     (case fmlookup (addrs s) peer of
        None \<Rightarrow> (s, None)
      | Some addr \<Rightarrow>
          (let current = get_or BACKOFF_INITIAL (delays s) peer;
               doubled = min (duration_saturating_mul current 2) BACKOFF_MAX
           in (s\<lparr>delays := fmupd peer doubled (delays s)\<rparr>, Some (addr, current))))"

definition reset_backoff :: "peer_id \<Rightarrow> reconnect_backoff \<Rightarrow> reconnect_backoff" where
  "reset_backoff peer s = s\<lparr>delays := fmdrop peer (delays s)\<rparr>"

section \<open>The delays\<close>

text \<open>The delays a peer is given by consecutive reconnects.\<close>

fun schedule_times :: "nat \<Rightarrow> peer_id \<Rightarrow> reconnect_backoff \<Rightarrow> reconnect_backoff \<times> duration list" where
  "schedule_times 0 peer s = (s, [])"
| "schedule_times (Suc n) peer s =
     (case schedule_reconnect peer s of
        (s1, None) \<Rightarrow> (s1, [])
      | (s1, Some (_, d)) \<Rightarrow> (let (s2, ds) = schedule_times n peer s1 in (s2, d # ds)))"

lemma doubled_delay:
  "min (duration_saturating_mul (min (2 ^ k * BACKOFF_INITIAL) BACKOFF_MAX) 2) BACKOFF_MAX =
     min (2 ^ Suc k * BACKOFF_INITIAL) BACKOFF_MAX"
  by (auto simp: duration_saturating_mul_def BACKOFF_INITIAL_def BACKOFF_MAX_def DURATION_MAX_def
      from_secs_def min_def)

lemma schedule_times_from:
  "fmlookup (addrs s) peer = Some addr \<Longrightarrow>
   get_or BACKOFF_INITIAL (delays s) peer = min (2 ^ k * BACKOFF_INITIAL) BACKOFF_MAX \<Longrightarrow>
     snd (schedule_times n peer s) =
       map (\<lambda>i. min (2 ^ i * BACKOFF_INITIAL) BACKOFF_MAX) [k..<k + n]"
proof (induction n arbitrary: s k)
  case 0
  then show ?case by simp
next
  case (Suc n)
  let ?d = "min (2 ^ k * BACKOFF_INITIAL) BACKOFF_MAX"
  let ?s1 = "s\<lparr>delays := fmupd peer (min (duration_saturating_mul ?d 2) BACKOFF_MAX) (delays s)\<rparr>"
  have one: "schedule_reconnect peer s = (?s1, Some (addr, ?d))"
    using Suc.prems by (simp add: schedule_reconnect_def Let_def)
  have "snd (schedule_times n peer ?s1) =
      map (\<lambda>i. min (2 ^ i * BACKOFF_INITIAL) BACKOFF_MAX) [Suc k..<Suc k + n]"
    by (rule Suc.IH) (use Suc.prems(1) in \<open>simp_all add: doubled_delay\<close>)
  then show ?case
    by (simp add: one split_beta Let_def upt_rec [of k])
qed

text \<open>After a reset, consecutive reconnects to a bootstrap peer are delayed by 1, 2, 4, ...
  seconds, doubling each time up to the cap of 60 seconds.\<close>

lemma backoff_doubles_to_cap:
  assumes "fmlookup (addrs s) peer = Some addr"
  shows "snd (schedule_times n peer (reset_backoff peer s)) =
    map (\<lambda>i. min (from_secs (2 ^ i)) (from_secs 60)) [0..<n]"
proof -
  have "snd (schedule_times n peer (reset_backoff peer s)) =
      map (\<lambda>i. min (2 ^ i * BACKOFF_INITIAL) BACKOFF_MAX) [0..<0 + n]"
    by (rule schedule_times_from)
      (use assms in \<open>simp_all add: reset_backoff_def BACKOFF_INITIAL_def BACKOFF_MAX_def from_secs_def\<close>)
  then show ?thesis
    by (simp add: BACKOFF_INITIAL_def BACKOFF_MAX_def from_secs_def)
qed

lemma backoff_doubles_to_cap_witness:
  "snd (schedule_times 8 (PeerId ''b'')
      (reset_backoff (PeerId ''b'') (new_reconnect_backoff [(PeerId ''b'', [QuicV1])]))) =
   map from_secs [1, 2, 4, 8, 16, 32, 60, 60]"
  by (subst backoff_doubles_to_cap [of _ _ "[QuicV1]"])
    (simp_all add: new_reconnect_backoff_def from_secs_def upt_rec)

section \<open>Bounds\<close>

definition backoff_wf :: "reconnect_backoff \<Rightarrow> bool" where
  "backoff_wf s \<longleftrightarrow> fmpred (\<lambda>_ d. BACKOFF_INITIAL \<le> d \<and> d \<le> BACKOFF_MAX) (delays s)"

lemma backoff_step:
  assumes "backoff_wf s"
  shows "let (s', r) = schedule_reconnect peer s in
    backoff_wf s' \<and> backoff_wf (reset_backoff peer s) \<and> addrs s' = addrs s \<and>
    map_option fst r = fmlookup (addrs s) peer \<and>
    (case r of None \<Rightarrow> s' = s | Some (_, d) \<Rightarrow> from_secs 1 \<le> d \<and> d \<le> from_secs 60)"
proof -
  have d: "BACKOFF_INITIAL \<le> get_or BACKOFF_INITIAL (delays s) peer \<and>
      get_or BACKOFF_INITIAL (delays s) peer \<le> BACKOFF_MAX"
  proof (cases "fmlookup (delays s) peer")
    case None
    then show ?thesis by (simp add: BACKOFF_INITIAL_def BACKOFF_MAX_def from_secs_def)
  next
    case (Some d)
    with assms show ?thesis unfolding backoff_wf_def by (auto dest: fmpredD)
  qed
  then have "BACKOFF_INITIAL \<le>
      min (duration_saturating_mul (get_or BACKOFF_INITIAL (delays s) peer) 2) BACKOFF_MAX"
    by (auto simp: duration_saturating_mul_def DURATION_MAX_def BACKOFF_INITIAL_def BACKOFF_MAX_def
        from_secs_def)
  with d assms show ?thesis
    by (simp add: schedule_reconnect_def reset_backoff_def backoff_wf_def fmpred_upd fmpred_drop
        BACKOFF_INITIAL_def BACKOFF_MAX_def Let_def split: option.split)
qed

lemma backoff_kept: "backoff_wf b \<Longrightarrow> backoff_wf (fst (schedule_reconnect peer b))"
  using backoff_step [of b peer] by (auto simp: split_beta Let_def)

text \<open>Every delay lies between one and sixty seconds, and only peers with a known bootstrap
  address are scheduled, at that address.\<close>

lemma backoff_bounded:
  assumes "backoff_wf s"
  shows "let (s', r) = schedule_reconnect peer s in
    backoff_wf s' \<and> backoff_wf (reset_backoff peer s) \<and> addrs s' = addrs s \<and>
    map_option fst r = fmlookup (addrs s) peer \<and>
    (case r of None \<Rightarrow> s' = s | Some (_, d) \<Rightarrow> from_secs 1 \<le> d \<and> d \<le> from_secs 60)"
  using assms by (rule backoff_step)

lemma backoff_bounded_witness:
  "snd (schedule_reconnect (PeerId ''b'') (new_reconnect_backoff [(PeerId ''b'', [QuicV1])])) \<noteq> None"
  using backoff_bounded [of "new_reconnect_backoff [(PeerId ''b'', [QuicV1])]" "PeerId ''b''"]
  by (auto simp: backoff_wf_def new_reconnect_backoff_def split_beta Let_def)

end
