(* ===== verification/Node_Machine.thy ===== *)
theory Node_Machine
  imports Execute Connection_Props Backoff
begin

text \<open>
  The event loop of the node, \<open>src/src/node/mod.rs\<close>: its state, the handlers of the arms of its
  \<open>select!\<close>, and its start.  The swarm is the parameter of \<open>Execute\<close>; a panic is \<open>None\<close>.  Log
  output is in \<open>Node_Log\<close>; here are only the summaries it is made of.
\<close>

section \<open>Configuration and environment\<close>

definition HOLE_PUNCH_TIMEOUT :: duration where
  "HOLE_PUNCH_TIMEOUT = from_secs 30"

record node_config =
  cfg_identity :: string
  cfg_listen :: "multiaddr list"
  cfg_bootstrap :: "multiaddr list"
  cfg_exposed :: "exposed_service list"
  cfg_tunnels :: "tunnel_spec list"
  cfg_by_name :: "tunnel_by_name_spec list"

text \<open>
  What a step reads: the swarm calls, the environment of the state machine, the order of iteration
  over connections, the bootstrap peers, whether bootstrap addresses were given, and the result of
  the port-mapping task once it has finished (a failed task is \<open>Inl\<close>).
\<close>

record 'sw node_world =
  w_api :: "'sw swarm_api"
  w_exec :: exec_env
  w_conn_order :: "connection_id fset \<Rightarrow> connection_id list"
  w_boot :: "peer_id fset"
  w_has_boot :: bool
  w_mapping :: "(string + (ip_addr \<times> 16 word) option) option"

record 'sw node_state =
  nd_swarm :: 'sw
  nd_ctx :: execution_context
  nd_app :: app_state
  nd_conn :: connection_state
  nd_backoff :: reconnect_backoff
  nd_reconnects :: "(peer_id, instant) fmap"
  nd_observed_ports :: "(ip_addr, 16 word fset) fmap"
  nd_confirmed :: "(ip_addr, multiaddr) fmap"
  nd_boot_observed :: "(ip_addr, multiaddr) fmap"
  nd_announced :: "multiaddr fset"
  nd_mapping_handle :: bool
  nd_mapping_spawned :: bool
  nd_discovery_fired :: bool

definition w_env :: "'sw node_world \<Rightarrow> step_env" where
  "w_env w = exec_step (w_exec w)"

definition w_now :: "'sw node_world \<Rightarrow> instant" where
  "w_now w = clock (w_env w)"

section \<open>Helpers\<close>

definition extract_peer_id :: "multiaddr \<Rightarrow> peer_id option" where
  "extract_peer_id addr =
     (case List.map_filter (\<lambda>p. case p of P2p pid \<Rightarrow> Some pid | _ \<Rightarrow> None) addr of
        [] \<Rightarrow> None | pid # _ \<Rightarrow> Some pid)"

definition extract_quic_udp_port :: "multiaddr \<Rightarrow> 16 word option" where
  "extract_quic_udp_port addr =
     (case List.map_filter (\<lambda>p. case p of Udp number \<Rightarrow> Some number | _ \<Rightarrow> None) addr of
        [] \<Rightarrow> None | number # _ \<Rightarrow> Some number)"

fun endpoint_is_relayed :: "connected_point \<Rightarrow> bool" where
  "endpoint_is_relayed (Dialer address) = list_ex (\<lambda>p. p = P2pCircuit) address"
| "endpoint_is_relayed (Listener here send_back) =
     (list_ex (\<lambda>p. p = P2pCircuit) here \<or> list_ex (\<lambda>p. p = P2pCircuit) send_back)"

definition known_addrs_for_peer :: "step_env \<Rightarrow> app_state \<Rightarrow> peer_id \<Rightarrow> string list" where
  "known_addrs_for_peer env app peer =
     (case fmlookup (known_peers (app_peer app)) peer of
        None \<Rightarrow> [] | Some as \<Rightarrow> map (show_addr env) (addr_order env as))"

record hole_punch_error_flags =
  has_handshake_timeout :: bool
  has_unsupported_bare_p2p :: bool
  has_pending_abort :: bool

definition hole_punch_error_flags_of :: "string \<Rightarrow> hole_punch_error_flags" where
  "hole_punch_error_flags_of text =
     \<lparr>has_handshake_timeout = str_contains ''Handshake with the remote timed out'' text,
      has_unsupported_bare_p2p = str_contains ''Multiaddr is not supported: /p2p/'' text,
      has_pending_abort = str_contains ''Pending connection attempt has been aborted'' text\<rparr>"

text \<open>The largest number of ports seen for one address.\<close>

definition max_ports_per_ip :: "(ip_addr, 16 word fset) fmap \<Rightarrow> nat" where
  "max_ports_per_ip observations = Max (insert 0 ((\<lambda>ports. fcard ports) ` fset (fmran observations)))"

definition nat_type_summary :: "nat_mapping \<Rightarrow> (ip_addr, 16 word fset) fmap \<Rightarrow> string" where
  "nat_type_summary stun_result observations =
     (case stun_result of
        EndpointIndependent \<Rightarrow> ''cone NAT (STUN-verified)''
      | AddressDependent \<Rightarrow> ''symmetric NAT (STUN-verified)''
      | MappingUnknown \<Rightarrow>
          (let n = max_ports_per_ip observations in
           if n = 0 then ''no observations''
           else if n = 1 then ''undetermined (single observer per IP)''
           else ''symmetric NAT likely (multiple ports per IP)''))"

section \<open>Feeding an event to the state machine\<close>

definition dispatch :: "'sw node_world \<Rightarrow> event \<Rightarrow> 'sw node_state \<Rightarrow> 'sw node_state option" where
  "dispatch w e n =
     (let (app', cmds) = app_transition (w_env w) (nd_app n) e in
      map_option (\<lambda>(sw, ctx). n\<lparr>nd_swarm := sw, nd_ctx := ctx, nd_app := app'\<rparr>)
        (execute_commands (w_api w) (w_exec w) cmds (nd_swarm n, nd_ctx n)))"

fun arm_targets ::
  "'sw node_world \<Rightarrow> peer_id list \<Rightarrow> 'sw node_state \<Rightarrow> 'sw node_state option" where
  "arm_targets w [] n = Some n"
| "arm_targets w (peer # peers) n =
     (case start_hole_punch_attempt (w_now w) peer HOLE_PUNCH_TIMEOUT (nd_conn n) of
        (_, None) \<Rightarrow> arm_targets w peers n
      | (conn', Some i) \<Rightarrow>
          (case dispatch w (HolePunchAttemptStarted peer i) (n\<lparr>nd_conn := conn'\<rparr>) of
             None \<Rightarrow> None
           | Some n' \<Rightarrow> arm_targets w peers n'))"

definition arm_hole_punch_for_tunnel_targets ::
  "'sw node_world \<Rightarrow> 'sw node_state \<Rightarrow> 'sw node_state option" where
  "arm_hole_punch_for_tunnel_targets w n =
     (if app_phase (nd_app n) = ShuttingDown then Some n
      else arm_targets w (holepunch_target_peers (w_env w) (app_tunnel (nd_app n))) n)"

section \<open>Bookkeeping before the state machine\<close>

definition on_new_listen_addr :: "'sw node_world \<Rightarrow> multiaddr \<Rightarrow> 'sw node_state \<Rightarrow> 'sw node_state" where
  "on_new_listen_addr w address n =
     (let n1 = n\<lparr>nd_announced := finsert address (nd_announced n)\<rparr> in
      if \<not> nd_mapping_spawned n1 \<and> w_has_boot w \<and> extract_quic_udp_port address \<noteq> None
      then n1\<lparr>nd_mapping_spawned := True, nd_mapping_handle := True\<rparr> else n1)"

definition on_established ::
  "'sw node_world \<Rightarrow> peer_id \<Rightarrow> connection_id \<Rightarrow> connected_point \<Rightarrow> 'sw node_state \<Rightarrow>
   'sw node_state \<times> event list" where
  "on_established w peer c endpoint n =
     (let relayed = endpoint_is_relayed endpoint;
          (conn1, update) = on_connection_established (w_conn_order w) peer c relayed (nd_conn n);
          (conn2, started) =
            (if relayed \<and> has_holepunch_intent (app_tunnel (nd_app n)) peer
             then start_hole_punch_attempt (w_now w) peer HOLE_PUNCH_TIMEOUT conn1
             else (conn1, None));
          attempt = (case started of Some i \<Rightarrow> Some i | None \<Rightarrow> started_attempt_id update);
          synthetic = (case attempt of Some i \<Rightarrow> [HolePunchAttemptStarted peer i] | None \<Rightarrow> []);
          ctx = nd_ctx n;
          ctx1 = (if direct_connection_established update
                  then ctx\<lparr>direct_peers := mark_direct peer (direct_peers ctx)\<rparr> else ctx);
          sw1 = fold (api_close_connection (w_api w)) (relayed_connections_to_close update) (nd_swarm n)
      in (n\<lparr>nd_conn := conn2, nd_ctx := ctx1, nd_swarm := sw1\<rparr>, synthetic))"

definition remaining_connections_of :: "connection_state \<Rightarrow> peer_id \<Rightarrow> 32 word" where
  "remaining_connections_of conn peer =
     word_of_nat (relayed_connection_count conn peer + direct_connection_count conn peer)"

text \<open>The result also names the bootstrap peer that is now fully disconnected.\<close>

definition on_closed ::
  "'sw node_world \<Rightarrow> peer_id \<Rightarrow> connection_id \<Rightarrow> 32 word \<Rightarrow> 'sw node_state \<Rightarrow>
   'sw node_state \<times> event list \<times> peer_id option" where
  "on_closed w peer c num_established n =
     (let (conn1, update) = on_connection_closed peer c num_established (nd_conn n);
          ctx = nd_ctx n;
          ctx1 = (if clear_direct_registry update
                  then ctx\<lparr>direct_peers := clear_direct peer (direct_peers ctx)\<rparr> else ctx)
      in (n\<lparr>nd_conn := conn1, nd_ctx := ctx1\<rparr>,
          [ConnectionLost peer (remaining_connections_of conn1 peer)],
          if peer_fully_disconnected update \<and> peer |\<in>| w_boot w then Some peer else None))"

definition schedule_boot_reconnect :: "'sw node_world \<Rightarrow> peer_id \<Rightarrow> 'sw node_state \<Rightarrow> 'sw node_state" where
  "schedule_boot_reconnect w peer n =
     (case schedule_reconnect peer (nd_backoff n) of
        (b, Some (_, delay)) \<Rightarrow>
          n\<lparr>nd_backoff := b, nd_reconnects := fmupd peer (w_now w + delay) (nd_reconnects n)\<rparr>
      | (b, None) \<Rightarrow> n\<lparr>nd_backoff := b\<rparr>)"

definition on_outgoing_error ::
  "'sw node_world \<Rightarrow> peer_id option \<Rightarrow> connection_id \<Rightarrow> string \<Rightarrow> 'sw node_state \<Rightarrow> 'sw node_state" where
  "on_outgoing_error w peer_opt c text n =
     (let n1 = n\<lparr>nd_conn := fst (on_outgoing_connection_error peer_opt c text (nd_conn n))\<rparr> in
      case peer_opt of
        None \<Rightarrow> n1
      | Some peer \<Rightarrow>
          if peer |\<in>| w_boot w \<and> \<not> api_is_connected (w_api w) (nd_swarm n1) peer \<and>
             \<not> contains_key (nd_reconnects n1) peer
          then schedule_boot_reconnect w peer n1 else n1)"

definition on_external_confirmed :: "'sw node_world \<Rightarrow> multiaddr \<Rightarrow> 'sw node_state \<Rightarrow> 'sw node_state" where
  "on_external_confirmed w address n =
     (case extract_public_ip_port address of
        None \<Rightarrow> n
      | Some (ip, _) \<Rightarrow>
          (let n1 = n\<lparr>nd_confirmed := fmupd ip address (nd_confirmed n)\<rparr> in
           case fmlookup (nd_confirmed n) ip of
             None \<Rightarrow> n1
           | Some prev \<Rightarrow>
               if prev \<noteq> address
               then n1\<lparr>nd_swarm := api_remove_external (w_api w) prev (nd_swarm n1)\<rparr> else n1))"

definition on_external_expired :: "multiaddr \<Rightarrow> 'sw node_state \<Rightarrow> 'sw node_state" where
  "on_external_expired address n =
     (case extract_public_ip_port address of
        None \<Rightarrow> n
      | Some (ip, _) \<Rightarrow>
          if fmlookup (nd_confirmed n) ip = Some address
          then n\<lparr>nd_confirmed := fmdrop ip (nd_confirmed n)\<rparr> else n)"

text \<open>
  The address \<open>/ip4/<ip>/udp/<port>/quic-v1\<close> that the mapped address is formatted to; parsing it
  fails, and the \<open>expect\<close> panics, when the address is not an IPv4 one.
\<close>

definition mapped_multiaddr :: "ip_addr \<times> 16 word \<Rightarrow> multiaddr option" where
  "mapped_multiaddr m =
     (case m of
        (IpV4 ip, number) \<Rightarrow> Some [Ip4 ip, Udp number, QuicV1]
      | (IpV6 _, _) \<Rightarrow> None)"

definition on_mapping_finished :: "'sw node_world \<Rightarrow> 'sw node_state \<Rightarrow> 'sw node_state option" where
  "on_mapping_finished w n =
     (if nd_mapping_handle n then
        (case w_mapping w of
           None \<Rightarrow> Some n
         | Some outcome \<Rightarrow>
             (let n1 = n\<lparr>nd_mapping_handle := False\<rparr> in
              case outcome of
                Inr (Some mapping) \<Rightarrow>
                  (case mapped_multiaddr mapping of
                     None \<Rightarrow> None
                   | Some mapped \<Rightarrow>
                       dispatch w (NatStatusChanged Public)
                         (n1\<lparr>nd_swarm := api_add_external (w_api w) mapped (nd_swarm n1)\<rparr>))
              | _ \<Rightarrow> Some n1))
      else Some n)"

text \<open>Everything before the translation, in the order of the code: the state and the synthetic
  events.\<close>

definition swarm_bookkeeping ::
  "'sw node_world \<Rightarrow> swarm_event \<Rightarrow> 'sw node_state \<Rightarrow> 'sw node_state \<times> event list" where
  "swarm_bookkeeping w event n =
     (case event of
        SwNewListenAddr address \<Rightarrow> (on_new_listen_addr w address n, [])
      | SwConnectionEstablished peer c endpoint \<Rightarrow>
          (let (n1, synthetic) = on_established w peer c endpoint n in
           (if peer |\<in>| w_boot w
            then n1\<lparr>nd_backoff := reset_backoff peer (nd_backoff n1),
                    nd_reconnects := fmdrop peer (nd_reconnects n1)\<rparr> else n1,
            synthetic))
      | SwConnectionClosed peer c endpoint num \<Rightarrow>
          (case on_closed w peer c num n of
             (n1, synthetic, Some boot) \<Rightarrow> (schedule_boot_reconnect w boot n1, synthetic)
           | (n1, synthetic, None) \<Rightarrow> (n1, synthetic))
      | SwDialing (Some peer) c \<Rightarrow> (n\<lparr>nd_conn := fst (on_dialing peer c (nd_conn n))\<rparr>, [])
      | SwOutgoingConnectionError peer_opt c text \<Rightarrow> (on_outgoing_error w peer_opt c text n, [])
      | SwExternalAddrConfirmed address \<Rightarrow> (on_external_confirmed w address n, [])
      | SwExternalAddrExpired address \<Rightarrow> (on_external_expired address n, [])
      | _ \<Rightarrow> (n, []))"

section \<open>Processing the events\<close>

text \<open>A DCUtR failure becomes the failure of the attempt under way, or is dropped.\<close>

fun attempt_scoped :: "connection_state \<Rightarrow> event \<Rightarrow> event option" where
  "attempt_scoped conn (HolePunchFailed peer text) =
     map_option (\<lambda>stats. HolePunchAttemptFailed peer (stats_attempt_id stats) text)
       (active_attempt_stats conn peer)"
| "attempt_scoped conn e = Some e"

definition refresh_bootstrap_observation ::
  "'sw node_world \<Rightarrow> peer_id \<Rightarrow> multiaddr \<Rightarrow> 'sw node_state \<Rightarrow> 'sw node_state" where
  "refresh_bootstrap_observation w peer observed n =
     (if peer |\<in>| w_boot w \<and> \<not> has_relayed_connection (nd_conn n) peer \<and>
         is_valid_external_candidate observed
      then
        (case extract_public_ip_port observed of
           None \<Rightarrow> n
         | Some (ip, _) \<Rightarrow>
             (let previous = fmlookup (nd_boot_observed n) ip;
                  n1 = n\<lparr>nd_boot_observed := fmupd ip observed (nd_boot_observed n)\<rparr>;
                  n2 = (case previous of
                          None \<Rightarrow> n1
                        | Some prev \<Rightarrow>
                            if prev \<noteq> observed
                            then n1\<lparr>nd_swarm := api_remove_external (w_api w) prev (nd_swarm n1)\<rparr>
                            else n1)
              in if previous \<noteq> Some observed
                 then n2\<lparr>nd_swarm := api_dcutr_candidate (w_api w) observed
                              (api_add_external (w_api w) observed (nd_swarm n2))\<rparr>
                 else n2))
      else n)"

definition record_observed_port :: "peer_id \<Rightarrow> multiaddr \<Rightarrow> 'sw node_state \<Rightarrow> 'sw node_state" where
  "record_observed_port peer observed n =
     (if has_relayed_connection (nd_conn n) peer then n
      else
        (case extract_public_ip_port observed of
           None \<Rightarrow> n
         | Some (ip, number) \<Rightarrow>
             n\<lparr>nd_observed_ports := entry_insert ip number (nd_observed_ports n)\<rparr>))"

definition observe_identify :: "'sw node_world \<Rightarrow> event \<Rightarrow> 'sw node_state \<Rightarrow> 'sw node_state" where
  "observe_identify w e n =
     (case e of
        PeerIdentified peer _ observed \<Rightarrow>
          (let n1 = (if w_boot w = {||}
                     then n\<lparr>nd_swarm := api_add_external (w_api w) observed (nd_swarm n)\<rparr> else n)
           in record_observed_port peer observed (refresh_bootstrap_observation w peer observed n1))
      | _ \<Rightarrow> n)"

definition stale_attempt_failure :: "connection_state \<Rightarrow> event \<Rightarrow> bool" where
  "stale_attempt_failure conn e \<longleftrightarrow>
     (case e of
        HolePunchAttemptFailed peer i _ \<Rightarrow>
          (case active_attempt_stats conn peer of
             Some stats \<Rightarrow> stats_attempt_id stats \<noteq> i
           | None \<Rightarrow> False)
      | _ \<Rightarrow> False)"

text \<open>One event: the new state, and whether the loop over the events goes on.\<close>

definition process_event ::
  "'sw node_world \<Rightarrow> event \<Rightarrow> 'sw node_state \<Rightarrow> ('sw node_state \<times> bool) option" where
  "process_event w e0 n0 =
     (case attempt_scoped (nd_conn n0) e0 of
        None \<Rightarrow> Some (n0, True)
      | Some e \<Rightarrow>
          (let n1 = observe_identify w e n0 in
           if stale_attempt_failure (nd_conn n1) e then Some (n1, True)
           else
             (case dispatch w e n1 of
                None \<Rightarrow> None
              | Some n2 \<Rightarrow>
                  map_option (\<lambda>n3. (n3, app_phase (nd_app n3) \<noteq> ShuttingDown))
                    (arm_hole_punch_for_tunnel_targets w n2))))"

fun process_events ::
  "'sw node_world \<Rightarrow> event list \<Rightarrow> 'sw node_state \<Rightarrow> 'sw node_state option" where
  "process_events w [] n = Some n"
| "process_events w (e # es) n =
     (case process_event w e n of
        None \<Rightarrow> None
      | Some (n', go_on) \<Rightarrow> if go_on then process_events w es n' else Some n')"

definition on_swarm_event ::
  "'sw node_world \<Rightarrow> swarm_event \<Rightarrow> 'sw node_state \<Rightarrow> 'sw node_state option" where
  "on_swarm_event w event n =
     (let (n1, synthetic) = swarm_bookkeeping w event n in
      case on_mapping_finished w n1 of
        None \<Rightarrow> None
      | Some n2 \<Rightarrow>
          (let (q, translated) =
                 translate_swarm_event (w_env w) (w_boot w) (active_bootstrap_query (nd_ctx n2))
                   (api_is_connected (w_api w) (nd_swarm n2)) event (queries (nd_ctx n2));
               n3 = n2\<lparr>nd_ctx := nd_ctx n2\<lparr>queries := q\<rparr>\<rparr>
           in process_events w (synthetic @ translated) n3))"

section \<open>The timers and the shutdown signal\<close>

definition on_discovery_deadline :: "'sw node_world \<Rightarrow> 'sw node_state \<Rightarrow> 'sw node_state option" where
  "on_discovery_deadline w n = dispatch w DiscoveryTimeout (n\<lparr>nd_discovery_fired := True\<rparr>)"

definition reconnect_one :: "'sw node_world \<Rightarrow> peer_id \<Rightarrow> 'sw node_state \<Rightarrow> 'sw node_state" where
  "reconnect_one w peer n =
     (let n1 = n\<lparr>nd_reconnects := fmdrop peer (nd_reconnects n)\<rparr> in
      case fmlookup (addrs (nd_backoff n1)) peer of
        None \<Rightarrow> n1
      | Some addr \<Rightarrow>
          (case api_dial_addr (w_api w) addr (nd_swarm n1) of
             (sw, Inr _) \<Rightarrow> n1\<lparr>nd_swarm := sw\<rparr>
           | (sw, Inl _) \<Rightarrow> schedule_boot_reconnect w peer (n1\<lparr>nd_swarm := sw\<rparr>)))"

definition due_reconnects :: "'sw node_world \<Rightarrow> 'sw node_state \<Rightarrow> peer_id list" where
  "due_reconnects w n =
     filter (\<lambda>p. case fmlookup (nd_reconnects n) p of Some t \<Rightarrow> t \<le> w_now w | None \<Rightarrow> False)
       (peer_order (w_env w) (fmdom (nd_reconnects n)))"

definition on_reconnect_deadline :: "'sw node_world \<Rightarrow> 'sw node_state \<Rightarrow> 'sw node_state" where
  "on_reconnect_deadline w n = fold (reconnect_one w) (due_reconnects w n) n"

fun report_timeouts ::
  "'sw node_world \<Rightarrow> (peer_id \<times> 64 word) list \<Rightarrow> 'sw node_state \<Rightarrow> 'sw node_state option" where
  "report_timeouts w [] n = Some n"
| "report_timeouts w ((peer, i) # due) n =
     (if peer_is_relay_only (nd_conn n) peer then
        (case dispatch w (HolePunchAttemptTimeout peer i) n of
           None \<Rightarrow> None
         | Some n' \<Rightarrow> report_timeouts w due n')
      else report_timeouts w due n)"

definition on_hole_punch_deadline :: "'sw node_world \<Rightarrow> 'sw node_state \<Rightarrow> 'sw node_state option" where
  "on_hole_punch_deadline w n =
     (let (conn', due) = take_due_hole_punch_timeouts (w_env w) (w_now w) (nd_conn n)
      in report_timeouts w due (n\<lparr>nd_conn := conn'\<rparr>))"

definition on_shutdown_signal :: "'sw node_world \<Rightarrow> 'sw node_state \<Rightarrow> 'sw node_state option" where
  "on_shutdown_signal w n = dispatch w ShutdownRequested n"

text \<open>The arms of the \<open>select!\<close>.  The loop ends when the phase is \<open>ShuttingDown\<close>.\<close>

datatype node_input =
    InSwarm swarm_event
  | InDiscoveryDeadline
  | InReconnectDeadline
  | InHolePunchDeadline
  | InShutdownSignal

fun node_turn :: "'sw node_world \<Rightarrow> node_input \<Rightarrow> 'sw node_state \<Rightarrow> 'sw node_state option" where
  "node_turn w (InSwarm event) n = on_swarm_event w event n"
| "node_turn w InDiscoveryDeadline n =
     (if nd_discovery_fired n then Some n else on_discovery_deadline w n)"
| "node_turn w InReconnectDeadline n = Some (on_reconnect_deadline w n)"
| "node_turn w InHolePunchDeadline n = on_hole_punch_deadline w n"
| "node_turn w InShutdownSignal n = on_shutdown_signal w n"

text \<open>The end of \<open>run\<close>: the running tunnel tasks are aborted.\<close>

definition node_stop ::
  "(64 word fset \<Rightarrow> 64 word list) \<Rightarrow> (tunnel_task \<Rightarrow> duration option) \<Rightarrow> 'sw node_state \<Rightarrow>
   'sw node_state \<times> (string \<times> tunnel_task \<times> bool) list" where
  "node_stop ord ends_in n =
     (let (r, aborted) = shutdown_all ord ends_in (from_secs 5) (tasks (nd_ctx n))
      in (n\<lparr>nd_ctx := nd_ctx n\<lparr>tasks := r\<rparr>\<rparr>, aborted))"

section \<open>The start\<close>

definition bootstrap_peers_with_addrs :: "node_config \<Rightarrow> (peer_id \<times> multiaddr) list" where
  "bootstrap_peers_with_addrs cfg =
     List.map_filter (\<lambda>addr. map_option (\<lambda>pid. (pid, addr)) (extract_peer_id addr)) (cfg_bootstrap cfg)"

definition bootstrap_peer_ids :: "node_config \<Rightarrow> peer_id fset" where
  "bootstrap_peer_ids cfg = fset_of_list (map fst (bootstrap_peers_with_addrs cfg))"

text \<open>The services this node exposes, for the accepting side of the tunnels.\<close>

definition services_of :: "node_config \<Rightarrow> (service_name, service_addr) fmap" where
  "services_of cfg = fold (\<lambda>s. fmupd (svc_name s) (local_addr s)) (cfg_exposed cfg) fmempty"

definition requested_tunnels :: "node_config \<Rightarrow> nat_mapping \<Rightarrow> tunnel_state" where
  "requested_tunnels cfg m =
     set_nat_mapping m
       (fold (\<lambda>spec. add_service_tunnel (by_name_service spec) (by_name_bind spec)) (cfg_by_name cfg)
         (fold (\<lambda>spec. add_peer_tunnel (remote_peer spec) (spec_service spec) (spec_bind spec))
           (cfg_tunnels cfg) new_tunnel_state))"

text \<open>\<open>for addr in ..  swarm.call(addr)?\<close>: the first error ends the start.\<close>

fun call_all :: "(multiaddr \<Rightarrow> 'sw \<Rightarrow> 'sw \<times> (string + unit)) \<Rightarrow> multiaddr list \<Rightarrow> 'sw \<Rightarrow> string + 'sw" where
  "call_all f [] sw = Inr sw"
| "call_all f (a # as) sw =
     (case f a sw of (_, Inl e) \<Rightarrow> Inl e | (sw', Inr _) \<Rightarrow> call_all f as sw')"

definition initial_node :: "node_config \<Rightarrow> nat_mapping \<Rightarrow> 'sw \<Rightarrow> 'sw node_state" where
  "initial_node cfg m sw =
     \<lparr>nd_swarm = sw, nd_ctx = new_execution_context,
      nd_app = new_app_state (new_peer_state\<lparr>bootstrap_peers := bootstrap_peer_ids cfg\<rparr>)
        (requested_tunnels cfg m),
      nd_conn = new_connection_state,
      nd_backoff = new_reconnect_backoff (bootstrap_peers_with_addrs cfg),
      nd_reconnects = fmempty, nd_observed_ports = fmempty, nd_confirmed = fmempty,
      nd_boot_observed = fmempty, nd_announced = {||}, nd_mapping_handle = False,
      nd_mapping_spawned = False, nd_discovery_fired = False\<rparr>"

text \<open>\<open>probe\<close> is what the NAT probe finds; it is not run without bootstrap peers.\<close>

definition node_start ::
  "'sw node_world \<Rightarrow> node_config \<Rightarrow> nat_mapping \<Rightarrow> 'sw \<Rightarrow> string + 'sw node_state option" where
  "node_start w cfg probe sw =
     (let m = (if cfg_bootstrap cfg = [] then MappingUnknown else probe) in
      case call_all (api_listen_on (w_api w)) (cfg_listen cfg) sw of
        Inl e \<Rightarrow> Inl e
      | Inr sw1 \<Rightarrow>
          (case call_all (api_dial_addr (w_api w)) (cfg_bootstrap cfg) sw1 of
             Inl e \<Rightarrow> Inl e
           | Inr sw2 \<Rightarrow>
               Inr (dispatch w
                 (if cfg_bootstrap cfg = [] then NoBootstrapPeers else NatStatusChanged Private)
                 (initial_node cfg m sw2))))"

end
