(* ===== verification/Node_Steps.thy ===== *)
theory Node_Steps
  imports Node_Machine
begin

text \<open>
  The elementary steps a turn of the event loop is made of: an event fed to the state machine with
  the execution of its commands, an operation on the connection records, a call on the swarm, and
  updates of the loop's own tables.  Every turn is a sequence of such steps, so what holds of each
  step holds of all that the node does.
\<close>

section \<open>Elementary steps\<close>

text \<open>The calls the loop itself makes on the swarm, besides those for commands.\<close>

definition swarm_call :: "'sw swarm_api \<Rightarrow> 'sw \<Rightarrow> 'sw \<Rightarrow> bool" where
  "swarm_call api sw sw' \<longleftrightarrow>
     (\<exists>c. sw' = api_close_connection api c sw) \<or> (\<exists>a. sw' = fst (api_dial_addr api a sw)) \<or>
     (\<exists>a. sw' = api_add_external api a sw) \<or> (\<exists>a. sw' = api_remove_external api a sw) \<or>
     (\<exists>a. sw' = api_dcutr_candidate api a sw)"

lemma swarm_callI:
  "swarm_call api sw (api_close_connection api c sw)"
  "swarm_call api sw (fst (api_dial_addr api a sw))"
  "swarm_call api sw (api_add_external api a sw)"
  "swarm_call api sw (api_remove_external api a sw)"
  "swarm_call api sw (api_dcutr_candidate api a sw)"
  unfolding swarm_call_def by blast+

inductive node_step :: "'sw node_world \<Rightarrow> 'sw node_state \<Rightarrow> 'sw node_state \<Rightarrow> bool" for w where
  does_dispatch: "dispatch w e n = Some n' \<Longrightarrow> node_step w n n'"
| does_conn: "conn_step (nd_conn n) conn' \<Longrightarrow> node_step w n (n\<lparr>nd_conn := conn'\<rparr>)"
| does_call: "swarm_call (w_api w) (nd_swarm n) sw \<Longrightarrow> node_step w n (n\<lparr>nd_swarm := sw\<rparr>)"
| does_direct: "node_step w n (n\<lparr>nd_ctx := nd_ctx n\<lparr>direct_peers := r\<rparr>\<rparr>)"
| does_queries: "node_step w n (n\<lparr>nd_ctx := nd_ctx n\<lparr>queries := q\<rparr>\<rparr>)"
| does_schedule: "node_step w n (schedule_boot_reconnect w p n)"
| does_reset: "node_step w n (n\<lparr>nd_backoff := reset_backoff p (nd_backoff n),
    nd_reconnects := fmdrop p (nd_reconnects n)\<rparr>)"
| does_unschedule: "node_step w n (n\<lparr>nd_reconnects := fmdrop p (nd_reconnects n)\<rparr>)"
| does_confirm: "extract_public_ip_port a = Some (ip, number) \<Longrightarrow>
    node_step w n (n\<lparr>nd_confirmed := fmupd ip a (nd_confirmed n)\<rparr>)"
| does_expire: "node_step w n (n\<lparr>nd_confirmed := fmdrop ip (nd_confirmed n)\<rparr>)"
| does_observe: "extract_public_ip_port a = Some (ip, number) \<Longrightarrow>
    node_step w n (n\<lparr>nd_boot_observed := fmupd ip a (nd_boot_observed n)\<rparr>)"
| does_port: "node_step w n (n\<lparr>nd_observed_ports := entry_insert ip number (nd_observed_ports n)\<rparr>)"
| does_announce: "node_step w n (n\<lparr>nd_announced := x\<rparr>)"
| does_handle: "node_step w n (n\<lparr>nd_mapping_handle := h\<rparr>)"
| does_spawned: "node_step w n (n\<lparr>nd_mapping_spawned := m\<rparr>)"
| does_fired: "node_step w n (n\<lparr>nd_discovery_fired := d\<rparr>)"

abbreviation node_steps :: "'sw node_world \<Rightarrow> 'sw node_state \<Rightarrow> 'sw node_state \<Rightarrow> bool" where
  "node_steps w \<equiv> (node_step w)\<^sup>*\<^sup>*"

lemma steps_one: "node_step w n n' \<Longrightarrow> node_steps w n n'"
  by (rule r_into_rtranclp)

lemma steps_trans [trans]: "node_steps w a b \<Longrightarrow> node_steps w b c \<Longrightarrow> node_steps w a c"
  by (rule rtranclp_trans)

section \<open>Bookkeeping\<close>

lemma listen_steps: "node_steps w n (on_new_listen_addr w address n)"
proof -
  let ?n1 = "n\<lparr>nd_announced := finsert address (nd_announced n)\<rparr>"
  have "node_steps w n ?n1" by (rule steps_one [OF does_announce])
  moreover have "node_steps w ?n1 (?n1\<lparr>nd_mapping_spawned := True, nd_mapping_handle := True\<rparr>)"
    by (rule steps_trans [OF steps_one [OF does_spawned] steps_one [OF does_handle]])
  ultimately show ?thesis
    unfolding on_new_listen_addr_def Let_def by (auto intro: steps_trans)
qed

lemma call_steps: "swarm_call (w_api w) (nd_swarm n) sw \<Longrightarrow> node_steps w n (n\<lparr>nd_swarm := sw\<rparr>)"
  by (rule steps_one [OF does_call])

lemma closes_steps: "node_steps w n (n\<lparr>nd_swarm := fold (api_close_connection (w_api w)) cs (nd_swarm n)\<rparr>)"
proof (induction cs arbitrary: n)
  case Nil
  then show ?case by simp
next
  case (Cons c cs)
  let ?n1 = "n\<lparr>nd_swarm := api_close_connection (w_api w) c (nd_swarm n)\<rparr>"
  have "node_steps w n ?n1" by (rule call_steps [OF swarm_callI(1)])
  with Cons.IH [of ?n1] show ?case by (auto intro: steps_trans)
qed

lemma start_steps:
  "node_steps w n (n\<lparr>nd_conn := fst (start_hole_punch_attempt now p timeout (nd_conn n))\<rparr>)"
  by (rule steps_one [OF does_conn [OF step_start]])

lemma established_steps: "node_steps w n (fst (on_established w p c endpoint n))"
proof -
  let ?est = "on_connection_established (w_conn_order w) p c (endpoint_is_relayed endpoint) (nd_conn n)"
  let ?r = "fst (on_established w p c endpoint n)"
  let ?n1 = "n\<lparr>nd_conn := fst ?est\<rparr>"
  have one: "node_steps w n ?n1" by (rule steps_one [OF does_conn [OF step_established]])
  have conn: "nd_conn ?r = fst ?est \<or>
      nd_conn ?r = fst (start_hole_punch_attempt (w_now w) p HOLE_PUNCH_TIMEOUT (fst ?est))"
    by (simp add: on_established_def Let_def split_beta)
  let ?n2 = "n\<lparr>nd_conn := nd_conn ?r\<rparr>"
  have two: "node_steps w n ?n2"
    using conn one steps_trans [OF one start_steps [of w ?n1 "w_now w" p HOLE_PUNCH_TIMEOUT]] by auto
  let ?n3 = "?n2\<lparr>nd_ctx := nd_ctx ?r\<rparr>"
  have "nd_ctx ?r = nd_ctx n \<or> nd_ctx ?r = nd_ctx n\<lparr>direct_peers := mark_direct p (direct_peers (nd_ctx n))\<rparr>"
    by (simp add: on_established_def Let_def split_beta)
  then have three: "node_steps w n ?n3"
    using two steps_trans [OF two steps_one [OF does_direct]] by auto
  have "?r = ?n3\<lparr>nd_swarm := fold (api_close_connection (w_api w)) (relayed_connections_to_close (snd ?est)) (nd_swarm n)\<rparr>"
    by (simp add: on_established_def Let_def split_beta)
  with closes_steps [of w ?n3 "relayed_connections_to_close (snd ?est)"] three show ?thesis
    by (auto intro: steps_trans)
qed

lemma closed_steps: "node_steps w n (fst (on_closed w p c k n))"
proof -
  let ?cl = "on_connection_closed p c k (nd_conn n)" and ?r = "fst (on_closed w p c k n)"
  let ?n1 = "n\<lparr>nd_conn := fst ?cl\<rparr>"
  have one: "node_steps w n ?n1" by (rule steps_one [OF does_conn [OF step_closed]])
  have "?r = ?n1\<lparr>nd_ctx := (if clear_direct_registry (snd ?cl)
      then nd_ctx n\<lparr>direct_peers := clear_direct p (direct_peers (nd_ctx n))\<rparr> else nd_ctx n)\<rparr>"
    by (simp add: on_closed_def Let_def split_beta)
  then have "?r = ?n1 \<or> ?r = ?n1\<lparr>nd_ctx := nd_ctx ?n1\<lparr>direct_peers := clear_direct p (direct_peers (nd_ctx n))\<rparr>\<rparr>"
    by simp
  with one steps_trans [OF one steps_one [OF does_direct]] show ?thesis by metis
qed

lemma schedule_steps: "node_steps w n (schedule_boot_reconnect w p n)"
  by (rule steps_one [OF does_schedule])

lemma outgoing_error_steps: "node_steps w n (on_outgoing_error w peer_opt c err n)"
proof -
  let ?n1 = "n\<lparr>nd_conn := fst (on_outgoing_connection_error peer_opt c err (nd_conn n))\<rparr>"
  have one: "node_steps w n ?n1" by (rule steps_one [OF does_conn [OF step_error]])
  have "node_steps w n (schedule_boot_reconnect w p ?n1)" for p
    by (rule steps_trans [OF one schedule_steps])
  with one show ?thesis by (auto simp: on_outgoing_error_def Let_def split: option.split)
qed

lemma confirmed_steps: "node_steps w n (on_external_confirmed w address n)"
proof (cases "extract_public_ip_port address")
  case None
  then show ?thesis by (simp add: on_external_confirmed_def)
next
  case (Some r)
  then obtain ip number where ip: "extract_public_ip_port address = Some (ip, number)" by (cases r) simp
  let ?n1 = "n\<lparr>nd_confirmed := fmupd ip address (nd_confirmed n)\<rparr>"
  have one: "node_steps w n ?n1" by (rule steps_one [OF does_confirm [OF ip]])
  have "node_steps w n (?n1\<lparr>nd_swarm := api_remove_external (w_api w) prev (nd_swarm ?n1)\<rparr>)" for prev
    by (rule steps_trans [OF one call_steps [OF swarm_callI(4)]])
  with one show ?thesis by (simp add: on_external_confirmed_def ip Let_def split: option.split)
qed

lemma expired_steps: "node_steps w n (on_external_expired address n)"
  by (auto simp: on_external_expired_def intro: steps_one [OF does_expire] split: option.split)

lemma bookkeeping_steps: "node_steps w n (fst (swarm_bookkeeping w event n))"
proof (cases event)
  case (SwConnectionEstablished p c endpoint)
  let ?r = "fst (on_established w p c endpoint n)"
  have "node_steps w n (?r\<lparr>nd_backoff := reset_backoff p (nd_backoff ?r), nd_reconnects := fmdrop p (nd_reconnects ?r)\<rparr>)"
    by (rule steps_trans [OF established_steps steps_one [OF does_reset]])
  with SwConnectionEstablished established_steps [of w n p c endpoint] show ?thesis
    by (simp add: swarm_bookkeeping_def split_beta Let_def)
next
  case (SwConnectionClosed p c endpoint k)
  obtain n1 syn boot where cl: "on_closed w p c k n = (n1, syn, boot)" by (metis surj_pair)
  have one: "node_steps w n n1" using closed_steps [of w n p c k] cl by simp
  have "node_steps w n (schedule_boot_reconnect w q n1)" for q by (rule steps_trans [OF one schedule_steps])
  with SwConnectionClosed cl one show ?thesis by (simp add: swarm_bookkeeping_def split: option.split)
next
  case (SwDialing peer_opt c)
  then show ?thesis
    by (cases peer_opt) (auto simp: swarm_bookkeeping_def intro: steps_one [OF does_conn [OF step_dialing]])
qed (simp_all add: swarm_bookkeeping_def listen_steps outgoing_error_steps confirmed_steps expired_steps)

lemma mapping_cases:
  assumes "on_mapping_finished w n = Some n'"
  obtains "n' = n" | "n' = n\<lparr>nd_mapping_handle := False\<rparr>"
  | a where "dispatch w (NatStatusChanged Public)
      (n\<lparr>nd_mapping_handle := False, nd_swarm := api_add_external (w_api w) a (nd_swarm n)\<rparr>) = Some n'"
proof -
  have "n' = n \<or> n' = n\<lparr>nd_mapping_handle := False\<rparr> \<or>
      (\<exists>a. dispatch w (NatStatusChanged Public)
        (n\<lparr>nd_mapping_handle := False, nd_swarm := api_add_external (w_api w) a (nd_swarm n)\<rparr>) = Some n')"
    using assms by (auto simp: on_mapping_finished_def Let_def split: if_splits option.splits sum.splits)
  with that show ?thesis by blast
qed

lemma mapping_steps: "on_mapping_finished w n = Some n' \<Longrightarrow> node_steps w n n'"
proof (erule mapping_cases)
  have one: "node_steps w n (n\<lparr>nd_mapping_handle := False\<rparr>)" by (rule steps_one [OF does_handle])
  then show "n' = n\<lparr>nd_mapping_handle := False\<rparr> \<Longrightarrow> node_steps w n n'" by simp
  fix a
  let ?n1 = "n\<lparr>nd_mapping_handle := False\<rparr>"
  let ?n2 = "?n1\<lparr>nd_swarm := api_add_external (w_api w) a (nd_swarm ?n1)\<rparr>"
  assume "dispatch w (NatStatusChanged Public)
      (n\<lparr>nd_mapping_handle := False, nd_swarm := api_add_external (w_api w) a (nd_swarm n)\<rparr>) = Some n'"
  then have "node_steps w ?n2 n'" by (intro steps_one [OF does_dispatch]) simp
  moreover have "node_steps w ?n1 ?n2" by (rule call_steps [OF swarm_callI(3)])
  ultimately show "node_steps w n n'" using one by (blast intro: steps_trans)
qed simp

section \<open>Events\<close>

lemma arm_targets_steps: "arm_targets w peers n = Some n' \<Longrightarrow> node_steps w n n'"
proof (induction w peers n rule: arm_targets.induct)
  case (1 w n)
  then show ?case by simp
next
  case (2 w peer peers n)
  obtain conn' started where s: "start_hole_punch_attempt (w_now w) peer HOLE_PUNCH_TIMEOUT (nd_conn n) =
      (conn', started)" by (metis surj_pair)
  have one: "node_steps w n (n\<lparr>nd_conn := conn'\<rparr>)"
    using start_steps [of w n "w_now w" peer HOLE_PUNCH_TIMEOUT] by (simp add: s)
  show ?case
  proof (cases started)
    case None
    with 2 s show ?thesis by simp
  next
    case (Some i)
    with "2.prems" s obtain n1 where d: "dispatch w (HolePunchAttemptStarted peer i) (n\<lparr>nd_conn := conn'\<rparr>) = Some n1"
      and rest: "arm_targets w peers n1 = Some n'" by (auto split: option.splits)
    from "2.IH"(2) [OF s [symmetric] Some d rest] one steps_one [OF does_dispatch [OF d]] show ?thesis
      by (blast intro: steps_trans)
  qed
qed

lemma arm_steps: "arm_hole_punch_for_tunnel_targets w n = Some n' \<Longrightarrow> node_steps w n n'"
  by (auto simp: arm_hole_punch_for_tunnel_targets_def arm_targets_steps split: if_splits)

lemma observation_steps: "node_steps w n (refresh_bootstrap_observation w p observed n)"
proof (cases "extract_public_ip_port observed")
  case None
  then show ?thesis by (simp add: refresh_bootstrap_observation_def)
next
  case (Some r)
  then obtain ip number where ip: "extract_public_ip_port observed = Some (ip, number)" by (cases r) simp
  let ?n1 = "n\<lparr>nd_boot_observed := fmupd ip observed (nd_boot_observed n)\<rparr>"
  have one: "node_steps w n ?n1" by (rule steps_one [OF does_observe [OF ip]])
  have forget: "node_steps w n (?n1\<lparr>nd_swarm := api_remove_external (w_api w) prev (nd_swarm ?n1)\<rparr>)" for prev
    by (rule steps_trans [OF one call_steps [OF swarm_callI(4)]])
  have add: "node_steps w m (m\<lparr>nd_swarm := api_dcutr_candidate (w_api w) observed
      (api_add_external (w_api w) observed (nd_swarm m))\<rparr>)" for m
  proof -
    let ?m = "m\<lparr>nd_swarm := api_add_external (w_api w) observed (nd_swarm m)\<rparr>"
    have "node_steps w ?m (?m\<lparr>nd_swarm := api_dcutr_candidate (w_api w) observed (nd_swarm ?m)\<rparr>)"
      by (rule call_steps [OF swarm_callI(5)])
    with call_steps [OF swarm_callI(3), of w m observed] show ?thesis by (auto intro: steps_trans)
  qed
  show ?thesis
    unfolding refresh_bootstrap_observation_def ip Let_def
    using one forget steps_trans [OF one add] steps_trans [OF forget add]
    by (simp split: option.split)
qed

lemma observe_steps: "node_steps w n (observe_identify w e n)"
proof (cases e)
  case (PeerIdentified p listen observed)
  have port: "node_steps w m (record_observed_port p observed m)" for m
    by (auto simp: record_observed_port_def intro: steps_one [OF does_port] split: option.split)
  have "node_steps w m (record_observed_port p observed (refresh_bootstrap_observation w p observed m))" for m
    by (rule steps_trans [OF observation_steps port])
  with steps_trans [OF call_steps [OF swarm_callI(3), of w n observed] this] PeerIdentified show ?thesis
    by (simp add: observe_identify_def Let_def)
qed (simp_all add: observe_identify_def)

lemma process_event_steps:
  assumes "process_event w e n = Some (n', go_on)"
  shows "node_steps w n n'"
proof (cases "attempt_scoped (nd_conn n) e")
  case None
  with assms show ?thesis by (simp add: process_event_def)
next
  case (Some e')
  let ?n1 = "observe_identify w e' n"
  have one: "node_steps w n ?n1" by (rule observe_steps)
  show ?thesis
  proof (cases "stale_attempt_failure (nd_conn ?n1) e'")
    case True
    with assms Some have "n' = ?n1" by (simp add: process_event_def Let_def)
    with one show ?thesis by simp
  next
    case False
    with assms Some obtain n2 where d: "dispatch w e' ?n1 = Some n2"
      and arm: "arm_hole_punch_for_tunnel_targets w n2 = Some n'"
      by (auto simp: process_event_def Let_def split: option.splits)
    from one steps_one [OF does_dispatch [OF d]] arm_steps [OF arm] show ?thesis
      by (blast intro: steps_trans)
  qed
qed

lemma process_events_steps: "process_events w es n = Some n' \<Longrightarrow> node_steps w n n'"
proof (induction es arbitrary: n)
  case Nil
  then show ?case by simp
next
  case (Cons e es)
  then obtain n1 go_on where ev: "process_event w e n = Some (n1, go_on)" by (auto split: option.splits)
  with Cons.prems have "process_events w es n1 = Some n' \<or> n1 = n'" by (auto split: if_splits)
  with Cons.IH process_event_steps [OF ev] show ?case by (blast intro: steps_trans)
qed

section \<open>Turns\<close>

lemma swarm_event_steps:
  assumes "on_swarm_event w event n = Some n'"
  shows "node_steps w n n'"
proof -
  obtain n1 syn where b: "swarm_bookkeeping w event n = (n1, syn)" by (metis surj_pair)
  with assms obtain n2 where m: "on_mapping_finished w n1 = Some n2"
    by (auto simp: on_swarm_event_def split: option.splits)
  obtain es q where p: "process_events w es (n2\<lparr>nd_ctx := nd_ctx n2\<lparr>queries := q\<rparr>\<rparr>) = Some n'"
    using assms b m by (auto simp: on_swarm_event_def split_beta Let_def)
  have "node_steps w n n1" using bookkeeping_steps [of w n event] b by simp
  also have "node_steps w n1 n2" by (rule mapping_steps [OF m])
  also have "node_steps w n2 (n2\<lparr>nd_ctx := nd_ctx n2\<lparr>queries := q\<rparr>\<rparr>)" by (rule steps_one [OF does_queries])
  also have "node_steps w (n2\<lparr>nd_ctx := nd_ctx n2\<lparr>queries := q\<rparr>\<rparr>) n'" by (rule process_events_steps [OF p])
  finally show ?thesis .
qed

lemma reconnect_one_steps: "node_steps w n (reconnect_one w p n)"
proof -
  let ?n1 = "n\<lparr>nd_reconnects := fmdrop p (nd_reconnects n)\<rparr>"
  have one: "node_steps w n ?n1" by (rule steps_one [OF does_unschedule])
  have dial: "node_steps w n (?n1\<lparr>nd_swarm := fst (api_dial_addr (w_api w) a (nd_swarm ?n1))\<rparr>)" for a
    by (rule steps_trans [OF one call_steps [OF swarm_callI(2)]])
  have again: "node_steps w n (schedule_boot_reconnect w p
      (?n1\<lparr>nd_swarm := fst (api_dial_addr (w_api w) a (nd_swarm ?n1))\<rparr>))" for a
    by (rule steps_trans [OF dial schedule_steps])
  show ?thesis
    using one dial again
    by (auto simp: reconnect_one_def Let_def split_beta split: option.split sum.split)
qed

lemma reconnects_steps: "node_steps w n (fold (reconnect_one w) ps n)"
proof (induction ps arbitrary: n)
  case Nil
  then show ?case by simp
next
  case (Cons p ps)
  have "node_steps w n (reconnect_one w p n)" by (rule reconnect_one_steps)
  also have "node_steps w \<dots> (fold (reconnect_one w) ps (reconnect_one w p n))" by (rule Cons.IH)
  finally show ?case by simp
qed

lemma report_steps: "report_timeouts w due n = Some n' \<Longrightarrow> node_steps w n n'"
proof (induction w due n rule: report_timeouts.induct)
  case (1 w n)
  then show ?case by simp
next
  case (2 w peer i due n)
  show ?case
  proof (cases "peer_is_relay_only (nd_conn n) peer")
    case False
    with 2 show ?thesis by simp
  next
    case True
    with "2.prems" obtain n1 where d: "dispatch w (HolePunchAttemptTimeout peer i) n = Some n1"
      and rest: "report_timeouts w due n1 = Some n'" by (auto split: option.splits)
    from "2.IH"(1) [OF True d rest] steps_one [OF does_dispatch [OF d]] show ?thesis
      by (blast intro: steps_trans)
  qed
qed

lemma turn_steps:
  assumes env: "env_ok (w_env w)" and turn: "node_turn w input n = Some n'"
  shows "node_steps w n n'"
proof (cases input)
  case (InSwarm event)
  with turn show ?thesis by (simp add: swarm_event_steps)
next
  case InDiscoveryDeadline
  have "node_steps w n (n\<lparr>nd_discovery_fired := True\<rparr>)" by (rule steps_one [OF does_fired])
  with turn InDiscoveryDeadline show ?thesis
    by (auto simp: on_discovery_deadline_def intro: steps_trans steps_one [OF does_dispatch] split: if_splits)
next
  case InReconnectDeadline
  with turn reconnects_steps show ?thesis by (auto simp: on_reconnect_deadline_def)
next
  case InHolePunchDeadline
  obtain conn' due where t: "take_due_hole_punch_timeouts (w_env w) (w_now w) (nd_conn n) = (conn', due)"
    by (metis surj_pair)
  have "node_steps w n (n\<lparr>nd_conn := fst (take_due_hole_punch_timeouts (w_env w) (w_now w) (nd_conn n))\<rparr>)"
    by (rule steps_one [OF does_conn [OF step_due [OF env]]])
  moreover have "node_steps w (n\<lparr>nd_conn := conn'\<rparr>) n'"
    using turn InHolePunchDeadline t by (intro report_steps) (simp add: on_hole_punch_deadline_def)
  ultimately show ?thesis by (simp add: t)
next
  case InShutdownSignal
  with turn show ?thesis by (auto simp: on_shutdown_signal_def intro: steps_one [OF does_dispatch])
qed

text \<open>So a relation that holds of every elementary step holds of every turn.\<close>

lemma turn_by_steps:
  assumes "env_ok (w_env w)" and "node_turn w input n = Some n'"
    and "\<And>a. P a a" and "\<And>a b c. P a b \<Longrightarrow> P b c \<Longrightarrow> P a c"
    and "\<And>a b. node_step w a b \<Longrightarrow> P a b"
  shows "P n n'"
  using turn_steps [OF assms(1,2)]
proof (induction rule: rtranclp_induct)
  case base
  show ?case by (rule assms(3))
next
  case (step b c)
  with assms(4,5) show ?case by blast
qed

end
