(* ===== verification/Tunnel_Broker.thy ===== *)
theory Tunnel_Broker
  imports Tunnel_Reroute
begin

text \<open>
  What the tunnel machine promises, without its queues, sessions, counters and address books: a
  broker that knows which peers are reached over a relay and where each request is.  The machine
  refines the broker: each transition does to the requests what the broker allows for the event.
\<close>

section \<open>The broker\<close>

text \<open>Where a request is: filed under its service, pending for a peer, waiting for a direct path to a
  peer, or opened over a peer.\<close>

datatype place = AtService | AtPeer peer_id | WaitsFor peer_id | OpenedOver peer_id

type_synonym located = "tunnel_target \<times> place"

record broker =
  br_relayed :: "peer_id fset"
  br_requests :: "located multiset"

text \<open>Over a connected peer a request is opened, unless the connection is relayed: then it waits.\<close>

definition arrives :: "peer_id fset \<Rightarrow> peer_id \<Rightarrow> place" where
  "arrives relayed peer = (if peer |\<in>| relayed then WaitsFor peer else OpenedOver peer)"

text \<open>The moves of a request that an event allows.\<close>

fun may_move :: "event \<Rightarrow> peer_id fset \<Rightarrow> tunnel_target \<Rightarrow> place \<Rightarrow> place \<Rightarrow> bool" where
  "may_move (DhtPeerLookupComplete p connected) relayed t a b \<longleftrightarrow>
     connected \<and> a = AtPeer p \<and> b = arrives relayed p"
| "may_move (DhtServiceResolved service providers) relayed t a b \<longleftrightarrow>
     a = AtService \<and> fst t = service \<and>
     (\<exists>(p, connected)\<in>set providers. b = (if connected then arrives relayed p else AtPeer p))"
| "may_move (TunnelDialFailed p reason) relayed t a b \<longleftrightarrow>
     a = AtPeer p \<and> (b = AtService \<or> (\<exists>q. q \<noteq> p \<and> b = AtPeer q))"
| "may_move (TunnelPeerConnected p rel) relayed t a b \<longleftrightarrow>
     (if rel then a = AtPeer p \<and> b = WaitsFor p
      else (a = AtPeer p \<or> a = WaitsFor p) \<and> b = OpenedOver p)"
| "may_move (HolePunchAttemptFailed p i reason) relayed t a b \<longleftrightarrow> a = WaitsFor p \<and> b = OpenedOver p"
| "may_move (HolePunchAttemptTimeout p i) relayed t a b \<longleftrightarrow> a = WaitsFor p \<and> b = OpenedOver p"
| "may_move (ConnectionLost p remaining) relayed t a b \<longleftrightarrow>
     remaining = 0 \<and> a = WaitsFor p \<and> b = AtPeer p"
| "may_move _ relayed t a b \<longleftrightarrow> False"

text \<open>The places that an event empties.\<close>

fun must_leave :: "event \<Rightarrow> place \<Rightarrow> bool" where
  "must_leave (DhtPeerLookupComplete p connected) a \<longleftrightarrow> connected \<and> a = AtPeer p"
| "must_leave (TunnelPeerConnected p rel) a \<longleftrightarrow> a = AtPeer p \<or> \<not> rel \<and> a = WaitsFor p"
| "must_leave _ a \<longleftrightarrow> False"

fun relayed_after :: "event \<Rightarrow> peer_id fset \<Rightarrow> peer_id fset" where
  "relayed_after (TunnelPeerConnected p rel) relayed =
     (if rel then finsert p relayed else relayed |-| {|p|})"
| "relayed_after (ConnectionLost p remaining) relayed =
     (if remaining = 0 then relayed |-| {|p|} else relayed)"
| "relayed_after _ relayed = relayed"

text \<open>Some requests move, each once and as allowed; the others stay where they are.\<close>

definition rearranged ::
  "(tunnel_target \<Rightarrow> place \<Rightarrow> place \<Rightarrow> bool) \<Rightarrow> located multiset \<Rightarrow> located multiset \<Rightarrow> bool" where
  "rearranged may A A' \<longleftrightarrow>
     (\<exists>K M. A = K + image_mset (\<lambda>(t, a, b). (t, a)) M \<and>
        A' = K + image_mset (\<lambda>(t, a, b). (t, b)) M \<and> (\<forall>(t, a, b)\<in>#M. may t a b))"

definition broker_step :: "event \<Rightarrow> broker \<Rightarrow> broker \<Rightarrow> bool" where
  "broker_step e b b' \<longleftrightarrow>
     br_relayed b' = relayed_after e (br_relayed b) \<and>
     rearranged (may_move e (br_relayed b)) (br_requests b) (br_requests b') \<and>
     (\<forall>(t, a)\<in>#br_requests b'. \<not> must_leave e a)"

section \<open>Rearranging\<close>

lemma rearranged_refl: "rearranged may A A"
  unfolding rearranged_def by (intro exI [of _ A] exI [of _ "{#}"]) simp

lemma rearranged_add:
  assumes "rearranged may A A'" and "rearranged may B B'"
  shows "rearranged may (A + B) (A' + B')"
proof -
  obtain K M where A: "A = K + image_mset (\<lambda>(t, a, b). (t, a)) M"
      "A' = K + image_mset (\<lambda>(t, a, b). (t, b)) M" "\<forall>(t, a, b)\<in>#M. may t a b"
    using assms(1) unfolding rearranged_def by blast
  obtain L N where B: "B = L + image_mset (\<lambda>(t, a, b). (t, a)) N"
      "B' = L + image_mset (\<lambda>(t, a, b). (t, b)) N" "\<forall>(t, a, b)\<in>#N. may t a b"
    using assms(2) unfolding rearranged_def by blast
  show ?thesis
    unfolding rearranged_def A(1,2) B(1,2)
    by (intro exI [of _ "K + L"] exI [of _ "M + N"]) (use A(3) B(3) in auto)
qed

lemma rearranged_all:
  assumes "\<forall>t\<in>set ts. may t a b"
  shows "rearranged may (mset (map (\<lambda>t. (t, a)) ts)) (mset (map (\<lambda>t. (t, b)) ts))"
  unfolding rearranged_def
  by (intro exI [of _ "{#}"] exI [of _ "mset (map (\<lambda>t. (t, a, b)) ts)"])
    (use assms in \<open>auto simp: image_mset.compositionality comp_def mset_map\<close>)

lemma rearranged_keep: "rearranged may B B' \<Longrightarrow> rearranged may (A + B) (A + B')"
  by (intro rearranged_add rearranged_refl)

section \<open>The machine as a broker\<close>

definition located :: "tunnel_state \<Rightarrow> located multiset" where
  "located s =
     fm_bag (\<lambda>service bind. ((service, bind), AtService)) (pending_by_service s) +
     fm_bag (\<lambda>p t. (t, AtPeer p)) (pending_by_peer s) +
     fm_bag (\<lambda>p t. (t, WaitsFor p)) (awaiting_holepunch s)"

definition at_open :: "(peer_id \<times> tunnel_target) multiset \<Rightarrow> located multiset" where
  "at_open tasks = image_mset (\<lambda>(p, t). (t, OpenedOver p)) tasks"

definition opened :: "command list \<Rightarrow> located multiset" where
  "opened cmds = at_open (mset (concat (map spawned cmds)))"

text \<open>\<open>running\<close> are the tunnels that were already open.\<close>

definition broker_view ::
  "(peer_id \<times> tunnel_target) multiset \<Rightarrow> tunnel_state \<Rightarrow> command list \<Rightarrow> broker" where
  "broker_view running s issued =
     \<lparr>br_relayed = relayed_peers s, br_requests = at_open running + opened issued + located s\<rparr>"

named_theorems place_simps \<open>how the operations change the places of the requests\<close>

lemma opened_simps [simp]:
  "opened [] = {#}" "opened (xs @ ys) = opened xs + opened ys"
  "spawned c = [] \<Longrightarrow> opened (c # cs) = opened cs"
  by (simp_all add: opened_def at_open_def)

lemma opened_none: "\<forall>c\<in>set cmds. spawned c = [] \<Longrightarrow> opened cmds = {#}"
  by (induction cmds) auto

lemma opened_spawn_all [simp]: "opened (spawn_all p ts) = mset (map (\<lambda>t. (t, OpenedOver p)) ts)"
  by (simp add: opened_def at_open_def spawn_all_def comp_def split_beta concat_map_singleton
      image_mset.compositionality)

lemma located_frame [place_simps]:
  "located (s\<lparr>relayed_peers := x\<rparr>) = located s"
  "located (s\<lparr>holepunch_sessions := y\<rparr>) = located s"
  "located (s\<lparr>pending_retry_redial := z\<rparr>) = located s"
  "located (s\<lparr>service_provider_candidates := w\<rparr>) = located s"
  "located (s\<lparr>address_oracle := v\<rparr>) = located s"
  "located (s\<lparr>address_last_seen := u\<rparr>) = located s"
  by (simp_all add: located_def)

lemma located_operations [place_simps]:
  "located (clear_retry_state p s) = located s"
  "located (set_session_phase p ph s) = located s"
  "located (mark_dial_retry p i s) = located s"
  "located (schedule_holepunch_retry p s) = located s"
  "located (begin_holepunch_attempt p i s) = located s"
  "located (store_provider_candidates service ps s) = located s"
  "located (update_address_oracle env p addrs s) = located s"
  by (auto simp: located_def clear_retry_state_def set_session_phase_def mark_dial_retry_def
      schedule_holepunch_retry_def begin_holepunch_attempt_def store_provider_candidates_def
      update_address_oracle_def record_address_candidates_def Let_def split: option.split)

lemma located_queue [place_simps]:
  "located (queue_for_direct p ts s) = located s + mset (map (\<lambda>t. (t, WaitsFor p)) ts)"
  by (simp add: located_def queue_for_direct_def fm_bag_extend)

lemma located_extend_peer [place_simps]:
  "located (s\<lparr>pending_by_peer := entry_extend p ts (pending_by_peer s)\<rparr>) =
     located s + mset (map (\<lambda>t. (t, AtPeer p)) ts)"
  by (simp add: located_def fm_bag_extend)

lemma located_drop_peer:
  "located s = located (s\<lparr>pending_by_peer := fmdrop p (pending_by_peer s)\<rparr>) +
     mset (map (\<lambda>t. (t, AtPeer p)) (get_or [] (pending_by_peer s) p))"
  using fm_bag_drop [of "\<lambda>p t. (t, AtPeer p)" "pending_by_peer s" p]
  by (simp add: located_def)

lemma located_drop_waiting:
  "located s = located (s\<lparr>awaiting_holepunch := fmdrop p (awaiting_holepunch s)\<rparr>) +
     mset (map (\<lambda>t. (t, WaitsFor p)) (get_or [] (awaiting_holepunch s) p))"
  using fm_bag_drop [of "\<lambda>p t. (t, WaitsFor p)" "awaiting_holepunch s" p]
  by (simp add: located_def)

lemma located_drop_service:
  "located s = located (s\<lparr>pending_by_service := fmdrop service (pending_by_service s)\<rparr>) +
     mset (map (\<lambda>t. (t, AtService)) (map (Pair service) (get_or [] (pending_by_service s) service)))"
  using fm_bag_drop [of "\<lambda>service bind. ((service, bind), AtService)" "pending_by_service s" service]
  by (simp add: located_def comp_def)

text \<open>A request taken out of the queues goes where the connection of its peer allows.\<close>

lemma located_route:
  "opened (snd (route_connected_peer p ts s)) + located (fst (route_connected_peer p ts s)) =
     located s + mset (map (\<lambda>t. (t, arrives (relayed_peers s) p)) ts)"
  by (simp add: route_connected_peer_def arrives_def place_simps add.commute)


section \<open>Every arm\<close>

lemma place_lookup_complete:
  "rearranged (may_move (DhtPeerLookupComplete p connected) (relayed_peers s)) (located s)
     (opened (snd (on_dht_peer_lookup_complete p connected s)) +
      located (fst (on_dht_peer_lookup_complete p connected s)))"
proof (cases "connected \<and> contains_key (pending_by_peer s) p")
  case True
  then obtain ts where ts: "fmlookup (pending_by_peer s) p = Some ts" by (auto simp: contains_key_def)
  let ?s0 = "s\<lparr>pending_by_peer := fmdrop p (pending_by_peer s)\<rparr>"
  have before: "located s = located ?s0 + mset (map (\<lambda>t. (t, AtPeer p)) ts)"
    using located_drop_peer [of s p] ts by simp
  have after: "opened (snd (on_dht_peer_lookup_complete p connected s)) +
      located (fst (on_dht_peer_lookup_complete p connected s)) =
      located ?s0 + mset (map (\<lambda>t. (t, arrives (relayed_peers s) p)) ts)"
    using True ts by (simp add: on_dht_peer_lookup_complete_def located_route)
  show ?thesis
    unfolding before after by (intro rearranged_keep rearranged_all) (use True in simp)
next
  case False
  then show ?thesis
    by (auto simp: on_dht_peer_lookup_complete_def contains_key_def rearranged_refl split: option.split)
qed

lemma place_service_resolved:
  "rearranged (may_move (DhtServiceResolved service providers) (relayed_peers s)) (located s)
     (opened (snd (on_dht_service_resolved service providers s)) +
      located (fst (on_dht_service_resolved service providers s)))"
proof (cases "fmlookup (pending_by_service s) service")
  case None
  then show ?thesis by (simp add: on_dht_service_resolved_def rearranged_refl)
next
  case (Some binds)
  let ?s0 = "s\<lparr>pending_by_service := fmdrop service (pending_by_service s)\<rparr>"
  have before: "located s = located ?s0 + mset (map (\<lambda>t. (t, AtService)) (map (Pair service) binds))"
    using located_drop_service [of s service] Some by simp
  show ?thesis
  proof (cases "dedup_provider_candidates providers")
    case Nil
    then show ?thesis
      using before
      by (simp add: on_dht_service_resolved_def Some located_def fm_bag_upd comp_def rearranged_refl)
  next
    case (Cons pc fallbacks)
    obtain p connected where pc: "pc = (p, connected)" by (cases pc)
    have known: "(p, connected) \<in> set providers"
      using set_dedup_by_subset [of fst "{||}" providers] Cons pc
      by (auto simp: dedup_provider_candidates_def)
    let ?s1 = "store_provider_candidates service (map fst fallbacks) ?s0"
    have relayed: "relayed_peers ?s1 = relayed_peers s" by simp
    have after: "opened (snd (on_dht_service_resolved service providers s)) +
        located (fst (on_dht_service_resolved service providers s)) =
        located ?s0 + mset (map (\<lambda>t. (t, if connected then arrives (relayed_peers s) p else AtPeer p))
          (map (Pair service) binds))"
      by (simp add: on_dht_service_resolved_def Some Cons pc Let_def located_route relayed place_simps
          del: map_map)
    show ?thesis
      unfolding before after by (intro rearranged_keep rearranged_all) (use known in auto)
  qed
qed

lemma place_peer_connected:
  "rearranged (may_move (TunnelPeerConnected p rel) (relayed_peers s)) (located s)
     (opened (snd (on_tunnel_peer_connected p rel s)) + located (fst (on_tunnel_peer_connected p rel s)))"
proof -
  let ?s1 = "s\<lparr>pending_by_peer := fmdrop p (pending_by_peer s)\<rparr>"
  let ?s2 = "?s1\<lparr>awaiting_holepunch := fmdrop p (awaiting_holepunch s)\<rparr>"
  let ?pending = "get_or [] (pending_by_peer s) p" and ?waiting = "get_or [] (awaiting_holepunch s) p"
  have pending: "located s = located ?s1 + mset (map (\<lambda>t. (t, AtPeer p)) ?pending)"
    by (rule located_drop_peer)
  show ?thesis
  proof (cases rel)
    case True
    have after: "opened (snd (on_tunnel_peer_connected p rel s)) +
        located (fst (on_tunnel_peer_connected p rel s)) =
        located ?s1 + mset (map (\<lambda>t. (t, WaitsFor p)) ?pending)"
    proof (cases "fmlookup (pending_by_peer s) p")
      case None
      then show ?thesis
        using True pending by (simp add: on_tunnel_peer_connected_def place_simps)
    next
      case (Some ts)
      have "located (s\<lparr>relayed_peers := finsert p (relayed_peers s),
          pending_by_peer := fmdrop p (pending_by_peer s)\<rparr>) = located ?s1"
        by (simp add: located_def)
      with Some True show ?thesis by (simp add: on_tunnel_peer_connected_def place_simps)
    qed
    show ?thesis
      unfolding pending after by (intro rearranged_keep rearranged_all) (use True in simp)
  next
    case False
    have before: "located s = located ?s2 + (mset (map (\<lambda>t. (t, AtPeer p)) ?pending) +
        mset (map (\<lambda>t. (t, WaitsFor p)) ?waiting))"
      using pending located_drop_waiting [of ?s1 p] by (simp add: ac_simps)
    have after: "opened (snd (on_tunnel_peer_connected p rel s)) +
        located (fst (on_tunnel_peer_connected p rel s)) =
        located ?s2 + (mset (map (\<lambda>t. (t, OpenedOver p)) ?pending) +
          mset (map (\<lambda>t. (t, OpenedOver p)) ?waiting))"
      using False
      by (simp add: on_tunnel_peer_connected_def Let_def clear_retry_state_def located_def ac_simps)
    show ?thesis
      unfolding before after
      by (intro rearranged_keep rearranged_add rearranged_all) (use False in simp_all)
  qed
qed

lemma place_retry:
  assumes may: "\<And>t. may t (WaitsFor p) (OpenedOver p)"
  shows "rearranged may (located s)
     (opened (snd (retry_holepunch_attempt p i s)) + located (fst (retry_holepunch_attempt p i s)))"
proof (cases "attempt_active s p i \<and> MAX_RELAY_RECONNECT_RETRIES \<le> get_or 0 (holepunch_retry_attempts s) p")
  case True
  let ?s0 = "s\<lparr>awaiting_holepunch := fmdrop p (awaiting_holepunch s)\<rparr>"
  let ?waiting = "get_or [] (awaiting_holepunch s) p"
  have before: "located s = located ?s0 + mset (map (\<lambda>t. (t, WaitsFor p)) ?waiting)"
    by (rule located_drop_waiting)
  have after: "opened (snd (retry_holepunch_attempt p i s)) +
      located (fst (retry_holepunch_attempt p i s)) =
      located ?s0 + mset (map (\<lambda>t. (t, OpenedOver p)) ?waiting)"
    using True by (simp add: retry_active place_simps)
  show ?thesis
    unfolding before after by (intro rearranged_keep rearranged_all ballI may)
next
  case False
  then show ?thesis
    by (cases "attempt_active s p i")
      (auto simp: retry_active retry_inactive place_simps rearranged_refl)
qed

lemma place_connections_lost:
  "rearranged (may_move (ConnectionLost p 0) (relayed_peers s)) (located s)
     (opened (snd (on_all_connections_lost env p s)) + located (fst (on_all_connections_lost env p s)))"
proof (cases "p |\<in>| pending_retry_redial s \<or> fmlookup (awaiting_holepunch s) p = None")
  case True
  then show ?thesis
    by (auto simp: on_all_connections_lost_def Let_def place_simps rearranged_refl redial_command_def
        split: option.split)
next
  case False
  then obtain ts where ts: "fmlookup (awaiting_holepunch s) p = Some ts" by auto
  let ?s0 = "s\<lparr>awaiting_holepunch := fmdrop p (awaiting_holepunch s)\<rparr>"
  have before: "located s = located ?s0 + mset (map (\<lambda>t. (t, WaitsFor p)) ts)"
    using located_drop_waiting [of s p] ts by simp
  have after: "opened (snd (on_all_connections_lost env p s)) +
      located (fst (on_all_connections_lost env p s)) =
      located ?s0 + mset (map (\<lambda>t. (t, AtPeer p)) ts)"
    using False ts
    by (simp add: on_all_connections_lost_def Let_def clear_retry_state_def located_def fm_bag_extend ac_simps)
  show ?thesis
    unfolding before after by (intro rearranged_keep rearranged_all) simp
qed


section \<open>Rerouting\<close>

definition assigned :: "(peer_id, tunnel_target list) fmap \<Rightarrow> located multiset" where
  "assigned reassign = fm_bag (\<lambda>q t. (t, AtPeer q)) reassign"

lemma place_reroute_one:
  assumes "reroute_one p spec (s, reassign, refresh) = (s', reassign', refresh')"
  shows "\<exists>b. (b = AtService \<or> (\<exists>q. q \<noteq> p \<and> b = AtPeer q)) \<and>
    located s' + assigned reassign' = located s + assigned reassign + {#(spec, b)#}"
proof -
  obtain service bind where spec: "spec = (service, bind)" by (cases spec)
  obtain r t where n: "next_fallback_provider service p s = (r, t)" by (metis surj_pair)
  have t: "located t = located s"
    using n by (auto simp: next_fallback_provider_def place_simps split: option.splits prod.splits)
  show ?thesis
  proof (cases r)
    case None
    then have "located s' + assigned reassign' = located s + assigned reassign + {#(spec, AtService)#}"
      using assms t by (auto simp: reroute_one_def spec n located_def fm_bag_extend ac_simps)
    then show ?thesis by blast
  next
    case (Some q)
    then have "located s' + assigned reassign' = located s + assigned reassign + {#(spec, AtPeer q)#}"
      using assms t by (auto simp: reroute_one_def spec n assigned_def fm_bag_extend ac_simps)
    moreover have "q \<noteq> p" using next_fallback_frame [OF n] Some by auto
    ultimately show ?thesis by blast
  qed
qed

lemma place_reroute_fold:
  assumes "fold (reroute_one p) specs (s, reassign, refresh) = (s', reassign', refresh')"
  shows "\<exists>A. located s' + assigned reassign' = located s + assigned reassign + A \<and>
    rearranged (may_move (TunnelDialFailed p r) relayed) (mset (map (\<lambda>t. (t, AtPeer p)) specs)) A"
  using assms
proof (induction specs arbitrary: s reassign refresh)
  case Nil
  then show ?case by (intro exI [of _ "{#}"]) (simp add: rearranged_refl)
next
  case (Cons spec specs)
  obtain t reassign1 refresh1 where one: "reroute_one p spec (s, reassign, refresh) = (t, reassign1, refresh1)"
    by (metis surj_pair)
  obtain b where b: "b = AtService \<or> (\<exists>q. q \<noteq> p \<and> b = AtPeer q)"
    and step: "located t + assigned reassign1 = located s + assigned reassign + {#(spec, b)#}"
    using place_reroute_one [OF one] by blast
  have "fold (reroute_one p) specs (t, reassign1, refresh1) = (s', reassign', refresh')"
    using Cons.prems one by simp
  from Cons.IH [OF this] obtain A where
    rest: "located s' + assigned reassign' = located t + assigned reassign1 + A"
    and moves: "rearranged (may_move (TunnelDialFailed p r) relayed) (mset (map (\<lambda>t. (t, AtPeer p)) specs)) A"
    by blast
  have "rearranged (may_move (TunnelDialFailed p r) relayed) {#(spec, AtPeer p)#} {#(spec, b)#}"
    using rearranged_all [of "[spec]" "may_move (TunnelDialFailed p r) relayed" "AtPeer p" b] b by simp
  from rearranged_add [OF this moves]
  have "rearranged (may_move (TunnelDialFailed p r) relayed)
      (mset (map (\<lambda>t. (t, AtPeer p)) (spec # specs))) ({#(spec, b)#} + A)" by simp
  moreover have "located s' + assigned reassign' = located s + assigned reassign + ({#(spec, b)#} + A)"
    unfolding rest step by (simp add: ac_simps)
  ultimately show ?case by blast
qed

lemma located_assign_fold:
  "located (fold (assign_to_peer reassign) peers s) =
     located s + mset (concat (map (\<lambda>q. map (\<lambda>t. (t, AtPeer q)) (get_or [] reassign q)) peers))"
  by (induction peers arbitrary: s) (simp_all add: assign_to_peer_def place_simps ac_simps)

lemma place_reroute:
  assumes env: "env_ok env"
  shows "rearranged (may_move (TunnelDialFailed p r) (relayed_peers s)) (located s)
     (opened (snd (reroute_specs_after_dial_failure env p s)) +
      located (fst (reroute_specs_after_dial_failure env p s)))"
proof (cases "fmlookup (pending_by_peer s) p")
  case None
  then show ?thesis by (simp add: reroute_specs_after_dial_failure_def rearranged_refl)
next
  case (Some specs)
  let ?s0 = "s\<lparr>pending_by_peer := fmdrop p (pending_by_peer s)\<rparr>"
  obtain s1 reassign refresh where
    f: "fold (reroute_one p) specs (?s0, fmempty, {||}) = (s1, reassign, refresh)"
    by (metis surj_pair)
  have none: "opened (snd (reroute_specs_after_dial_failure env p s)) = {#}"
    by (rule opened_none) (auto simp: reroute_specs_after_dial_failure_def Some f Let_def)
  have before: "located s = located ?s0 + mset (map (\<lambda>t. (t, AtPeer p)) specs)"
    using located_drop_peer [of s p] Some by simp
  have "assigned reassign = mset (concat (map (\<lambda>q. map (\<lambda>t. (t, AtPeer q)) (get_or [] reassign q))
      (peer_order env (fmdom reassign))))"
    unfolding assigned_def using env by (intro fm_bag_iterate) (simp add: env_ok_def)
  then have "located (fst (reroute_specs_after_dial_failure env p s)) = located s1 + assigned reassign"
    by (simp add: reroute_specs_after_dial_failure_def Some f Let_def located_assign_fold)
  moreover obtain A where "located s1 + assigned reassign = located ?s0 + assigned fmempty + A"
    and moves: "rearranged (may_move (TunnelDialFailed p r) (relayed_peers s))
      (mset (map (\<lambda>t. (t, AtPeer p)) specs)) A"
    using place_reroute_fold [OF f] by blast
  ultimately have after: "located (fst (reroute_specs_after_dial_failure env p s)) = located ?s0 + A"
    by (simp add: assigned_def)
  show ?thesis
    unfolding none after before add_0 using moves by (rule rearranged_keep)
qed

lemma place_dial_failed:
  assumes "env_ok env"
  shows "rearranged (may_move (TunnelDialFailed p r) (relayed_peers s)) (located s)
     (opened (snd (on_tunnel_dial_failed env p r s)) + located (fst (on_tunnel_dial_failed env p r s)))"
  using place_reroute [OF assms, of p r s]
  by (auto simp: on_tunnel_dial_failed_def Let_def place_simps rearranged_refl redial_command_def
      split: option.split)

section \<open>The refinement\<close>

lemma step_rearranges:
  assumes env: "env_ok env"
  shows "rearranged (may_move e (relayed_peers s)) (located s)
     (opened (snd (tunnel_transition env s e)) + located (fst (tunnel_transition env s e)))"
proof (cases e)
  case (PhaseChanged old new)
  have "opened (snd (on_phase_ready env s)) = {#}"
    by (rule opened_none) (auto simp: on_phase_ready_def initiate_lookups_def)
  with PhaseChanged show ?thesis
    by (cases new) (simp_all add: on_phase_ready_def rearranged_refl)
next
  case (HolePunchAttemptFailed p i r)
  then show ?thesis by (simp add: place_retry)
next
  case (HolePunchAttemptTimeout p i)
  then show ?thesis by (simp add: place_retry)
next
  case (ConnectionLost p n)
  then show ?thesis
    using place_connections_lost by (simp add: rearranged_refl)
next
  case (DhtPeerLookupComplete p c)
  then show ?thesis using place_lookup_complete by simp
next
  case (DhtServiceResolved sv ps)
  then show ?thesis using place_service_resolved by simp
next
  case (TunnelPeerConnected p rel)
  then show ?thesis using place_peer_connected by simp
next
  case (TunnelDialFailed p r)
  then show ?thesis using place_dial_failed [OF env] by simp
qed (simp_all add: on_dht_service_failed_def place_simps rearranged_refl)

text \<open>Which places are occupied.\<close>

lemma in_fm_bag:
  assumes "x \<in># fm_bag f m"
  obtains k v where "v \<in> set (get_or [] m k)" "x = f k v"
  using assms by (auto simp: fm_bag_def set_mset_sum image_iff)

lemma get_or_contains: "v \<in> set (get_or [] m k) \<Longrightarrow> contains_key m k"
  by (cases "fmlookup m k") (simp_all add: contains_key_def)

lemma located_at:
  "(t, AtPeer p) \<in># located s \<Longrightarrow> contains_key (pending_by_peer s) p"
  "(t, WaitsFor p) \<in># located s \<Longrightarrow> contains_key (awaiting_holepunch s) p"
  by (auto simp: located_def elim!: in_fm_bag dest: get_or_contains)

lemma opened_at: "(t, a) \<in># at_open T \<Longrightarrow> \<exists>p. a = OpenedOver p"
  by (auto simp: at_open_def)

lemma lookup_leaves: "\<not> contains_key (pending_by_peer (fst (on_dht_peer_lookup_complete p True s))) p"
  by (auto simp: on_dht_peer_lookup_complete_def route_connected_peer_def queue_for_direct_def
      contains_key_def split: option.split)

lemma connected_leaves:
  "\<not> contains_key (pending_by_peer (fst (on_tunnel_peer_connected p rel s))) p"
  "\<not> contains_key (awaiting_holepunch (fst (on_tunnel_peer_connected p False s))) p"
  by (auto simp: on_tunnel_peer_connected_def queue_for_direct_def Let_def contains_key_def
      split: option.split)

lemma step_leaves:
  assumes "(t, a) \<in># located (fst (tunnel_transition env s e))"
  shows "\<not> must_leave e a"
proof (cases e)
  case (DhtPeerLookupComplete p connected)
  then show ?thesis using assms located_at(1) [of t p] lookup_leaves [of p s] by auto
next
  case (TunnelPeerConnected p rel)
  then show ?thesis
    using assms located_at [of t p] connected_leaves(1) [of p rel s] connected_leaves(2) [of p s] by auto
qed simp_all

lemma reroute_relayed: "relayed_peers (fst (reroute_specs_after_dial_failure env p s)) = relayed_peers s"
proof -
  have fb: "relayed_peers (snd (next_fallback_provider sv q t)) = relayed_peers t" for sv q t
    by (auto simp: next_fallback_provider_def split: option.splits prod.splits)
  have one: "relayed_peers (fst (reroute_one p spec acc)) = relayed_peers (fst acc)" for spec acc
    using fb by (cases acc) (auto simp: reroute_one_def split: prod.splits option.splits, (metis snd_conv)+)
  have many: "relayed_peers (fst (fold (reroute_one p) specs acc)) = relayed_peers (fst acc)" for specs acc
    by (induction specs arbitrary: acc) (simp_all add: one)
  have assign: "relayed_peers (fold (assign_to_peer m) ps t) = relayed_peers t" for m ps t
    by (induction ps arbitrary: t) (simp_all add: assign_to_peer_def)
  have "relayed_peers t = relayed_peers s"
    if "fold (reroute_one p) specs (s\<lparr>pending_by_peer := m\<rparr>, r, f) = (t, r', f')" for specs m r f t r' f'
    using many [of specs "(s\<lparr>pending_by_peer := m\<rparr>, r, f)"] that by simp
  then show ?thesis
    by (auto simp: reroute_specs_after_dial_failure_def Let_def assign split: option.split prod.split)
qed

lemma relayed_misc [simp]:
  "relayed_peers (update_address_oracle env q addrs s) = relayed_peers s"
  "relayed_peers (begin_holepunch_attempt q i s) = relayed_peers s"
  "relayed_peers (set_session_phase q ph s) = relayed_peers s"
  "relayed_peers (mark_dial_retry q i s) = relayed_peers s"
  "relayed_peers (clear_retry_state q s) = relayed_peers s"
  by (auto simp: update_address_oracle_def record_address_candidates_def clear_retry_state_def
      begin_holepunch_attempt_def set_session_phase_def mark_dial_retry_def Let_def split: option.split)

lemma step_relayed:
  "relayed_peers (fst (tunnel_transition env s e)) = relayed_after e (relayed_peers s)"
proof (cases e)
  case (PhaseChanged old new)
  then show ?thesis by (cases new) (simp_all add: on_phase_ready_def)
qed (auto simp: on_dht_peer_lookup_complete_def on_dht_service_resolved_def on_dht_service_failed_def
    route_connected_peer_def queue_for_direct_def on_tunnel_dial_failed_def reroute_relayed
    on_tunnel_peer_connected_def on_all_connections_lost_def retry_holepunch_attempt_def
    schedule_holepunch_retry_def Let_def split: option.split list.split prod.split)

lemma step_refines_broker:
  assumes "env_ok env"
  shows "broker_step e (broker_view running s issued)
    (broker_view running (fst (tunnel_transition env s e)) (issued @ snd (tunnel_transition env s e)))"
  unfolding broker_step_def
proof (intro conjI)
  let ?t = "fst (tunnel_transition env s e)" and ?cmds = "snd (tunnel_transition env s e)"
  let ?before = "broker_view running s issued" and ?after = "broker_view running ?t (issued @ ?cmds)"
  show "br_relayed ?after = relayed_after e (br_relayed ?before)"
    by (simp add: broker_view_def step_relayed)
  show "rearranged (may_move e (br_relayed ?before)) (br_requests ?before) (br_requests ?after)"
    using rearranged_keep [OF step_rearranges [OF assms], of e s "at_open running + opened issued"]
    by (simp add: broker_view_def add.assoc)
  have "\<not> must_leave e (OpenedOver p)" for p by (cases e) simp_all
  then show "\<forall>(t, a)\<in>#br_requests ?after. \<not> must_leave e a"
    using step_leaves [of _ _ env s e] by (auto simp: broker_view_def opened_def dest: opened_at)
qed

interpretation broker:
  mealy_refines tunnel_transition env_ok "\<lambda>_. True" "broker_view running" broker_step
  for running :: "(peer_id \<times> tunnel_target) multiset"
  by unfold_locales (simp_all add: step_refines_broker)

section \<open>What the broker promises\<close>

lemma spec_run_append:
  "spec_run spec es a b \<Longrightarrow> spec_run spec fs b c \<Longrightarrow> spec_run spec (es @ fs) a c"
  by (induction rule: spec_run.induct) (auto intro: spec_run_Cons)

text \<open>A state of the broker that it can come to.\<close>

definition broker_reaches :: "broker \<Rightarrow> broker \<Rightarrow> bool" where
  "broker_reaches b b' \<longleftrightarrow> (\<exists>es. spec_run broker_step es b b')"

lemma broker_reaches_refl [simp]: "broker_reaches b b"
  unfolding broker_reaches_def by (intro exI [of _ "[]"] spec_run_Nil)

lemma broker_reaches_trans [trans]: "broker_reaches a b \<Longrightarrow> broker_reaches b c \<Longrightarrow> broker_reaches a c"
  unfolding broker_reaches_def by (blast intro: spec_run_append)

text \<open>Requests are neither lost nor made up, and an open tunnel stays open.\<close>

lemma rearranged_requests: "rearranged may A A' \<Longrightarrow> image_mset fst A' = image_mset fst A"
  by (auto simp: rearranged_def image_mset.compositionality comp_def split_beta)

lemma rearranged_stays:
  assumes "rearranged may A A'" and fixed: "\<And>b. \<not> may t a b"
  shows "count A (t, a) \<le> count A' (t, a)"
proof -
  obtain K M where A: "A = K + image_mset (\<lambda>(t, a, b). (t, a)) M"
      "A' = K + image_mset (\<lambda>(t, a, b). (t, b)) M" "\<forall>(t, a, b)\<in>#M. may t a b"
    using assms(1) unfolding rearranged_def by blast
  have "(t, a) \<notin># image_mset (\<lambda>(t, a, b). (t, a)) M"
    using A(3) fixed by fastforce
  then have "count (image_mset (\<lambda>(t, a, b). (t, a)) M) (t, a) = 0"
    by (simp only: count_eq_zero_iff not_False_eq_True)
  then show ?thesis unfolding A(1,2) by (simp only: count_union)
qed

lemma broker_keeps:
  assumes "broker_reaches b b'"
  shows "image_mset fst (br_requests b') = image_mset fst (br_requests b)"
    and "count (br_requests b) (t, OpenedOver p) \<le> count (br_requests b') (t, OpenedOver p)"
proof -
  have fixed: "\<not> may_move e rel t (OpenedOver p) b" for e rel b by (cases e) auto
  obtain es where "spec_run broker_step es b b'"
    using assms by (auto simp: broker_reaches_def)
  then have "image_mset fst (br_requests b') = image_mset fst (br_requests b) \<and>
      count (br_requests b) (t, OpenedOver p) \<le> count (br_requests b') (t, OpenedOver p)"
  proof (induction rule: spec_run.induct)
    case (spec_run_Cons e a b es c)
    then have "rearranged (may_move e (br_relayed a)) (br_requests a) (br_requests b)"
      by (simp add: broker_step_def)
    from rearranged_requests [OF this] rearranged_stays [OF this fixed] spec_run_Cons.IH
    show ?case by simp
  qed simp
  then show "image_mset fst (br_requests b') = image_mset fst (br_requests b)"
    and "count (br_requests b) (t, OpenedOver p) \<le> count (br_requests b') (t, OpenedOver p)" by auto
qed

lemma fm_bag_fst: "image_mset fst (fm_bag (\<lambda>k v. (g k v, h k)) m) = fm_bag g m"
proof -
  have "finite A \<Longrightarrow> image_mset fst (\<Sum>k\<in>A. mset (map (\<lambda>v. (g k v, h k)) (get_or [] m k))) =
      (\<Sum>k\<in>A. mset (map (g k) (get_or [] m k)))" for A
    by (induction A rule: finite_induct) (simp_all add: image_mset.compositionality comp_def)
  then show ?thesis by (simp add: fm_bag_def)
qed

lemma located_targets: "image_mset fst (located s) = targets_held s"
  using fm_bag_fst [of Pair "\<lambda>_. AtService" "pending_by_service s"]
  by (simp add: located_def targets_held_def fm_bag_fst [of "\<lambda>k v. v"] ac_simps)

lemma at_open_targets: "image_mset fst (at_open T) = image_mset snd T"
  by (simp add: at_open_def image_mset.compositionality comp_def split_beta)

text \<open>C6: The tunnel machine implements the broker: over any events, what the machine does with the
  requests and the relayed peers is a run of the broker.  A request moves only where the event
  allows: to a peer that the event names as a provider, to another peer or back to its service
  when a dial failed, into waiting when the connection is relayed, from waiting back to pending when the
  peer loses its last connection, and to an open tunnel only when
  its peer is connected and not known to be relayed, or its hole punch was reported as ended.  An
  open tunnel never moves, and a connection of a peer leaves nothing pending for it.\<close>

theorem machine_implements_broker:
  assumes "\<forall>(env, e)\<in>set es. env_ok env"
  shows "spec_run broker_step (map snd es) (broker_view running s [])
    (broker_view running (fst (mealy_run tunnel_transition s es)) (snd (mealy_run tunnel_transition s es)))"
  using broker.run_refines [of es running s "[]"] assms by simp

text \<open>A tunnel asked for by service, resolved to a provider that is connected over a relay: it waits.\<close>

theorem machine_implements_broker_witness:
  "spec_run broker_step [DhtServiceResolved (ServiceName ''ssh'') [(PeerId ''w'', True)]]
     \<lparr>br_relayed = {|PeerId ''w''|},
      br_requests = {#((ServiceName ''ssh'', sample_bind), AtService)#}\<rparr>
     \<lparr>br_relayed = {|PeerId ''w''|},
      br_requests = {#((ServiceName ''ssh'', sample_bind), WaitsFor (PeerId ''w''))#}\<rparr>"
proof -
  let ?s = "add_service_tunnel (ServiceName ''ssh'') sample_bind
    (new_tunnel_state\<lparr>relayed_peers := {|PeerId ''w''|}\<rparr>)"
  let ?es = "[(sample_env 0, DhtServiceResolved (ServiceName ''ssh'') [(PeerId ''w'', True)])]"
  have before: "broker_view {#} ?s [] = \<lparr>br_relayed = {|PeerId ''w''|},
      br_requests = {#((ServiceName ''ssh'', sample_bind), AtService)#}\<rparr>"
    by (simp add: broker_view_def at_open_def located_def add_service_tunnel_def new_tunnel_state_def
        fm_bag_extend)
  have after: "broker_view {#} (fst (mealy_run tunnel_transition ?s ?es))
        (snd (mealy_run tunnel_transition ?s ?es)) =
      \<lparr>br_relayed = {|PeerId ''w''|},
       br_requests = {#((ServiceName ''ssh'', sample_bind), WaitsFor (PeerId ''w''))#}\<rparr>"
    by (simp add: broker_view_def at_open_def on_dht_service_resolved_def dedup_provider_candidates_def
        route_connected_peer_def queue_for_direct_def store_provider_candidates_def located_def
        add_service_tunnel_def new_tunnel_state_def entry_extend_def fm_bag_upd fmdrop_fmupd)
  have "\<forall>(env, e)\<in>set ?es. env_ok env" by simp
  from machine_implements_broker [OF this, of "{#}" ?s] show ?thesis
    unfolding before after by simp
qed

end
