(* ===== verification/Node_Facts.thy ===== *)
theory Node_Facts
  imports Node_Steps Tunnel_Broker
begin

text \<open>
  What holds of the whole node over any sequence of turns of its event loop: its components keep
  their invariants, and what it does with the tunnel requests is a run of the broker.
\<close>

section \<open>The invariant\<close>

definition node_wf :: "'sw node_state \<Rightarrow> bool" where
  "node_wf n \<longleftrightarrow>
     app_wf (nd_app n) \<and> conn_reachable (nd_conn n) \<and> registry_wf (tasks (nd_ctx n)) \<and>
     backoff_wf (nd_backoff n) \<and>
     fmdom (nd_reconnects n) |\<subseteq>| fmdom (addrs (nd_backoff n)) \<and>
     fmpred (\<lambda>ip addr. map_option fst (extract_public_ip_port addr) = Some ip) (nd_confirmed n) \<and>
     fmpred (\<lambda>ip addr. map_option fst (extract_public_ip_port addr) = Some ip) (nd_boot_observed n) \<and>
     fmpred (\<lambda>_ ports. ports \<noteq> {||}) (nd_observed_ports n)"

text \<open>The tunnels the node answers for: held by the state machine, or running.\<close>

definition accounted :: "'sw node_state \<Rightarrow> tunnel_target multiset" where
  "accounted n = targets_held (app_tunnel (nd_app n)) + image_mset snd (running_tasks (nd_ctx n))"

text \<open>The node as a broker: its open tunnels are the tunnel tasks it has started.\<close>

definition node_broker :: "'sw node_state \<Rightarrow> broker" where
  "node_broker n = broker_view (running_tasks (nd_ctx n)) (app_tunnel (nd_app n)) []"

lemma accounted_broker: "accounted n = image_mset fst (br_requests (node_broker n))"
  by (simp add: accounted_def node_broker_def broker_view_def located_targets at_open_targets add.commute)

text \<open>A step that keeps the invariant and that the broker can make.\<close>

definition safe_step :: "'sw node_state \<Rightarrow> 'sw node_state \<Rightarrow> bool" where
  "safe_step n n' \<longleftrightarrow>
     (node_wf n \<longrightarrow> node_wf n' \<and> broker_reaches (node_broker n) (node_broker n'))"

lemma safe_refl [simp]: "safe_step n n"
  by (simp add: safe_step_def)

lemma safe_trans [trans]: "safe_step a b \<Longrightarrow> safe_step b c \<Longrightarrow> safe_step a c"
  by (auto simp: safe_step_def intro: broker_reaches_trans)

lemma safe_accounted: "safe_step n n' \<Longrightarrow> node_wf n \<Longrightarrow> accounted n' = accounted n"
  using broker_keeps(1) by (auto simp: safe_step_def accounted_broker)

definition safe_result :: "'sw node_state \<Rightarrow> 'sw node_state option \<Rightarrow> bool" where
  "safe_result n r \<longleftrightarrow> (case r of None \<Rightarrow> True | Some n' \<Rightarrow> safe_step n n')"

lemma safe_result_simps [simp]:
  "safe_result n None" "safe_result n (Some n') = safe_step n n'"
  by (simp_all add: safe_result_def)

lemma safe_result_trans: "safe_step a b \<Longrightarrow> safe_result b r \<Longrightarrow> safe_result a r"
  by (cases r) (auto intro: safe_trans)

section \<open>Feeding events\<close>

lemma broker_view_issued:
  "broker_view running s issued = broker_view (running + mset (concat (map spawned issued))) s []"
  by (simp add: broker_view_def opened_def at_open_def)

lemma app_step_brokers:
  assumes env: "env_ok env"
  shows "broker_reaches (broker_view running (app_tunnel s) [])
    (broker_view (running + mset (concat (map spawned (snd (app_transition env s e)))))
       (app_tunnel (fst (app_transition env s e))) [])"
proof -
  let ?r = "mealy_run tunnel_transition (app_tunnel s) (map (Pair env) (tunnel_events env s e))"
  have network: "concat (map spawned (snd (peer_transition env (app_peer s) e))) = []"
    using peer_commands_are_network by (simp add: concat_eq_Nil_conv network_command_spawns_nothing)
  have "broker_reaches (broker_view running (app_tunnel s) []) (broker_view running (fst ?r) (snd ?r))"
    using broker.run_refines [OF TrueI tunnel_events_good [OF env], where issued = "[]"]
    by (auto simp: broker_reaches_def)
  then show ?thesis
    unfolding broker_view_issued [where issued = "snd ?r"]
    by (simp only: app_transition_run fst_conv snd_conv app_state.select_convs map_append
        concat_append network append_Nil)
qed

lemma dispatch_safe:
  assumes env: "env_ok (w_env w)"
  shows "safe_result n (dispatch w e n)"
proof (cases "dispatch w e n")
  case (Some n')
  obtain app' cmds where step: "app_transition (w_env w) (nd_app n) e = (app', cmds)"
    by (metis surj_pair)
  obtain sw ctx where exec: "execute_commands (w_api w) (w_exec w) cmds (nd_swarm n, nd_ctx n) = Some (sw, ctx)"
    and n': "n' = n\<lparr>nd_swarm := sw, nd_ctx := ctx, nd_app := app'\<rparr>"
    using Some step by (auto simp: dispatch_def)
  have "safe_step n n'"
    unfolding safe_step_def
  proof
    assume wf: "node_wf n"
    then have app: "app_wf (nd_app n)" and reg: "registry_wf (tasks (nd_ctx n))"
      by (simp_all add: node_wf_def)
    have app': "app_wf app'" using app_machine.step_inv [OF env app, of e] step by simp
    note t = execute_commands_tasks [OF exec reg]
    have "broker_reaches (node_broker n) (node_broker n')"
      using app_step_brokers [OF env, of "running_tasks (nd_ctx n)" "nd_app n" e] step t
      by (simp add: node_broker_def n')
    with wf app' t show "node_wf n' \<and> broker_reaches (node_broker n) (node_broker n')"
      by (simp add: node_wf_def n')
  qed
  with Some show ?thesis by simp
qed simp

text \<open>A change of the connection records alone.\<close>

lemma conn_safe: "conn_step (nd_conn n) conn' \<Longrightarrow> safe_step n (n\<lparr>nd_conn := conn'\<rparr>)"
  by (auto simp: safe_step_def node_wf_def node_broker_def intro: reach_step)

lemma swarm_safe: "safe_step n (n\<lparr>nd_swarm := sw\<rparr>)"
  by (simp add: safe_step_def node_wf_def node_broker_def)

lemma schedule_backoff:
  assumes "schedule_reconnect peer b = (b', r)"
  shows "addrs b' = addrs b" and "backoff_wf b \<Longrightarrow> backoff_wf b'"
    and "r \<noteq> None \<Longrightarrow> peer |\<in>| fmdom (addrs b)"
  using assms backoff_kept [of b peer]
  by (auto simp: schedule_reconnect_def Let_def fmlookup_dom_iff split: option.splits)

lemma reconnect_safe: "safe_step n (schedule_boot_reconnect w peer n)"
proof -
  obtain b' r where s: "schedule_reconnect peer (nd_backoff n) = (b', r)" by (metis surj_pair)
  note b = schedule_backoff [OF s]
  show ?thesis
    using b s
    by (cases r)
      (auto simp: safe_step_def node_wf_def node_broker_def schedule_boot_reconnect_def)
qed

text \<open>Updates of the loop's own tables.\<close>

lemma tables_safe:
  "safe_step n (n\<lparr>nd_ctx := nd_ctx n\<lparr>direct_peers := r\<rparr>\<rparr>)"
  "safe_step n (n\<lparr>nd_ctx := nd_ctx n\<lparr>queries := q\<rparr>\<rparr>)"
  "safe_step n (n\<lparr>nd_backoff := reset_backoff p (nd_backoff n), nd_reconnects := fmdrop p (nd_reconnects n)\<rparr>)"
  "safe_step n (n\<lparr>nd_reconnects := fmdrop p (nd_reconnects n)\<rparr>)"
  "safe_step n (n\<lparr>nd_confirmed := fmdrop ip (nd_confirmed n)\<rparr>)"
  "safe_step n (n\<lparr>nd_observed_ports := entry_insert ip number (nd_observed_ports n)\<rparr>)"
  "safe_step n (n\<lparr>nd_announced := x\<rparr>)"
  "safe_step n (n\<lparr>nd_mapping_handle := h\<rparr>)"
  "safe_step n (n\<lparr>nd_mapping_spawned := m\<rparr>)"
  "safe_step n (n\<lparr>nd_discovery_fired := d\<rparr>)"
  by (auto simp: safe_step_def node_wf_def node_broker_def running_tasks_def reset_backoff_def backoff_wf_def
      entry_insert_def fmpred_drop fmpred_upd)

lemma addresses_safe:
  "extract_public_ip_port a = Some (ip, number) \<Longrightarrow> safe_step n (n\<lparr>nd_confirmed := fmupd ip a (nd_confirmed n)\<rparr>)"
  "extract_public_ip_port a = Some (ip, number) \<Longrightarrow>
     safe_step n (n\<lparr>nd_boot_observed := fmupd ip a (nd_boot_observed n)\<rparr>)"
  by (auto simp: safe_step_def node_wf_def node_broker_def fmpred_upd)

lemma step_safe: "node_step w n n' \<Longrightarrow> env_ok (w_env w) \<Longrightarrow> safe_step n n'"
proof (induction rule: node_step.induct)
  case (does_dispatch e n n')
  with dispatch_safe [of w n e] show ?case by simp
qed (simp_all add: conn_safe swarm_safe reconnect_safe tables_safe addresses_safe)

lemma turn_safe:
  assumes env: "env_ok (w_env w)" and turn: "node_turn w input n = Some n'"
  shows "safe_step n n'"
  using turn_by_steps [OF env turn, of safe_step] step_safe [OF _ env] safe_refl safe_trans by blast

end
