(* ===== verification/Tunnel_Targets.thy ===== *)
theory Tunnel_Targets
  imports Tunnel_Facts
begin

text \<open>
  The peers to punch a hole to, \<open>TunnelState::holepunch_target_peers\<close>: the code chains the keys of
  two hash maps, sorts them by their printed form and drops adjacent duplicates.  The result is
  determined by the state alone, whatever the order in which the maps are iterated.
\<close>

lemma target_peers_set:
  assumes "env_ok env"
  shows "p \<in> set (holepunch_target_peers env s) \<longleftrightarrow> has_holepunch_intent s p"
  using assms
  by (auto simp: holepunch_target_peers_def has_holepunch_intent_def env_ok_def iterates_def
      contains_key_dom)

lemma strictly_sorted_remdups: "sorted xs \<Longrightarrow> sorted_wrt (<) (remdups_adj (xs :: 'a :: linorder list))"
proof (induction xs rule: remdups_adj.induct)
  case (3 x y xs)
  show ?case
  proof (cases "x = y")
    case True
    with 3 show ?thesis by simp
  next
    case False
    with 3 have "sorted_wrt (<) (remdups_adj (y # xs))" "\<forall>z\<in>set (y # xs). x < z" by auto
    with False show ?thesis by (simp del: remdups_adj.simps add: remdups_adj.simps(3))
  qed
qed simp_all

lemma intents_finite: "finite {p. has_holepunch_intent s p}"
  by (rule finite_subset [of _ "fset (fmdom (pending_by_peer s) |\<union>| fmdom (awaiting_holepunch s))"])
    (auto simp: has_holepunch_intent_def contains_key_dom)

text \<open>C16: The peers to punch a hole to are exactly those with tunnels pending or waiting, each once, and
  listed by their printed form in ascending order: sorting the keys of both maps and dropping adjacent
  duplicates is the same as sorting the set of those peers, so the order in which attempts are started
  does not depend on the hash maps.\<close>

theorem targets_canonical:
  assumes "env_ok env" and "inj (show_peer env)"
  shows "map (show_peer env) (holepunch_target_peers env s) =
    sorted_list_of_set (show_peer env ` {p. has_holepunch_intent s p})"
proof (rule sorted_distinct_set_unique)
  let ?keys = "peer_order env (fmdom (pending_by_peer s)) @ peer_order env (fmdom (awaiting_holepunch s))"
  let ?le = "\<lambda>p q. show_peer env p \<le> show_peer env q"
  have "sorted (map (show_peer env) (sort_by ?le ?keys))"
    using shown_peer.sorted_sort_by [of env ?keys] by (simp add: sorted_map)
  then have strict: "sorted_wrt (<) (map (show_peer env) (holepunch_target_peers env s))"
    unfolding holepunch_target_peers_def remdups_adj_map_injective [OF assms(2), symmetric]
    by (rule strictly_sorted_remdups)
  show "sorted (map (show_peer env) (holepunch_target_peers env s))"
    "distinct (map (show_peer env) (holepunch_target_peers env s))"
    using strict by (simp_all add: strict_sorted_iff)
  show "set (map (show_peer env) (holepunch_target_peers env s)) =
      set (sorted_list_of_set (show_peer env ` {p. has_holepunch_intent s p}))"
    using target_peers_set [OF assms(1)] intents_finite [of s] by auto
qed simp_all

text \<open>A peer that is both pending and waiting is one target.\<close>

lemma targets_canonical_witness:
  "map peer_bytes (holepunch_target_peers (sample_env 0)
     ((sample_waiting 1)\<lparr>pending_by_peer := fmupd (PeerId ''w'') [sample_spec] (fmupd (PeerId ''b'') [sample_spec] fmempty)\<rparr>)) =
   [''b'', ''w'']"
proof -
  let ?s = "(sample_waiting 1)\<lparr>pending_by_peer := fmupd (PeerId ''w'') [sample_spec] (fmupd (PeerId ''b'') [sample_spec] fmempty)\<rparr>"
  have peers: "{p. has_holepunch_intent ?s p} = {PeerId ''b'', PeerId ''w''}"
    by (auto simp: has_holepunch_intent_def sample_waiting_def)
  have "inj peer_bytes" by (rule injI) (metis peer_bytes.elims)
  with targets_canonical [OF env_ok_sample, of 0 ?s] show ?thesis
    unfolding peers by (simp add: sample_env_def)
qed

end
