(* ===== verification/Node_Props.thy ===== *)
theory Node_Props
  imports Node_Facts Tunnel_Targets
begin

text \<open>
  The properties of the whole node: its runs, its tunnels, its hole-punch attempts, its reconnects
  to the bootstrap peers, and its start and end.
\<close>

section \<open>Runs\<close>

text \<open>The loop takes turns until the phase is \<open>ShuttingDown\<close>; the world differs from turn to turn.\<close>

inductive node_run :: "'sw node_state \<Rightarrow> 'sw node_state \<Rightarrow> bool" where
  run_start: "node_run n n"
| run_turn: "node_run n n1 \<Longrightarrow> app_phase (nd_app n1) \<noteq> ShuttingDown \<Longrightarrow> env_ok (w_env w) \<Longrightarrow>
    node_turn w input n1 = Some n2 \<Longrightarrow> node_run n n2"

lemma node_run_safe: "node_run n n' \<Longrightarrow> safe_step n n'"
proof (induction rule: node_run.induct)
  case (run_start n)
  then show ?case by simp
next
  case (run_turn n n1 w input n2)
  have "safe_step n1 n2" by (rule turn_safe [OF run_turn.hyps(3,4)])
  with run_turn.IH show ?case by (rule safe_trans)
qed

lemma held_by_name: "targets_held (fold (\<lambda>spec. add_service_tunnel (by_name_service spec) (by_name_bind spec)) specs s) =
    targets_held s + mset (map (\<lambda>spec. (by_name_service spec, by_name_bind spec)) specs)"
  by (induction specs arbitrary: s) (simp_all add: hold_simps)

lemma held_by_peer: "targets_held (fold (\<lambda>spec. add_peer_tunnel (remote_peer spec) (spec_service spec) (spec_bind spec)) specs s) =
    targets_held s + mset (map (\<lambda>spec. (spec_service spec, spec_bind spec)) specs)"
  by (induction specs arbitrary: s) (simp_all add: hold_simps)

text \<open>The tunnels asked for on the command line.\<close>

definition requested :: "node_config \<Rightarrow> tunnel_target multiset" where
  "requested cfg = mset (map (\<lambda>spec. (spec_service spec, spec_bind spec)) (cfg_tunnels cfg)) +
     mset (map (\<lambda>spec. (by_name_service spec, by_name_bind spec)) (cfg_by_name cfg))"

lemma requested_tunnels_held: "targets_held (requested_tunnels cfg m) = requested cfg"
proof -
  have "targets_held (set_nat_mapping m s) = targets_held s" for s
    by (simp add: set_nat_mapping_def targets_held_def)
  then show ?thesis
    by (simp add: requested_tunnels_def held_by_name held_by_peer requested_def)
qed

lemma requested_tunnels_wf: "tunnel_wf (requested_tunnels cfg m)"
proof -
  have peers: "tunnel_wf s \<Longrightarrow> tunnel_wf (fold (\<lambda>spec. add_peer_tunnel (remote_peer spec)
      (spec_service spec) (spec_bind spec)) specs s)" for s specs
    by (induction specs arbitrary: s) (simp_all add: tunnel_wf_requests)
  have names: "tunnel_wf s \<Longrightarrow> tunnel_wf (fold (\<lambda>spec. add_service_tunnel (by_name_service spec)
      (by_name_bind spec)) specs s)" for s specs
    by (induction specs arbitrary: s) (simp_all add: tunnel_wf_requests)
  show ?thesis
    unfolding requested_tunnels_def by (intro tunnel_wf_requests(3) names peers tunnel_wf_new)
qed

lemma initial_node_wf: "node_wf (initial_node cfg m sw)"
  by (simp add: node_wf_def initial_node_def app_wf_def new_app_state_def requested_tunnels_wf
      reach_new new_execution_context_def new_reconnect_backoff_def backoff_wf_def)

text \<open>The broker the node begins as: every request is filed under its peer or its service.\<close>

definition initial_broker :: "node_config \<Rightarrow> broker" where
  "initial_broker cfg =
     \<lparr>br_relayed = {||},
      br_requests =
        mset (map (\<lambda>spec. ((spec_service spec, spec_bind spec), AtPeer (remote_peer spec))) (cfg_tunnels cfg)) +
        mset (map (\<lambda>spec. ((by_name_service spec, by_name_bind spec), AtService)) (cfg_by_name cfg))\<rparr>"

lemma located_requests:
  "located (add_peer_tunnel p service bind s) = add_mset ((service, bind), AtPeer p) (located s)"
  "located (add_service_tunnel service bind s) = add_mset ((service, bind), AtService) (located s)"
  by (simp_all add: located_def add_peer_tunnel_def add_service_tunnel_def fm_bag_extend)

lemma requested_tunnels_located: "located (requested_tunnels cfg m) = br_requests (initial_broker cfg)"
proof -
  have names: "located (fold (\<lambda>spec. add_service_tunnel (by_name_service spec) (by_name_bind spec)) specs s) =
      located s + mset (map (\<lambda>spec. ((by_name_service spec, by_name_bind spec), AtService)) specs)" for specs s
    by (induction specs arbitrary: s) (simp_all add: located_requests)
  have peers: "located (fold (\<lambda>spec. add_peer_tunnel (remote_peer spec) (spec_service spec) (spec_bind spec)) specs s) =
      located s + mset (map (\<lambda>spec. ((spec_service spec, spec_bind spec), AtPeer (remote_peer spec))) specs)"
    for specs s
    by (induction specs arbitrary: s) (simp_all add: located_requests)
  have "located (set_nat_mapping m s) = located s" for s by (simp add: set_nat_mapping_def located_def)
  moreover have "located new_tunnel_state = {#}" by (simp add: located_def new_tunnel_state_def)
  ultimately show ?thesis by (simp add: requested_tunnels_def names peers initial_broker_def)
qed

lemma requested_tunnels_relayed: "relayed_peers (requested_tunnels cfg m) = {||}"
proof -
  have names: "relayed_peers (fold (\<lambda>spec. add_service_tunnel (by_name_service spec) (by_name_bind spec)) specs s) =
      relayed_peers s" for specs s
    by (induction specs arbitrary: s) (simp_all add: add_service_tunnel_def)
  have peers: "relayed_peers (fold (\<lambda>spec. add_peer_tunnel (remote_peer spec) (spec_service spec) (spec_bind spec)) specs s) =
      relayed_peers s" for specs s
    by (induction specs arbitrary: s) (simp_all add: add_peer_tunnel_def)
  show ?thesis by (simp add: requested_tunnels_def set_nat_mapping_def names peers new_tunnel_state_def)
qed

lemma initial_node_broker: "node_broker (initial_node cfg m sw) = initial_broker cfg"
proof -
  have "running_tasks new_execution_context = {#}"
    by (simp add: running_tasks_def new_execution_context_def) (simp add: new_tunnel_registry_def)
  then show ?thesis
    by (simp add: node_broker_def broker_view_def initial_node_def new_app_state_def
        requested_tunnels_located requested_tunnels_relayed at_open_def)
      (simp add: initial_broker_def)
qed

lemma initial_broker_requested: "image_mset fst (br_requests (initial_broker cfg)) = requested cfg"
  by (simp add: initial_broker_def requested_def image_mset.compositionality comp_def)

lemma start_safe:
  assumes env: "env_ok (w_env w)" and start: "node_start w cfg probe sw = Inr (Some n)"
  shows "node_wf n \<and> broker_reaches (initial_broker cfg) (node_broker n)"
proof -
  obtain m sw2 e where "dispatch w e (initial_node cfg m sw2) = Some n"
    using start by (auto simp: node_start_def Let_def split: sum.splits)
  with dispatch_safe [OF env, of "initial_node cfg m sw2" e] show ?thesis
    by (simp add: safe_step_def initial_node_wf initial_node_broker)
qed

lemma run_safe:
  assumes "env_ok (w_env w)" and "node_start w cfg probe sw = Inr (Some n0)" and "node_run n0 n"
  shows "node_wf n \<and> broker_reaches (initial_broker cfg) (node_broker n)"
  using start_safe [OF assms(1,2)] node_run_safe [OF assms(3)]
  by (auto simp: safe_step_def intro: broker_reaches_trans)

lemma run_accounted:
  assumes "env_ok (w_env w)" and "node_start w cfg probe sw = Inr (Some n0)" and "node_run n0 n"
  shows "accounted n = requested cfg"
  using run_safe [OF assms] broker_keeps(1) by (auto simp: accounted_broker initial_broker_requested)

text \<open>The tunnel tasks are the open tunnels of the broker.\<close>

lemma count_running: "count (running_tasks (nd_ctx n)) (p, t) = count (br_requests (node_broker n)) (t, OpenedOver p)"
proof -
  have "count (at_open T) (t, OpenedOver p) = count T (p, t)" for T
    by (induction T) (auto simp: at_open_def)
  moreover have "(t, OpenedOver p) \<notin># located s" for s
    by (auto simp: located_def elim!: in_fm_bag)
  ultimately show ?thesis
    by (simp add: node_broker_def broker_view_def not_in_iff)
qed

lemma broker_running:
  "broker_reaches (node_broker n) (node_broker n') \<Longrightarrow> running_tasks (nd_ctx n) \<subseteq># running_tasks (nd_ctx n')"
proof (rule mset_subset_eqI)
  fix task :: tunnel_task
  assume "broker_reaches (node_broker n) (node_broker n')"
  then show "count (running_tasks (nd_ctx n)) task \<le> count (running_tasks (nd_ctx n')) task"
    using broker_keeps(2) by (cases task) (simp add: count_running)
qed

text \<open>C1: Every tunnel asked for on the command line is accounted for at every moment of a run of
  the node: it is either still held by the state machine (pending, or waiting for a direct path),
  or has exactly one tunnel task.  None is lost, doubled or made up, whatever events, errors and
  timeouts occur; and the invariants of all components hold.\<close>

theorem node_accounts_for_every_tunnel:
  assumes "env_ok (w_env w)" and "node_start w cfg probe sw = Inr (Some n0)" and "node_run n0 n"
  shows "targets_held (app_tunnel (nd_app n)) + image_mset snd (running_tasks (nd_ctx n)) = requested cfg \<and>
    node_wf n"
  using run_accounted [OF assms] run_safe [OF assms] by (simp add: accounted_def)

text \<open>A node without bootstrap peers that is asked for one tunnel.\<close>

definition sample_world :: "instant \<Rightarrow> recording_swarm node_world" where
  "sample_world t =
     \<lparr>w_api = sample_api, w_exec = sample_exec t, w_conn_order = sorted_list_of_fset,
      w_boot = {||}, w_has_boot = False, w_mapping = None\<rparr>"

definition sample_config :: node_config where
  "sample_config = \<lparr>cfg_identity = ''identity.key'', cfg_listen = [], cfg_bootstrap = [], cfg_exposed = [],
     cfg_tunnels = [\<lparr>remote_peer = PeerId ''w'', spec_service = ServiceName ''ssh'', spec_bind = sample_bind\<rparr>],
     cfg_by_name = []\<rparr>"

lemma sample_world_ok [simp]: "env_ok (w_env (sample_world t))"
  by (simp add: w_env_def sample_world_def sample_exec_def)

lemma sample_env_eq: "w_env (sample_world t) = sample_env t"
  by (simp add: w_env_def sample_world_def sample_exec_def)

text \<open>Executing commands that open no tunnel cannot fail.\<close>

lemma execute_commands_defined:
  "(\<forall>c\<in>set cs. spawned c = []) \<Longrightarrow> execute_commands api x cs sc \<noteq> None"
proof (induction cs arbitrary: sc)
  case Nil
  then show ?case by simp
next
  case (Cons c cs)
  have "execute_command api x c sc \<noteq> None"
    using Cons.prems by (cases sc; cases c) (auto split: prod.splits sum.splits)
  with Cons show ?case by auto
qed

lemma sample_start: "\<exists>n. node_start (sample_world 0) sample_config MappingUnknown empty_swarm = Inr (Some n)"
proof -
  let ?n = "initial_node sample_config MappingUnknown empty_swarm"
  let ?cmds = "snd (app_transition (w_env (sample_world 0)) (nd_app ?n) NoBootstrapPeers)"
  have "\<forall>c\<in>set ?cmds. spawned c = []"
    by (auto simp: app_transition_run tunnel_events_def initial_node_def new_app_state_def
        new_peer_state_def on_phase_ready_def initiate_lookups_def split_beta)
  then have "execute_commands api x ?cmds sc \<noteq> None" for api x and sc :: "recording_swarm \<times> execution_context"
    by (rule execute_commands_defined)
  then show ?thesis
    by (auto simp: node_start_def dispatch_def sample_config_def Let_def split_beta)
qed

theorem node_accounts_for_every_tunnel_witness:
  "\<exists>n. node_start (sample_world 0) sample_config MappingUnknown empty_swarm = Inr (Some n) \<and>
     accounted n = {#(ServiceName ''ssh'', sample_bind)#}"
proof -
  obtain n where n: "node_start (sample_world 0) sample_config MappingUnknown empty_swarm = Inr (Some n)"
    using sample_start by blast
  have "requested sample_config = {#(ServiceName ''ssh'', sample_bind)#}"
    by (simp add: requested_def sample_config_def)
  with node_accounts_for_every_tunnel [OF sample_world_ok n run_start] n show ?thesis
    by (auto simp: accounted_def)
qed

section \<open>Attempts\<close>

text \<open>Hole-punch failures reach the state machine only for the attempt under way: a failure that
  DCUtR reports becomes a failure of the active attempt of that peer, with its identifier, and is
  dropped when there is none; the later check for stale failures therefore never drops an event
  that came from the swarm.\<close>

lemma dcutr_failures_scoped:
  assumes "attempt_scoped (nd_conn n) e = Some e'" and "\<forall>p i r. e \<noteq> HolePunchAttemptFailed p i r"
  shows "(\<forall>p r. e' \<noteq> HolePunchFailed p r) \<and>
    (\<forall>p r. e = HolePunchFailed p r \<longrightarrow>
       (\<exists>stats. active_attempt_stats (nd_conn n) p = Some stats \<and>
          e' = HolePunchAttemptFailed p (stats_attempt_id stats) r)) \<and>
    \<not> stale_attempt_failure (nd_conn (observe_identify w e' n)) e'"
proof -
  have "nd_conn (observe_identify w e' n) = nd_conn n"
    by (auto simp: observe_identify_def record_observed_port_def refresh_bootstrap_observation_def Let_def
        split: event.split option.split)
  with assms show ?thesis
    by (cases e) (auto simp: stale_attempt_failure_def)
qed

lemma dcutr_failures_scoped_witness:
  "\<not> stale_attempt_failure
     (nd_conn (observe_identify (sample_world 0) (HolePunchAttemptFailed sample_peer 1 ''no'')
        (initial_node sample_config MappingUnknown empty_swarm\<lparr>nd_conn := sample_attempt\<rparr>)))
     (HolePunchAttemptFailed sample_peer 1 ''no'')"
  using dcutr_failures_scoped [of "initial_node sample_config MappingUnknown empty_swarm\<lparr>nd_conn := sample_attempt\<rparr>"
      "HolePunchFailed sample_peer ''no''" "HolePunchAttemptFailed sample_peer 1 ''no''" "sample_world 0"]
    sample_attempt_values(1)
  by (auto simp: active_attempt_stats_def new_attempt_stats_def)

lemma dispatch_conn: "dispatch w e n = Some n' \<Longrightarrow> nd_conn n' = nd_conn n"
  by (auto simp: dispatch_def split_beta)

lemma start_attempt_frame:
  assumes "start_hole_punch_attempt now peer timeout s = (s', r)"
  shows "peer_is_relay_only s' q = peer_is_relay_only s q"
    and "contains_key (hole_punch_attempts s) q \<Longrightarrow> contains_key (hole_punch_attempts s') q"
    and "peer_is_relay_only s peer \<Longrightarrow> contains_key (hole_punch_attempts s') peer"
  using assms
  by (auto simp: start_hole_punch_attempt_def next_hole_punch_attempt_id_def peer_is_relay_only_def
      has_relayed_connection_def has_direct_connection_def Let_def split: if_splits)

lemma arm_targets_attempts:
  "arm_targets w peers n = Some n' \<Longrightarrow>
     (\<forall>q. contains_key (hole_punch_attempts (nd_conn n)) q \<longrightarrow>
        contains_key (hole_punch_attempts (nd_conn n')) q) \<and>
     (\<forall>p\<in>set peers. peer_is_relay_only (nd_conn n) p \<longrightarrow>
        contains_key (hole_punch_attempts (nd_conn n')) p)"
proof (induction w peers n rule: arm_targets.induct)
  case (1 w n)
  then show ?case by simp
next
  case (2 w peer peers n)
  obtain conn' started where s: "start_hole_punch_attempt (w_now w) peer HOLE_PUNCH_TIMEOUT (nd_conn n) =
      (conn', started)" by (metis surj_pair)
  note frame = start_attempt_frame [OF s]
  show ?case
  proof (cases started)
    case None
    have "conn' = nd_conn n" using s None by (auto simp: start_hole_punch_attempt_def Let_def split_beta split: if_splits)
    moreover have "arm_targets w peers n = Some n'" using "2.prems" s None by simp
    ultimately show ?thesis using "2.IH"(1) [OF s [symmetric] None] frame by auto
  next
    case (Some i)
    with "2.prems" s obtain n1 where
      d: "dispatch w (HolePunchAttemptStarted peer i) (n\<lparr>nd_conn := conn'\<rparr>) = Some n1"
      and rest: "arm_targets w peers n1 = Some n'"
      by (auto split: option.splits)
    have "nd_conn n1 = conn'" using dispatch_conn [OF d] by simp
    with "2.IH"(2) [OF s [symmetric] Some d rest] frame show ?thesis by auto
  qed
qed

definition sample_node :: "recording_swarm node_state" where
  "sample_node = initial_node sample_config MappingUnknown empty_swarm\<lparr>nd_conn := sample_relayed\<rparr>"

text \<open>The two places that decide whether a connection is relayed agree, so the connection
  records and the state machine see every connection the same way.\<close>

lemma relayed_copies_agree: "endpoint_is_relayed endpoint = is_relayed endpoint"
  by (cases endpoint) (simp_all add: has_circuit_def)

section \<open>Timers\<close>

text \<open>When attempts time out, the state machine hears exactly of those whose peer is still
  connected only through a relay; a peer upgraded to a direct connection in the meantime is not
  reported.\<close>

lemma timeouts_of_relayed_peers:
  "report_timeouts w due n =
     fold (\<lambda>(peer, i) r. Option.bind r (dispatch w (HolePunchAttemptTimeout peer i)))
       (filter (\<lambda>(peer, _). peer_is_relay_only (nd_conn n) peer) due) (Some n)"
proof -
  have none: "fold (\<lambda>(peer, i) r. Option.bind r (dispatch w (HolePunchAttemptTimeout peer i))) xs None = None"
    for xs by (induction xs) auto
  show ?thesis
  proof (induction w due n rule: report_timeouts.induct)
    case (1 w n)
    then show ?case by simp
  next
    case (2 w peer i due n)
    show ?case
    proof (cases "peer_is_relay_only (nd_conn n) peer")
      case False
      with 2 show ?thesis by simp
    next
      case True
      show ?thesis
      proof (cases "dispatch w (HolePunchAttemptTimeout peer i) n")
        case None
        with True show ?thesis
          by simp (induction due, auto)
      next
        case (Some n1)
        with "2.IH"(1) [OF True Some] dispatch_conn [OF Some] True show ?thesis by simp
      qed
    qed
  qed
qed

section \<open>Reconnecting to the bootstrap peers\<close>

text \<open>C32: A bootstrap peer is never given up: when a dial of it fails while it is not connected, a
  reconnect is pending afterwards; and a reconnect whose dial fails is scheduled again, between one
  and sixty seconds later.\<close>

theorem bootstrap_retried_forever:
  assumes "node_wf n" and "peer |\<in>| w_boot w" and "peer |\<in>| fmdom (addrs (nd_backoff n))"
  shows "(\<not> api_is_connected (w_api w) (nd_swarm n) peer \<longrightarrow>
      contains_key (nd_reconnects (on_outgoing_error w (Some peer) c text n)) peer) \<and>
    (\<forall>sw e. api_dial_addr (w_api w) (the (fmlookup (addrs (nd_backoff n)) peer)) (nd_swarm n) = (sw, Inl e) \<longrightarrow>
       (\<exists>t. fmlookup (nd_reconnects (reconnect_one w peer n)) peer = Some t \<and>
          w_now w + from_secs 1 \<le> t \<and> t \<le> w_now w + from_secs 60))"
proof -
  obtain addr where addr: "fmlookup (addrs (nd_backoff n)) peer = Some addr"
    using assms(3) by (auto simp: fmlookup_dom_iff)
  obtain b r where s: "schedule_reconnect peer (nd_backoff n) = (b, r)" by (metis surj_pair)
  have "backoff_wf (nd_backoff n)" using assms(1) by (simp add: node_wf_def)
  from backoff_step [OF this, of peer] s addr obtain d where
    d: "schedule_reconnect peer (nd_backoff n) = (b, Some (addr, d))"
    "from_secs 1 \<le> d" "d \<le> from_secs 60"
    by (auto split: option.splits)
  then show ?thesis
    using addr assms(2)
    by (auto simp: on_outgoing_error_def schedule_boot_reconnect_def reconnect_one_def Let_def)
qed

definition sample_boot_world :: "recording_swarm node_world" where
  "sample_boot_world = sample_world 0\<lparr>w_boot := {|PeerId ''b''|}, w_has_boot := True\<rparr>"

definition sample_boot_node :: "recording_swarm node_state" where
  "sample_boot_node = initial_node
     (sample_config\<lparr>cfg_bootstrap := [sample_public @ [P2p (PeerId ''b'')]]\<rparr>) MappingUnknown empty_swarm"

theorem bootstrap_retried_forever_witness:
  "contains_key (nd_reconnects
     (on_outgoing_error sample_boot_world (Some (PeerId ''b'')) 3 ''refused'' sample_boot_node)) (PeerId ''b'')"
proof -
  have "node_wf sample_boot_node" by (simp add: sample_boot_node_def initial_node_wf)
  moreover have "PeerId ''b'' |\<in>| w_boot sample_boot_world"
    by (simp add: sample_boot_world_def)
  moreover have "PeerId ''b'' |\<in>| fmdom (addrs (nd_backoff sample_boot_node))"
    by (simp add: sample_boot_node_def initial_node_def new_reconnect_backoff_def sample_public_def
        bootstrap_peers_with_addrs_def extract_peer_id_def List.map_filter_simps)
  moreover have "\<not> api_is_connected (w_api sample_boot_world) (nd_swarm sample_boot_node) (PeerId ''b'')"
    by (simp add: sample_boot_world_def sample_world_def sample_api_def sample_boot_node_def
        initial_node_def empty_swarm_def)
  ultimately show ?thesis
    using bootstrap_retried_forever [of sample_boot_node "PeerId ''b''" sample_boot_world] by blast
qed

section \<open>Start and end\<close>

text \<open>A node started without bootstrap peers is ready at once, with its services published and
  all its targets looked up; one started with bootstrap peers is joining, behind a NAT that is taken
  to be private, and its bootstrap peers are those named in the addresses.\<close>

lemma start_phase:
  assumes "node_start w cfg probe sw = Inr (Some n)"
  shows "app_phase (nd_app n) = (if cfg_bootstrap cfg = [] then Ready else Joining) \<and>
    nat_status (app_peer (nd_app n)) = (if cfg_bootstrap cfg = [] then Unknown else Private) \<and>
    bootstrap_peers (app_peer (nd_app n)) = bootstrap_peer_ids cfg"
  using assms
  by (auto simp: node_start_def dispatch_def app_transition_run initial_node_def new_app_state_def
      new_peer_state_def app_phase_def on_nat_status_changed_def split_beta Let_def
      split: sum.splits if_splits)

lemma start_phase_witness:
  "\<exists>n. node_start (sample_world 0) sample_config MappingUnknown empty_swarm = Inr (Some n) \<and>
     app_phase (nd_app n) = Ready"
proof -
  obtain n where n: "node_start (sample_world 0) sample_config MappingUnknown empty_swarm = Inr (Some n)"
    using sample_start by blast
  from start_phase [OF n] have "app_phase (nd_app n) = Ready" by (simp add: sample_config_def)
  with n show ?thesis by blast
qed

text \<open>The shutdown signal ends the loop: the node is then shutting down, so no further turn is
  taken, and stopping it aborts every tunnel task.\<close>

lemma shutdown_signal_stops:
  assumes "node_turn w InShutdownSignal n = Some n'" and "iterates ord"
  shows "app_phase (nd_app n') = ShuttingDown \<and> (\<forall>m. node_run n' m \<longrightarrow> m = n') \<and>
    running_tasks (nd_ctx (fst (node_stop ord ends_in n'))) = {#} \<and>
    length (snd (node_stop ord ends_in n')) = active_count (tasks (nd_ctx n'))"
proof -
  have phase: "app_phase (nd_app n') = ShuttingDown"
    using assms(1)
    by (auto simp: on_shutdown_signal_def dispatch_def app_transition_run app_phase_def split_beta Let_def)
  have stuck: "m = n'" if "node_run n' m" for m
    using that phase by (induction n' m rule: node_run.induct) auto
  have sh: "fmdom (tunnels (fst (shutdown_all ord ends_in (from_secs 5) r))) = {||}"
    and len: "length (snd (shutdown_all ord ends_in (from_secs 5) r)) = active_count r"
    for r :: "tunnel_task tunnel_registry"
    using shutdown_all_count [OF assms(2), of ends_in "from_secs 5" r]
    by (simp_all add: split_beta Let_def active_count_def)
  then show ?thesis
    using phase stuck by (auto simp: node_stop_def running_tasks_def split_beta Let_def)
qed

lemma sample_shutdown: "\<exists>n'. node_turn (sample_world 5) InShutdownSignal sample_node = Some n'"
proof -
  let ?cmds = "snd (app_transition (w_env (sample_world 5)) (nd_app sample_node) ShutdownRequested)"
  have "\<forall>c\<in>set ?cmds. spawned c = []"
    by (auto simp: app_transition_run tunnel_events_def split_beta Let_def)
  then have "execute_commands api x ?cmds sc \<noteq> None" for api x and sc :: "recording_swarm \<times> execution_context"
    by (rule execute_commands_defined)
  then show ?thesis by (auto simp: on_shutdown_signal_def dispatch_def split_beta Let_def)
qed

lemma shutdown_signal_stops_witness:
  "\<exists>n'. node_turn (sample_world 5) InShutdownSignal sample_node = Some n' \<and>
     app_phase (nd_app n') = ShuttingDown"
  using sample_shutdown shutdown_signal_stops [OF _ iterates_sorted, of "sample_world 5" sample_node]
  by blast

section \<open>Summaries and port mappings\<close>

text \<open>Without a verdict of the STUN probe, the summary says that the NAT is likely symmetric
  exactly when two different ports were observed for one address of the node.\<close>

lemma summary_symmetric_iff:
  "nat_type_summary MappingUnknown observations = ''symmetric NAT likely (multiple ports per IP)'' \<longleftrightarrow>
    (\<exists>ip ports a b. fmlookup observations ip = Some ports \<and> a |\<in>| ports \<and> b |\<in>| ports \<and> a \<noteq> b)"
proof -
  let ?S = "insert 0 ((\<lambda>ports. fcard ports) ` fset (fmran observations))"
  have two: "2 \<le> fcard ports \<longleftrightarrow> (\<exists>a b. a |\<in>| ports \<and> b |\<in>| ports \<and> a \<noteq> b)" for ports :: "16 word fset"
  proof -
    have "card (fset ports) \<le> Suc 0 \<longleftrightarrow> (\<forall>a\<in>fset ports. \<forall>b\<in>fset ports. a = b)"
      by (rule card_le_Suc0_iff_eq) simp
    then show ?thesis by (auto simp: fcard.rep_eq not_less_eq_eq numeral_2_eq_2)
  qed
  have "2 \<le> max_ports_per_ip observations \<longleftrightarrow> (\<exists>ports |\<in>| fmran observations. 2 \<le> fcard ports)"
    unfolding max_ports_per_ip_def by (subst Max_ge_iff) auto
  moreover have "nat_type_summary MappingUnknown observations =
      ''symmetric NAT likely (multiple ports per IP)'' \<longleftrightarrow> 2 \<le> max_ports_per_ip observations"
    by (auto simp: nat_type_summary_def Let_def)
  moreover have "(\<exists>ports |\<in>| fmran observations. 2 \<le> fcard ports) \<longleftrightarrow>
      (\<exists>ip ports. fmlookup observations ip = Some ports \<and> 2 \<le> fcard ports)"
    by (metis fmlookup_ran_iff)
  ultimately show ?thesis by (simp add: two)
qed

end
