(* ===== verification/Runtime.thy ===== *)
theory Runtime
  imports Node_Props
begin

text \<open>
  What surrounds the event loop: the protocols and periods of \<open>src/src/protocol.rs\<close>, the settings
  \<open>src/src/behaviour.rs\<close> gives to the libp2p behaviours, and the race of the signals in
  \<open>src/src/shutdown.rs\<close>.
\<close>

section \<open>Protocols\<close>

definition KAD_PROTOCOL :: string where
  "KAD_PROTOCOL = ''/punchgate/kad/1.0.0''"

definition TUNNEL_PROTOCOL :: string where
  "TUNNEL_PROTOCOL = ''/punchgate/tunnel/1.0.0''"

definition IDENTIFY_PROTOCOL :: string where
  "IDENTIFY_PROTOCOL = ''/punchgate/id/1.0.0''"

definition IDLE_CONNECTION_TIMEOUT :: duration where
  "IDLE_CONNECTION_TIMEOUT = from_secs 3600"

definition MAX_CIRCUIT_DURATION :: duration where
  "MAX_CIRCUIT_DURATION = from_secs 3600"

definition DHT_RECORD_REFRESH_INTERVAL :: duration where
  "DHT_RECORD_REFRESH_INTERVAL = from_secs (5 * 60)"

definition DHT_PROVIDER_TTL :: duration where
  "DHT_PROVIDER_TTL = from_secs (15 * 60)"

definition DHT_PROVIDER_REFRESH_INTERVAL :: duration where
  "DHT_PROVIDER_REFRESH_INTERVAL = from_secs (5 * 60)"

text \<open>Which names \<open>StreamProtocol\<close> accepts is libp2p's; a refused one is a panic.\<close>

definition kad_protocol :: "(string \<Rightarrow> bool) \<Rightarrow> string option" where
  "kad_protocol accepted = (if accepted KAD_PROTOCOL then Some KAD_PROTOCOL else None)"

definition tunnel_protocol :: "(string \<Rightarrow> bool) \<Rightarrow> string option" where
  "tunnel_protocol accepted = (if accepted TUNNEL_PROTOCOL then Some TUNNEL_PROTOCOL else None)"

text \<open>libp2p documents that a protocol begins with a slash.\<close>

definition accepts_slash :: "(string \<Rightarrow> bool) \<Rightarrow> bool" where
  "accepts_slash accepted \<longleftrightarrow> (\<forall>s. accepted (CHR ''/'' # s))"

section \<open>The behaviours\<close>

text \<open>The optional features the program may be compiled with.\<close>

record features =
  feature_mdns :: bool
  feature_autonat :: bool

record behaviour_settings =
  kad_name :: string
  kad_store_owner :: peer_id
  kad_record_ttl :: "duration option"
  kad_publication_interval :: "duration option"
  kad_provider_record_ttl :: "duration option"
  kad_provider_publication_interval :: "duration option"
  relay_owner :: peer_id
  relay_max_circuit_duration :: duration
  identify_name :: string
  with_mdns :: bool
  with_autonat :: bool

text \<open>The argument \<open>mdns\<close> is the answer of \<open>mdns::tokio::Behaviour::new\<close>, which is asked only when
  the feature is compiled in.\<close>

definition new_behaviour ::
  "(string \<Rightarrow> bool) \<Rightarrow> features \<Rightarrow> (string + unit) \<Rightarrow> peer_id \<Rightarrow> (string + behaviour_settings) option" where
  "new_behaviour accepted fs mdns peer =
     (case kad_protocol accepted of
        None \<Rightarrow> None
      | Some name \<Rightarrow>
          Some (case (if feature_mdns fs then mdns else Inr ()) of
             Inl e \<Rightarrow> Inl e
           | Inr _ \<Rightarrow> Inr
               \<lparr>kad_name = name, kad_store_owner = peer,
                kad_record_ttl = Some DHT_RECORD_TTL,
                kad_publication_interval = Some DHT_RECORD_REFRESH_INTERVAL,
                kad_provider_record_ttl = Some DHT_PROVIDER_TTL,
                kad_provider_publication_interval = Some DHT_PROVIDER_REFRESH_INTERVAL,
                relay_owner = peer, relay_max_circuit_duration = MAX_CIRCUIT_DURATION,
                identify_name = IDENTIFY_PROTOCOL,
                with_mdns = feature_mdns fs, with_autonat = feature_autonat fs\<rparr>))"

text \<open>The behaviours are built without a panic, and fail only when mDNS does; records and provider
  records are published again, twice even, before they expire; a circuit that is still within its
  limit is not closed for being idle first; and the three protocols are told apart.\<close>

lemma behaviours_configured:
  assumes "accepts_slash accepted"
  shows "tunnel_protocol accepted = Some TUNNEL_PROTOCOL \<and>
    (\<exists>r. new_behaviour accepted fs mdns peer = Some r \<and>
      (case r of
         Inl e \<Rightarrow> feature_mdns fs \<and> mdns = Inl e
       | Inr b \<Rightarrow>
           (\<exists>ttl every. kad_record_ttl b = Some ttl \<and> kad_publication_interval b = Some every \<and>
              0 < every \<and> 2 * every < ttl) \<and>
           (\<exists>ttl every. kad_provider_record_ttl b = Some ttl \<and>
              kad_provider_publication_interval b = Some every \<and> 0 < every \<and> 2 * every < ttl) \<and>
           relay_max_circuit_duration b \<le> IDLE_CONNECTION_TIMEOUT \<and>
           distinct [kad_name b, identify_name b, TUNNEL_PROTOCOL] \<and>
           kad_store_owner b = peer \<and> relay_owner b = peer))"
proof -
  have "accepted KAD_PROTOCOL" "accepted TUNNEL_PROTOCOL"
    using assms by (simp_all add: accepts_slash_def KAD_PROTOCOL_def TUNNEL_PROTOCOL_def)
  then show ?thesis
    by (auto simp: new_behaviour_def kad_protocol_def tunnel_protocol_def KAD_PROTOCOL_def
        TUNNEL_PROTOCOL_def IDENTIFY_PROTOCOL_def IDLE_CONNECTION_TIMEOUT_def MAX_CIRCUIT_DURATION_def
        DHT_RECORD_TTL_def DHT_RECORD_REFRESH_INTERVAL_def DHT_PROVIDER_TTL_def
        DHT_PROVIDER_REFRESH_INTERVAL_def from_secs_def split: sum.splits if_splits)
qed

section \<open>The shutdown signal\<close>

datatype shutdown_signal_error = CtrlCHandler string | SigtermHandler string

text \<open>What completes, in this order: the wait for Ctrl+C, and on Unix the installation of the handler of
  SIGTERM followed by the first such signal (or its end).\<close>

datatype signal_completion =
    CtrlCCompletes "string + unit"
  | TerminateCompletes "string + unit"

fun shutdown_signal ::
  "bool \<Rightarrow> signal_completion list \<Rightarrow> (shutdown_signal_error + unit) option" where
  "shutdown_signal unix [] = None"
| "shutdown_signal unix (CtrlCCompletes r # _) = Some (map_sum CtrlCHandler id r)"
| "shutdown_signal unix (TerminateCompletes r # later) =
     (if unix then Some (map_sum SigtermHandler id r) else shutdown_signal unix later)"

text \<open>The wait ends with the first completion, an error included; where there is no SIGTERM it ends with
  Ctrl+C alone.\<close>

lemma shutdown_signal_first:
  "shutdown_signal True cs = (case cs of
      [] \<Rightarrow> None
    | CtrlCCompletes r # _ \<Rightarrow> Some (map_sum CtrlCHandler id r)
    | TerminateCompletes r # _ \<Rightarrow> Some (map_sum SigtermHandler id r))"
  "shutdown_signal False cs =
     (case List.map_filter (\<lambda>c. case c of CtrlCCompletes r \<Rightarrow> Some r | _ \<Rightarrow> None) cs of
        [] \<Rightarrow> None
      | r # _ \<Rightarrow> Some (map_sum CtrlCHandler id r))"
proof -
  show "shutdown_signal True cs = (case cs of
      [] \<Rightarrow> None
    | CtrlCCompletes r # _ \<Rightarrow> Some (map_sum CtrlCHandler id r)
    | TerminateCompletes r # _ \<Rightarrow> Some (map_sum SigtermHandler id r))"
    by (simp split: list.split signal_completion.split)
  show "shutdown_signal False cs =
     (case List.map_filter (\<lambda>c. case c of CtrlCCompletes r \<Rightarrow> Some r | _ \<Rightarrow> None) cs of
        [] \<Rightarrow> None
      | r # _ \<Rightarrow> Some (map_sum CtrlCHandler id r))"
    by (induction False cs rule: shutdown_signal.induct) (simp_all add: map_filter_simps)
qed

end
