(* ===== verification/Nat_Probe.thy ===== *)
theory Nat_Probe
  imports Specs Events
begin

text \<open>
  The STUN probe, \<open>src/src/nat_probe.rs\<close>.  The network (name resolution, the UDP socket) and the STUN
  codec are a parameter: a record of the calls the code makes, over a network state of any type.
\<close>

section \<open>The network\<close>

type_synonym datagram = "8 word list"

text \<open>\<open>stun_recv\<close> waits for at most the given time; \<open>None\<close> is the timeout.\<close>

record 'net stun_api =
  stun_build :: "'net \<Rightarrow> 'net \<times> (string + datagram)"
  stun_bind :: "'net \<Rightarrow> 'net \<times> (string + unit)"
  stun_lookup :: "string \<Rightarrow> 'net \<Rightarrow> 'net \<times> (string + socket_addr list)"
  stun_send :: "datagram \<Rightarrow> socket_addr \<Rightarrow> 'net \<Rightarrow> 'net \<times> (string + unit)"
  stun_recv :: "duration \<Rightarrow> 'net \<Rightarrow> 'net \<times> (string + datagram \<times> socket_addr) option"
  stun_decode :: "datagram \<Rightarrow> string + unit"
  stun_xor_addr :: "datagram \<Rightarrow> string + (ip_addr \<times> 16 word)"

datatype stun_error =
    BuildError string
  | DnsError string
  | NoAddressResolved
  | SendError string
  | RequestTimedOut
  | RecvError string
  | UnexpectedSource socket_addr socket_addr
  | DecodeError string
  | XorAddrError string

definition STUN_TIMEOUT :: duration where
  "STUN_TIMEOUT = from_secs 3"

definition DEFAULT_STUN_SERVERS :: "string list" where
  "DEFAULT_STUN_SERVERS = [''stun.l.google.com:19302'', ''stun.cloudflare.com:3478'']"

text \<open>The receive buffer has 1024 bytes; the rest of a longer datagram is lost.\<close>

definition STUN_BUFFER :: nat where
  "STUN_BUFFER = 1024"

fun socket_port :: "socket_addr \<Rightarrow> 16 word" where
  "socket_port (SocketV4 _ n) = n"
| "socket_port (SocketV6 _ n) = n"

fun new_socket_addr :: "ip_addr \<times> 16 word \<Rightarrow> socket_addr" where
  "new_socket_addr (IpV4 ip, n) = SocketV4 ip n"
| "new_socket_addr (IpV6 ip, n) = SocketV6 ip n"

section \<open>Requests\<close>

text \<open>What is done with a datagram that was received.\<close>

definition read_response ::
  "'net stun_api \<Rightarrow> socket_addr \<Rightarrow> datagram \<times> socket_addr \<Rightarrow> stun_error + socket_addr" where
  "read_response api dest packet =
     (case packet of (data, src) \<Rightarrow>
       if src \<noteq> dest then Inl (UnexpectedSource src dest)
       else
         (let buf = take STUN_BUFFER data in
          case stun_decode api buf of
            Inl e \<Rightarrow> Inl (DecodeError e)
          | Inr _ \<Rightarrow>
              (case stun_xor_addr api buf of
                 Inl e \<Rightarrow> Inl (XorAddrError e)
               | Inr a \<Rightarrow> Inr (new_socket_addr a))))"

definition stun_binding_request ::
  "'net stun_api \<Rightarrow> string \<Rightarrow> 'net \<Rightarrow> 'net \<times> (stun_error + socket_addr)" where
  "stun_binding_request api server net0 =
     (case stun_build api net0 of
        (net1, Inl e) \<Rightarrow> (net1, Inl (BuildError e))
      | (net1, Inr raw) \<Rightarrow>
     (case stun_lookup api server net1 of
        (net2, Inl e) \<Rightarrow> (net2, Inl (DnsError e))
      | (net2, Inr []) \<Rightarrow> (net2, Inl NoAddressResolved)
      | (net2, Inr (dest # _)) \<Rightarrow>
     (case stun_send api raw dest net2 of
        (net3, Inl e) \<Rightarrow> (net3, Inl (SendError e))
      | (net3, Inr _) \<Rightarrow>
     (case stun_recv api STUN_TIMEOUT net3 of
        (net4, None) \<Rightarrow> (net4, Inl RequestTimedOut)
      | (net4, Some (Inl e)) \<Rightarrow> (net4, Inl (RecvError e))
      | (net4, Some (Inr packet)) \<Rightarrow> (net4, read_response api dest packet)))))"

text \<open>The loop over the servers: a failed request is only logged.\<close>

fun probe_all ::
  "'net stun_api \<Rightarrow> string list \<Rightarrow> 'net \<Rightarrow> 'net \<times> socket_addr list" where
  "probe_all api [] net = (net, [])"
| "probe_all api (server # servers) net =
     (let (net1, r) = stun_binding_request api server net;
          (net2, results) = probe_all api servers net1
      in (net2, (case r of Inr addr \<Rightarrow> [addr] | Inl _ \<Rightarrow> []) @ results))"

definition probe_stun_servers ::
  "'net stun_api \<Rightarrow> string list \<Rightarrow> 'net \<Rightarrow> 'net \<times> (string + socket_addr list)" where
  "probe_stun_servers api servers net =
     (case stun_bind api net of
        (net1, Inl e) \<Rightarrow> (net1, Inl e)
      | (net1, Inr _) \<Rightarrow> map_prod id Inr (probe_all api servers net1))"

section \<open>The verdict\<close>

definition classify_mapping :: "socket_addr list \<Rightarrow> nat_mapping" where
  "classify_mapping addrs =
     (let all_same_port =
            (case addrs of
               [] \<Rightarrow> True
             | first # _ \<Rightarrow> list_all (\<lambda>addr. socket_port addr = socket_port first) addrs)
      in if all_same_port then EndpointIndependent else AddressDependent)"

definition detect_nat_mapping ::
  "'net stun_api \<Rightarrow> string list \<Rightarrow> 'net \<Rightarrow> 'net \<times> nat_mapping" where
  "detect_nat_mapping api stun_servers net =
     (case probe_stun_servers api stun_servers net of
        (net', Inr addrs) \<Rightarrow>
          (net', if 2 \<le> length addrs then classify_mapping addrs else MappingUnknown)
      | (net', Inl _) \<Rightarrow> (net', MappingUnknown))"

text \<open>No two of the addresses differ in their ports.\<close>

definition ports_agree :: "socket_addr list \<Rightarrow> bool" where
  "ports_agree addrs \<longleftrightarrow> (\<forall>a\<in>set addrs. \<forall>b\<in>set addrs. socket_port a = socket_port b)"

lemma ports_agree_ex: "(\<exists>a\<in>set addrs. \<exists>b\<in>set addrs. socket_port a \<noteq> socket_port b) \<longleftrightarrow> \<not> ports_agree addrs"
  unfolding ports_agree_def by blast

lemma ports_agree_common: "ports_agree addrs \<longleftrightarrow> (\<exists>n. \<forall>a\<in>set addrs. socket_port a = n)"
  unfolding ports_agree_def by metis

lemma ports_agree_short: "length addrs < 2 \<Longrightarrow> ports_agree addrs"
  by (cases addrs; cases "tl addrs") (auto simp: ports_agree_def)

lemma classify_cases:
  "classify_mapping addrs = (if ports_agree addrs then EndpointIndependent else AddressDependent)"
proof (cases addrs)
  case Nil
  then show ?thesis by (simp add: classify_mapping_def ports_agree_def)
next
  case (Cons x xs)
  then have "ports_agree addrs \<longleftrightarrow> list_all (\<lambda>a. socket_port a = socket_port x) addrs"
    unfolding ports_agree_def list_all_iff by (metis list.set_intros(1))
  with Cons show ?thesis by (simp add: classify_mapping_def)
qed

lemma probe_all_length: "length (snd (probe_all api servers net)) \<le> length servers"
proof (induction servers arbitrary: net)
  case (Cons server servers)
  obtain net1 r where "stun_binding_request api server net = (net1, r)" by force
  with Cons.IH [of net1] show ?case by (auto simp: split_beta Let_def split: sum.split)
qed simp

text \<open>C35: The verdict of the probe: the mapping is address-dependent exactly when two servers saw
  different ports, endpoint-independent exactly when at least two servers answered and all saw the
  same port, and unknown otherwise; in particular, fewer than two servers never give a verdict.
  Hole punching is ruled out only on evidence of two different ports.\<close>

theorem nat_verdict:
  "let (net', verdict) = detect_nat_mapping api servers net;
       (net'', result) = probe_stun_servers api servers net;
       answers = (case result of Inl _ \<Rightarrow> [] | Inr addrs \<Rightarrow> addrs)
   in net' = net'' \<and> length answers \<le> length servers \<and>
     (verdict = AddressDependent \<longleftrightarrow>
        (\<exists>a\<in>set answers. \<exists>b\<in>set answers. socket_port a \<noteq> socket_port b)) \<and>
     (verdict = EndpointIndependent \<longleftrightarrow>
        2 \<le> length answers \<and> (\<exists>n. \<forall>a\<in>set answers. socket_port a = n)) \<and>
     (is_holepunch_viable verdict \<longleftrightarrow> verdict \<noteq> AddressDependent) \<and>
     (length servers < 2 \<longrightarrow> verdict = MappingUnknown)"
proof -
  have viable: "is_holepunch_viable m \<longleftrightarrow> m \<noteq> AddressDependent" for m by (cases m) simp_all
  obtain net1 b where bind: "stun_bind api net = (net1, b)" by force
  show ?thesis
  proof (cases b)
    case (Inl e)
    with bind viable show ?thesis by (simp add: detect_nat_mapping_def probe_stun_servers_def)
  next
    case (Inr u)
    obtain net2 answers where all: "probe_all api servers net1 = (net2, answers)" by force
    have len: "length answers \<le> length servers" using probe_all_length [of api servers net1] all by simp
    have verdict: "detect_nat_mapping api servers net = (net2,
        if 2 \<le> length answers
        then if ports_agree answers then EndpointIndependent else AddressDependent
        else MappingUnknown)"
      using bind Inr all by (simp add: detect_nat_mapping_def probe_stun_servers_def classify_cases)
    have "probe_stun_servers api servers net = (net2, Inr answers)"
      using bind Inr all by (simp add: probe_stun_servers_def)
    with verdict len ports_agree_short [of answers] show ?thesis
      by (simp add: viable ports_agree_ex not_le flip: ports_agree_common)
  qed
qed

section \<open>A simple network\<close>

text \<open>
  A network for examples: every name resolves to one address, and the datagrams that will arrive
  are given in their order, each with its source; an empty queue is a timeout.  A datagram is the
  port it reports.
\<close>

record sample_net =
  arriving :: "(datagram \<times> socket_addr) list"

definition sample_stun :: "(string \<Rightarrow> socket_addr) \<Rightarrow> sample_net stun_api" where
  "sample_stun resolve =
     \<lparr>stun_build = (\<lambda>net. (net, Inr [])),
      stun_bind = (\<lambda>net. (net, Inr ())),
      stun_lookup = (\<lambda>server net. (net, Inr [resolve server])),
      stun_send = (\<lambda>_ _ net. (net, Inr ())),
      stun_recv = (\<lambda>_ net. case arriving net of
          [] \<Rightarrow> (net, None) | p # ps \<Rightarrow> (net\<lparr>arriving := ps\<rparr>, Some (Inr p))),
      stun_decode = (\<lambda>_. Inr ()),
      stun_xor_addr = (\<lambda>data. case data of
          [] \<Rightarrow> Inl ''no attribute'' | x # _ \<Rightarrow> Inr (IpV4 (Ipv4 198 51 100 7), ucast x))\<rparr>"

lemma sample_request:
  "stun_binding_request (sample_stun resolve) server net =
     (case arriving net of
        [] \<Rightarrow> (net, Inl RequestTimedOut)
      | p # ps \<Rightarrow> (net\<lparr>arriving := ps\<rparr>, read_response (sample_stun resolve) (resolve server) p))"
  by (simp add: stun_binding_request_def sample_stun_def split: list.split)

theorem nat_verdict_witness:
  "snd (detect_nat_mapping (sample_stun (\<lambda>_. SocketV4 (Ipv4 203 0 113 1) 5)) [''one'']
      \<lparr>arriving = [([7], SocketV4 (Ipv4 203 0 113 1) 5)]\<rparr>) = MappingUnknown"
  using nat_verdict [of "sample_stun (\<lambda>_. SocketV4 (Ipv4 203 0 113 1) 5)" "[''one'']"
      "\<lparr>arriving = [([7], SocketV4 (Ipv4 203 0 113 1) 5)]\<rparr>"]
  by (simp add: split_beta Let_def)

text \<open>A late answer spoils the next request: the socket is shared by all requests and a datagram
  from another source than the server asked fails the request instead of being skipped.  When the
  first server answers too late, both requests fail and the mapping stays unknown, although both
  servers answered.\<close>

lemma late_answer_spoils_next:
  assumes "resolve one \<noteq> resolve two"
  shows "snd (stun_binding_request (sample_stun resolve) one \<lparr>arriving = []\<rparr>) = Inl RequestTimedOut \<and>
    stun_binding_request (sample_stun resolve) two
        \<lparr>arriving = (d1, resolve one) # (d2, resolve two) # rest\<rparr> =
      (\<lparr>arriving = (d2, resolve two) # rest\<rparr>, Inl (UnexpectedSource (resolve one) (resolve two)))"
  using assms by (simp add: sample_request read_response_def)

lemma late_answer_spoils_next_witness:
  "snd (stun_binding_request
      (sample_stun (\<lambda>s. SocketV4 (Ipv4 203 0 113 1) (of_nat (length s)))) ''second''
      \<lparr>arriving = [([7], SocketV4 (Ipv4 203 0 113 1) 5), ([7], SocketV4 (Ipv4 203 0 113 1) 6)]\<rparr>) =
   Inl (UnexpectedSource (SocketV4 (Ipv4 203 0 113 1) 5) (SocketV4 (Ipv4 203 0 113 1) 6))"
  using late_answer_spoils_next [of "\<lambda>s. SocketV4 (Ipv4 203 0 113 1) (of_nat (length s))"
      "''first''" "''second''" "[7]" "[7]" "[]"]
  by simp

end
