(* ===== verification/Spec_Props.thy ===== *)
theory Spec_Props
  imports Specs
begin

text \<open>
  The round trips of the text formats: a printed address or specification is parsed back, and a
  parsed one is printed to a text with the same meaning.
\<close>

section \<open>Lists with a separator\<close>

text \<open>\<open>[..].join(c)\<close>, and the splitting of a delimited value.\<close>

fun join :: "char \<Rightarrow> string list \<Rightarrow> string" where
  "join c [] = []"
| "join c [x] = x"
| "join c (x # y # xs) = x @ c # join c (y # xs)"

fun split_on :: "char \<Rightarrow> string \<Rightarrow> string list" where
  "split_on c [] = [[]]"
| "split_on c (x # xs) =
     (if x = c then [] # split_on c xs
      else case split_on c xs of [] \<Rightarrow> [[x]] | y # ys \<Rightarrow> (x # y) # ys)"

lemma split_on_nonempty [simp]: "split_on c s \<noteq> []"
  by (induction c s rule: split_on.induct) (auto split: list.split)

lemma split_on_plain: "c \<notin> set s \<Longrightarrow> split_on c s = [s]"
  by (induction s) auto

lemma split_on_append: "c \<notin> set a \<Longrightarrow> split_on c (a @ c # b) = a # split_on c b"
  by (induction a) auto

lemma split_on_join:
  "xs \<noteq> [] \<Longrightarrow> (\<forall>x\<in>set xs. c \<notin> set x) \<Longrightarrow> split_on c (join c xs) = xs"
proof (induction c xs rule: join.induct)
  case (3 c x y xs)
  then show ?case by (simp add: split_on_append)
qed (simp_all add: split_on_plain)

section \<open>A concrete IPv6 codec\<close>

text \<open>Eight decimal groups with colons: a codec with the properties the code relies on.\<close>

fun v6_groups :: "ipv6 \<Rightarrow> 16 word list" where
  "v6_groups (Ipv6 a b c d e f g h) = [a, b, c, d, e, f, g, h]"

definition group_of :: "string \<Rightarrow> 16 word option" where
  "group_of s = (case dec_value 0 s of None \<Rightarrow> None | Some n \<Rightarrow> Some (word_of_nat n))"

definition sample_v6 :: v6_text where
  "sample_v6 =
     \<lparr>v6_parse = (\<lambda>s. case map group_of (split_on CHR '':'' s) of
          [Some a, Some b, Some c, Some d, Some e, Some f, Some g, Some h] \<Rightarrow> Some (Ipv6 a b c d e f g h)
        | _ \<Rightarrow> None),
      v6_show = (\<lambda>ip. join CHR '':'' (map (\<lambda>w. dec (unat w)) (v6_groups ip)))\<rparr>"

lemma group_of_dec [simp]: "group_of (dec (unat w)) = Some w"
  by (simp add: group_of_def)

lemma sample_v6_ok: "v6_text_ok sample_v6"
proof -
  have "v6_parse sample_v6 (v6_show sample_v6 ip) = Some ip" for ip
    by (cases ip) (simp add: sample_v6_def split_on_append split_on_plain)
  moreover have "CHR '':'' \<in> set (v6_show sample_v6 ip)" for ip
    by (cases ip) (simp add: sample_v6_def)
  moreover have "set (v6_show sample_v6 ip) \<inter> {CHR '']'', CHR ''@'', CHR '',''} = {}" for ip
    by (cases ip) (simp add: sample_v6_def)
  ultimately show ?thesis by (simp add: v6_text_ok_def)
qed

section \<open>Service addresses\<close>

text \<open>Hosts that are printed to a text that reads as the same host: a domain is neither empty nor
  the text of an address, and does not begin with a bracket.\<close>

definition host_ok :: "v6_text \<Rightarrow> host_addr \<Rightarrow> bool" where
  "host_ok t h \<longleftrightarrow>
     (case h of
        Domain d \<Rightarrow> d \<noteq> [] \<and> hd d \<noteq> CHR ''['' \<and> parse_ipv4 d = None \<and> v6_parse t d = None
      | _ \<Rightarrow> True)"

lemma host_roundtrip:
  assumes "v6_text_ok t" and "host_ok t h"
  shows "show_host t h \<noteq> [] \<and> host_addr_from_str t (show_host t h) = Inr h"
proof (cases h)
  case (V4 ip)
  then show ?thesis by (simp add: host_addr_from_str_def)
next
  case (V6 ip)
  have "CHR '':'' \<in> set (v6_show t ip)" "v6_parse t (v6_show t ip) = Some ip"
    using assms(1) by (simp_all add: v6_text_ok_def)
  with V6 show ?thesis
    by (auto simp: host_addr_from_str_def parse_ipv4_no_colon)
next
  case (Domain d)
  with assms(2) show ?thesis by (simp add: host_addr_from_str_def host_ok_def)
qed

lemma strip_bracket_None: "s \<noteq> [] \<Longrightarrow> hd s \<noteq> CHR ''['' \<Longrightarrow> strip_prefix ''['' (s @ r) = None"
  by (cases s) auto

lemma plain_addr:
  assumes "h \<noteq> []" and "hd h \<noteq> CHR ''[''" and "host_addr_from_str t h = Inr a"
  shows "service_addr_from_str t (h @ '':'' @ dec (unat p)) = Inr \<lparr>host = a, port = p\<rparr>"
proof -
  have "strip_prefix ''['' (h @ '':'' @ dec (unat p)) = None"
    using assms(1,2) by (rule strip_bracket_None)
  with assms show ?thesis by (simp add: service_addr_from_str_def)
qed

lemma ipv4_head: "hd (show_ipv4 ip) \<noteq> CHR ''[''"
  using show_ipv4_not_in(2) [of ip] show_ipv4_nonempty [of ip] by (metis hd_in_set)

lemma service_addr_roundtrip:
  assumes t: "v6_text_ok t" and ok: "host_ok t (host a)"
  shows "service_addr_from_str t (show_service_addr t a) = Inr a"
proof -
  note hr = host_roundtrip [OF t ok]
  have a: "a = \<lparr>host = host a, port = port a\<rparr>" by simp
  show ?thesis
  proof (cases "host a")
    case (V4 ip)
    with hr ipv4_head [of ip] plain_addr [of "show_ipv4 ip" t "V4 ip" "port a"]
    show ?thesis by (subst a) (simp add: show_service_addr_def)
  next
    case (V6 ip)
    have "CHR '']'' \<notin> set (v6_show t ip)" using t by (simp add: v6_text_ok_def)
    then have "split_once_str '']:'' (v6_show t ip @ '']:'' @ dec (unat (port a))) =
        Some (v6_show t ip, dec (unat (port a)))"
      by (rule split_once_str_append)
    with hr V6 show ?thesis
      by (subst a) (simp add: show_service_addr_def service_addr_from_str_def)
  next
    case (Domain d)
    with ok hr plain_addr [of d t "Domain d" "port a"]
    show ?thesis by (subst a) (simp add: show_service_addr_def host_ok_def)
  qed
qed

lemma parsed_host_ok:
  "host_addr_from_str t s = Inr h \<Longrightarrow> hd s \<noteq> CHR ''['' \<Longrightarrow> host_ok t h"
  by (auto simp: host_addr_from_str_def host_ok_def split: if_splits option.splits)

text \<open>Whatever service address is parsed prints to a text that is parsed to the same address,
  except for a bracketed domain that itself begins with a bracket: IPv4 and IPv6 hosts, with or
  without brackets, signs and leading zeros in the port, and domain names all come back.\<close>

lemma parsed_addr_reparses:
  assumes t: "v6_text_ok t" and parsed: "service_addr_from_str t s = Inr a"
    and plain: "\<forall>d. host a = Domain d \<longrightarrow> hd d \<noteq> CHR ''[''"
  shows "service_addr_from_str t (show_service_addr t a) = Inr a"
proof (rule service_addr_roundtrip [OF t])
  obtain h where h: "host_addr_from_str t h = Inr (host a)"
    using parsed by (auto simp: service_addr_from_str_def split: option.splits if_splits sum.splits prod.splits)
  then show "host_ok t (host a)"
    using plain
    by (cases "host a") (auto simp: host_ok_def host_addr_from_str_def split: if_splits option.splits)
qed

lemma parsed_addr_reparses_witness:
  "service_addr_from_str sample_v6 ''[1:2:3:4:5:6:7:8]:+0080'' =
     Inr \<lparr>host = V6 (Ipv6 1 2 3 4 5 6 7 8), port = 80\<rparr> \<and>
   service_addr_from_str sample_v6
     (show_service_addr sample_v6 \<lparr>host = V6 (Ipv6 1 2 3 4 5 6 7 8), port = 80\<rparr>) =
     Inr \<lparr>host = V6 (Ipv6 1 2 3 4 5 6 7 8), port = 80\<rparr>"
proof -
  have p: "service_addr_from_str sample_v6 ''[1:2:3:4:5:6:7:8]:+0080'' =
      Inr \<lparr>host = V6 (Ipv6 1 2 3 4 5 6 7 8), port = 80\<rparr>"
    by (simp add: service_addr_from_str_def host_addr_from_str_def parse_ipv4_no_colon sample_v6_def
        group_of_def digit_of_def parse_u16_def)
  with parsed_addr_reparses [OF sample_v6_ok p] show ?thesis by simp
qed

section \<open>Specifications\<close>

text \<open>The printed form of the specifications, as \<open>main.rs\<close> writes them.\<close>

definition show_exposed :: "v6_text \<Rightarrow> exposed_service \<Rightarrow> string" where
  "show_exposed t s = service_name_str (svc_name s) @ ''='' @ show_service_addr t (local_addr s)"

definition show_by_name :: "v6_text \<Rightarrow> tunnel_by_name_spec \<Rightarrow> string" where
  "show_by_name t s = service_name_str (by_name_service s) @ ''@'' @ show_service_addr t (by_name_bind s)"

definition show_tunnel :: "v6_text \<Rightarrow> (peer_id \<Rightarrow> string) \<Rightarrow> tunnel_spec \<Rightarrow> string" where
  "show_tunnel t peer_show s =
     peer_show (remote_peer s) @ '':'' @ service_name_str (spec_service s) @ ''@'' @
     show_service_addr t (spec_bind s)"

text \<open>Characters an address is free of, given that its domain is.\<close>

definition host_lacks :: "host_addr \<Rightarrow> char \<Rightarrow> bool" where
  "host_lacks h c \<longleftrightarrow> (case h of Domain d \<Rightarrow> c \<notin> set d | _ \<Rightarrow> True)"

lemma show_addr_lacks:
  assumes "v6_text_ok t" and "host_lacks (host a) c" and "c = CHR ''@'' \<or> c = CHR '',''"
  shows "c \<notin> set (show_service_addr t a)"
  using assms by (cases "host a") (auto simp: show_service_addr_def host_lacks_def v6_text_ok_def)

text \<open>What libp2p documents of the text of a peer identity (base 58): it is parsed back, and has
  none of the separators.\<close>

definition peer_text_ok :: "(peer_id \<Rightarrow> string) \<Rightarrow> (string \<Rightarrow> string + peer_id) \<Rightarrow> bool" where
  "peer_text_ok peer_show peer_parse \<longleftrightarrow>
     (\<forall>p. peer_parse (peer_show p) = Inr p \<and>
        set (peer_show p) \<inter> {CHR '':'', CHR ''@'', CHR '',''} = {})"

lemma exposed_roundtrip:
  assumes "v6_text_ok t" and "host_ok t (host (local_addr s))"
    and "service_name_str (svc_name s) \<noteq> []" and "CHR ''='' \<notin> set (service_name_str (svc_name s))"
  shows "exposed_service_from_str t (show_exposed t s) = Inr s"
proof -
  have "ServiceName (service_name_str (svc_name s)) = svc_name s" by (cases "svc_name s") simp
  with assms service_addr_roundtrip [OF assms(1,2)] show ?thesis
    by (simp add: exposed_service_from_str_def show_exposed_def)
qed

lemma by_name_roundtrip:
  assumes "v6_text_ok t" and "host_ok t (host (by_name_bind s))" and "host_lacks (host (by_name_bind s)) CHR ''@''"
    and "service_name_str (by_name_service s) \<noteq> []"
  shows "tunnel_by_name_from_str t (show_by_name t s) = Inr s"
proof -
  have "ServiceName (service_name_str (by_name_service s)) = by_name_service s"
    by (cases "by_name_service s") simp
  moreover have "CHR ''@'' \<notin> set (show_service_addr t (by_name_bind s))"
    using assms(1,3) by (intro show_addr_lacks) auto
  ultimately show ?thesis
    using assms service_addr_roundtrip [OF assms(1,2)]
    by (simp add: tunnel_by_name_from_str_def show_by_name_def)
qed

lemma tunnel_roundtrip:
  assumes "v6_text_ok t" and "peer_text_ok peer_show peer_parse" and "host_ok t (host (spec_bind s))"
    and "host_lacks (host (spec_bind s)) CHR ''@''"
  shows "tunnel_spec_from_str t peer_parse (show_tunnel t peer_show s) = Inr s"
proof -
  have name: "ServiceName (service_name_str (spec_service s)) = spec_service s"
    by (cases "spec_service s") simp
  have at: "CHR ''@'' \<notin> set (show_service_addr t (spec_bind s))"
    using assms(1,4) by (intro show_addr_lacks) auto
  have "rsplit_once CHR ''@'' ((peer_show (remote_peer s) @ '':'' @ service_name_str (spec_service s)) @
      CHR ''@'' # show_service_addr t (spec_bind s)) =
      Some (peer_show (remote_peer s) @ '':'' @ service_name_str (spec_service s),
        show_service_addr t (spec_bind s))"
    using at by (rule rsplit_once_append)
  moreover have "CHR '':'' \<notin> set (peer_show (remote_peer s))"
    "peer_parse (peer_show (remote_peer s)) = Inr (remote_peer s)"
    using assms(2) by (simp_all add: peer_text_ok_def)
  ultimately show ?thesis
    using name service_addr_roundtrip [OF assms(1,3)]
    by (simp add: tunnel_spec_from_str_def show_tunnel_def)
qed

text \<open>C38: The three kinds of specification are parsed back from their printed form: an exposed
  service whose name is not empty and has no equals sign, a tunnel by name whose name is not empty and
  a tunnel to a peer (whose name may be empty), both with a bind domain without an at sign; service
  names may contain colons, at signs and (in tunnels) equals signs.  A host is an address or a domain that
  is not empty, does not begin with a bracket and is not itself the text of an address (what parsing yields,
  but for a domain in brackets).\<close>

theorem specs_roundtrip:
  assumes "v6_text_ok t" and "peer_text_ok peer_show peer_parse"
  shows "(host_ok t (host (local_addr e)) \<and> service_name_str (svc_name e) \<noteq> [] \<and>
      CHR ''='' \<notin> set (service_name_str (svc_name e)) \<longrightarrow>
      exposed_service_from_str t (show_exposed t e) = Inr e) \<and>
    (host_ok t (host (by_name_bind b)) \<and> host_lacks (host (by_name_bind b)) CHR ''@'' \<and>
      service_name_str (by_name_service b) \<noteq> [] \<longrightarrow>
      tunnel_by_name_from_str t (show_by_name t b) = Inr b) \<and>
    (host_ok t (host (spec_bind s)) \<and> host_lacks (host (spec_bind s)) CHR ''@'' \<longrightarrow>
      tunnel_spec_from_str t peer_parse (show_tunnel t peer_show s) = Inr s)"
  using assms by (simp add: exposed_roundtrip by_name_roundtrip tunnel_roundtrip)

text \<open>A peer text for the examples: the characters of the identity in unary digits.\<close>

definition sample_peer_show :: "peer_id \<Rightarrow> string" where
  "sample_peer_show p = (case p of PeerId s \<Rightarrow> concat (map (\<lambda>c. replicate (of_char c) CHR ''1'' @ ''x'') s))"

fun sample_chars :: "nat \<Rightarrow> string \<Rightarrow> string option" where
  "sample_chars n [] = (if n = 0 then Some [] else None)"
| "sample_chars n (c # cs) =
     (if c = CHR ''1'' then sample_chars (Suc n) cs
      else if c = CHR ''x'' then map_option (Cons (char_of n)) (sample_chars 0 cs) else None)"

definition sample_peer_parse :: "string \<Rightarrow> string + peer_id" where
  "sample_peer_parse s = (case sample_chars 0 s of None \<Rightarrow> Inl ''bad'' | Some cs \<Rightarrow> Inr (PeerId cs))"

lemma sample_chars_ones: "sample_chars m (replicate n CHR ''1'' @ CHR ''x'' # r) =
    map_option (Cons (char_of (m + n))) (sample_chars 0 r)"
  by (induction n arbitrary: m) auto

lemma sample_peer_text_ok: "peer_text_ok sample_peer_show sample_peer_parse"
proof -
  have "sample_chars 0 (concat (map (\<lambda>c. replicate (of_char c) CHR ''1'' @ ''x'') s)) = Some s" for s
    by (induction s) (simp_all add: sample_chars_ones)
  moreover have "set (concat (map (\<lambda>c. replicate (of_char c) CHR ''1'' @ ''x'') s)) \<subseteq> {CHR ''1'', CHR ''x''}" for s
    by auto
  ultimately show ?thesis
    unfolding peer_text_ok_def sample_peer_show_def sample_peer_parse_def
    by (fastforce split: peer_id.split)
qed

theorem specs_roundtrip_witness:
  "tunnel_spec_from_str sample_v6 sample_peer_parse (show_tunnel sample_v6 sample_peer_show
     \<lparr>remote_peer = PeerId ''w'', spec_service = ServiceName ''a:b@c'',
      spec_bind = \<lparr>host = V4 (Ipv4 127 0 0 1), port = 2222\<rparr>\<rparr>) =
   Inr \<lparr>remote_peer = PeerId ''w'', spec_service = ServiceName ''a:b@c'',
      spec_bind = \<lparr>host = V4 (Ipv4 127 0 0 1), port = 2222\<rparr>\<rparr>"
  using specs_roundtrip [OF sample_v6_ok sample_peer_text_ok, of undefined undefined
      "\<lparr>remote_peer = PeerId ''w'', spec_service = ServiceName ''a:b@c'',
      spec_bind = \<lparr>host = V4 (Ipv4 127 0 0 1), port = 2222\<rparr>\<rparr>"]
  by (simp add: host_ok_def host_lacks_def)

text \<open>An empty service name is refused in an exposed service and in a tunnel by name, but a
  tunnel to a peer is accepted with an empty service name.\<close>

lemma empty_service_names:
  assumes "peer_parse peer = Inr p" and "CHR '':'' \<notin> set peer" and "CHR ''@'' \<notin> set addr"
    and "service_addr_from_str t addr = Inr a"
  shows "exposed_service_from_str t (''='' @ addr) = Inl ExposeEmptyName \<and>
    tunnel_by_name_from_str t (''@'' @ addr) = Inl ByNameEmptyName \<and>
    service_name_from_str [] = Inl ServiceNameParseError \<and>
    tunnel_spec_from_str t peer_parse (peer @ '':@'' @ addr) =
      Inr \<lparr>remote_peer = p, spec_service = ServiceName [], spec_bind = a\<rparr>"
proof -
  have "rsplit_once CHR ''@'' ((peer @ '':'') @ CHR ''@'' # addr) = Some (peer @ '':'', addr)"
    using assms(3) by (rule rsplit_once_append)
  moreover have "rsplit_once CHR ''@'' ([] @ CHR ''@'' # addr) = Some ([], addr)"
    using assms(3) by (rule rsplit_once_append)
  moreover have "split_once CHR '':'' (peer @ CHR '':'' # []) = Some (peer, [])"
    using assms(2) by (rule split_once_append)
  ultimately show ?thesis
    using assms
    by (simp add: exposed_service_from_str_def tunnel_by_name_from_str_def tunnel_spec_from_str_def
        service_name_from_str_def)
qed

lemma empty_service_names_witness:
  "tunnel_spec_from_str sample_v6 (\<lambda>s. Inr (PeerId s)) ''w:@127.0.0.1:80'' =
     Inr \<lparr>remote_peer = PeerId ''w'', spec_service = ServiceName [],
          spec_bind = \<lparr>host = V4 (Ipv4 127 0 0 1), port = 80\<rparr>\<rparr>"
proof -
  have "service_addr_from_str sample_v6 ''127.0.0.1:80'' = Inr \<lparr>host = V4 (Ipv4 127 0 0 1), port = 80\<rparr>"
    by (simp add: service_addr_from_str_def host_addr_from_str_def rsplit_once_def parse_ipv4_def
        parse_octet_def parse_u16_def digit_of_def)
  from empty_service_names [of "\<lambda>s. Inr (PeerId s)" "''w''" "PeerId ''w''", OF _ _ _ this]
  show ?thesis by simp
qed

end
