(* ===== verification/Service_Config.thy ===== *)
theory Service_Config
  imports Spec_Props
begin

text \<open>
  The configuration of the background service, \<open>src/src/main.rs\<close>: the environment file for systemd,
  the environment and the property list for launchd.  Paths are strings; the printed forms of
  multiaddresses and peer identities, the current directory and \<open>RUST_LOG\<close> are parameters.
\<close>

section \<open>The command line\<close>

type_synonym path = string

record cli =
  cli_identity :: path
  cli_listen :: "multiaddr list"
  cli_bootstrap :: "multiaddr list"
  cli_expose :: "exposed_service list"
  cli_tunnel :: "tunnel_spec list"
  cli_by_name :: "tunnel_by_name_spec list"

record cli_text =
  ct_v6 :: v6_text
  ct_peer :: "peer_id \<Rightarrow> string"
  ct_addr :: "multiaddr \<Rightarrow> string"

abbreviation newline :: char where
  "newline \<equiv> CHR 0x0A"

section \<open>Paths\<close>

definition is_absolute :: "path \<Rightarrow> bool" where
  "is_absolute p \<longleftrightarrow> (case p of [] \<Rightarrow> False | c # _ \<Rightarrow> c = CHR ''/'')"

text \<open>\<open>Path::join\<close> on Unix.\<close>

definition path_join :: "path \<Rightarrow> path \<Rightarrow> path" where
  "path_join base p =
     (if is_absolute p then p
      else if base = [] \<or> last base = CHR ''/'' then base @ p
      else base @ ''/'' @ p)"

definition absolute_path :: "string + path \<Rightarrow> path \<Rightarrow> string + path" where
  "absolute_path cwd p =
     (if is_absolute p then Inr p
      else case cwd of
             Inl _ \<Rightarrow> Inl ''failed to resolve current directory''
           | Inr dir \<Rightarrow> Inr (path_join dir p))"

section \<open>Lists of values\<close>

definition join_multiaddrs :: "cli_text \<Rightarrow> multiaddr list \<Rightarrow> string" where
  "join_multiaddrs t addrs = join CHR '','' (map (ct_addr t) addrs)"

definition format_exposed_services :: "cli_text \<Rightarrow> exposed_service list \<Rightarrow> string" where
  "format_exposed_services t items = join CHR '','' (map (show_exposed (ct_v6 t)) items)"

definition format_tunnel_specs :: "cli_text \<Rightarrow> tunnel_spec list \<Rightarrow> string" where
  "format_tunnel_specs t items = join CHR '','' (map (show_tunnel (ct_v6 t) (ct_peer t)) items)"

definition format_tunnel_by_name_specs :: "cli_text \<Rightarrow> tunnel_by_name_spec list \<Rightarrow> string" where
  "format_tunnel_by_name_specs t items = join CHR '','' (map (show_by_name (ct_v6 t)) items)"

section \<open>The environment file\<close>

text \<open>The assignments, in the order in which they are written.\<close>

definition env_assignments :: "cli_text \<Rightarrow> path \<Rightarrow> string option \<Rightarrow> cli \<Rightarrow> (string \<times> string) list" where
  "env_assignments t identity rust_log c =
     [(''PUNCHGATE_IDENTITY'', identity),
      (''PUNCHGATE_LISTEN'', join_multiaddrs t (cli_listen c))] @
     (if cli_bootstrap c = [] then []
      else [(''PUNCHGATE_BOOTSTRAP'', join_multiaddrs t (cli_bootstrap c))]) @
     (if cli_expose c = [] then []
      else [(''PUNCHGATE_EXPOSE'', format_exposed_services t (cli_expose c))]) @
     (if cli_tunnel c = [] then []
      else [(''PUNCHGATE_TUNNEL'', format_tunnel_specs t (cli_tunnel c))]) @
     (if cli_by_name c = [] then []
      else [(''PUNCHGATE_TUNNEL_BY_NAME'', format_tunnel_by_name_specs t (cli_by_name c))]) @
     [(''RUST_LOG'', (case rust_log of None \<Rightarrow> ''info'' | Some v \<Rightarrow> v))]"

definition assignment_line :: "string \<times> string \<Rightarrow> string" where
  "assignment_line kv = fst kv @ ''='' @ snd kv"

definition render_env_file ::
  "cli_text \<Rightarrow> string + path \<Rightarrow> string option \<Rightarrow> cli \<Rightarrow> string + string" where
  "render_env_file t cwd rust_log c =
     (case absolute_path cwd (cli_identity c) of
        Inl e \<Rightarrow> Inl e
      | Inr identity \<Rightarrow>
          Inr (join newline
            ([''# Auto-generated by `punchgate up`'',
              ''# Edit and re-run `punchgate up` to apply changes.''] @
             map assignment_line (env_assignments t identity rust_log c) @ [[]])))"

section \<open>The environment for launchd\<close>

text \<open>The insertions into the \<open>BTreeMap\<close>, in their order.\<close>

definition service_env_map ::
  "cli_text \<Rightarrow> string + path \<Rightarrow> cli \<Rightarrow> string option \<Rightarrow> (string, string) fmap" where
  "service_env_map t cwd c rust_log =
     (let identity = (case absolute_path cwd (cli_identity c) of Inl _ \<Rightarrow> cli_identity c | Inr p \<Rightarrow> p);
          m1 = fmupd ''PUNCHGATE_IDENTITY'' identity fmempty;
          m2 = fmupd ''PUNCHGATE_LISTEN'' (join_multiaddrs t (cli_listen c)) m1;
          m3 = (if cli_bootstrap c = [] then m2
                else fmupd ''PUNCHGATE_BOOTSTRAP'' (join_multiaddrs t (cli_bootstrap c)) m2);
          m4 = (if cli_expose c = [] then m3
                else fmupd ''PUNCHGATE_EXPOSE'' (format_exposed_services t (cli_expose c)) m3);
          m5 = (if cli_tunnel c = [] then m4
                else fmupd ''PUNCHGATE_TUNNEL'' (format_tunnel_specs t (cli_tunnel c)) m4);
          m6 = (if cli_by_name c = [] then m5
                else fmupd ''PUNCHGATE_TUNNEL_BY_NAME''
                       (format_tunnel_by_name_specs t (cli_by_name c)) m5)
      in fmupd ''RUST_LOG'' (case rust_log of None \<Rightarrow> ''info'' | Some v \<Rightarrow> v) m6)"

section \<open>Escaping and the service files\<close>

text \<open>\<open>str::replace\<close> of one character.\<close>

definition replace_char :: "char \<Rightarrow> string \<Rightarrow> string \<Rightarrow> string" where
  "replace_char c by_text s = concat (map (\<lambda>x. if x = c then by_text else [x]) s)"

definition xml_escape :: "string \<Rightarrow> string" where
  "xml_escape input =
     replace_char CHR 0x27 ''&apos;''
       (replace_char CHR 0x22 ''&quot;''
         (replace_char CHR ''>'' ''&gt;''
           (replace_char CHR ''<'' ''&lt;''
             (replace_char CHR ''&'' ''&amp;'' input))))"

definition SERVICE_LABEL :: string where
  "SERVICE_LABEL = ''com.punchgate.daemon''"

definition SYSTEMD_SERVICE_NAME :: string where
  "SYSTEMD_SERVICE_NAME = ''punchgate.service''"

definition unlines :: "string list \<Rightarrow> string" where
  "unlines ls = concat (map (\<lambda>l. l @ [newline]) ls)"

definition render_systemd_service :: "path \<Rightarrow> string" where
  "render_systemd_service exe_path = unlines
     [''[Unit]'', ''Description=Punchgate background daemon'', ''After=network-online.target'',
      ''Wants=network-online.target'', [], ''[Service]'', ''Type=simple'',
      ''EnvironmentFile=%h/.config/punchgate/punchgate.env'', ''ExecStart='' @ exe_path,
      ''Restart=always'', ''RestartSec=2'', ''KillSignal=SIGINT'', ''TimeoutStopSec=15'',
      ''StandardOutput=journal'', ''StandardError=journal'', [], ''[Install]'',
      ''WantedBy=default.target'']"

definition env_entry :: "string \<times> string \<Rightarrow> string" where
  "env_entry kv = unlines
     [''    <key>'' @ xml_escape (fst kv) @ ''</key>'',
      ''    <string>'' @ xml_escape (snd kv) @ ''</string>'']"

text \<open>The entries of a \<open>BTreeMap\<close>, in the order of the keys.\<close>

definition sorted_entries :: "(string, string) fmap \<Rightarrow> (string \<times> string) list" where
  "sorted_entries m = map (\<lambda>k. (k, the (fmlookup m k))) (sorted_list_of_fset (fmdom m))"

abbreviation quote :: string where
  "quote \<equiv> [CHR 0x22]"

definition render_launchd_plist :: "path \<Rightarrow> path \<Rightarrow> path \<Rightarrow> (string, string) fmap \<Rightarrow> string" where
  "render_launchd_plist exe_path log_out log_err envs =
     unlines
       [''<?xml version='' @ quote @ ''1.0'' @ quote @ '' encoding='' @ quote @ ''UTF-8'' @ quote @ ''?>'',
        ''<!DOCTYPE plist PUBLIC '' @ quote @ ''-//Apple//DTD PLIST 1.0//EN'' @ quote @ '' '' @ quote @
          ''http://www.apple.com/DTDs/PropertyList-1.0.dtd'' @ quote @ ''>'',
        ''<plist version='' @ quote @ ''1.0'' @ quote @ ''>'', ''<dict>'', ''  <key>Label</key>'',
        ''  <string>'' @ SERVICE_LABEL @ ''</string>'', [], ''  <key>ProgramArguments</key>'', ''  <array>'',
        ''    <string>'' @ xml_escape exe_path @ ''</string>'', ''  </array>'', [],
        ''  <key>RunAtLoad</key>'', ''  <true/>'', ''  <key>KeepAlive</key>'', ''  <true/>'', [],
        ''  <key>EnvironmentVariables</key>'', ''  <dict>''] @
     concat (map env_entry (sorted_entries envs)) @
     unlines
       [''  </dict>'', [], ''  <key>StandardOutPath</key>'',
        ''  <string>'' @ xml_escape log_out @ ''</string>'', ''  <key>StandardErrorPath</key>'',
        ''  <string>'' @ xml_escape log_err @ ''</string>'', ''</dict>'', ''</plist>'']"

end
