(* ===== verification/Service_Props.thy ===== *)
theory Service_Props
  imports Service_Config
begin

text \<open>
  The configuration of the background service is that of the command line it was installed with: the
  environment file and the launchd environment give the same variables, and reading them back
  gives the command line.  Escaping for the property list is sound.
\<close>

section \<open>Reading an environment file\<close>

text \<open>Assignments line by line, without quoting; comments and empty lines are skipped.\<close>

definition read_env_line :: "string \<Rightarrow> (string \<times> string) option" where
  "read_env_line l = (if l = [] \<or> hd l = CHR ''#'' then None else split_once CHR ''='' l)"

definition read_env_file :: "string \<Rightarrow> (string \<times> string) list" where
  "read_env_file s = List.map_filter read_env_line (split_on newline s)"

text \<open>The values of a delimited option, parsed one by one.\<close>

definition parse_values :: "(string \<Rightarrow> 'e + 'a) \<Rightarrow> string option \<Rightarrow> ('e + 'a) list" where
  "parse_values parse v = (case v of None \<Rightarrow> [] | Some s \<Rightarrow> map parse (split_on CHR '','' s))"

definition plain_key :: "string \<Rightarrow> bool" where
  "plain_key k \<longleftrightarrow> k \<noteq> [] \<and> hd k \<noteq> CHR ''#'' \<and> CHR ''='' \<notin> set k \<and> newline \<notin> set k"

lemma read_assignment: "plain_key k \<Longrightarrow> read_env_line (assignment_line (k, v)) = Some (k, v)"
  by (cases k) (auto simp: plain_key_def read_env_line_def assignment_line_def)

lemma env_keys_plain: "kv \<in> set (env_assignments t identity rust_log c) \<Longrightarrow> plain_key (fst kv)"
proof -
  have "list_all (\<lambda>kv. plain_key (fst kv)) (env_assignments t identity rust_log c)"
    by (simp add: env_assignments_def plain_key_def)
  then show "kv \<in> set (env_assignments t identity rust_log c) \<Longrightarrow> plain_key (fst kv)"
    by (simp add: list_all_iff)
qed

lemma read_assignments:
  "\<forall>kv\<in>set kvs. plain_key (fst kv) \<Longrightarrow>
     List.map_filter read_env_line (map assignment_line kvs) = kvs"
  by (induction kvs) (auto simp: map_filter_simps read_assignment)

lemma read_rendered:
  assumes "\<forall>kv\<in>set kvs. plain_key (fst kv) \<and> newline \<notin> set (snd kv)"
    and "\<forall>l\<in>set comments. l \<noteq> [] \<and> hd l = CHR ''#'' \<and> newline \<notin> set l"
  shows "read_env_file (join newline (comments @ map assignment_line kvs @ [[]])) = kvs"
proof -
  have "newline \<notin> set l" if "l \<in> set (comments @ map assignment_line kvs @ [[]])" for l
    using that assms by (auto simp: assignment_line_def plain_key_def)
  then have "split_on newline (join newline (comments @ map assignment_line kvs @ [[]])) =
      comments @ map assignment_line kvs @ [[]]"
    by (intro split_on_join) auto
  moreover have "List.map_filter read_env_line comments = []"
    using assms(2) by (induction comments) (auto simp: map_filter_simps read_env_line_def)
  moreover have "List.map_filter read_env_line (map assignment_line kvs) = kvs"
    using assms(1) by (intro read_assignments) blast
  ultimately show ?thesis
    by (simp add: read_env_file_def map_filter_simps read_env_line_def List.map_filter_def)
qed

section \<open>Values free of separators\<close>

text \<open>What is assumed of the texts: nothing that is printed contains a line break, and the elements
  of a list contain no comma.\<close>

definition name_ok :: "service_name \<Rightarrow> bool" where
  "name_ok n \<longleftrightarrow> service_name_str n \<noteq> [] \<and>
     set (service_name_str n) \<inter> {CHR ''='', CHR '','', newline} = {}"

definition bind_ok :: "v6_text \<Rightarrow> service_addr \<Rightarrow> bool" where
  "bind_ok t a \<longleftrightarrow> host_ok t (host a) \<and> host_lacks (host a) CHR ''@'' \<and>
     CHR '','' \<notin> set (show_service_addr t a) \<and> newline \<notin> set (show_service_addr t a)"

definition cli_ok :: "cli_text \<Rightarrow> (string \<Rightarrow> 'e + multiaddr) \<Rightarrow> (string \<Rightarrow> string + peer_id) \<Rightarrow> cli \<Rightarrow> bool" where
  "cli_ok t addr_parse peer_parse c \<longleftrightarrow>
     v6_text_ok (ct_v6 t) \<and> peer_text_ok (ct_peer t) peer_parse \<and> cli_listen c \<noteq> [] \<and>
     (\<forall>a\<in>set (cli_listen c) \<union> set (cli_bootstrap c). addr_parse (ct_addr t a) = Inr a \<and>
        CHR '','' \<notin> set (ct_addr t a) \<and> newline \<notin> set (ct_addr t a)) \<and>
     (\<forall>p. newline \<notin> set (ct_peer t p)) \<and>
     (\<forall>e\<in>set (cli_expose c). name_ok (svc_name e) \<and> bind_ok (ct_v6 t) (local_addr e)) \<and>
     (\<forall>s\<in>set (cli_tunnel c). name_ok (spec_service s) \<and> bind_ok (ct_v6 t) (spec_bind s)) \<and>
     (\<forall>s\<in>set (cli_by_name c). name_ok (by_name_service s) \<and> bind_ok (ct_v6 t) (by_name_bind s))"

lemma set_join: "set (join c xs) \<subseteq> insert c (\<Union> (set ` set xs))"
  by (induction c xs rule: join.induct) auto

lemma joined_no_newline:
  "\<forall>x\<in>set xs. newline \<notin> set (show_x x) \<Longrightarrow> newline \<notin> set (join CHR '','' (map show_x xs))"
  using set_join [of "CHR '',''" "map show_x xs"] by auto

lemma parse_joined:
  assumes "xs \<noteq> []" and "\<forall>x\<in>set xs. CHR '','' \<notin> set (show_x x) \<and> parse (show_x x) = Inr x"
  shows "parse_values parse (Some (join CHR '','' (map show_x xs))) = map Inr xs"
proof -
  have "split_on CHR '','' (join CHR '','' (map show_x xs)) = map show_x xs"
    using assms by (intro split_on_join) auto
  with assms(2) show ?thesis by (simp add: parse_values_def)
qed

lemma shown_exposed:
  "cli_ok t addr_parse peer_parse c \<Longrightarrow> e \<in> set (cli_expose c) \<Longrightarrow> exposed_service_from_str (ct_v6 t) (show_exposed (ct_v6 t) e) = Inr e \<and>
     CHR '','' \<notin> set (show_exposed (ct_v6 t) e) \<and> newline \<notin> set (show_exposed (ct_v6 t) e)"
  by (intro conjI exposed_roundtrip)
    (auto simp: cli_ok_def name_ok_def bind_ok_def show_exposed_def)

lemma shown_by_name:
  "cli_ok t addr_parse peer_parse c \<Longrightarrow> s \<in> set (cli_by_name c) \<Longrightarrow> tunnel_by_name_from_str (ct_v6 t) (show_by_name (ct_v6 t) s) = Inr s \<and>
     CHR '','' \<notin> set (show_by_name (ct_v6 t) s) \<and> newline \<notin> set (show_by_name (ct_v6 t) s)"
  by (intro conjI by_name_roundtrip)
    (auto simp: cli_ok_def name_ok_def bind_ok_def show_by_name_def)

lemma shown_tunnel:
  "cli_ok t addr_parse peer_parse c \<Longrightarrow> s \<in> set (cli_tunnel c) \<Longrightarrow>
     tunnel_spec_from_str (ct_v6 t) peer_parse (show_tunnel (ct_v6 t) (ct_peer t) s) = Inr s \<and>
     CHR '','' \<notin> set (show_tunnel (ct_v6 t) (ct_peer t) s) \<and>
     newline \<notin> set (show_tunnel (ct_v6 t) (ct_peer t) s)"
  by (intro conjI tunnel_roundtrip)
    (auto simp: cli_ok_def name_ok_def bind_ok_def show_tunnel_def peer_text_ok_def)

lemma shown_addr:
  "cli_ok t addr_parse peer_parse c \<Longrightarrow> a \<in> set (cli_listen c) \<union> set (cli_bootstrap c) \<Longrightarrow>
     addr_parse (ct_addr t a) = Inr a \<and> CHR '','' \<notin> set (ct_addr t a) \<and> newline \<notin> set (ct_addr t a)"
  by (simp add: cli_ok_def)

lemma env_values_plain:
  assumes ok: "cli_ok t addr_parse peer_parse c" and kv: "kv \<in> set (env_assignments t identity rust_log c)"
    and "newline \<notin> set identity" and "\<forall>v. rust_log = Some v \<longrightarrow> newline \<notin> set v"
  shows "newline \<notin> set (snd kv)"
proof -
  have "newline \<notin> set (join_multiaddrs t (cli_listen c))"
    "newline \<notin> set (join_multiaddrs t (cli_bootstrap c))"
    "newline \<notin> set (format_exposed_services t (cli_expose c))"
    "newline \<notin> set (format_tunnel_specs t (cli_tunnel c))"
    "newline \<notin> set (format_tunnel_by_name_specs t (cli_by_name c))"
    unfolding join_multiaddrs_def format_exposed_services_def format_tunnel_specs_def
      format_tunnel_by_name_specs_def
    by (simp_all add: joined_no_newline shown_addr [OF ok] shown_exposed [OF ok] shown_tunnel [OF ok]
        shown_by_name [OF ok])
  with assms show ?thesis
    by (auto simp: env_assignments_def split: if_splits option.splits)
qed

lemma env_file_read:
  assumes "render_env_file t cwd rust_log c = Inr text" and "absolute_path cwd (cli_identity c) = Inr identity"
    and ok: "cli_ok t addr_parse peer_parse c" and "newline \<notin> set identity"
    and "\<forall>v. rust_log = Some v \<longrightarrow> newline \<notin> set v"
  shows "read_env_file text = env_assignments t identity rust_log c"
proof -
  have "text = join newline ([''# Auto-generated by `punchgate up`'',
      ''# Edit and re-run `punchgate up` to apply changes.''] @
      map assignment_line (env_assignments t identity rust_log c) @ [[]])"
    using assms(1,2) by (simp add: render_env_file_def)
  moreover have "\<forall>kv\<in>set (env_assignments t identity rust_log c).
      plain_key (fst kv) \<and> newline \<notin> set (snd kv)"
    using env_keys_plain env_values_plain [OF ok _ assms(4,5)] by blast
  ultimately show ?thesis by (simp only:) (rule read_rendered, simp_all)
qed

text \<open>C36: The environment file carries the whole configuration of the command line: read line by line
  as assignments, with the values split at the commas that the command line declares as the
  delimiter, it gives the identity path, and parsing the values one by one gives exactly the listen
  addresses, bootstrap addresses, exposed services and tunnels, in their order.  The values are assumed
  to be such as the command line can deliver: at least one listen address; names that are not empty and have no
  equals sign, comma or line break; bind addresses whose host is an address or a plain domain (not empty,
  not the text of an address, no leading bracket, no at sign, comma or line break); an identity path and a log
  filter without line breaks.  The file is read without quoting.\<close>

theorem env_file_roundtrip:
  assumes rendered: "render_env_file t cwd rust_log c = Inr text"
    and identity: "absolute_path cwd (cli_identity c) = Inr identity"
    and ok: "cli_ok t addr_parse peer_parse c" and "newline \<notin> set identity"
    and "\<forall>v. rust_log = Some v \<longrightarrow> newline \<notin> set v"
  shows "let var = map_of (read_env_file text) in
    var ''PUNCHGATE_IDENTITY'' = Some identity \<and>
    parse_values addr_parse (var ''PUNCHGATE_LISTEN'') = map Inr (cli_listen c) \<and>
    parse_values addr_parse (var ''PUNCHGATE_BOOTSTRAP'') = map Inr (cli_bootstrap c) \<and>
    parse_values (exposed_service_from_str (ct_v6 t)) (var ''PUNCHGATE_EXPOSE'') = map Inr (cli_expose c) \<and>
    parse_values (tunnel_spec_from_str (ct_v6 t) peer_parse) (var ''PUNCHGATE_TUNNEL'') =
      map Inr (cli_tunnel c) \<and>
    parse_values (tunnel_by_name_from_str (ct_v6 t)) (var ''PUNCHGATE_TUNNEL_BY_NAME'') =
      map Inr (cli_by_name c)"
proof -
  let ?var = "map_of (env_assignments t identity rust_log c)"
  have vars: "?var ''PUNCHGATE_IDENTITY'' = Some identity"
    "?var ''PUNCHGATE_LISTEN'' = Some (join_multiaddrs t (cli_listen c))"
    "?var ''PUNCHGATE_BOOTSTRAP'' =
       (if cli_bootstrap c = [] then None else Some (join_multiaddrs t (cli_bootstrap c)))"
    "?var ''PUNCHGATE_EXPOSE'' =
       (if cli_expose c = [] then None else Some (format_exposed_services t (cli_expose c)))"
    "?var ''PUNCHGATE_TUNNEL'' =
       (if cli_tunnel c = [] then None else Some (format_tunnel_specs t (cli_tunnel c)))"
    "?var ''PUNCHGATE_TUNNEL_BY_NAME'' =
       (if cli_by_name c = [] then None else Some (format_tunnel_by_name_specs t (cli_by_name c)))"
    by (simp_all add: env_assignments_def)
  have lists: "cli_listen c \<noteq> []" using ok by (simp add: cli_ok_def)
  have absent: "parse_values parse None = []" for parse :: "string \<Rightarrow> 'x + 'y"
    by (simp add: parse_values_def)
  show ?thesis
    unfolding env_file_read [OF rendered identity ok assms(4,5)] Let_def vars
      join_multiaddrs_def format_exposed_services_def format_tunnel_specs_def
      format_tunnel_by_name_specs_def
    using lists shown_addr [OF ok] shown_exposed [OF ok] shown_tunnel [OF ok] shown_by_name [OF ok]
    by (simp add: absent parse_joined)
qed

text \<open>A service that is exposed on a node with one listen address.\<close>

definition sample_text :: cli_text where
  "sample_text = \<lparr>ct_v6 = sample_v6, ct_peer = sample_peer_show, ct_addr = (\<lambda>_. ''/memory/1'')\<rparr>"

definition sample_cli :: cli where
  "sample_cli =
     \<lparr>cli_identity = ''identity.key'', cli_listen = [[Udp 1, QuicV1]], cli_bootstrap = [],
      cli_expose = [\<lparr>svc_name = ServiceName ''ssh'',
        local_addr = \<lparr>host = V4 (Ipv4 127 0 0 1), port = 22\<rparr>\<rparr>],
      cli_tunnel = [], cli_by_name = []\<rparr>"

lemma newline_dec: "newline \<notin> set (dec n)"
proof
  assume "newline \<in> set (dec n)"
  then obtain d where "d < 10" "newline = digit_char d" using dec_digits by blast
  then have "digit_of newline = Some d" by simp
  then show False by (simp add: digit_of_def)
qed

lemma newline_peer: "newline \<notin> set (sample_peer_show p)"
  by (cases p) (auto simp: sample_peer_show_def)

lemma sample_cli_ok: "cli_ok sample_text (\<lambda>_. Inr [Udp 1, QuicV1] :: string + multiaddr) sample_peer_parse sample_cli"
  by (simp add: cli_ok_def sample_text_def sample_cli_def sample_v6_ok sample_peer_text_ok name_ok_def
      bind_ok_def host_ok_def host_lacks_def show_service_addr_def newline_dec newline_peer)

theorem env_file_roundtrip_witness:
  "\<exists>text. render_env_file sample_text (Inr ''/home'') None sample_cli = Inr text \<and>
     parse_values (exposed_service_from_str sample_v6) (map_of (read_env_file text) ''PUNCHGATE_EXPOSE'') =
       map Inr (cli_expose sample_cli)"
proof -
  have path: "absolute_path (Inr ''/home'') (cli_identity sample_cli) = Inr ''/home/identity.key''"
    by (simp add: absolute_path_def is_absolute_def path_join_def sample_cli_def)
  then obtain out where r: "render_env_file sample_text (Inr ''/home'') None sample_cli = Inr out"
    by (simp add: render_env_file_def)
  from env_file_roundtrip [OF r path sample_cli_ok] r show ?thesis
    by (simp add: sample_text_def Let_def)
qed

section \<open>The two environments\<close>

lemma service_env_lookup:
  assumes "absolute_path cwd (cli_identity c) = Inr identity"
  shows "fmlookup (service_env_map t cwd c rust_log) = map_of (env_assignments t identity rust_log c)"
  using assms by (simp add: service_env_map_def env_assignments_def fun_eq_iff)

text \<open>The two ways to configure the service agree: the environment that launchd is given holds
  exactly the variables, with exactly the values, that are read from the environment file written
  for systemd.\<close>

lemma environments_agree:
  assumes rendered: "render_env_file t cwd rust_log c = Inr text"
    and identity: "absolute_path cwd (cli_identity c) = Inr identity"
    and ok: "cli_ok t addr_parse peer_parse c" and "newline \<notin> set identity"
    and "\<forall>v. rust_log = Some v \<longrightarrow> newline \<notin> set v"
  shows "fmlookup (service_env_map t cwd c rust_log) = map_of (read_env_file text)"
  by (simp only: env_file_read [OF assms] service_env_lookup [OF identity])

lemma environments_agree_witness:
  "\<exists>text. render_env_file sample_text (Inr ''/home'') None sample_cli = Inr text \<and>
     fmlookup (service_env_map sample_text (Inr ''/home'') sample_cli None) = map_of (read_env_file text)"
proof -
  have path: "absolute_path (Inr ''/home'') (cli_identity sample_cli) = Inr ''/home/identity.key''"
    by (simp add: absolute_path_def is_absolute_def path_join_def sample_cli_def)
  then obtain out where r: "render_env_file sample_text (Inr ''/home'') None sample_cli = Inr out"
    by (simp add: render_env_file_def)
  from environments_agree [OF r path sample_cli_ok] r show ?thesis by simp
qed

section \<open>Escaping\<close>

text \<open>Escaping in one pass.\<close>

definition xml_entity :: "char \<Rightarrow> string" where
  "xml_entity x =
     (if x = CHR ''&'' then ''&amp;'' else if x = CHR ''<'' then ''&lt;''
      else if x = CHR ''>'' then ''&gt;'' else if x = CHR 0x22 then ''&quot;''
      else if x = CHR 0x27 then ''&apos;'' else [x])"

lemma replace_char_concat:
  "replace_char c r (concat (map f s)) = concat (map (\<lambda>x. replace_char c r (f x)) s)"
  by (induction s) (simp_all add: replace_char_def)

lemma xml_escape_one_pass: "xml_escape s = concat (map xml_entity s)"
proof -
  have one: "xml_escape s = concat (map (\<lambda>x. xml_escape [x]) s)"
    by (simp add: xml_escape_def replace_char_concat replace_char_def [of "CHR ''&''"])
  have "xml_escape [x] = xml_entity x" for x
    by (simp add: xml_escape_def replace_char_def xml_entity_def)
  with one show ?thesis by simp
qed

text \<open>Reading the entities back.\<close>

fun xml_unescape :: "string \<Rightarrow> string" where
  "xml_unescape [] = []"
| "xml_unescape (x # xs) =
     (if x \<noteq> CHR ''&'' then x # xml_unescape xs
      else case strip_prefix ''amp;'' xs of Some r \<Rightarrow> CHR ''&'' # xml_unescape (drop 4 xs) | None \<Rightarrow>
           case strip_prefix ''lt;'' xs of Some r \<Rightarrow> CHR ''<'' # xml_unescape (drop 3 xs) | None \<Rightarrow>
           case strip_prefix ''gt;'' xs of Some r \<Rightarrow> CHR ''>'' # xml_unescape (drop 3 xs) | None \<Rightarrow>
           case strip_prefix ''quot;'' xs of Some r \<Rightarrow> CHR 0x22 # xml_unescape (drop 5 xs) | None \<Rightarrow>
           case strip_prefix ''apos;'' xs of Some r \<Rightarrow> CHR 0x27 # xml_unescape (drop 5 xs) | None \<Rightarrow>
             x # xml_unescape xs)"

text \<open>Escaping is sound: the five replacements one after the other amount to one pass that
  replaces each special character once, no angle bracket or quote is left, and reading the entities
  gives back the original text, so nothing in a path or a value can end its XML element.\<close>

lemma xml_escape_sound:
  "xml_escape s = concat (map xml_entity s) \<and> xml_unescape (xml_escape s) = s \<and>
   set (xml_escape s) \<inter> {CHR ''<'', CHR ''>'', CHR 0x22, CHR 0x27} = {}"
proof -
  have "xml_unescape (concat (map xml_entity s)) = s"
    by (induction s) (simp_all add: xml_entity_def)
  moreover have "set (concat (map xml_entity s)) \<inter> {CHR ''<'', CHR ''>'', CHR 0x22, CHR 0x27} = {}"
    by (induction s) (auto simp: xml_entity_def split: if_splits)
  ultimately show ?thesis by (simp add: xml_escape_one_pass)
qed

end
