(* ===== verification/Service_Control.thy ===== *)
theory Service_Control
  imports Service_Props
begin

text \<open>
  Installing, starting, stopping and inspecting the background service, \<open>src/src/main.rs\<close>.  The
  operating system is a parameter: a record of the calls the code makes on the file system and
  the commands it runs, over a system state of any type.
\<close>

section \<open>The operating system\<close>

text \<open>\<open>os_status\<close> and \<open>os_output\<close> run a command: the error of starting it, or whether it succeeded (and
  its output).\<close>

record 'os os_api =
  os_home :: "'os \<Rightarrow> path option"
  os_cwd :: "'os \<Rightarrow> string + path"
  os_exe :: "'os \<Rightarrow> string + path"
  os_rust_log :: "'os \<Rightarrow> string option"
  os_create_dir_all :: "path \<Rightarrow> 'os \<Rightarrow> 'os \<times> (string + unit)"
  os_write :: "path \<Rightarrow> string \<Rightarrow> 'os \<Rightarrow> 'os \<times> (string + unit)"
  os_exists :: "path \<Rightarrow> 'os \<Rightarrow> bool"
  os_remove :: "path \<Rightarrow> 'os \<Rightarrow> 'os \<times> (string + unit)"
  os_status :: "string list \<Rightarrow> 'os \<Rightarrow> 'os \<times> (string + bool)"
  os_output :: "string list \<Rightarrow> 'os \<Rightarrow> 'os \<times> (string + bool \<times> string)"

text \<open>A fallible action, and running actions up to the first error (\<open>?\<close>).\<close>

type_synonym 'os action = "'os \<Rightarrow> 'os \<times> (string + unit)"

fun run_steps :: "'os action list \<Rightarrow> 'os action" where
  "run_steps [] os = (os, Inr ())"
| "run_steps (a # as) os =
     (case a os of
        (os', Inl e) \<Rightarrow> (os', Inl e)
      | (os', Inr _) \<Rightarrow> run_steps as os')"

definition run_checked :: "'os os_api \<Rightarrow> string list \<Rightarrow> 'os action" where
  "run_checked api cmd os =
     (case os_status api cmd os of
        (os', Inl e) \<Rightarrow> (os', Inl e)
      | (os', Inr success) \<Rightarrow> (os', if success then Inr () else Inl ''command failed''))"

definition run_allow_failure :: "'os os_api \<Rightarrow> string list \<Rightarrow> 'os action" where
  "run_allow_failure api cmd os =
     (case os_status api cmd os of
        (os', Inl e) \<Rightarrow> (os', Inl e)
      | (os', Inr _) \<Rightarrow> (os', Inr ()))"

section \<open>Paths\<close>

definition punchgate_home_dir :: "'os os_api \<Rightarrow> 'os \<Rightarrow> string + path" where
  "punchgate_home_dir api os =
     (case os_home api os of None \<Rightarrow> Inl ''$HOME is not set'' | Some home \<Rightarrow> Inr home)"

definition app_config_dir :: "'os os_api \<Rightarrow> 'os \<Rightarrow> string + path" where
  "app_config_dir api os =
     map_sum id (\<lambda>home. path_join (path_join home ''.config'') ''punchgate'') (punchgate_home_dir api os)"

definition app_env_file :: "'os os_api \<Rightarrow> 'os \<Rightarrow> string + path" where
  "app_env_file api os = map_sum id (\<lambda>dir. path_join dir ''punchgate.env'') (app_config_dir api os)"

text \<open>An action on a path or text that may itself be an error.\<close>

definition with_value :: "('os \<Rightarrow> string + 'v) \<Rightarrow> ('v \<Rightarrow> 'os action) \<Rightarrow> 'os action" where
  "with_value get act os = (case get os of Inl e \<Rightarrow> (os, Inl e) | Inr v \<Rightarrow> act v os)"

text \<open>Writing the environment file: both commands that install the service begin with it.\<close>

definition write_env_file :: "'os os_api \<Rightarrow> cli_text \<Rightarrow> cli \<Rightarrow> 'os action" where
  "write_env_file api t c =
     with_value (app_env_file api) (\<lambda>env_path.
       with_value (\<lambda>os. render_env_file t (os_cwd api os) (os_rust_log api os) c)
         (os_write api env_path))"

definition remove_if_exists :: "'os os_api \<Rightarrow> path \<Rightarrow> 'os action" where
  "remove_if_exists api p os = (if os_exists api p os then os_remove api p os else (os, Inr ()))"

section \<open>The commands\<close>

datatype service_command = Up | Down | Status | Logs bool nat

definition systemd_user_dir :: "path \<Rightarrow> path" where
  "systemd_user_dir home = path_join (path_join (path_join home ''.config'') ''systemd'') ''user''"

definition systemd_path :: "path \<Rightarrow> path" where
  "systemd_path home = path_join (systemd_user_dir home) SYSTEMD_SERVICE_NAME"

fun linux_steps :: "'os os_api \<Rightarrow> cli_text \<Rightarrow> cli \<Rightarrow> path \<Rightarrow> service_command \<Rightarrow> 'os action list" where
  "linux_steps api t c home Up =
     [os_create_dir_all api (systemd_user_dir home),
      with_value (app_config_dir api) (os_create_dir_all api),
      write_env_file api t c,
      with_value (os_exe api) (\<lambda>exe. os_write api (systemd_path home) (render_systemd_service exe)),
      run_checked api [''systemctl'', ''--user'', ''daemon-reload''],
      run_checked api [''systemctl'', ''--user'', ''enable'', ''--now'', SYSTEMD_SERVICE_NAME]]"
| "linux_steps api t c home Down =
     [run_allow_failure api [''systemctl'', ''--user'', ''disable'', ''--now'', SYSTEMD_SERVICE_NAME],
      remove_if_exists api (systemd_path home),
      run_allow_failure api [''systemctl'', ''--user'', ''daemon-reload'']]"
| "linux_steps api t c home Status =
     [run_checked api [''systemctl'', ''--user'', ''--no-pager'', ''status'', SYSTEMD_SERVICE_NAME]]"
| "linux_steps api t c home (Logs follow n) =
     [run_checked api
        ([''journalctl'', ''--user'', ''-u'', SYSTEMD_SERVICE_NAME, ''--no-pager'', ''-n'', dec n] @
         (if follow then [''-f''] else []))]"

definition run_linux_service_command ::
  "'os os_api \<Rightarrow> cli_text \<Rightarrow> cli \<Rightarrow> service_command \<Rightarrow> 'os action" where
  "run_linux_service_command api t c cmd =
     with_value (punchgate_home_dir api) (\<lambda>home. run_steps (linux_steps api t c home cmd))"

text \<open>\<open>id -u\<close>; \<open>trim\<close> and the parsing of a 32-bit number are parameters.\<close>

definition current_uid ::
  "'os os_api \<Rightarrow> (string \<Rightarrow> string) \<Rightarrow> (string \<Rightarrow> string + 32 word) \<Rightarrow> 'os \<Rightarrow> 'os \<times> (string + 32 word)" where
  "current_uid api trim parse_u32 os =
     (case os_output api [''id'', ''-u''] os of
        (os', Inl e) \<Rightarrow> (os', Inl e)
      | (os', Inr (success, out)) \<Rightarrow>
          (os', if \<not> success then Inl ''`id -u` failed'' else parse_u32 (trim out)))"

definition plist_path :: "path \<Rightarrow> path" where
  "plist_path home =
     path_join (path_join (path_join home ''Library'') ''LaunchAgents'') (SERVICE_LABEL @ ''.plist'')"

definition logs_dir :: "path \<Rightarrow> path" where
  "logs_dir home = path_join (path_join home ''Library'') ''Logs''"

definition write_plist :: "'os os_api \<Rightarrow> cli_text \<Rightarrow> cli \<Rightarrow> path \<Rightarrow> 'os action" where
  "write_plist api t c home =
     with_value (os_exe api) (\<lambda>exe os.
       os_write api (plist_path home)
         (render_launchd_plist exe (path_join (logs_dir home) ''punchgate.log'')
            (path_join (logs_dir home) ''punchgate.err.log'')
            (service_env_map t (os_cwd api os) c (os_rust_log api os))) os)"

fun macos_steps ::
  "'os os_api \<Rightarrow> cli_text \<Rightarrow> cli \<Rightarrow> path \<Rightarrow> 32 word \<Rightarrow> service_command \<Rightarrow> 'os action list" where
  "macos_steps api t c home uid Up =
     (let domain = ''gui/'' @ dec (unat uid); handle = domain @ ''/'' @ SERVICE_LABEL in
      [os_create_dir_all api (path_join (path_join home ''Library'') ''LaunchAgents''),
       os_create_dir_all api (logs_dir home),
       with_value (app_config_dir api) (os_create_dir_all api),
       write_env_file api t c,
       write_plist api t c home,
       run_allow_failure api [''launchctl'', ''bootout'', domain, plist_path home],
       run_checked api [''launchctl'', ''bootstrap'', domain, plist_path home],
       run_checked api [''launchctl'', ''enable'', handle],
       run_checked api [''launchctl'', ''kickstart'', ''-k'', handle]])"
| "macos_steps api t c home uid Down =
     (let domain = ''gui/'' @ dec (unat uid); handle = domain @ ''/'' @ SERVICE_LABEL in
      [run_allow_failure api [''launchctl'', ''bootout'', domain, plist_path home],
       run_allow_failure api [''launchctl'', ''disable'', handle],
       remove_if_exists api (plist_path home)])"
| "macos_steps api t c home uid Status =
     [run_checked api [''launchctl'', ''print'', ''gui/'' @ dec (unat uid) @ ''/'' @ SERVICE_LABEL]]"
| "macos_steps api t c home uid (Logs follow n) =
     [run_checked api
        ([''tail'', ''-n'', dec n] @ (if follow then [''-f''] else []) @
         [path_join (logs_dir home) ''punchgate.log''])]"

definition run_macos_service_command ::
  "'os os_api \<Rightarrow> (string \<Rightarrow> string) \<Rightarrow> (string \<Rightarrow> string + 32 word) \<Rightarrow> cli_text \<Rightarrow> cli \<Rightarrow>
   service_command \<Rightarrow> 'os action" where
  "run_macos_service_command api trim parse_u32 t c cmd =
     with_value (punchgate_home_dir api) (\<lambda>home os.
       (case current_uid api trim parse_u32 os of
          (os', Inl e) \<Rightarrow> (os', Inl e)
        | (os', Inr uid) \<Rightarrow> run_steps (macos_steps api t c home uid cmd) os'))"

section \<open>What the commands achieve\<close>

text \<open>
  What the code relies on, for a set of files it owns.  \<open>content\<close> gives the contents of the regular
  files of a system state and \<open>commands_run\<close> the commands that were run; directories and links
  have no content.  Creating directories, writing and removing files change the owned files only as
  asked, and whatever else they do (directories that come into being, links, other files) is left open; a
  regular file exists, while other things may exist too; \<open>systemctl\<close> may change anything else (it
  links the unit on \<open>enable\<close>) but not the owned files; and the environment of this process does not change
  by any of these calls.
\<close>

definition environment :: "'os os_api \<Rightarrow> 'os \<Rightarrow>
  path option \<times> (string + path) \<times> (string + path) \<times> string option" where
  "environment api os = (os_home api os, os_cwd api os, os_exe api os, os_rust_log api os)"

definition systemctl :: "string list \<Rightarrow> bool" where
  "systemctl cmd \<longleftrightarrow> (case cmd of program # _ \<Rightarrow> program = ''systemctl'' | [] \<Rightarrow> False)"

definition os_ok ::
  "'os os_api \<Rightarrow> ('os \<Rightarrow> path \<Rightarrow> string option) \<Rightarrow> ('os \<Rightarrow> string list list) \<Rightarrow> path set \<Rightarrow> bool" where
  "os_ok api content commands_run own \<longleftrightarrow>
     (\<forall>p os os' r. os_create_dir_all api p os = (os', r) \<longrightarrow>
        environment api os' = environment api os \<and> commands_run os' = commands_run os \<and>
        (r = Inr () \<longrightarrow> (\<forall>q\<in>own. content os' q = content os q))) \<and>
     (\<forall>p v os os' r. os_write api p v os = (os', r) \<longrightarrow>
        environment api os' = environment api os \<and> commands_run os' = commands_run os \<and>
        (r = Inr () \<longrightarrow> p \<in> own \<longrightarrow> content os' p = Some v \<and> (\<forall>q\<in>own - {p}. content os' q = content os q))) \<and>
     (\<forall>p os os' r. os_remove api p os = (os', r) \<longrightarrow>
        environment api os' = environment api os \<and> commands_run os' = commands_run os \<and>
        (r = Inr () \<longrightarrow> p \<in> own \<longrightarrow> content os' p = None \<and> (\<forall>q\<in>own - {p}. content os' q = content os q))) \<and>
     (\<forall>p os. content os p \<noteq> None \<longrightarrow> os_exists api p os) \<and>
     (\<forall>cmd os os' r. systemctl cmd \<longrightarrow> os_status api cmd os = (os', r) \<longrightarrow>
        environment api os' = environment api os \<and> (\<forall>q\<in>own. content os' q = content os q) \<and>
        commands_run os' = (case r of Inl _ \<Rightarrow> commands_run os | Inr _ \<Rightarrow> commands_run os @ [cmd]))"

lemma os_laws:
  assumes "os_ok api content commands_run own"
  shows os_create_dir_law: "os_create_dir_all api p os = (os', r) \<Longrightarrow>
      environment api os' = environment api os \<and> commands_run os' = commands_run os \<and>
      (r = Inr () \<longrightarrow> (\<forall>q\<in>own. content os' q = content os q))"
    and os_write_law: "os_write api p v os = (os', r) \<Longrightarrow>
      environment api os' = environment api os \<and> commands_run os' = commands_run os \<and>
      (r = Inr () \<longrightarrow> p \<in> own \<longrightarrow> content os' p = Some v \<and> (\<forall>q\<in>own - {p}. content os' q = content os q))"
    and os_remove_law: "os_remove api p os = (os', r) \<Longrightarrow>
      environment api os' = environment api os \<and> commands_run os' = commands_run os \<and>
      (r = Inr () \<longrightarrow> p \<in> own \<longrightarrow> content os' p = None \<and> (\<forall>q\<in>own - {p}. content os' q = content os q))"
    and os_status_law: "systemctl cmd \<Longrightarrow> os_status api cmd os = (os', q) \<Longrightarrow>
      environment api os' = environment api os \<and> (\<forall>f\<in>own. content os' f = content os f) \<and>
      commands_run os' = (case q of Inl _ \<Rightarrow> commands_run os | Inr _ \<Rightarrow> commands_run os @ [cmd])"
    and os_exists_law: "content os p \<noteq> None \<Longrightarrow> os_exists api p os"
proof -
  note laws = assms [unfolded os_ok_def]
  note dirs = laws [THEN conjunct1] and rest = laws [THEN conjunct2]
  note writes = rest [THEN conjunct1] and rest2 = rest [THEN conjunct2]
  note removes = rest2 [THEN conjunct1] and rest3 = rest2 [THEN conjunct2]
  note exist = rest3 [THEN conjunct1] and statuses = rest3 [THEN conjunct2]
  show "os_create_dir_all api p os = (os', r) \<Longrightarrow>
      environment api os' = environment api os \<and> commands_run os' = commands_run os \<and>
      (r = Inr () \<longrightarrow> (\<forall>q\<in>own. content os' q = content os q))"
    by (rule dirs [THEN spec, THEN spec, THEN spec, THEN spec, THEN mp])
  show "os_write api p v os = (os', r) \<Longrightarrow>
      environment api os' = environment api os \<and> commands_run os' = commands_run os \<and>
      (r = Inr () \<longrightarrow> p \<in> own \<longrightarrow> content os' p = Some v \<and> (\<forall>q\<in>own - {p}. content os' q = content os q))"
    by (rule writes [THEN spec, THEN spec, THEN spec, THEN spec, THEN spec, THEN mp])
  show "os_remove api p os = (os', r) \<Longrightarrow>
      environment api os' = environment api os \<and> commands_run os' = commands_run os \<and>
      (r = Inr () \<longrightarrow> p \<in> own \<longrightarrow> content os' p = None \<and> (\<forall>q\<in>own - {p}. content os' q = content os q))"
    by (rule removes [THEN spec, THEN spec, THEN spec, THEN spec, THEN mp])
  show "systemctl cmd \<Longrightarrow> os_status api cmd os = (os', q) \<Longrightarrow>
      environment api os' = environment api os \<and> (\<forall>f\<in>own. content os' f = content os f) \<and>
      commands_run os' = (case q of Inl _ \<Rightarrow> commands_run os | Inr _ \<Rightarrow> commands_run os @ [cmd])"
    by (rule statuses [THEN spec, THEN spec, THEN spec, THEN spec, THEN mp, THEN mp])
  show "content os p \<noteq> None \<Longrightarrow> os_exists api p os"
    by (rule exist [THEN spec, THEN spec, THEN mp])
qed

text \<open>The files the service owns on Linux: its environment file and its unit file.\<close>

definition env_path_of :: "path \<Rightarrow> path" where
  "env_path_of home = path_join (path_join (path_join home ''.config'') ''punchgate'') ''punchgate.env''"

definition service_files :: "path \<Rightarrow> path set" where
  "service_files home = {env_path_of home, systemd_path home}"

lemma config_paths_differ:
  "env_path_of home \<noteq> systemd_path home"
  by (simp add: env_path_of_def systemd_path_def systemd_user_dir_def path_join_def is_absolute_def SYSTEMD_SERVICE_NAME_def)

lemma run_steps_append:
  "run_steps (xs @ ys) os =
     (case run_steps xs os of (os', Inl e) \<Rightarrow> (os', Inl e) | (os', Inr _) \<Rightarrow> run_steps ys os')"
  by (induction xs os rule: run_steps.induct) (auto split: prod.splits sum.splits)

lemma run_steps_ok:
  "run_steps [] os = (os', Inr ()) \<longleftrightarrow> os' = os"
  "run_steps (a # as) os = (os', Inr ()) \<longleftrightarrow> (\<exists>os1. a os = (os1, Inr ()) \<and> run_steps as os1 = (os', Inr ()))"
  by (auto split: prod.splits sum.splits)

lemma with_value_ok:
  "with_value get act os = (os', Inr ()) \<longleftrightarrow> (\<exists>v. get os = Inr v \<and> act v os = (os', Inr ()))"
  by (auto simp: with_value_def split: sum.splits)

text \<open>Actions that leave the environment and the commands alone, whatever their outcome.\<close>

definition quiet :: "'os os_api \<Rightarrow> ('os \<Rightarrow> string list list) \<Rightarrow> 'os action \<Rightarrow> bool" where
  "quiet api commands_run a \<longleftrightarrow>
     (\<forall>os os' r. a os = (os', r) \<longrightarrow>
        environment api os' = environment api os \<and> commands_run os' = commands_run os)"

lemma quiet_steps: "\<forall>a\<in>set as. quiet api commands_run a \<Longrightarrow> quiet api commands_run (run_steps as)"
proof (induction as)
  case Nil
  then show ?case by (simp add: quiet_def)
next
  case (Cons a as)
  show ?case
    unfolding quiet_def
  proof (intro allI impI)
    fix os os' r
    assume run: "run_steps (a # as) os = (os', r)"
    obtain os1 r1 where a: "a os = (os1, r1)" by force
    have "environment api os1 = environment api os \<and> commands_run os1 = commands_run os"
      using Cons.prems a by (simp add: quiet_def)
    moreover have "environment api os' = environment api os1 \<and> commands_run os' = commands_run os1"
    proof (cases r1)
      case (Inl e)
      with run a show ?thesis by simp
    next
      case (Inr u)
      have "quiet api commands_run (run_steps as)" using Cons by simp
      moreover have "run_steps as os1 = (os', r)" using run a Inr by simp
      ultimately show ?thesis unfolding quiet_def by blast
    qed
    ultimately show "environment api os' = environment api os \<and> commands_run os' = commands_run os"
      by simp
  qed
qed

lemma quiet_with_value:
  "(\<And>v. quiet api commands_run (act v)) \<Longrightarrow> quiet api commands_run (with_value get act)"
  by (auto simp: quiet_def with_value_def split: sum.splits)

lemma quiet_files:
  assumes "os_ok api content commands_run own"
  shows "quiet api commands_run (os_create_dir_all api p)" "quiet api commands_run (os_write api p v)"
    "quiet api commands_run (write_env_file api t c)"
  using os_create_dir_law [OF assms] os_write_law [OF assms]
  by (auto simp: quiet_def write_env_file_def with_value_def split: sum.splits)

text \<open>The steps of \<open>up\<close> on Linux before the first command.\<close>

definition linux_files :: "'os os_api \<Rightarrow> cli_text \<Rightarrow> cli \<Rightarrow> path \<Rightarrow> 'os action list" where
  "linux_files api t c home = take 4 (linux_steps api t c home Up)"

definition installed :: "'os os_api \<Rightarrow> ('os \<Rightarrow> path \<Rightarrow> string option) \<Rightarrow> cli_text \<Rightarrow> cli \<Rightarrow> 'os \<Rightarrow> 'os \<Rightarrow> bool" where
  "installed api content t c os os' \<longleftrightarrow>
     (\<exists>home exe env_path rendered. os_home api os = Some home \<and> os_exe api os = Inr exe \<and>
        app_env_file api os = Inr env_path \<and>
        render_env_file t (os_cwd api os) (os_rust_log api os) c = Inr rendered \<and>
        content os' env_path = Some rendered \<and>
        content os' (systemd_path home) = Some (render_systemd_service exe))"

lemma linux_files_installed:
  assumes ok: "os_ok api content commands_run (service_files home)" and home: "os_home api os = Some home"
    and run: "run_steps (linux_files api t c home) os = (os', r)"
  shows "environment api os' = environment api os \<and> commands_run os' = commands_run os \<and>
    (r = Inr () \<longrightarrow> installed api content t c os os')"
proof -
  have "\<forall>a\<in>set (linux_files api t c home). quiet api commands_run a"
    using quiet_files [OF ok] by (auto simp: linux_files_def intro!: quiet_with_value)
  from quiet_steps [OF this] run
  have "environment api os' = environment api os \<and> commands_run os' = commands_run os"
    by (simp add: quiet_def)
  moreover have "installed api content t c os os'" if "r = Inr ()"
  proof -
    obtain os1 os2 os3 rendered env_path exe where
      d1: "os_create_dir_all api (systemd_user_dir home) os = (os1, Inr ())"
      and d2: "\<exists>v. app_config_dir api os1 = Inr v \<and> os_create_dir_all api v os1 = (os2, Inr ())"
      and path: "app_env_file api os2 = Inr env_path"
      and rendered: "render_env_file t (os_cwd api os2) (os_rust_log api os2) c = Inr rendered"
      and w: "os_write api env_path rendered os2 = (os3, Inr ())"
      and exe: "os_exe api os3 = Inr exe"
      and u: "os_write api (systemd_path home) (render_systemd_service exe) os3 = (os', Inr ())"
      using run [unfolded \<open>r = Inr ()\<close>]
      by (auto simp: linux_files_def write_env_file_def run_steps_ok with_value_ok simp del: run_steps.simps)
    have "environment api os1 = environment api os" using os_create_dir_law [OF ok d1] by blast
    moreover have "environment api os2 = environment api os1" using os_create_dir_law [OF ok] d2 by blast
    moreover have "environment api os3 = environment api os2" using os_write_law [OF ok w] by blast
    ultimately have env: "os_home api os2 = os_home api os" "os_cwd api os2 = os_cwd api os"
      "os_exe api os3 = os_exe api os" "os_rust_log api os2 = os_rust_log api os"
      by (simp_all add: environment_def)
    have env_path: "env_path = env_path_of home" "app_env_file api os = Inr env_path"
      using path home env
      by (simp_all add: app_env_file_def app_config_dir_def punchgate_home_dir_def env_path_of_def)
    have "content os' env_path = Some rendered"
      "content os' (systemd_path home) = Some (render_systemd_service exe)"
      using os_write_law [OF ok w] os_write_law [OF ok u] config_paths_differ [of home] env_path(1)
      by (simp_all add: service_files_def)
    moreover have "os_exe api os = Inr exe" using exe env(3) by simp
    moreover have "render_env_file t (os_cwd api os) (os_rust_log api os) c = Inr rendered"
      using rendered env by simp
    ultimately show ?thesis using env_path(2) home unfolding installed_def by blast
  qed
  ultimately show ?thesis by blast
qed

definition linux_start :: "string list list" where
  "linux_start = [[''systemctl'', ''--user'', ''daemon-reload''],
     [''systemctl'', ''--user'', ''enable'', ''--now'', SYSTEMD_SERVICE_NAME]]"

lemma run_checked_law:
  assumes "os_ok api content commands_run own" and "systemctl cmd" and "run_checked api cmd os = (os', r)"
  shows "environment api os' = environment api os \<and> (\<forall>q\<in>own. content os' q = content os q) \<and>
    (commands_run os' = commands_run os \<and> r \<noteq> Inr () \<or> commands_run os' = commands_run os @ [cmd])"
  using assms(3) os_status_law [OF assms(1,2)]
  by (auto simp: run_checked_def split: prod.splits sum.splits if_splits)

lemma run_allow_failure_law:
  assumes "os_ok api content commands_run own" and "systemctl cmd" and "run_allow_failure api cmd os = (os', r)"
  shows "environment api os' = environment api os \<and> (\<forall>q\<in>own. content os' q = content os q) \<and>
    (r = Inr () \<longrightarrow> commands_run os' = commands_run os @ [cmd])"
  using assms(3) os_status_law [OF assms(1,2)]
  by (auto simp: run_allow_failure_def split: prod.splits sum.splits)

lemma installed_content:
  assumes "os_home api os = Some home" and "\<forall>q\<in>service_files home. content os' q = content os1 q"
  shows "installed api content t c os os' = installed api content t c os os1"
  using assms
  by (auto simp: installed_def service_files_def app_env_file_def app_config_dir_def punchgate_home_dir_def
      env_path_of_def)

section \<open>A simple system\<close>

text \<open>A system for the examples: files can be written only in directories that exist, \<open>systemctl enable\<close>
  links the unit if its file is there and fails otherwise, \<open>disable\<close> takes the link away.\<close>

record sample_os =
  sample_files :: "path \<Rightarrow> string option"
  sample_dirs :: "path list"
  sample_links :: "path list"
  sample_commands :: "string list list"

definition sample_unit :: path where
  "sample_unit = systemd_path ''/home/u''"

definition sample_systemctl :: "string list \<Rightarrow> sample_os \<Rightarrow> sample_os \<times> (string + bool)" where
  "sample_systemctl cmd os =
     (let os1 = os\<lparr>sample_commands := sample_commands os @ [cmd]\<rparr>;
          link = ''/home/u/.config/systemd/user/default.target.wants/punchgate.service'' in
      if ''enable'' \<in> set cmd then
        (if sample_files os sample_unit = None then (os1, Inr False)
         else (os1\<lparr>sample_links := link # sample_links os1\<rparr>, Inr True))
      else if ''disable'' \<in> set cmd then (os1\<lparr>sample_links := removeAll link (sample_links os1)\<rparr>, Inr True)
      else (os1, Inr True))"

definition sample_os_api :: "sample_os os_api" where
  "sample_os_api =
     \<lparr>os_home = (\<lambda>_. Some ''/home/u''), os_cwd = (\<lambda>_. Inr ''/home/u''),
      os_exe = (\<lambda>_. Inr ''/usr/bin/punchgate''), os_rust_log = (\<lambda>_. None),
      os_create_dir_all = (\<lambda>p os. (os\<lparr>sample_dirs := p # sample_dirs os\<rparr>, Inr ())),
      os_write = (\<lambda>p v os.
        if list_ex (\<lambda>d. take (length d) p = d) (sample_dirs os)
        then (os\<lparr>sample_files := (sample_files os)(p \<mapsto> v)\<rparr>, Inr ())
        else (os, Inl ''No such file or directory'')),
      os_exists = (\<lambda>p os. sample_files os p \<noteq> None \<or> p \<in> set (sample_dirs os) \<or> p \<in> set (sample_links os)),
      os_remove = (\<lambda>p os.
        if sample_files os p = None then (os, Inl ''No such file or directory'')
        else (os\<lparr>sample_files := (sample_files os)(p := None)\<rparr>, Inr ())),
      os_status = sample_systemctl,
      os_output = (\<lambda>cmd os. (os, Inr (True, ''1000'')))\<rparr>"

lemma sample_os_ok: "os_ok sample_os_api sample_files sample_commands own"
  unfolding os_ok_def
  by (auto simp: sample_os_api_def environment_def sample_systemctl_def Let_def split: if_splits)

text \<open>Before the first install there is nothing.\<close>

definition sample_system :: sample_os where
  "sample_system = \<lparr>sample_files = (\<lambda>_. None), sample_dirs = [], sample_links = [], sample_commands = []\<rparr>"

lemma sample_rendered: "\<exists>out. render_env_file sample_text (Inr ''/home/u'') None sample_cli = Inr out"
  by (simp add: render_env_file_def absolute_path_def is_absolute_def sample_cli_def)

lemma sample_home: "os_home sample_os_api os = Some ''/home/u''"
  by (simp add: sample_os_api_def)

text \<open>C37: On Linux \<open>up\<close> starts the service only when its files are in place: of the two systemctl
  commands only a prefix is run, and if any is run, the environment file holds the rendered
  configuration and the unit file starts this executable; when \<open>up\<close> succeeds both were run.  The
  system may have any directories, links and other files, before and after; of the calls it is only
  assumed that a successful write puts the text into its file, that nothing else changes the two files of the
  service, \<open>systemctl\<close> included, and that the environment of the process, in which the home directory is set,
  stays as it is.\<close>

theorem up_installs_before_start:
  assumes ok: "os_ok api content commands_run (service_files home)" and home: "os_home api os = Some home"
    and run: "run_linux_service_command api t c Up os = (os', r)"
  shows "\<exists>n\<le>2. commands_run os' = commands_run os @ take n linux_start \<and>
    (n \<noteq> 0 \<longrightarrow> installed api content t c os os') \<and> (r = Inr () \<longrightarrow> n = 2)"
proof -
  have split: "linux_steps api t c home Up =
      linux_files api t c home @ map (run_checked api) linux_start"
    by (simp add: linux_files_def linux_start_def)
  have manager: "systemctl (linux_start ! 0)" "systemctl (linux_start ! 1)"
    by (simp_all add: systemctl_def linux_start_def)
  obtain os1 r1 where files: "run_steps (linux_files api t c home) os = (os1, r1)" by force
  note placed = linux_files_installed [OF ok home files]
  have steps: "run_steps (linux_steps api t c home Up) os = (os', r)"
    using run home by (simp add: run_linux_service_command_def with_value_def punchgate_home_dir_def)
  show ?thesis
  proof (cases r1)
    case (Inl e)
    with steps files have "os' = os1" "r = Inl e"
      by (simp_all add: split run_steps_append del: linux_steps.simps)
    with placed show ?thesis by (intro exI [of _ 0]) simp
  next
    case (Inr u)
    then have inst: "installed api content t c os os1" "commands_run os1 = commands_run os"
      using placed by simp_all
    have rest: "run_steps (map (run_checked api) linux_start) os1 = (os', r)"
      using steps files Inr by (simp add: split run_steps_append del: linux_steps.simps)
    obtain os2 r2 where one: "run_checked api (linux_start ! 0) os1 = (os2, r2)" by force
    note law1 = run_checked_law [OF ok manager(1) one]
    show ?thesis
    proof (cases r2)
      case (Inl e)
      with rest one have "os' = os2" "r = Inl e" by (simp_all add: linux_start_def)
      with law1 inst installed_content [OF home, of content os2 os1] show ?thesis
        by (auto intro: exI [of _ 0] exI [of _ 1] simp: linux_start_def)
    next
      case (Inr u)
      with rest one have two: "run_steps [run_checked api (linux_start ! 1)] os2 = (os', r)"
        by (simp add: linux_start_def)
      obtain r3 where three: "run_checked api (linux_start ! 1) os2 = (os', r3)" "r3 = r"
        using two by (cases r) (auto split: prod.splits sum.splits)
      note law2 = run_checked_law [OF ok manager(2) three(1)]
      from law1 law2 Inr inst installed_content [OF home, of content os' os1] three(2) show ?thesis
        by (auto intro: exI [of _ 1] exI [of _ 2] simp: linux_start_def)
    qed
  qed
qed

theorem up_installs_before_start_witness:
  "\<exists>os'. run_linux_service_command sample_os_api sample_text sample_cli Up sample_system = (os', Inr ()) \<and>
     sample_commands os' = linux_start \<and> sample_links os' \<noteq> [] \<and>
     installed sample_os_api sample_files sample_text sample_cli sample_system os'"
proof -
  obtain os' where run:
    "run_linux_service_command sample_os_api sample_text sample_cli Up sample_system = (os', Inr ())"
    and links: "sample_links os' \<noteq> []"
    using sample_rendered
    by (auto simp: run_linux_service_command_def with_value_def punchgate_home_dir_def write_env_file_def
        app_env_file_def app_config_dir_def run_checked_def sample_os_api_def sample_systemctl_def sample_unit_def
        sample_system_def systemd_path_def systemd_user_dir_def path_join_def is_absolute_def
        SYSTEMD_SERVICE_NAME_def Let_def)
  from up_installs_before_start [OF sample_os_ok sample_home run] run links show ?thesis
    by (auto simp: sample_system_def linux_start_def)
qed

text \<open>On Linux \<open>down\<close>, when it succeeds, has removed the unit file and kept the environment file,
  whether or not the systemctl commands succeeded.\<close>

lemma down_removes_unit:
  assumes ok: "os_ok api content commands_run (service_files home)" and home: "os_home api os = Some home"
    and run: "run_linux_service_command api t c Down os = (os', Inr ())"
  shows "content os' (systemd_path home) = None \<and> content os' (env_path_of home) = content os (env_path_of home)"
proof -
  let ?disable = "[''systemctl'', ''--user'', ''disable'', ''--now'', SYSTEMD_SERVICE_NAME]"
    and ?reload = "[''systemctl'', ''--user'', ''daemon-reload'']"
  have "run_steps (linux_steps api t c home Down) os = (os', Inr ())"
    using run home by (simp add: run_linux_service_command_def with_value_def punchgate_home_dir_def)
  then obtain os1 os2 where one: "run_allow_failure api ?disable os = (os1, Inr ())"
    and two: "remove_if_exists api (systemd_path home) os1 = (os2, Inr ())"
    and three: "run_allow_failure api ?reload os2 = (os', Inr ())"
    by (auto simp: run_steps_ok simp del: run_steps.simps)
  have manager: "systemctl ?disable" "systemctl ?reload" by (simp_all add: systemctl_def)
  have "content os2 (systemd_path home) = None \<and> content os2 (env_path_of home) = content os1 (env_path_of home)"
  proof (cases "os_exists api (systemd_path home) os1")
    case True
    with two os_remove_law [OF ok, of "systemd_path home" os1 os2 "Inr ()"] config_paths_differ [of home]
    show ?thesis by (simp add: remove_if_exists_def service_files_def)
  next
    case False
    then have "content os1 (systemd_path home) = None" using os_exists_law [OF ok] by blast
    with False two show ?thesis by (auto simp: remove_if_exists_def)
  qed
  with run_allow_failure_law [OF ok manager(1) one] run_allow_failure_law [OF ok manager(2) three] show ?thesis
    by (simp add: service_files_def)
qed

lemma down_removes_unit_witness:
  "\<exists>os'. run_linux_service_command sample_os_api sample_text sample_cli Down
       (sample_system\<lparr>sample_files := [systemd_path ''/home/u'' \<mapsto> ''unit'']\<rparr>) =
       (os', Inr ()) \<and>
     sample_files os' (systemd_path ''/home/u'') = None"
proof -
  obtain os' where run: "run_linux_service_command sample_os_api sample_text sample_cli Down
       (sample_system\<lparr>sample_files := [systemd_path ''/home/u'' \<mapsto> ''unit'']\<rparr>) =
       (os', Inr ())"
    by (simp add: run_linux_service_command_def with_value_def punchgate_home_dir_def
        run_allow_failure_def remove_if_exists_def sample_os_api_def sample_systemctl_def sample_unit_def
        sample_system_def SYSTEMD_SERVICE_NAME_def Let_def)
  from down_removes_unit [OF sample_os_ok sample_home run] run show ?thesis by simp
qed

end
