(* ===== verification/Identity.thy ===== *)
theory Identity
  imports Service_Config
begin

text \<open>
  The identity file, \<open>src/src/identity.rs\<close>.  Key pairs, their encoding and the file system are
  parameters.
\<close>

record ('os, 'k) identity_api =
  id_exists :: "path \<Rightarrow> 'os \<Rightarrow> bool"
  id_read :: "path \<Rightarrow> 'os \<Rightarrow> string + string"
  id_decode :: "string \<Rightarrow> string + 'k"
  id_generate :: "'os \<Rightarrow> 'os \<times> 'k"
  id_encode :: "'k \<Rightarrow> string + string"
  id_parent :: "path \<Rightarrow> path option"
  id_create_dir_all :: "path \<Rightarrow> 'os \<Rightarrow> 'os \<times> (string + unit)"
  id_write :: "path \<Rightarrow> string \<Rightarrow> 'os \<Rightarrow> 'os \<times> (string + unit)"

datatype identity_error =
    ReadIdentity string
  | DecodeIdentity string
  | EncodeIdentity string
  | CreateDirectory string
  | WriteIdentity string

text \<open>The directory of the file is created when the path has one.\<close>

definition create_parent :: "('os, 'k) identity_api \<Rightarrow> path \<Rightarrow> 'os \<Rightarrow> 'os \<times> (string + unit)" where
  "create_parent api p os =
     (case id_parent api p of None \<Rightarrow> (os, Inr ()) | Some dir \<Rightarrow> id_create_dir_all api dir os)"

definition load_or_generate ::
  "('os, 'k) identity_api \<Rightarrow> path \<Rightarrow> 'os \<Rightarrow> 'os \<times> (identity_error + 'k)" where
  "load_or_generate api p os =
     (if id_exists api p os then
        (os, case id_read api p os of
               Inl e \<Rightarrow> Inl (ReadIdentity e)
             | Inr stored \<Rightarrow>
                 (case id_decode api stored of
                    Inl e \<Rightarrow> Inl (DecodeIdentity e)
                  | Inr keypair \<Rightarrow> Inr keypair))
      else
        (case id_generate api os of (os1, keypair) \<Rightarrow>
           (case id_encode api keypair of
              Inl e \<Rightarrow> (os1, Inl (EncodeIdentity e))
            | Inr encoded \<Rightarrow>
                (case create_parent api p os1 of
                   (os2, Inl e) \<Rightarrow> (os2, Inl (CreateDirectory e))
                 | (os2, Inr _) \<Rightarrow>
                     (case id_write api p encoded os2 of
                        (os3, Inl e) \<Rightarrow> (os3, Inl (WriteIdentity e))
                      | (os3, Inr _) \<Rightarrow> (os3, Inr keypair))))))"

text \<open>What the code relies on: decoding inverts encoding, and what was written is there and is read.\<close>

definition identity_ok :: "('os, 'k) identity_api \<Rightarrow> bool" where
  "identity_ok api \<longleftrightarrow>
     (\<forall>k b. id_encode api k = Inr b \<longrightarrow> id_decode api b = Inr k) \<and>
     (\<forall>p b os os'. id_write api p b os = (os', Inr ()) \<longrightarrow>
        id_exists api p os' \<and> id_read api p os' = Inr b)"

lemma keypair_kept:
  assumes ok: "identity_ok api" and first: "load_or_generate api p os = (os', Inr k)"
  shows "load_or_generate api p os' = (os', Inr k)"
proof (cases "id_exists api p os")
  case True
  with first show ?thesis by (auto simp: load_or_generate_def)
next
  case False
  with first obtain b os2 where "id_encode api k = Inr b" "id_write api p b os2 = (os', Inr ())"
    by (auto simp: load_or_generate_def split: prod.splits sum.splits)
  with ok have "id_exists api p os'" "id_read api p os' = Inr b" "id_decode api b = Inr k"
    unfolding identity_ok_def by blast+
  with False show ?thesis by (simp add: load_or_generate_def)
qed

text \<open>The identity is stable: once a start has loaded or generated a key pair, the next start loads
  the same key pair and changes nothing; an existing identity file is never written, even when it
  cannot be read or decoded.\<close>

lemma identity_stable:
  assumes ok: "identity_ok api" and first: "load_or_generate api p os = (os', r)"
  shows "(\<forall>k. r = Inr k \<longrightarrow> load_or_generate api p os' = (os', Inr k)) \<and>
    (id_exists api p os \<longrightarrow> os' = os)"
proof (intro conjI impI allI)
  show "load_or_generate api p os' = (os', Inr k)" if "r = Inr k" for k
    using keypair_kept [OF ok] first that by simp
  show "os' = os" if "id_exists api p os"
    using first that by (simp add: load_or_generate_def)
qed

text \<open>A file system that is a map, with a counter for the next key.\<close>

definition sample_identity :: "((path \<Rightarrow> string option) \<times> nat, nat) identity_api" where
  "sample_identity =
     \<lparr>id_exists = (\<lambda>p os. fst os p \<noteq> None),
      id_read = (\<lambda>p os. case fst os p of None \<Rightarrow> Inl ''missing'' | Some b \<Rightarrow> Inr b),
      id_decode = (\<lambda>b. Inr (length b)),
      id_generate = (\<lambda>os. ((fst os, Suc (snd os)), snd os)),
      id_encode = (\<lambda>k. Inr (replicate k CHR ''k'')),
      id_parent = (\<lambda>_. None),
      id_create_dir_all = (\<lambda>_ os. (os, Inr ())),
      id_write = (\<lambda>p b os. (((fst os)(p \<mapsto> b), snd os), Inr ()))\<rparr>"

lemma sample_identity_ok: "identity_ok sample_identity"
  by (simp add: identity_ok_def sample_identity_def)

lemma identity_stable_witness:
  "snd (load_or_generate sample_identity ''identity.key''
     (fst (load_or_generate sample_identity ''identity.key'' (\<lambda>_. None, 5)))) = Inr 5"
proof -
  obtain os' where e: "load_or_generate sample_identity ''identity.key'' (\<lambda>_. None, 5) = (os', Inr 5)"
    by (simp add: load_or_generate_def create_parent_def sample_identity_def)
  from identity_stable [OF sample_identity_ok e] show ?thesis unfolding e by simp
qed

end
