(* ===== verification/Program.thy ===== *)
theory Program
  imports Runtime Nat_Probe Service_Control Identity
begin

text \<open>
  The program as a whole: \<open>main\<close> and the choice of the service manager in \<open>src/src/main.rs\<close>, and the
  beginning of \<open>run\<close> in \<open>src/src/node/mod.rs\<close>, where the identity is loaded and the NAT is probed.
\<close>

section \<open>The service commands\<close>

datatype os_kind = Macos | Linux

text \<open>The target the program was compiled for is a parameter.\<close>

definition detect_os :: "string \<Rightarrow> string + os_kind" where
  "detect_os target_os =
     (if target_os = ''macos'' then Inr Macos
      else if target_os = ''linux'' then Inr Linux
      else Inl ''service management is supported only on macOS and Linux'')"

definition run_service_command ::
  "string \<Rightarrow> 'os os_api \<Rightarrow> (string \<Rightarrow> string) \<Rightarrow> (string \<Rightarrow> string + 32 word) \<Rightarrow> cli_text \<Rightarrow> cli \<Rightarrow>
   service_command \<Rightarrow> 'os action" where
  "run_service_command target_os api trim parse_u32 t c cmd os =
     (case detect_os target_os of
        Inl e \<Rightarrow> (os, Inl e)
      | Inr Macos \<Rightarrow> run_macos_service_command api trim parse_u32 t c cmd os
      | Inr Linux \<Rightarrow> run_linux_service_command api t c cmd os)"

section \<open>The configuration\<close>

record runtime_config =
  rt_identity_path :: path
  rt_listen_addrs :: "multiaddr list"
  rt_bootstrap_addrs :: "multiaddr list"
  rt_exposed :: "exposed_service list"
  rt_tunnel_specs :: "tunnel_spec list"
  rt_by_name_specs :: "tunnel_by_name_spec list"

definition runtime_config_from :: "cli \<Rightarrow> runtime_config" where
  "runtime_config_from c =
     \<lparr>rt_identity_path = cli_identity c, rt_listen_addrs = cli_listen c,
      rt_bootstrap_addrs = cli_bootstrap c, rt_exposed = cli_expose c,
      rt_tunnel_specs = cli_tunnel c, rt_by_name_specs = cli_by_name c\<rparr>"

definition node_config_of :: "runtime_config \<Rightarrow> node_config" where
  "node_config_of cfg =
     \<lparr>cfg_identity = rt_identity_path cfg, cfg_listen = rt_listen_addrs cfg,
      cfg_bootstrap = rt_bootstrap_addrs cfg, cfg_exposed = rt_exposed cfg,
      cfg_tunnels = rt_tunnel_specs cfg, cfg_by_name = rt_by_name_specs cfg\<rparr>"

section \<open>Running the node\<close>

datatype start_error =
    IdentityFailed identity_error
  | TransportFailed string
  | BehaviourFailed string
  | ProtocolTaken
  | StartFailed string

text \<open>What the node is run with: the calls it makes on the files and the network, the answers of the
  libp2p builder, and the features compiled in.\<close>

record ('os, 'net, 'k, 't, 'sw) run_api =
  run_identity :: "('os, 'k) identity_api"
  run_stun :: "'net stun_api"
  run_peer_id :: "'k \<Rightarrow> peer_id"
  run_transport :: "'k \<Rightarrow> string + 't"
  run_accepted :: "string \<Rightarrow> bool"
  run_features :: features
  run_mdns :: "string + unit"
  run_build :: "'t \<Rightarrow> behaviour_settings \<Rightarrow> 'sw"
  run_accept :: "string \<Rightarrow> 'sw \<Rightarrow> 'sw \<times> bool"

definition probe_nat :: "'net stun_api \<Rightarrow> node_config \<Rightarrow> 'net \<Rightarrow> 'net \<times> nat_mapping" where
  "probe_nat api cfg net =
     (if cfg_bootstrap cfg = [] then (net, MappingUnknown)
      else detect_nat_mapping api DEFAULT_STUN_SERVERS net)"

text \<open>The swarm, with the tunnel protocol registered for incoming streams.\<close>

definition build_swarm :: "('os, 'net, 'k, 't, 'sw) run_api \<Rightarrow> 'k \<Rightarrow> (start_error + 'sw) option" where
  "build_swarm api keypair =
     (case run_transport api keypair of
        Inl e \<Rightarrow> Some (Inl (TransportFailed e))
      | Inr transport \<Rightarrow>
     (case new_behaviour (run_accepted api) (run_features api) (run_mdns api) (run_peer_id api keypair) of
        None \<Rightarrow> None
      | Some (Inl e) \<Rightarrow> Some (Inl (BehaviourFailed e))
      | Some (Inr settings) \<Rightarrow>
     (case tunnel_protocol (run_accepted api) of
        None \<Rightarrow> None
      | Some protocol \<Rightarrow>
          (case run_accept api protocol (run_build api transport settings) of
             (swarm, registered) \<Rightarrow>
               Some (if registered then Inr swarm else Inl ProtocolTaken)))))"

definition start_run ::
  "('os, 'net, 'k, 't, 'sw) run_api \<Rightarrow> 'sw node_world \<Rightarrow> node_config \<Rightarrow> 'os \<times> 'net \<Rightarrow>
   ('os \<times> 'net) \<times> (start_error + 'sw node_state) option" where
  "start_run api w cfg sys =
     (case load_or_generate (run_identity api) (cfg_identity cfg) (fst sys) of
        (os, Inl e) \<Rightarrow> ((os, snd sys), Some (Inl (IdentityFailed e)))
      | (os, Inr keypair) \<Rightarrow>
          (let (net, nat_mapping) = probe_nat (run_stun api) cfg (snd sys) in
           ((os, net),
            case build_swarm api keypair of
              None \<Rightarrow> None
            | Some (Inl e) \<Rightarrow> Some (Inl e)
            | Some (Inr swarm) \<Rightarrow>
                (case node_start w cfg nat_mapping swarm of
                   Inl e \<Rightarrow> Some (Inl (StartFailed e))
                 | Inr None \<Rightarrow> None
                 | Inr (Some n) \<Rightarrow> Some (Inr n)))))"

text \<open>\<open>main\<close>: a service command is carried out and ends the program; without one the node runs.\<close>

datatype 'sw main_outcome =
    ServiceDone "string + unit"
  | NodePanicked
  | NodeFailed start_error
  | NodeRunning "'sw node_state"

fun main_outcome_of :: "(start_error + 'sw node_state) option \<Rightarrow> 'sw main_outcome" where
  "main_outcome_of None = NodePanicked"
| "main_outcome_of (Some (Inl e)) = NodeFailed e"
| "main_outcome_of (Some (Inr n)) = NodeRunning n"

definition run_main ::
  "string \<Rightarrow> 'os os_api \<Rightarrow> (string \<Rightarrow> string) \<Rightarrow> (string \<Rightarrow> string + 32 word) \<Rightarrow> cli_text \<Rightarrow>
   ('os, 'net, 'k, 't, 'sw) run_api \<Rightarrow> 'sw node_world \<Rightarrow> cli \<Rightarrow> service_command option \<Rightarrow> 'os \<times> 'net \<Rightarrow>
   ('os \<times> 'net) \<times> 'sw main_outcome" where
  "run_main target_os api trim parse_u32 t rapi w c command sys =
     (case command of
        Some cmd \<Rightarrow>
          (case run_service_command target_os api trim parse_u32 t c cmd (fst sys) of
             (os, r) \<Rightarrow> ((os, snd sys), ServiceDone r))
      | None \<Rightarrow>
          (case start_run rapi w (node_config_of (runtime_config_from c)) sys of
             (sys', r) \<Rightarrow> (sys', main_outcome_of r)))"

section \<open>The command line decides\<close>

text \<open>The tunnels asked for on the command line.\<close>

definition asked_for :: "cli \<Rightarrow> tunnel_target multiset" where
  "asked_for c = mset (map (\<lambda>spec. (spec_service spec, spec_bind spec)) (cli_tunnel c)) +
     mset (map (\<lambda>spec. (by_name_service spec, by_name_bind spec)) (cli_by_name c))"

lemma asked_for_requested: "requested (node_config_of (runtime_config_from c)) = asked_for c"
  by (simp add: requested_def asked_for_def node_config_of_def runtime_config_from_def)

lemma main_running:
  assumes "run_main target_os api trim parse_u32 t rapi w c command (os, net) = ((os', net'), NodeRunning n)"
  obtains k m swarm where "command = None"
    "load_or_generate (run_identity rapi) (cli_identity c) os = (os', Inr k)"
    "probe_nat (run_stun rapi) (node_config_of (runtime_config_from c)) net = (net', m)"
    "build_swarm rapi k = Some (Inr swarm)"
    "node_start w (node_config_of (runtime_config_from c)) m swarm = Inr (Some n)"
proof -
  have outcome: "main_outcome_of r = NodeRunning n \<longleftrightarrow> r = Some (Inr n)" for r
    by (cases r rule: main_outcome_of.cases) auto
  have id: "cfg_identity (node_config_of (runtime_config_from c)) = cli_identity c"
    by (simp add: node_config_of_def runtime_config_from_def)
  have "command = None \<and> start_run rapi w (node_config_of (runtime_config_from c)) (os, net) =
      ((os', net'), Some (Inr n))"
    using assms by (auto simp: run_main_def outcome split: option.splits prod.splits)
  then show thesis
    by (auto simp: start_run_def id split: prod.splits sum.splits option.splits intro: that)
qed

text \<open>Where every name with a leading slash is a protocol, no start panics for its protocols.\<close>

lemma build_swarm_no_panic: "accepts_slash (run_accepted rapi) \<Longrightarrow> build_swarm rapi k \<noteq> None"
proof -
  assume ok: "accepts_slash (run_accepted rapi)"
  obtain r where "new_behaviour (run_accepted rapi) (run_features rapi) (run_mdns rapi) (run_peer_id rapi k) =
      Some r" and "tunnel_protocol (run_accepted rapi) = Some TUNNEL_PROTOCOL"
    using behaviours_configured [OF ok] by blast
  then show ?thesis
    by (auto simp: build_swarm_def split: sum.splits prod.splits)
qed

text \<open>C33: The program started in the foreground does what its command line asks: only without a service
  command does a node run; it runs under an identity that the next start finds again, the network is
  probed only when bootstrap peers are given, and throughout the run the node accounts for exactly
  the tunnels of the command line, each either held by the state machine or served by one task.\<close>

theorem program_follows_command_line:
  assumes "identity_ok (run_identity rapi)" and "env_ok (w_env w)"
    and start: "run_main target_os api trim parse_u32 t rapi w c command (os, net) =
      ((os', net'), NodeRunning n0)"
    and "node_run n0 n"
  shows "command = None \<and>
    (\<exists>k swarm. load_or_generate (run_identity rapi) (cli_identity c) os' = (os', Inr k) \<and>
      build_swarm rapi k = Some (Inr swarm)) \<and>
    (cli_bootstrap c = [] \<longrightarrow> net' = net) \<and>
    targets_held (app_tunnel (nd_app n)) + image_mset snd (running_tasks (nd_ctx n)) = asked_for c"
proof -
  let ?cfg = "node_config_of (runtime_config_from c)"
  obtain k m swarm where none: "command = None"
    and id: "load_or_generate (run_identity rapi) (cli_identity c) os = (os', Inr k)"
    and probe: "probe_nat (run_stun rapi) ?cfg net = (net', m)"
    and swarm: "build_swarm rapi k = Some (Inr swarm)" and node: "node_start w ?cfg m swarm = Inr (Some n0)"
    using start by (rule main_running)
  have again: "load_or_generate (run_identity rapi) (cli_identity c) os' = (os', Inr k)"
    using assms(1) id by (rule keypair_kept)
  have "cli_bootstrap c = [] \<longrightarrow> net' = net"
    using probe by (auto simp: probe_nat_def node_config_of_def runtime_config_from_def)
  moreover have "accounted n = asked_for c"
    using run_accounted [OF assms(2) node assms(4)] by (simp add: asked_for_requested)
  ultimately show ?thesis using none again swarm by (auto simp: accounted_def)
qed

definition sample_run_api ::
  "((path \<Rightarrow> string option) \<times> nat, sample_net, nat, unit, recording_swarm) run_api" where
  "sample_run_api =
     \<lparr>run_identity = sample_identity, run_stun = sample_stun (\<lambda>_. SocketV4 (Ipv4 203 0 113 1) 5),
      run_peer_id = (\<lambda>_. PeerId ''me''), run_transport = (\<lambda>_. Inr ()),
      run_accepted = (\<lambda>s. take 1 s = ''/''),
      run_features = \<lparr>feature_mdns = False, feature_autonat = True\<rparr>, run_mdns = Inr (),
      run_build = (\<lambda>_ _. empty_swarm), run_accept = (\<lambda>_ swarm. (swarm, True))\<rparr>"

lemma sample_builds: "build_swarm sample_run_api k = Some (Inr empty_swarm)"
  by (simp add: build_swarm_def sample_run_api_def new_behaviour_def kad_protocol_def tunnel_protocol_def
      KAD_PROTOCOL_def TUNNEL_PROTOCOL_def)

definition sample_command_line :: cli where
  "sample_command_line =
     \<lparr>cli_identity = ''identity.key'', cli_listen = [], cli_bootstrap = [], cli_expose = [],
      cli_tunnel = cfg_tunnels sample_config, cli_by_name = []\<rparr>"

theorem program_follows_command_line_witness:
  "\<forall>api trim parse_u32 t. \<exists>os net n. run_main ''linux'' api trim parse_u32 t sample_run_api (sample_world 0)
       sample_command_line None ((\<lambda>_. None, 5), \<lparr>arriving = []\<rparr>) = ((os, net), NodeRunning n) \<and>
     load_or_generate sample_identity ''identity.key'' os = (os, Inr 5)"
proof (intro allI)
  fix api :: "((path \<Rightarrow> string option) \<times> nat) os_api" and trim parse_u32 t
  have cfg: "node_config_of (runtime_config_from sample_command_line) = sample_config"
    by (simp add: node_config_of_def runtime_config_from_def sample_command_line_def sample_config_def)
  obtain n where n: "node_start (sample_world 0) sample_config MappingUnknown empty_swarm = Inr (Some n)"
    using sample_start by blast
  have first: "load_or_generate sample_identity ''identity.key'' (\<lambda>_. None, 5) =
      (([''identity.key'' \<mapsto> replicate 5 CHR ''k''], 6), Inr 5)"
    by (simp add: load_or_generate_def create_parent_def sample_identity_def)
  have api: "run_identity sample_run_api = sample_identity" "cfg_identity sample_config = ''identity.key''"
    "cfg_bootstrap sample_config = []"
    by (simp_all add: sample_run_api_def sample_config_def)
  have start: "run_main ''linux'' api trim parse_u32 t sample_run_api (sample_world 0)
       sample_command_line None ((\<lambda>_. None, 5), \<lparr>arriving = []\<rparr>) =
       (((([''identity.key'' \<mapsto> replicate 5 CHR ''k''], 6)), \<lparr>arriving = []\<rparr>), NodeRunning n)"
    using n first by (simp add: run_main_def cfg start_run_def api probe_nat_def sample_builds)
  have "identity_ok (run_identity sample_run_api)"
    by (simp add: api sample_identity_ok)
  from program_follows_command_line [OF this sample_world_ok start run_start] start
  show "\<exists>os net n. run_main ''linux'' api trim parse_u32 t sample_run_api (sample_world 0)
       sample_command_line None ((\<lambda>_. None, 5), \<lparr>arriving = []\<rparr>) = ((os, net), NodeRunning n) \<and>
     load_or_generate sample_identity ''identity.key'' os = (os, Inr 5)"
    by (auto simp: api sample_command_line_def load_or_generate_def sample_identity_def)
qed

end
