(* ===== verification/Wire.thy ===== *)
theory Wire
  imports Specs Registry
begin

text \<open>
  The tunnel protocol of \<open>src/src/tunnel.rs\<close>: length-prefixed JSON messages, the server side
  (\<open>accept_loop\<close>, \<open>handle_tunnel\<close>) and the client side (\<open>connect_tunnel\<close>,
  \<open>client_tunnel_session\<close>).  The JSON codec (\<open>serde_json\<close>) and the TCP sockets are parameters; a
  libp2p stream is the bytes still to be read and the bytes written.
\<close>

section \<open>Messages\<close>

record tunnel_request =
  req_service :: service_name

record tunnel_response =
  accepted :: bool
  reason :: "string option"

type_synonym bytes = "8 word list"

text \<open>\<open>serde_json::to_vec\<close> and \<open>serde_json::from_slice\<close> at one type.\<close>

record 'm json =
  to_vec :: "'m \<Rightarrow> string + bytes"
  from_slice :: "bytes \<Rightarrow> string + 'm"

text \<open>What the code relies on: decoding gives back what was encoded.\<close>

definition json_ok :: "'m json \<Rightarrow> bool" where
  "json_ok j \<longleftrightarrow> (\<forall>m data. to_vec j m = Inr data \<longrightarrow> from_slice j data = Inr m)"

datatype wire_error =
    JsonError string
  | TooLargeForPrefix
  | UnexpectedEof
  | WriteFailed
  | FlushFailed
  | MessageTooLarge nat
  | ConnectFailed string
  | TunnelRejected string
  | CopyFailed string

section \<open>Streams\<close>

record byte_stream =
  inbox :: bytes
  outbox :: bytes
  writable :: bool
  flushable :: bool

text \<open>\<open>read_exact\<close>, \<open>write_all\<close> and \<open>flush\<close>; a write and a flush fail independently.\<close>

definition read_exact :: "nat \<Rightarrow> byte_stream \<Rightarrow> byte_stream \<times> (wire_error + bytes)" where
  "read_exact n st =
     (if n \<le> length (inbox st) then (st\<lparr>inbox := drop n (inbox st)\<rparr>, Inr (take n (inbox st)))
      else (st\<lparr>inbox := []\<rparr>, Inl UnexpectedEof))"

definition write_all :: "bytes \<Rightarrow> byte_stream \<Rightarrow> byte_stream \<times> (wire_error + unit)" where
  "write_all data st =
     (if writable st then (st\<lparr>outbox := outbox st @ data\<rparr>, Inr ()) else (st, Inl WriteFailed))"

definition flush :: "byte_stream \<Rightarrow> byte_stream \<times> (wire_error + unit)" where
  "flush st = (st, if flushable st then Inr () else Inl FlushFailed)"

text \<open>\<open>u32::to_be_bytes\<close> and \<open>u32::from_be_bytes\<close>.\<close>

definition to_be_bytes :: "32 word \<Rightarrow> bytes" where
  "to_be_bytes w = [ucast (drop_bit 24 w), ucast (drop_bit 16 w), ucast (drop_bit 8 w), ucast w]"

fun from_be_bytes :: "bytes \<Rightarrow> 32 word" where
  "from_be_bytes [a, b, c, d] =
     or (or (push_bit 24 (ucast a)) (push_bit 16 (ucast b))) (or (push_bit 8 (ucast c)) (ucast d))"
| "from_be_bytes _ = 0"

lemma length_to_be_bytes [simp]: "length (to_be_bytes w) = 4"
  by (simp add: to_be_bytes_def)

lemma from_to_be_bytes [simp]: "from_be_bytes (to_be_bytes w) = w"
proof (rule bit_word_eqI)
  fix n
  assume n: "n < LENGTH(32)"
  consider "n < 8" | "8 \<le> n" "n < 16" | "16 \<le> n" "n < 24" | "24 \<le> n" "n < 32"
    using n by fastforce
  then show "bit (from_be_bytes (to_be_bytes w)) n = bit w n"
    by cases (auto simp: to_be_bytes_def bit_simps)
qed

section \<open>Reading and writing a message\<close>

definition MAX_MESSAGE_SIZE :: nat where
  "MAX_MESSAGE_SIZE = 65536"

definition write_message ::
  "'m json \<Rightarrow> 'm \<Rightarrow> byte_stream \<Rightarrow> byte_stream \<times> (wire_error + unit)" where
  "write_message j msg st =
     (case to_vec j msg of
        Inl e \<Rightarrow> (st, Inl (JsonError e))
      | Inr data \<Rightarrow>
          if 2 ^ 32 \<le> length data then (st, Inl TooLargeForPrefix)
          else
            (case write_all (to_be_bytes (word_of_nat (length data))) st of
               (st1, Inl e) \<Rightarrow> (st1, Inl e)
             | (st1, Inr _) \<Rightarrow>
                 (case write_all data st1 of
                    (st2, Inl e) \<Rightarrow> (st2, Inl e)
                  | (st2, Inr _) \<Rightarrow> flush st2)))"

definition read_message :: "'m json \<Rightarrow> byte_stream \<Rightarrow> byte_stream \<times> (wire_error + 'm)" where
  "read_message j st =
     (case read_exact 4 st of
        (st1, Inl e) \<Rightarrow> (st1, Inl e)
      | (st1, Inr len_buf) \<Rightarrow>
          (let len = unat (from_be_bytes len_buf) in
           if len \<le> MAX_MESSAGE_SIZE then
             (case read_exact len st1 of
                (st2, Inl e) \<Rightarrow> (st2, Inl e)
              | (st2, Inr buf) \<Rightarrow>
                  (st2, case from_slice j buf of Inl e \<Rightarrow> Inl (JsonError e) | Inr m \<Rightarrow> Inr m))
           else (st1, Inl (MessageTooLarge len))))"

section \<open>The server side\<close>

text \<open>How a handled tunnel ends; the copying between the two sockets is not modelled.\<close>

datatype tunnel_end = Refused | Bridged service_addr

definition unknown_service_reason :: "service_name \<Rightarrow> string" where
  "unknown_service_reason name = ''unknown service: '' @ service_name_str name"

text \<open>\<open>tcp_connect\<close> is \<open>TcpStream::connect\<close> at host and port.\<close>

definition handle_tunnel ::
  "tunnel_request json \<Rightarrow> tunnel_response json \<Rightarrow> v6_text \<Rightarrow> (string \<times> 16 word \<Rightarrow> string + unit) \<Rightarrow>
   (service_name, service_addr) fmap \<Rightarrow> byte_stream \<Rightarrow> byte_stream \<times> (wire_error + tunnel_end)" where
  "handle_tunnel jreq jresp t tcp_connect services st =
     (case read_message jreq st of
        (st1, Inl e) \<Rightarrow> (st1, Inl e)
      | (st1, Inr request) \<Rightarrow>
          (case fmlookup services (req_service request) of
             None \<Rightarrow>
               (case write_message jresp
                  \<lparr>accepted = False, reason = Some (unknown_service_reason (req_service request))\<rparr> st1 of
                  (st2, Inl e) \<Rightarrow> (st2, Inl e)
                | (st2, Inr _) \<Rightarrow> (st2, Inr Refused))
           | Some addr \<Rightarrow>
               (case tcp_connect (connect_tuple t addr) of
                  Inl e \<Rightarrow> (st1, Inl (ConnectFailed e))
                | Inr _ \<Rightarrow>
                    (case write_message jresp \<lparr>accepted = True, reason = None\<rparr> st1 of
                       (st2, Inl e) \<Rightarrow> (st2, Inl e)
                     | (st2, Inr _) \<Rightarrow> (st2, Inr (Bridged addr))))))"

text \<open>\<open>accept_loop\<close> handles each incoming stream in a task of its own.\<close>

definition accept_loop ::
  "tunnel_request json \<Rightarrow> tunnel_response json \<Rightarrow> v6_text \<Rightarrow> (string \<times> 16 word \<Rightarrow> string + unit) \<Rightarrow>
   (service_name, service_addr) fmap \<Rightarrow> (peer_id \<times> byte_stream) list \<Rightarrow>
   (peer_id \<times> byte_stream \<times> (wire_error + tunnel_end)) list" where
  "accept_loop jreq jresp t tcp_connect services incoming =
     map (\<lambda>(peer, st). (peer, handle_tunnel jreq jresp t tcp_connect services st)) incoming"

section \<open>The client side\<close>

text \<open>
  \<open>reply\<close> gives what the remote side sends in answer to the bytes written so far; \<open>copy\<close> is the
  outcome of \<open>copy_bidirectional\<close>.
\<close>

definition client_tunnel_session ::
  "tunnel_request json \<Rightarrow> tunnel_response json \<Rightarrow> (bytes \<Rightarrow> bytes) \<Rightarrow> string + unit \<Rightarrow> service_name \<Rightarrow>
   byte_stream \<Rightarrow> byte_stream \<times> (wire_error + unit)" where
  "client_tunnel_session jreq jresp reply copy service st =
     (case write_message jreq \<lparr>req_service = service\<rparr> st of
        (st1, Inl e) \<Rightarrow> (st1, Inl e)
      | (st1, Inr _) \<Rightarrow>
          (case read_message jresp (st1\<lparr>inbox := inbox st1 @ reply (outbox st1)\<rparr>) of
             (st2, Inl e) \<Rightarrow> (st2, Inl e)
           | (st2, Inr response) \<Rightarrow>
               if accepted response then
                 (case copy of Inl e \<Rightarrow> (st2, Inl (CopyFailed e)) | Inr _ \<Rightarrow> (st2, Inr ()))
               else
                 (st2, Inl (TunnelRejected
                    (case reason response of None \<Rightarrow> ''unknown'' | Some r \<Rightarrow> r)))))"

text \<open>
  \<open>connect_tunnel\<close>: bind and ask the listener for its address, then for each accepted client look the
  peer up in the registry of direct peers, which only the log reads, open a stream to it and start a
  session on the stream.  A client comes with the registry at its moment and with the outcome of opening
  a stream to a peer.  The result is the list of started sessions and, when the loop has ended, the
  error that ended it.
\<close>

datatype tunnel_task_error =
    BindFailed string
  | LocalAddrFailed string
  | AcceptFailed string
  | OpenStreamFailed string

type_synonym ('c, 'st) tunnel_client = "'c \<times> direct_peer_registry \<times> (peer_id \<Rightarrow> string + 'st)"

text \<open>A spawned \<open>client_tunnel_session\<close>: its client, the peer, service and path of its log lines, and
  its stream.\<close>

record ('c, 'st) tunnel_session =
  ses_client :: 'c
  ses_peer :: peer_id
  ses_service :: service_name
  ses_path :: string
  ses_stream :: 'st

definition path_label :: "direct_peer_registry \<Rightarrow> peer_id \<Rightarrow> string" where
  "path_label registry peer = (if is_direct registry peer then ''direct'' else ''relay'')"

fun client_loop ::
  "peer_id \<Rightarrow> service_name \<Rightarrow> (string + ('c, 'st) tunnel_client) list \<Rightarrow>
   ('c, 'st) tunnel_session list \<times> tunnel_task_error option" where
  "client_loop peer service [] = ([], None)"
| "client_loop peer service (Inl e # _) = ([], Some (AcceptFailed e))"
| "client_loop peer service (Inr (c, registry, open_stream) # rest) =
     (let direct_path_ready = path_label registry peer in
      case open_stream peer of
        Inl e \<Rightarrow> ([], Some (OpenStreamFailed e))
      | Inr st \<Rightarrow>
          (let (sessions, ending) = client_loop peer service rest
           in (\<lparr>ses_client = c, ses_peer = peer, ses_service = service, ses_path = direct_path_ready,
                ses_stream = st\<rparr> # sessions, ending)))"

text \<open>\<open>tcp_bind\<close> gives the listener, by the outcome of asking it for its address.\<close>

definition connect_tunnel ::
  "v6_text \<Rightarrow> (string \<times> 16 word \<Rightarrow> string + (string + 'a)) \<Rightarrow> peer_id \<Rightarrow> service_name \<Rightarrow> service_addr \<Rightarrow>
   (string + ('c, 'st) tunnel_client) list \<Rightarrow> ('c, 'st) tunnel_session list \<times> tunnel_task_error option" where
  "connect_tunnel t tcp_bind peer service bind clients =
     (case tcp_bind (connect_tuple t bind) of
        Inl e \<Rightarrow> ([], Some (BindFailed e))
      | Inr (Inl e) \<Rightarrow> ([], Some (LocalAddrFailed e))
      | Inr (Inr actual_addr) \<Rightarrow> client_loop peer service clients)"

section \<open>Round trips\<close>

lemma read_exact_append:
  "read_exact (length xs) \<lparr>inbox = xs @ ys, outbox = o1, writable = w, flushable = f\<rparr> =
     (\<lparr>inbox = ys, outbox = o1, writable = w, flushable = f\<rparr>, Inr xs)"
  by (simp add: read_exact_def)

text \<open>The bytes of a message on the wire.\<close>

definition frame :: "bytes \<Rightarrow> bytes" where
  "frame data = to_be_bytes (word_of_nat (length data)) @ data"

lemma write_message_ok:
  "to_vec j msg = Inr data \<Longrightarrow> length data < 2 ^ 32 \<Longrightarrow> writable st \<Longrightarrow>
     write_message j msg st =
       (st\<lparr>outbox := outbox st @ frame data\<rparr>, if flushable st then Inr () else Inl FlushFailed)"
  by (simp add: write_message_def write_all_def flush_def frame_def)

lemma read_frame:
  assumes "length data < 2 ^ 32" and "inbox st = frame data @ rest"
  shows "read_message j st =
    (if length data \<le> MAX_MESSAGE_SIZE
     then (st\<lparr>inbox := rest\<rparr>,
           case from_slice j data of Inl e \<Rightarrow> Inl (JsonError e) | Inr m \<Rightarrow> Inr m)
     else (st\<lparr>inbox := data @ rest\<rparr>, Inl (MessageTooLarge (length data))))"
proof -
  let ?len = "to_be_bytes (word_of_nat (length data) :: 32 word)"
  have four: "4 = length ?len" by simp
  have len: "unat (word_of_nat (length data) :: 32 word) = length data"
    using assms(1) by (simp add: unat_of_nat take_bit_nat_eq_self)
  have header: "read_exact 4 st = (st\<lparr>inbox := data @ rest\<rparr>, Inr ?len)"
    unfolding read_exact_def assms(2) frame_def by (simp add: four del: length_to_be_bytes)
  have body: "read_exact (length data) (st\<lparr>inbox := data @ rest\<rparr>) = (st\<lparr>inbox := rest\<rparr>, Inr data)"
    by (simp add: read_exact_def)
  show ?thesis
    by (simp add: read_message_def header body len Let_def)
qed

text \<open>C28: A message of up to 65536 bytes that one side writes is the message the other side
  reads, and what follows it in the stream is left for the next read; the writer fails only if the final
  flush does.\<close>

theorem message_roundtrip:
  assumes "json_ok j" and "to_vec j msg = Inr data" and "length data \<le> 65536"
    and "writable st" and "inbox st' = drop (length (outbox st)) (outbox (fst (write_message j msg st))) @ rest"
  shows "snd (write_message j msg st) = (if flushable st then Inr () else Inl FlushFailed) \<and>
    read_message j st' = (st'\<lparr>inbox := rest\<rparr>, Inr msg)"
proof -
  have w: "write_message j msg st =
      (st\<lparr>outbox := outbox st @ frame data\<rparr>, if flushable st then Inr () else Inl FlushFailed)"
    using assms by (intro write_message_ok) simp_all
  then have "inbox st' = frame data @ rest" using assms(5) by simp
  moreover have "from_slice j data = Inr msg" using assms(1,2) by (simp add: json_ok_def)
  ultimately show ?thesis
    using assms(3) w read_frame [of data st' rest j] by (simp add: MAX_MESSAGE_SIZE_def)
qed

text \<open>A codec that writes the characters of the service name.\<close>

definition char_byte :: "char \<Rightarrow> 8 word" where
  "char_byte c = word_of_nat (of_char c)"

definition byte_char :: "8 word \<Rightarrow> char" where
  "byte_char b = char_of (unat b)"

lemma char_of_byte: "byte_char (char_byte c) = c"
  using nat_of_char_less_256 [of c]
  by (simp add: byte_char_def char_byte_def unat_of_nat take_bit_nat_eq_self)

definition sample_json :: "tunnel_request json" where
  "sample_json =
     \<lparr>to_vec = (\<lambda>m. Inr (map char_byte (service_name_str (req_service m)))),
      from_slice = (\<lambda>data. Inr \<lparr>req_service = ServiceName (map byte_char data)\<rparr>)\<rparr>"

lemma sample_json_ok: "json_ok sample_json"
proof -
  have "map (byte_char \<circ> char_byte) s = s" for s
    by (rule map_idI) (simp add: char_of_byte)
  moreover have "\<lparr>req_service = ServiceName (service_name_str (req_service m))\<rparr> = m" for m :: tunnel_request
    by (cases m; cases "req_service m") simp
  ultimately show ?thesis by (auto simp: json_ok_def sample_json_def)
qed

definition empty_stream :: byte_stream where
  "empty_stream = \<lparr>inbox = [], outbox = [], writable = True, flushable = True\<rparr>"

theorem message_roundtrip_witness:
  "read_message sample_json
     (empty_stream\<lparr>inbox := outbox (fst (write_message sample_json \<lparr>req_service = ServiceName ''ssh''\<rparr>
        empty_stream))\<rparr>) =
   (empty_stream, Inr \<lparr>req_service = ServiceName ''ssh''\<rparr>)"
  using message_roundtrip [OF sample_json_ok, of "\<lparr>req_service = ServiceName ''ssh''\<rparr>"
      "map char_byte ''ssh''" empty_stream
      "empty_stream\<lparr>inbox := outbox (fst (write_message sample_json
         \<lparr>req_service = ServiceName ''ssh''\<rparr> empty_stream))\<rparr>" "[]"]
  by (simp add: sample_json_def empty_stream_def)

text \<open>C29: A message between 65537 bytes and 4 GiB is written without an error (but for one of the final
  flush), but the reader
  refuses it after its length, before it reads or allocates the body.\<close>

theorem oversized_message_refused:
  assumes "to_vec j msg = Inr data" and "65536 < length data" and "length data < 2 ^ 32"
    and "writable st" and "inbox st' = drop (length (outbox st)) (outbox (fst (write_message j msg st))) @ rest"
  shows "snd (write_message j msg st) = (if flushable st then Inr () else Inl FlushFailed) \<and>
    read_message j st' = (st'\<lparr>inbox := data @ rest\<rparr>, Inl (MessageTooLarge (length data)))"
proof -
  have w: "write_message j msg st =
      (st\<lparr>outbox := outbox st @ frame data\<rparr>, if flushable st then Inr () else Inl FlushFailed)"
    using assms by (intro write_message_ok) simp_all
  then have "inbox st' = frame data @ rest" using assms(5) by simp
  with assms(2,3) w show ?thesis
    using read_frame [of data st' rest j] by (simp add: MAX_MESSAGE_SIZE_def)
qed

theorem oversized_message_refused_witness:
  "snd (read_message \<lparr>to_vec = (\<lambda>n. Inr (replicate n 0)), from_slice = (\<lambda>data. Inr (length data))\<rparr>
      (empty_stream\<lparr>inbox := frame (replicate 65537 0)\<rparr>)) = Inl (MessageTooLarge 65537)"
proof -
  let ?j = "\<lparr>to_vec = (\<lambda>n. Inr (replicate n 0)), from_slice = (\<lambda>data. Inr (length data))\<rparr>"
  have "write_message ?j 65537 empty_stream =
      (empty_stream\<lparr>outbox := frame (replicate 65537 0)\<rparr>, Inr ())"
    using write_message_ok [of ?j 65537 "replicate 65537 0" empty_stream]
    by (simp add: empty_stream_def)
  then show ?thesis
    using oversized_message_refused [of ?j 65537 "replicate 65537 0" empty_stream
        "empty_stream\<lparr>inbox := frame (replicate 65537 0)\<rparr>" "[]"]
    by (simp add: empty_stream_def)
qed

section \<open>A whole exchange\<close>

text \<open>What the server sends when it is given the bytes of a client.\<close>

definition server_reply ::
  "tunnel_request json \<Rightarrow> tunnel_response json \<Rightarrow> v6_text \<Rightarrow> (string \<times> 16 word \<Rightarrow> string + unit) \<Rightarrow>
   (service_name, service_addr) fmap \<Rightarrow> bytes \<Rightarrow> bytes" where
  "server_reply jreq jresp t tcp_connect services sent =
     outbox (fst (handle_tunnel jreq jresp t tcp_connect services
       \<lparr>inbox = sent, outbox = [], writable = True, flushable = True\<rparr>))"

text \<open>C27: When a client asks a server for a tunnel, over a stream that both can write to, the outcome of
  the session is decided as follows.  It gets through exactly when the request and the answer are of
  at most 65536 bytes, the server exposes the service and can connect to it, and the copying ends
  without an error.  For a service that is not exposed the client is told so by name.  The client only sees
  the stream end when the server cannot connect to an exposed service, when the request is larger than
  65536 bytes, or when the answer does not fit its length prefix; an answer larger than 65536 bytes
  is refused by its length; and a request that does not fit its length prefix is not sent.  (The
  JSON encodings of the two messages exist and can be decoded.)\<close>

theorem tunnel_exchange:
  fixes name services tcp_connect
  defines "resp \<equiv> (case fmlookup services name of
       None \<Rightarrow> \<lparr>accepted = False, reason = Some (unknown_service_reason name)\<rparr>
     | Some _ \<Rightarrow> \<lparr>accepted = True, reason = None\<rparr>)"
  assumes ok: "json_ok jreq" "json_ok jresp"
    and d1: "to_vec jreq \<lparr>req_service = name\<rparr> = Inr request" and d2: "to_vec jresp resp = Inr answer"
  shows "snd (client_tunnel_session jreq jresp (server_reply jreq jresp t tcp_connect services)
      copy name \<lparr>inbox = [], outbox = [], writable = True, flushable = True\<rparr>) =
    (if 2 ^ 32 \<le> length request then Inl TooLargeForPrefix
     else if 65536 < length request then Inl UnexpectedEof
     else if (\<exists>addr e. fmlookup services name = Some addr \<and> tcp_connect (connect_tuple t addr) = Inl e)
     then Inl UnexpectedEof
     else if 2 ^ 32 \<le> length answer then Inl UnexpectedEof
     else if 65536 < length answer then Inl (MessageTooLarge (length answer))
     else if fmlookup services name = None then Inl (TunnelRejected (unknown_service_reason name))
     else case copy of Inl e \<Rightarrow> Inl (CopyFailed e) | Inr _ \<Rightarrow> Inr ())"
proof (cases "2 ^ 32 \<le> length request")
  case True
  then show ?thesis by (simp add: client_tunnel_session_def write_message_def d1)
next
  case False
  let ?fresh = "\<lambda>i. \<lparr>inbox = i, outbox = [], writable = True, flushable = True\<rparr>"
    and ?sent = "\<lambda>i. \<lparr>inbox = i, outbox = frame request, writable = True, flushable = True\<rparr>"
  have dec: "from_slice jreq request = Inr \<lparr>req_service = name\<rparr>" "from_slice jresp answer = Inr resp"
    using ok d1 d2 by (auto simp: json_ok_def)
  have sent: "write_message jreq \<lparr>req_service = name\<rparr> (?fresh []) = (?sent [], Inr ())"
    using d1 False by (subst write_message_ok) simp_all
  have got: "read_message jreq (?fresh (frame request)) =
      (if length request \<le> MAX_MESSAGE_SIZE then (?fresh [], Inr \<lparr>req_service = name\<rparr>)
       else (?fresh request, Inl (MessageTooLarge (length request))))"
    using False dec by (subst read_frame [of request _ "[]"]) simp_all
  have answered: "write_message jresp resp (?fresh []) =
      (if 2 ^ 32 \<le> length answer then (?fresh [], Inl TooLargeForPrefix)
       else (\<lparr>inbox = [], outbox = frame answer, writable = True, flushable = True\<rparr>, Inr ()))"
    using d2 by (auto simp: write_message_ok) (simp add: write_message_def)
  have heard: "\<not> 2 ^ 32 \<le> length answer \<Longrightarrow> read_message jresp (?sent (frame answer)) =
      (if length answer \<le> MAX_MESSAGE_SIZE then (?sent [], Inr resp)
       else (?sent answer, Inl (MessageTooLarge (length answer))))"
    using dec by (subst read_frame [of answer _ "[]"]) simp_all
  have silence: "read_message jresp (?sent []) = (?sent [], Inl UnexpectedEof)"
    by (simp add: read_message_def read_exact_def)
  have small: "length d \<le> MAX_MESSAGE_SIZE \<longleftrightarrow> \<not> 65536 < length d" for d :: bytes
    by (simp add: MAX_MESSAGE_SIZE_def not_less)
  show ?thesis
  proof (cases "fmlookup services name")
    case None
    then have resp: "resp = \<lparr>accepted = False, reason = Some (unknown_service_reason name)\<rparr>"
      by (simp add: resp_def)
    show ?thesis
      using False None sent got answered heard silence
      by (simp add: client_tunnel_session_def server_reply_def handle_tunnel_def resp small)
  next
    case (Some addr)
    then have resp: "resp = \<lparr>accepted = True, reason = None\<rparr>" by (simp add: resp_def)
    show ?thesis
      using False Some sent got answered heard silence
      by (cases "tcp_connect (connect_tuple t addr)"; cases copy)
        (simp_all add: client_tunnel_session_def server_reply_def handle_tunnel_def resp small)
  qed
qed

definition sample_resp_json :: "tunnel_response json" where
  "sample_resp_json =
     \<lparr>to_vec = (\<lambda>m. Inr (of_bool (accepted m) #
        (case reason m of None \<Rightarrow> [0] | Some r \<Rightarrow> 1 # map char_byte r))),
      from_slice = (\<lambda>data. case data of
          a # b # r \<Rightarrow> Inr \<lparr>accepted = (a \<noteq> 0), reason = (if b = 0 then None else Some (map byte_char r))\<rparr>
        | _ \<Rightarrow> Inl ''bad'')\<rparr>"

lemma sample_resp_json_ok: "json_ok sample_resp_json"
proof -
  have "map (byte_char \<circ> char_byte) s = s" for s
    by (rule map_idI) (simp add: char_of_byte)
  then show ?thesis
    by (auto simp: json_ok_def sample_resp_json_def split: option.splits)
qed

theorem tunnel_exchange_witness:
  "snd (client_tunnel_session sample_json sample_resp_json
      (server_reply sample_json sample_resp_json \<lparr>v6_parse = (\<lambda>_. None), v6_show = (\<lambda>_. [])\<rparr>
        (\<lambda>_. Inr ()) fmempty)
      (Inr ()) (ServiceName ''ssh'') \<lparr>inbox = [], outbox = [], writable = True, flushable = True\<rparr>) =
   Inl (TunnelRejected ''unknown service: ssh'')"
proof -
  obtain request answer where
    "to_vec sample_json \<lparr>req_service = ServiceName ''ssh''\<rparr> = Inr request" "length request = 3"
    "to_vec sample_resp_json \<lparr>accepted = False, reason = Some (unknown_service_reason (ServiceName ''ssh''))\<rparr> =
       Inr answer" "length answer = 22"
    by (simp add: sample_json_def sample_resp_json_def unknown_service_reason_def)
  with tunnel_exchange [OF sample_json_ok sample_resp_json_ok, of "ServiceName ''ssh''" request fmempty answer]
  show ?thesis by (simp add: unknown_service_reason_def)
qed

section \<open>The accepting loop of a tunnel\<close>

definition session_for :: "peer_id \<Rightarrow> service_name \<Rightarrow> ('c, 'st) tunnel_client \<Rightarrow> ('c, 'st) tunnel_session" where
  "session_for peer service client =
     (case client of (c, registry, open_stream) \<Rightarrow>
        \<lparr>ses_client = c, ses_peer = peer, ses_service = service, ses_path = path_label registry peer,
         ses_stream = projr (open_stream peer)\<rparr>)"

text \<open>C30: A tunnel task serves its clients in order, each with a session of its own for the peer and the
  service of the task, on a stream that was opened for it, until accepting a client or opening a stream to
  the peer fails for the first time; that failure ends the task, and no later client is served.  If
  binding fails, or asking the listener for its address, no client is served at all.\<close>

theorem tunnel_task_serves_until_failure:
  assumes "\<forall>(c, registry, open_stream)\<in>set good. \<exists>st. open_stream peer = Inr st"
  shows "connect_tunnel t tcp_bind peer service bind (map Inr good @ rest) =
    (case tcp_bind (connect_tuple t bind) of
       Inl e \<Rightarrow> ([], Some (BindFailed e))
     | Inr (Inl e) \<Rightarrow> ([], Some (LocalAddrFailed e))
     | Inr (Inr _) \<Rightarrow>
         (case rest of
            [] \<Rightarrow> (map (session_for peer service) good, None)
          | Inl e # _ \<Rightarrow> (map (session_for peer service) good, Some (AcceptFailed e))
          | Inr (c, registry, open_stream) # rest' \<Rightarrow>
              (case open_stream peer of
                 Inl e \<Rightarrow> (map (session_for peer service) good, Some (OpenStreamFailed e))
               | Inr st \<Rightarrow>
                   (let (sessions, ending) = client_loop peer service rest'
                    in (map (session_for peer service) (good @ [(c, registry, open_stream)]) @ sessions,
                        ending)))))"
proof -
  have "client_loop peer service (map Inr good @ rest) =
      (map (session_for peer service) good @ fst (client_loop peer service rest),
       snd (client_loop peer service rest))"
    using assms
  proof (induction good)
    case (Cons client good)
    obtain c registry open_stream where "client = (c, registry, open_stream)" by (metis prod_cases3)
    with Cons show ?case by (auto simp: session_for_def split_beta Let_def)
  qed simp
  then show ?thesis
    by (auto simp: connect_tunnel_def session_for_def split_beta Let_def split: list.splits sum.splits)
qed

theorem tunnel_task_serves_until_failure_witness:
  "connect_tunnel \<lparr>v6_parse = (\<lambda>_. None), v6_show = (\<lambda>_. [])\<rparr> (\<lambda>_. Inr (Inr ())) (PeerId ''w'')
     (ServiceName ''ssh'') \<lparr>host = Domain ''localhost'', port = 2222\<rparr>
     [Inr (1::nat, {|PeerId ''w''|}, \<lambda>_. Inr ''s1''), Inr (2, {||}, \<lambda>_. Inl ''gone''), Inr (3, {||}, \<lambda>_. Inr ''s3'')] =
   ([\<lparr>ses_client = 1, ses_peer = PeerId ''w'', ses_service = ServiceName ''ssh'', ses_path = ''direct'',
      ses_stream = ''s1''\<rparr>], Some (OpenStreamFailed ''gone''))"
  using tunnel_task_serves_until_failure [of "[(1::nat, {|PeerId ''w''|}, \<lambda>_. Inr ''s1'')]" "PeerId ''w''"
      "\<lparr>v6_parse = (\<lambda>_. None), v6_show = (\<lambda>_. [])\<rparr>" "\<lambda>_. Inr (Inr ())" "ServiceName ''ssh''"
      "\<lparr>host = Domain ''localhost'', port = 2222\<rparr>"
      "[Inr (2, {||}, \<lambda>_. Inl ''gone''), Inr (3, {||}, \<lambda>_. Inr ''s3'')]"]
  by (simp add: session_for_def path_label_def is_direct_def)

end
