(* ===== verification/Port_Mapping.thy ===== *)
theory Port_Mapping
  imports External_Addr
begin

text \<open>
  Port mapping, \<open>src/src/port_mapping.rs\<close>: UPnP and NAT-PMP/PCP are probed in parallel and the first
  success is taken.  The answers of the gateway and the interfaces of the host are a parameter;
  time enters through the order in which the two probes complete before the timeout.
\<close>

section \<open>The network\<close>

record port_mapping =
  external_ip :: ip_addr
  external_port :: "16 word"
  protocol_used :: string

datatype mapping_type = Pcp ip_addr | NatPmp

record interface =
  if_loopback :: bool
  if_ipv4 :: "ipv4 list"

text \<open>
  The answers: of the operating system, of a UPnP gateway (search, external address, adding a
  port), and of a NAT-PMP/PCP gateway (the mapping, and the external address asked for with
  NAT-PMP).
\<close>

record gateway_env =
  default_gateway :: "string + ip_addr"
  interfaces :: "interface list"
  upnp_search :: "string + unit"
  upnp_external_ip :: "string + ip_addr"
  upnp_add_port :: "16 word \<Rightarrow> ipv4 \<times> 16 word \<Rightarrow> string + unit"
  pmp_map :: "ipv4 \<Rightarrow> ipv4 \<Rightarrow> 16 word \<Rightarrow> string + (16 word \<times> mapping_type)"
  pmp_external :: "ipv4 \<Rightarrow> string + ipv4"

datatype mapping_error =
    GatewayUnknown string
  | GatewayIpv6 ipv6
  | NoLocalAddress
  | UpnpFailed string
  | PmpFailed string
  | PortZero
  | NonRoutable ip_addr

definition PORT_MAPPING_TIMEOUT :: duration where
  "PORT_MAPPING_TIMEOUT = from_secs 5"

section \<open>Detection\<close>

definition detect_gateway :: "gateway_env \<Rightarrow> mapping_error + ipv4" where
  "detect_gateway g =
     (case default_gateway g of
        Inl e \<Rightarrow> Inl (GatewayUnknown e)
      | Inr (IpV4 ip) \<Rightarrow> Inr ip
      | Inr (IpV6 ip) \<Rightarrow> Inl (GatewayIpv6 ip))"

definition detect_local_addr :: "gateway_env \<Rightarrow> mapping_error + ipv4" where
  "detect_local_addr g =
     (case find (\<lambda>a. \<not> v4_is_loopback a \<and> \<not> v4_is_link_local a)
             (concat (map if_ipv4 (filter (\<lambda>i. \<not> if_loopback i) (interfaces g)))) of
        None \<Rightarrow> Inl NoLocalAddress
      | Some a \<Rightarrow> Inr a)"

section \<open>The probes\<close>

definition try_upnp :: "gateway_env \<Rightarrow> 16 word \<Rightarrow> ipv4 \<Rightarrow> mapping_error + port_mapping" where
  "try_upnp g internal_port local_ip =
     (case upnp_search g of
        Inl e \<Rightarrow> Inl (UpnpFailed e)
      | Inr _ \<Rightarrow>
     (case upnp_external_ip g of
        Inl e \<Rightarrow> Inl (UpnpFailed e)
      | Inr ext_ip \<Rightarrow>
          if \<not> is_publicly_routable ext_ip then Inl (NonRoutable ext_ip)
          else
            (case upnp_add_port g internal_port (local_ip, internal_port) of
               Inl e \<Rightarrow> Inl (UpnpFailed e)
             | Inr _ \<Rightarrow>
                 Inr \<lparr>external_ip = ext_ip, external_port = internal_port,
                      protocol_used = ''UPnP''\<rparr>)))"

definition try_nat_pmp_pcp ::
  "gateway_env \<Rightarrow> 16 word \<Rightarrow> ipv4 \<Rightarrow> ipv4 \<Rightarrow> mapping_error + port_mapping" where
  "try_nat_pmp_pcp g internal_port gateway_ip local_ip =
     (if internal_port = 0 then Inl PortZero
      else
        (case pmp_map g gateway_ip local_ip internal_port of
           Inl e \<Rightarrow> Inl (PmpFailed e)
         | Inr (ext_port, kind) \<Rightarrow>
             (case (case kind of
                      Pcp ip \<Rightarrow> Inr (ip, ''PCP'')
                    | NatPmp \<Rightarrow>
                        (case pmp_external g gateway_ip of
                           Inl e \<Rightarrow> Inl (PmpFailed e)
                         | Inr ip \<Rightarrow> Inr (IpV4 ip, ''NAT-PMP''))) of
                Inl e \<Rightarrow> Inl e
              | Inr (ip, used) \<Rightarrow>
                  if \<not> is_publicly_routable ip then Inl (NonRoutable ip)
                  else Inr \<lparr>external_ip = ip, external_port = ext_port, protocol_used = used\<rparr>)))"

section \<open>The race\<close>

datatype probe = ProbeUpnp | ProbePmp

text \<open>
  The \<open>select!\<close> loop.  The list names the probes in the order in which they complete; it ends where
  the timeout strikes.  A probe that is done is no longer polled.
\<close>

fun race ::
  "(probe \<Rightarrow> mapping_error + port_mapping) \<Rightarrow> bool \<Rightarrow> bool \<Rightarrow> probe list \<Rightarrow> port_mapping option" where
  "race result upnp_done pmp_done [] = None"
| "race result upnp_done pmp_done (p # completions) =
     (if (case p of ProbeUpnp \<Rightarrow> upnp_done | ProbePmp \<Rightarrow> pmp_done)
      then race result upnp_done pmp_done completions
      else
        (case result p of
           Inr mapping \<Rightarrow> Some mapping
         | Inl _ \<Rightarrow>
             (let upnp' = (upnp_done \<or> p = ProbeUpnp);
                  pmp' = (pmp_done \<or> p = ProbePmp)
              in if upnp' \<and> pmp' then None else race result upnp' pmp' completions)))"

definition acquire_port_mapping ::
  "gateway_env \<Rightarrow> 16 word \<Rightarrow> probe list \<Rightarrow> port_mapping option" where
  "acquire_port_mapping g internal_port completions =
     (case (detect_gateway g, detect_local_addr g) of
        (Inr gateway_ip, Inr local_ip) \<Rightarrow>
          race (\<lambda>p. case p of
              ProbeUpnp \<Rightarrow> try_upnp g internal_port local_ip
            | ProbePmp \<Rightarrow> try_nat_pmp_pcp g internal_port gateway_ip local_ip)
            False False completions
      | _ \<Rightarrow> None)"

section \<open>What is acquired\<close>

text \<open>The first probe in the order of completion that succeeds.\<close>

definition first_success ::
  "(probe \<Rightarrow> mapping_error + port_mapping) \<Rightarrow> probe list \<Rightarrow> port_mapping option" where
  "first_success result completions =
     (case List.map_filter (\<lambda>p. case result p of Inr m \<Rightarrow> Some m | Inl _ \<Rightarrow> None) completions of
        [] \<Rightarrow> None | m # _ \<Rightarrow> Some m)"

lemma race_first_success:
  assumes "u \<longrightarrow> (\<exists>e. result ProbeUpnp = Inl e)" and "n \<longrightarrow> (\<exists>e. result ProbePmp = Inl e)"
    and "\<not> (u \<and> n)"
  shows "race result u n completions = first_success result completions"
  using assms
proof (induction result u n completions rule: race.induct)
  case (1 result u n)
  then show ?case by (simp add: first_success_def map_filter_simps)
next
  case (2 result u n p completions)
  have none: "first_success result xs = None"
    if "\<exists>e. result ProbeUpnp = Inl e" "\<exists>e. result ProbePmp = Inl e" for xs
  proof -
    have "(case result q of Inr m \<Rightarrow> Some m | Inl _ \<Rightarrow> None) = None" for q
      using that by (cases q) auto
    then show ?thesis by (induction xs) (simp_all add: first_success_def map_filter_simps)
  qed
  show ?case
  proof (cases "result p")
    case (Inl e)
    with 2 none show ?thesis
      by (cases p) (auto simp: first_success_def map_filter_simps Let_def)
  next
    case (Inr m)
    with 2 show ?thesis
      by (cases p) (auto simp: first_success_def map_filter_simps)
  qed
qed

text \<open>The race takes the first success: with a detected gateway and local address, the mapping
  acquired is that of the first probe, in the order in which they complete before the timeout, that
  succeeds, and none is acquired when no probe does; a failed probe never hides the success of the
  other.\<close>

lemma first_successful_probe_wins:
  assumes "detect_gateway g = Inr gateway_ip" and "detect_local_addr g = Inr local_ip"
  shows "acquire_port_mapping g internal_port completions =
    first_success (\<lambda>p. case p of
        ProbeUpnp \<Rightarrow> try_upnp g internal_port local_ip
      | ProbePmp \<Rightarrow> try_nat_pmp_pcp g internal_port gateway_ip local_ip) completions"
  using assms by (simp add: acquire_port_mapping_def race_first_success)

text \<open>A gateway with UPnP out of reach and PCP that maps to a given address.\<close>

definition sample_gateway :: "ip_addr \<Rightarrow> gateway_env" where
  "sample_gateway ext =
     \<lparr>default_gateway = Inr (IpV4 (Ipv4 192 168 1 1)),
      interfaces = [\<lparr>if_loopback = True, if_ipv4 = [Ipv4 127 0 0 1]\<rparr>,
                    \<lparr>if_loopback = False, if_ipv4 = [Ipv4 169 254 3 4, Ipv4 192 168 1 20]\<rparr>],
      upnp_search = Inl ''timeout'', upnp_external_ip = Inl ''none'',
      upnp_add_port = (\<lambda>_ _. Inl ''none''),
      pmp_map = (\<lambda>_ _ n. Inr (n + 1, Pcp ext)), pmp_external = (\<lambda>_. Inl ''none'')\<rparr>"

lemma sample_gateway_detected:
  "detect_gateway (sample_gateway ext) = Inr (Ipv4 192 168 1 1)"
  "detect_local_addr (sample_gateway ext) = Inr (Ipv4 192 168 1 20)"
  by (simp_all add: sample_gateway_def detect_gateway_def detect_local_addr_def)

lemma first_successful_probe_wins_witness:
  "acquire_port_mapping (sample_gateway (IpV4 (Ipv4 203 0 113 9))) 4001 [ProbeUpnp, ProbePmp] =
     Some \<lparr>external_ip = IpV4 (Ipv4 203 0 113 9), external_port = 4002, protocol_used = ''PCP''\<rparr>"
  unfolding first_successful_probe_wins [OF sample_gateway_detected]
  by (simp add: first_success_def map_filter_simps try_upnp_def try_nat_pmp_pcp_def)
    (simp add: sample_gateway_def)

lemma probe_routable:
  "try_upnp g n a = Inr m \<Longrightarrow> is_publicly_routable (external_ip m) \<and> external_port m = n"
  "try_nat_pmp_pcp g n gw a = Inr m \<Longrightarrow> is_publicly_routable (external_ip m) \<and> n \<noteq> 0"
  by (auto simp: try_upnp_def try_nat_pmp_pcp_def split: sum.splits if_splits prod.splits
      mapping_type.splits)

lemma first_success_Some:
  "first_success result completions = Some m \<Longrightarrow> \<exists>p\<in>set completions. result p = Inr m"
  by (induction completions)
    (auto simp: first_success_def map_filter_simps split: sum.splits list.splits option.splits)

text \<open>A mapped address is publicly routable.\<close>

lemma mapping_routable:
  assumes "acquire_port_mapping g internal_port completions = Some m"
  shows "is_publicly_routable (external_ip m)"
proof -
  obtain gw a where det: "detect_gateway g = Inr gw" "detect_local_addr g = Inr a"
    using assms by (auto simp: acquire_port_mapping_def split: sum.splits prod.splits)
  with assms obtain p where "(case p of ProbeUpnp \<Rightarrow> try_upnp g internal_port a
      | ProbePmp \<Rightarrow> try_nat_pmp_pcp g internal_port gw a) = Inr m"
    by (auto simp: acquire_port_mapping_def race_first_success dest: first_success_Some)
  then show ?thesis using probe_routable by (cases p) auto
qed

lemma sample_mapping_ipv6:
  "acquire_port_mapping (sample_gateway (IpV6 (Ipv6 0x2001 0xdb8 0 0 0 0 0 9))) 4001 [ProbePmp] =
      Some \<lparr>external_ip = IpV6 (Ipv6 0x2001 0xdb8 0 0 0 0 0 9), external_port = 4002,
            protocol_used = ''PCP''\<rparr>"
  by (simp add: acquire_port_mapping_def sample_gateway_detected try_nat_pmp_pcp_def)
    (simp add: sample_gateway_def v6_is_loopback_def v6_is_unspecified_def)

end
