(* ===== verification/Tunnel_Retry.thy ===== *)
theory Tunnel_Retry
  imports Tunnel_Facts
begin

text \<open>
  Hole-punch retries over whole runs of the tunnel machine: how often a peer is disconnected, and
  that the retries come to an end.
\<close>

section \<open>The retry counter\<close>

text \<open>The counter of a peer, as a number.\<close>

definition retries :: "tunnel_state \<Rightarrow> peer_id \<Rightarrow> nat" where
  "retries s p = unat (get_or 0 (holepunch_retry_attempts s) p)"

definition disconnects :: "command list \<Rightarrow> peer_id \<Rightarrow> nat" where
  "disconnects cmds p = count_list cmds (DisconnectPeer p)"

lemma disconnects_simps [simp]:
  "disconnects [] p = 0" "disconnects (xs @ ys) p = disconnects xs p + disconnects ys p"
  by (simp_all add: disconnects_def)

lemma disconnects_none: "DisconnectPeer p \<notin> set cmds \<Longrightarrow> disconnects cmds p = 0"
  by (simp add: disconnects_def count_list_0_iff)

lemma retries_bounded: "tunnel_wf s \<Longrightarrow> retries s p \<le> 3"
  using attempts_at_most [of s p] by (simp add: retries_def word_le_nat_alt MAX_RELAY_RECONNECT_RETRIES_def)

lemma retries_misc [simp]:
  "holepunch_retry_attempts (store_provider_candidates sv ps s) = holepunch_retry_attempts s"
  "holepunch_retry_attempts (update_address_oracle env q addrs s) = holepunch_retry_attempts s"
  "holepunch_retry_attempts (begin_holepunch_attempt q i s) = holepunch_retry_attempts s"
  "holepunch_retry_attempts (set_session_phase q ph s) = holepunch_retry_attempts s"
  "holepunch_retry_attempts (mark_dial_retry q i s) = holepunch_retry_attempts s"
  by (auto simp: store_provider_candidates_def update_address_oracle_def record_address_candidates_def
      begin_holepunch_attempt_def set_session_phase_def mark_dial_retry_def Let_def split: option.split)

lemma retry_other_peer: "p \<noteq> q \<Longrightarrow> disconnects (snd (retry_holepunch_attempt q i s)) p = 0"
  by (rule disconnects_none) (auto simp: retry_holepunch_attempt_def spawn_all_def split: option.splits if_splits)

lemma retry_counts:
  assumes "tunnel_wf s" and waiting: "contains_key (awaiting_holepunch (fst (retry_holepunch_attempt q i s))) p"
  shows "retries (fst (retry_holepunch_attempt q i s)) p =
    retries s p + disconnects (snd (retry_holepunch_attempt q i s)) p"
proof (cases "DisconnectPeer q \<in> set (snd (retry_holepunch_attempt q i s))")
  case True
  from retry_disconnects [OF True]
  have room: "unat (get_or 0 (holepunch_retry_attempts s) q) < 3" and active: "attempt_active s q i"
    and after: "holepunch_retry_attempts (fst (retry_holepunch_attempt q i s)) =
      fmupd q (get_or 0 (holepunch_retry_attempts s) q + 1) (holepunch_retry_attempts s)"
    by (auto simp: word_less_nat_alt MAX_RELAY_RECONNECT_RETRIES_def)
  have cmds: "snd (retry_holepunch_attempt q i s) = [DisconnectPeer q]"
    using True active by (auto simp: retry_active spawn_all_commands split: if_splits)
  have "unat (get_or 0 (holepunch_retry_attempts s) q + 1) = unat (get_or 0 (holepunch_retry_attempts s) q) + 1"
    using room by (simp add: unat_word_ariths)
  with after cmds show ?thesis by (auto simp: retries_def disconnects_def)
next
  case False
  show ?thesis
  proof (cases "attempt_active s q i")
    case True
    with False have full: "MAX_RELAY_RECONNECT_RETRIES \<le> get_or 0 (holepunch_retry_attempts s) q"
      by (auto simp: retry_active split: if_splits)
    with True waiting have "p \<noteq> q" by (auto simp: retry_active clear_retry_state_def)
    moreover have "DisconnectPeer p \<notin> set (snd (retry_holepunch_attempt q i s))"
      using True full by (auto simp: retry_active spawn_all_commands)
    ultimately show ?thesis
      using True full by (simp add: retry_active retries_def clear_retry_state_def disconnects_none)
  qed (simp add: retry_inactive)
qed

lemma step_retries:
  assumes wf: "tunnel_wf s" and waiting: "contains_key (awaiting_holepunch (fst (tunnel_transition env s e))) p"
  shows "retries (fst (tunnel_transition env s e)) p =
    retries s p + disconnects (snd (tunnel_transition env s e)) p"
proof (cases "attempt_report e")
  case (Some r)
  then obtain q i where "attempt_report e = Some (q, i)" by (cases r) simp
  from step_attempt_report [OF this, of env s] retry_counts [OF wf, of q i p] waiting show ?thesis by simp
next
  case None
  have none: "DisconnectPeer p \<notin> set (snd (tunnel_transition env s e))"
    using None by (auto elim: disconnect_source)
  have "retries (fst (tunnel_transition env s e)) p = retries s p"
  proof (cases e)
    case (PhaseChanged old new)
    then show ?thesis by (cases new) (simp_all add: on_phase_ready_def)
  next
    case (TunnelDialFailed q r)
    then show ?thesis
      by (auto simp: retries_def on_tunnel_dial_failed_def Let_def reroute_frame split: option.splits)
  next
    case (TunnelPeerConnected q relayed)
    with waiting show ?thesis
      by (auto simp: retries_def on_tunnel_peer_connected_def Let_def clear_retry_state_def queue_for_direct_def
          split: option.splits if_splits)
  next
    case (ConnectionLost q n)
    with waiting show ?thesis
      by (auto simp: retries_def on_all_connections_lost_def Let_def clear_retry_state_def contains_key_def
          split: option.splits if_splits)
  qed (use None in \<open>auto simp: retries_def on_dht_peer_lookup_complete_def on_dht_service_resolved_def
      on_dht_service_failed_def route_connected_peer_def queue_for_direct_def Let_def
      split: option.splits list.splits prod.splits\<close>)
  with none show ?thesis by (simp add: disconnects_none)
qed


section \<open>A bound on the disconnects\<close>

lemma run_retries:
  assumes "tunnel_wf s" and "\<forall>(env, e)\<in>set es. env_ok env"
    and "\<forall>k\<le>length es. contains_key
      (awaiting_holepunch (fst (mealy_run tunnel_transition s (take k es)))) p"
  shows "retries (fst (mealy_run tunnel_transition s es)) p =
    retries s p + disconnects (snd (mealy_run tunnel_transition s es)) p"
  using assms
proof (induction es arbitrary: s)
  case Nil
  then show ?case by simp
next
  case (Cons x es)
  obtain env e where x: "x = (env, e)" by (cases x)
  let ?t = "fst (tunnel_transition env s e)"
  have waits: "contains_key (awaiting_holepunch (fst (mealy_run tunnel_transition ?t (take k es)))) p"
    if "k \<le> length es" for k
    using Cons.prems(3) that by (auto dest!: spec [of _ "Suc k"] simp: x mealy_run_Cons
        simp del: mealy_run.simps(2))
  have "contains_key (awaiting_holepunch ?t) p" using waits [of 0] by simp
  moreover have "tunnel_wf ?t"
    using Cons.prems(1,2) by (auto simp: x intro: tunnel_machine.step_inv)
  ultimately show ?case
    using Cons.IH [of ?t] Cons.prems(2) waits step_retries [OF Cons.prems(1), of env e p]
    by (simp add: x mealy_run_Cons del: mealy_run.simps(2))
qed

text \<open>As long as tunnels to a peer wait for a hole punch, the retry counter counts the
  disconnects of that peer, whatever events arrive in whatever order; so a peer whose tunnels
  keep waiting is disconnected at most three times.\<close>

lemma bounded_disconnects:
  assumes "tunnel_wf s" and "\<forall>(env, e)\<in>set es. env_ok env"
    and "\<forall>k\<le>length es. contains_key
      (awaiting_holepunch (fst (mealy_run tunnel_transition s (take k es)))) p"
  shows "retries (fst (mealy_run tunnel_transition s es)) p =
      retries s p + disconnects (snd (mealy_run tunnel_transition s es)) p \<and>
    disconnects (snd (mealy_run tunnel_transition s es)) p \<le> 3"
proof -
  have "retries (fst (mealy_run tunnel_transition s es)) p \<le> 3"
    using assms(1,2) by (intro retries_bounded tunnel_machine.run_inv)
  with run_retries [OF assms] show ?thesis by simp
qed

lemma retry_again:
  assumes active: "attempt_active s p i" and room: "retries s p < 3"
  obtains session where "fmlookup (holepunch_sessions s) p = Some session"
    "retry_holepunch_attempt p i s = (s\<lparr>
        holepunch_retry_attempts := fmupd p (get_or 0 (holepunch_retry_attempts s) p + 1)
          (holepunch_retry_attempts s),
        pending_retry_redial := finsert p (pending_retry_redial s),
        holepunch_sessions := fmupd p (session\<lparr>sess_phase := WaitingDisconnect\<rparr>)
          (holepunch_sessions s)\<rparr>, [DisconnectPeer p])"
proof -
  have "\<not> MAX_RELAY_RECONNECT_RETRIES \<le> get_or 0 (holepunch_retry_attempts s) p"
    using room by (simp add: retries_def word_le_nat_alt MAX_RELAY_RECONNECT_RETRIES_def)
  with active have cmds: "snd (retry_holepunch_attempt p i s) = [DisconnectPeer p]"
    by (simp add: retry_active)
  with retry_disconnects [of p p i s] that show ?thesis by (metis list.set_intros(1) prod.collapse)
qed

text \<open>The sample peer keeps waiting through a timeout, the loss of its connection and its return.\<close>

lemma bounded_disconnects_witness:
  "disconnects (snd (mealy_run tunnel_transition (sample_waiting 1)
     [(sample_env 0, HolePunchAttemptTimeout (PeerId ''w'') 7)])) (PeerId ''w'') \<le> 3"
proof -
  let ?es = "[(sample_env 0, HolePunchAttemptTimeout (PeerId ''w'') 7)]"
  have room: "retries (sample_waiting 1) (PeerId ''w'') < 3"
    by (simp add: retries_def sample_waiting_def)
  have "contains_key (awaiting_holepunch (fst (mealy_run tunnel_transition (sample_waiting 1)
      (take k ?es)))) (PeerId ''w'')" if "k \<le> 1" for k
  proof (cases k)
    case 0
    then show ?thesis by (simp add: sample_waiting_def)
  next
    case (Suc m)
    with that have "take k ?es = ?es" by simp
    have
      "awaiting_holepunch (fst (retry_holepunch_attempt (PeerId ''w'') 7 (sample_waiting 1))) =
        awaiting_holepunch (sample_waiting 1)"
      by (rule retry_again [OF sample_waiting_active room]) simp
    then show ?thesis
      unfolding \<open>take k ?es = ?es\<close> by (simp add: split_beta) (simp add: sample_waiting_def)
  qed
  then have "\<forall>k\<le>length ?es. contains_key (awaiting_holepunch (fst (mealy_run tunnel_transition
      (sample_waiting 1) (take k ?es)))) (PeerId ''w'')" by simp
  from bounded_disconnects [OF sample_waiting_wf _ this] show ?thesis
    by (simp add: MAX_RELAY_RECONNECT_RETRIES_def word_le_nat_alt env_ok_sample)
qed

end
