(* ===== verification/Tunnel_Giveup.thy ===== *)
theory Tunnel_Giveup
  imports Tunnel_Retry
begin

text \<open>
  A hole punch that keeps failing comes to an end, whatever else happens in the meantime: over a run
  of the tunnel machine in which the events that decide the hole punch of a peer are failures, losses
  and new attempts, and all other events are arbitrary, the waiting tunnels are opened in the end.
\<close>

section \<open>The events that decide a hole punch\<close>

fun punch_event :: "peer_id \<Rightarrow> event \<Rightarrow> bool" where
  "punch_event p (HolePunchAttemptStarted q i) \<longleftrightarrow> q = p"
| "punch_event p (HolePunchAttemptFailed q i reason) \<longleftrightarrow> q = p"
| "punch_event p (HolePunchAttemptTimeout q i) \<longleftrightarrow> q = p"
| "punch_event p (ConnectionLost q remaining) \<longleftrightarrow> q = p \<and> remaining = 0"
| "punch_event p (TunnelPeerConnected q relayed) \<longleftrightarrow> q = p \<and> \<not> relayed"
| "punch_event p e \<longleftrightarrow> False"

text \<open>
  The hole punch of a peer keeps failing: each attempt is reported as failed or as timed out, then
  the peer loses its last connection, and a new attempt starts, until the last failure.
\<close>

inductive keeps_failing :: "peer_id \<Rightarrow> 64 word \<Rightarrow> nat \<Rightarrow> event list \<Rightarrow> bool" for p where
  fails_last: "attempt_report e = Some (p, i) \<Longrightarrow> keeps_failing p i 0 [e]"
| fails_again: "attempt_report e = Some (p, i) \<Longrightarrow> keeps_failing p j n es \<Longrightarrow>
    keeps_failing p i (Suc n) (e # ConnectionLost p 0 # HolePunchAttemptStarted p j # es)"

lemma report_decides: "attempt_report e = Some (p, i) \<Longrightarrow> punch_event p e"
  by (cases e) auto

section \<open>The other events\<close>

text \<open>What matters of the hole punch of a peer, and its waiting tunnels, which may only become more.\<close>

definition punch_of :: "tunnel_state \<Rightarrow> peer_id \<Rightarrow> (64 word \<times> hole_punch_phase) option \<times> nat \<times> bool" where
  "punch_of s p =
     (map_option (\<lambda>session. (sess_attempt_id session, sess_phase session)) (fmlookup (holepunch_sessions s) p),
      retries s p, p |\<in>| pending_retry_redial s)"

definition more_wait :: "tunnel_state \<Rightarrow> tunnel_state \<Rightarrow> peer_id \<Rightarrow> bool" where
  "more_wait s t p \<longleftrightarrow>
     (\<exists>more. get_or [] (awaiting_holepunch t) p = get_or [] (awaiting_holepunch s) p @ more) \<and>
     (contains_key (awaiting_holepunch s) p \<longrightarrow> contains_key (awaiting_holepunch t) p)"

lemma more_wait_same: "awaiting_holepunch t = awaiting_holepunch s \<Longrightarrow> more_wait s t p"
  by (simp add: more_wait_def)

lemma more_wait_trans: "more_wait a b p \<Longrightarrow> more_wait b c p \<Longrightarrow> more_wait a c p"
  by (auto simp: more_wait_def)

lemma more_wait_queue:
  "awaiting_holepunch t = entry_extend q specs (awaiting_holepunch s) \<Longrightarrow> more_wait s t p"
  by (auto simp: more_wait_def entry_extend_def get_or_def contains_key_def split: option.splits)

lemma more_wait_route: "more_wait s (fst (route_connected_peer q specs s)) p"
  by (auto simp: route_connected_peer_def queue_for_direct_def intro: more_wait_same more_wait_queue)

lemma more_wait_before: "awaiting_holepunch a = awaiting_holepunch s \<Longrightarrow> more_wait a t p \<Longrightarrow> more_wait s t p"
  using more_wait_trans more_wait_same by blast

lemma other_waiting:
  assumes "\<not> punch_event p e"
  shows "more_wait s (fst (tunnel_transition env s e)) p"
proof (cases e)
  case (PhaseChanged old new)
  then show ?thesis by (cases new) (simp_all add: on_phase_ready_def more_wait_same)
next
  case (DhtPeerLookupComplete q connected)
  let ?s = "s\<lparr>pending_by_peer := fmdrop q (pending_by_peer s)\<rparr>"
  have "more_wait s (fst (route_connected_peer q specs ?s)) p" for specs
    by (rule more_wait_before [OF _ more_wait_route]) simp
  with DhtPeerLookupComplete show ?thesis
    by (simp add: on_dht_peer_lookup_complete_def more_wait_same split: option.split)
next
  case (DhtServiceResolved service providers)
  have route: "awaiting_holepunch a = awaiting_holepunch s \<Longrightarrow> more_wait s (fst (route_connected_peer q specs a)) p" for a q specs
    by (rule more_wait_before [OF _ more_wait_route])
  with DhtServiceResolved show ?thesis
    by (auto simp: on_dht_service_resolved_def store_provider_candidates_def Let_def
        intro!: more_wait_same route split: option.split list.split)
next
  case (TunnelPeerConnected q relayed)
  show ?thesis
  proof (cases relayed)
    case True
    with TunnelPeerConnected show ?thesis
      by (auto simp: on_tunnel_peer_connected_def queue_for_direct_def Let_def
          intro: more_wait_same more_wait_queue split: option.split)
  next
    case False
    with assms TunnelPeerConnected have "q \<noteq> p" by simp
    with False TunnelPeerConnected show ?thesis
      by (simp add: on_tunnel_peer_connected_def clear_retry_state_def more_wait_def get_or_def contains_key_def)
  qed
next
  case (ConnectionLost q k)
  with assms show ?thesis
    by (auto simp: on_all_connections_lost_def clear_retry_state_def set_session_phase_def more_wait_def
        get_or_def contains_key_def Let_def split: option.split)
next
  case (TunnelDialFailed q r)
  then show ?thesis
    by (auto simp: on_tunnel_dial_failed_def mark_dial_retry_def reroute_frame Let_def
        intro!: more_wait_same split: option.split)
next
  case (PeerIdentified q listen observed)
  then show ?thesis
    by (auto simp: update_address_oracle_def record_address_candidates_def Let_def intro!: more_wait_same
        split: option.split)
next
  case (HolePunchAttemptFailed q i r)
  with assms show ?thesis
    by (auto simp: retry_holepunch_attempt_def clear_retry_state_def set_session_phase_def
        schedule_holepunch_retry_def more_wait_def get_or_def contains_key_def split: option.split)
next
  case (HolePunchAttemptTimeout q i)
  with assms show ?thesis
    by (auto simp: retry_holepunch_attempt_def clear_retry_state_def set_session_phase_def
        schedule_holepunch_retry_def more_wait_def get_or_def contains_key_def split: option.split)
next
  case (HolePunchAttemptStarted q i)
  then show ?thesis by (simp add: begin_holepunch_attempt_def more_wait_same Let_def)
qed (auto simp: on_dht_service_failed_def intro!: more_wait_same)

lemma other_punch:
  assumes "\<not> punch_event p e"
  shows "punch_of (fst (tunnel_transition env s e)) p = punch_of s p"
proof (cases e)
  case (PhaseChanged old new)
  then show ?thesis by (cases new) (simp_all add: on_phase_ready_def)
next
  case (TunnelPeerConnected q relayed)
  with assms show ?thesis
    by (auto simp: punch_of_def retries_def on_tunnel_peer_connected_def queue_for_direct_def
        clear_retry_state_def Let_def get_or_def split: option.split)
next
  case (ConnectionLost q k)
  with assms show ?thesis
    by (auto simp: punch_of_def retries_def on_all_connections_lost_def clear_retry_state_def
        set_session_phase_def get_or_def Let_def split: option.split)
next
  case (TunnelDialFailed q r)
  then show ?thesis
    by (auto simp: punch_of_def retries_def on_tunnel_dial_failed_def mark_dial_retry_def reroute_frame Let_def
        split: option.split)
next
  case (PeerIdentified q listen observed)
  then show ?thesis
    by (auto simp: punch_of_def retries_def update_address_oracle_def record_address_candidates_def
        refresh_session_def Let_def split: option.split)
next
  case (HolePunchAttemptFailed q i r)
  with assms show ?thesis
    by (auto simp: punch_of_def retries_def retry_holepunch_attempt_def clear_retry_state_def
        set_session_phase_def schedule_holepunch_retry_def get_or_def split: option.split)
next
  case (HolePunchAttemptTimeout q i)
  with assms show ?thesis
    by (auto simp: punch_of_def retries_def retry_holepunch_attempt_def clear_retry_state_def
        set_session_phase_def schedule_holepunch_retry_def get_or_def split: option.split)
next
  case (HolePunchAttemptStarted q i)
  with assms show ?thesis by (simp add: punch_of_def retries_def begin_holepunch_attempt_def Let_def)
qed (auto simp: punch_of_def retries_def on_dht_peer_lookup_complete_def on_dht_service_resolved_def
    on_dht_service_failed_def route_connected_peer_def queue_for_direct_def store_provider_candidates_def Let_def
    split: option.split list.split)

lemma other_disconnects:
  assumes "\<not> punch_event p e"
  shows "disconnects (snd (tunnel_transition env s e)) p = 0"
proof (cases "attempt_report e")
  case None
  then show ?thesis by (intro disconnects_none) (auto elim: disconnect_source)
next
  case (Some r)
  then obtain q i where r: "attempt_report e = Some (q, i)" by (cases r) simp
  with assms report_decides have "q \<noteq> p" by blast
  with step_attempt_report [OF r, of env s] show ?thesis by (simp add: retry_other_peer)
qed

lemma others_run:
  "\<forall>x\<in>set es. \<not> punch_event p (snd x) \<Longrightarrow>
     punch_of (fst (mealy_run tunnel_transition s es)) p = punch_of s p \<and>
     more_wait s (fst (mealy_run tunnel_transition s es)) p \<and>
     disconnects (snd (mealy_run tunnel_transition s es)) p = 0"
proof (induction es arbitrary: s)
  case Nil
  then show ?case by (simp add: more_wait_same)
next
  case (Cons x es)
  obtain env e where x: "x = (env, e)" by (cases x)
  have e: "\<not> punch_event p e" using Cons.prems by (simp add: x)
  let ?t = "fst (tunnel_transition env s e)"
  from Cons.IH [of ?t] Cons.prems other_punch [OF e, of env s] other_disconnects [OF e, of env s]
    more_wait_trans [OF other_waiting [OF e, of s env]]
  show ?case by (simp add: x mealy_run_Cons del: mealy_run.simps(2))
qed

section \<open>One retry\<close>

text \<open>An attempt under way, as far as these notions go.\<close>

lemma active_punch:
  "attempt_active s p i \<longleftrightarrow>
     fst (punch_of s p) = Some (i, Punching) \<and> contains_key (awaiting_holepunch s) p"
  by (auto simp: attempt_active_def punch_of_def split: option.splits)

lemma retries_punch: "retries s p = fst (snd (punch_of s p))"
  by (simp add: punch_of_def)

lemma report_step:
  assumes r: "attempt_report e = Some (p, i)" and active: "attempt_active s p i" and room: "retries s p < 3"
  shows "punch_of (fst (tunnel_transition env s e)) p = (Some (i, WaitingDisconnect), retries s p + 1, True)"
    and "awaiting_holepunch (fst (tunnel_transition env s e)) = awaiting_holepunch s"
    and "snd (tunnel_transition env s e) = [DisconnectPeer p]"
proof -
  obtain session where session: "fmlookup (holepunch_sessions s) p = Some session"
    and step: "retry_holepunch_attempt p i s = (s\<lparr>
        holepunch_retry_attempts := fmupd p (get_or 0 (holepunch_retry_attempts s) p + 1)
          (holepunch_retry_attempts s),
        pending_retry_redial := finsert p (pending_retry_redial s),
        holepunch_sessions := fmupd p (session\<lparr>sess_phase := WaitingDisconnect\<rparr>)
          (holepunch_sessions s)\<rparr>, [DisconnectPeer p])"
    using retry_again [OF active room] by blast
  have "sess_attempt_id session = i" using active session by (simp add: attempt_active_def)
  moreover have "unat (get_or 0 (holepunch_retry_attempts s) p + 1) = retries s p + 1"
    using room by (simp add: retries_def unat_word_ariths)
  ultimately show "punch_of (fst (tunnel_transition env s e)) p = (Some (i, WaitingDisconnect), retries s p + 1, True)"
    by (simp add: step_attempt_report [OF r] step punch_of_def retries_def)
  show "awaiting_holepunch (fst (tunnel_transition env s e)) = awaiting_holepunch s"
    "snd (tunnel_transition env s e) = [DisconnectPeer p]"
    by (simp_all add: step_attempt_report [OF r] step)
qed

lemma loss_step:
  assumes redial: "snd (snd (punch_of s p))"
  shows "retries (fst (tunnel_transition env s (ConnectionLost p 0))) p = retries s p"
    and "awaiting_holepunch (fst (tunnel_transition env s (ConnectionLost p 0))) = awaiting_holepunch s"
    and "disconnects (snd (tunnel_transition env s (ConnectionLost p 0))) p = 0"
  using redial
  by (auto simp: punch_of_def on_all_connections_lost_def retries_def set_session_phase_def
      redial_command_def Let_def intro!: disconnects_none split: option.split)

lemma start_step:
  "punch_of (fst (tunnel_transition env s (HolePunchAttemptStarted p j))) p =
     (Some (j, Punching), retries s p, p |\<in>| pending_retry_redial s)"
  "awaiting_holepunch (fst (tunnel_transition env s (HolePunchAttemptStarted p j))) = awaiting_holepunch s"
  "snd (tunnel_transition env s (HolePunchAttemptStarted p j)) = []"
  by (simp_all add: punch_of_def retries_def begin_holepunch_attempt_def Let_def)

lemma last_report:
  assumes r: "attempt_report e = Some (p, i)" and active: "attempt_active s p i" and full: "3 \<le> retries s p"
  shows "snd (tunnel_transition env s e) = spawn_all p (get_or [] (awaiting_holepunch s) p)"
    and "\<not> contains_key (awaiting_holepunch (fst (tunnel_transition env s e))) p"
    and "\<not> contains_key (holepunch_sessions (fst (tunnel_transition env s e))) p"
  using active full
  by (simp_all add: step_attempt_report [OF r] retry_active retries_def word_le_nat_alt
      MAX_RELAY_RECONNECT_RETRIES_def clear_retry_state_def)

section \<open>Runs\<close>

text \<open>The first event of a run that decides.\<close>

lemma first_deciding:
  assumes "filter P (map snd es) = e # evs"
  obtains us env vs where "es = us @ (env, e) # vs" and "\<forall>x\<in>set us. \<not> P (snd x)"
    and "filter P (map snd vs) = evs"
proof -
  obtain xs ys where "map snd es = xs @ e # ys" and xs: "\<forall>x\<in>set xs. \<not> P x" and ys: "evs = filter P ys"
    using filter_eq_ConsD [OF assms] by blast
  then obtain us x vs where "es = us @ x # vs" "map snd us = xs" "snd x = e" "map snd vs = ys"
    by (auto simp: map_eq_append_conv map_eq_Cons_conv)
  with that [of us "fst x" vs] xs ys show ?thesis by auto
qed

lemma run_split:
  "fst (mealy_run step s (us @ (env, e) # vs)) =
     fst (mealy_run step (fst (step env (fst (mealy_run step s us)) e)) vs)"
  "snd (mealy_run step s (us @ (env, e) # vs)) =
     snd (mealy_run step s us) @ snd (step env (fst (mealy_run step s us)) e) @
     snd (mealy_run step (fst (step env (fst (mealy_run step s us)) e)) vs)"
  by (simp_all add: mealy_run_append split_beta Let_def)

lemma failing_nonempty: "keeps_failing p i n evs \<Longrightarrow> evs \<noteq> []"
  by (cases rule: keeps_failing.cases) auto

text \<open>From one attempt to the next: a retry with room for it, in the midst of other events.\<close>

lemma failing_cycle:
  assumes active: "attempt_active s p i" and room: "retries s p < 3" and r: "attempt_report e = Some (p, i)"
    and evs: "filter (punch_event p) (map snd es) = e # ConnectionLost p 0 # HolePunchAttemptStarted p j # evs"
  obtains fs gs where "es = fs @ gs" and "filter (punch_event p) (map snd gs) = evs"
    and "attempt_active (fst (mealy_run tunnel_transition s fs)) p j"
    and "retries (fst (mealy_run tunnel_transition s fs)) p = retries s p + 1"
    and "more_wait s (fst (mealy_run tunnel_transition s fs)) p"
    and "disconnects (snd (mealy_run tunnel_transition s fs)) p = 1"
proof -
  let ?run = "\<lambda>s es. fst (mealy_run tunnel_transition s es)"
  let ?cmds = "\<lambda>s es. snd (mealy_run tunnel_transition s es)"
  obtain us env1 vs where es: "es = us @ (env1, e) # vs" and us: "\<forall>x\<in>set us. \<not> punch_event p (snd x)"
    and vs: "filter (punch_event p) (map snd vs) = ConnectionLost p 0 # HolePunchAttemptStarted p j # evs"
    using evs by (rule first_deciding)
  obtain us2 env2 vs2 where es2: "vs = us2 @ (env2, ConnectionLost p 0) # vs2"
    and us2: "\<forall>x\<in>set us2. \<not> punch_event p (snd x)"
    and vs2: "filter (punch_event p) (map snd vs2) = HolePunchAttemptStarted p j # evs"
    using vs by (rule first_deciding)
  obtain us3 env3 gs where es3: "vs2 = us3 @ (env3, HolePunchAttemptStarted p j) # gs"
    and us3: "\<forall>x\<in>set us3. \<not> punch_event p (snd x)" and gs: "filter (punch_event p) (map snd gs) = evs"
    using vs2 by (rule first_deciding)
  define s1 where "s1 = ?run s us"
  define t1 where "t1 = fst (tunnel_transition env1 s1 e)"
  define s2 where "s2 = ?run t1 us2"
  define t2 where "t2 = fst (tunnel_transition env2 s2 (ConnectionLost p 0))"
  define s3 where "s3 = ?run t2 us3"
  define t3 where "t3 = fst (tunnel_transition env3 s3 (HolePunchAttemptStarted p j))"
  note o1 = others_run [OF us, of s, folded s1_def] and o2 = others_run [OF us2, of t1, folded s2_def]
    and o3 = others_run [OF us3, of t2, folded s3_def]
  have active1: "attempt_active s1 p i" and same1: "retries s1 p = retries s p"
    using active o1 by (auto simp: active_punch retries_punch more_wait_def)
  then have room1: "retries s1 p < 3" using room by simp
  note r1 = report_step [OF r active1 room1, of env1, folded t1_def]
  have "snd (snd (punch_of s2 p))" and same2: "retries s2 p = retries s p + 1"
    using o2 r1(1) same1 by (auto simp: retries_punch)
  note r2 = loss_step [OF this(1), of env2, folded t2_def]
  note r3 = start_step [of env3 s3 p j, folded t3_def]
  have waits: "more_wait s t3 p"
  proof -
    have "more_wait s t1 p" using o1 r1(2) by (simp add: more_wait_def)
    moreover have "more_wait t1 t2 p" using o2 r2(2) by (simp add: more_wait_def)
    moreover have "more_wait t2 t3 p" using o3 r3(2) by (simp add: more_wait_def)
    ultimately show ?thesis using more_wait_trans by blast
  qed
  have "retries t3 p = retries s p + 1" using r3(1) o3 r2(1) same2 by (simp add: retries_punch)
  moreover have "attempt_active t3 p j"
    using waits active r3(1) by (simp add: active_punch more_wait_def)
  moreover have end_state: "?run s (us @ (env1, e) # us2 @ (env2, ConnectionLost p 0) # us3 @ [(env3, HolePunchAttemptStarted p j)]) = t3"
    by (simp add: run_split s1_def [symmetric] t1_def [symmetric] s2_def [symmetric] t2_def [symmetric]
        s3_def [symmetric] t3_def [symmetric] del: tunnel_transition.simps)
  moreover have "disconnects (?cmds s (us @ (env1, e) # us2 @ (env2, ConnectionLost p 0) # us3 @ [(env3, HolePunchAttemptStarted p j)])) p = 1"
    using o1 o2 o3 r1(3) r2(3) r3(3)
    by (simp add: run_split s1_def [symmetric] t1_def [symmetric] s2_def [symmetric] t2_def [symmetric]
        s3_def [symmetric] disconnects_def del: tunnel_transition.simps)
  ultimately show ?thesis
    using that [of "us @ (env1, e) # us2 @ (env2, ConnectionLost p 0) # us3 @ [(env3, HolePunchAttemptStarted p j)]" gs]
      waits gs by (simp add: es es2 es3)
qed

text \<open>C19: A hole punch that keeps failing is given up.  Take any run of the tunnel machine from an
  attempt under way whose deciding events for the peer are reports of failures or timeouts of its
  attempts, each but the last followed by the loss of its last connection and by a new attempt, as
  many as retries were left, and which ends with the last report; all other events, for this peer and for
  others, are arbitrary and may come at any point.  Then the peer is disconnected exactly once
  for every retry that was left, and the last report opens, in their order, the tunnels that
  waited at the start, and after them those that came to wait in the meantime; nothing waits for the peer any
  more, and its session is forgotten.\<close>

theorem hole_punch_gives_up:
  assumes "attempt_active s p i" and "retries s p + n = 3"
    and "keeps_failing p i n (filter (punch_event p) (map snd es))"
    and "punch_event p (snd (last es))"
  shows "let (t, cmds) = mealy_run tunnel_transition s es in
    disconnects cmds p = n \<and>
    (\<exists>before more. cmds = before @ spawn_all p (get_or [] (awaiting_holepunch s) p @ more)) \<and>
    \<not> contains_key (awaiting_holepunch t) p \<and> \<not> contains_key (holepunch_sessions t) p"
proof -
  have "keeps_failing p i n evs \<Longrightarrow> filter (punch_event p) (map snd es) = evs \<Longrightarrow>
      punch_event p (snd (last es)) \<Longrightarrow> attempt_active s p i \<Longrightarrow> retries s p + n = 3 \<Longrightarrow>
      disconnects (snd (mealy_run tunnel_transition s es)) p = n \<and>
      (\<exists>before more. snd (mealy_run tunnel_transition s es) =
         before @ spawn_all p (get_or [] (awaiting_holepunch s) p @ more)) \<and>
      \<not> contains_key (awaiting_holepunch (fst (mealy_run tunnel_transition s es))) p \<and>
      \<not> contains_key (holepunch_sessions (fst (mealy_run tunnel_transition s es))) p" for evs
  proof (induction arbitrary: s es rule: keeps_failing.induct)
    case (fails_last e i)
    obtain us env vs where es: "es = us @ (env, e) # vs" and us: "\<forall>x\<in>set us. \<not> punch_event p (snd x)"
      and vs: "filter (punch_event p) (map snd vs) = []"
      using fails_last.prems(1) by (rule first_deciding)
    have "vs = []"
    proof (rule ccontr)
      assume "vs \<noteq> []"
      with fails_last.prems(2) have "punch_event p (snd (last vs))" "last vs \<in> set vs" by (simp_all add: es)
      with vs show False by (simp add: filter_empty_conv)
    qed
    let ?s1 = "fst (mealy_run tunnel_transition s us)"
    note o = others_run [OF us, of s]
    have active: "attempt_active ?s1 p i" and full: "3 \<le> retries ?s1 p"
      using fails_last.prems(3,4) o by (auto simp: active_punch retries_punch more_wait_def)
    note r = last_report [OF fails_last.hyps active full, of env]
    obtain more where more: "get_or [] (awaiting_holepunch ?s1) p = get_or [] (awaiting_holepunch s) p @ more"
      using o by (auto simp: more_wait_def)
    have "disconnects (spawn_all p ts) p = 0" for ts
      by (intro disconnects_none) (auto simp: spawn_all_commands)
    with o r more show ?case
      unfolding es \<open>vs = []\<close> run_split by auto
  next
    case (fails_again e i j n evs)
    have "retries s p < 3" using fails_again.prems(4) by simp
    from failing_cycle [OF fails_again.prems(3) this fails_again.hyps(1) fails_again.prems(1)]
    obtain fs gs where es: "es = fs @ gs" and gs: "filter (punch_event p) (map snd gs) = evs"
      and active: "attempt_active (fst (mealy_run tunnel_transition s fs)) p j"
      and count: "retries (fst (mealy_run tunnel_transition s fs)) p = retries s p + 1"
      and waits: "more_wait s (fst (mealy_run tunnel_transition s fs)) p"
      and dis: "disconnects (snd (mealy_run tunnel_transition s fs)) p = 1" .
    have "gs \<noteq> []" using failing_nonempty [OF fails_again.hyps(2)] gs by auto
    then have last: "punch_event p (snd (last gs))" using fails_again.prems(2) by (simp add: es)
    have left: "retries (fst (mealy_run tunnel_transition s fs)) p + n = 3" using count fails_again.prems(4) by simp
    note IH = fails_again.IH [OF gs last active left]
    obtain before more where "snd (mealy_run tunnel_transition (fst (mealy_run tunnel_transition s fs)) gs) =
        before @ spawn_all p (get_or [] (awaiting_holepunch (fst (mealy_run tunnel_transition s fs))) p @ more)"
      using IH by blast
    moreover obtain came where "get_or [] (awaiting_holepunch (fst (mealy_run tunnel_transition s fs))) p =
        get_or [] (awaiting_holepunch s) p @ came" using waits by (auto simp: more_wait_def)
    ultimately have spawned: "snd (mealy_run tunnel_transition s es) =
        (snd (mealy_run tunnel_transition s fs) @ before) @
        spawn_all p (get_or [] (awaiting_holepunch s) p @ (came @ more))"
      by (simp add: es mealy_run_append)
    have "disconnects (snd (mealy_run tunnel_transition s es)) p = Suc n"
      using IH dis by (simp add: es mealy_run_append)
    moreover have "\<exists>before more. snd (mealy_run tunnel_transition s es) =
        before @ spawn_all p (get_or [] (awaiting_holepunch s) p @ more)"
      using spawned by blast
    moreover have "\<not> contains_key (awaiting_holepunch (fst (mealy_run tunnel_transition s es))) p"
      "\<not> contains_key (holepunch_sessions (fst (mealy_run tunnel_transition s es))) p"
      using IH by (simp_all add: es mealy_run_append)
    ultimately show ?case by blast
  qed
  from this [OF assms(3) refl assms(4,1,2)] show ?thesis by (simp add: split_beta Let_def)
qed

text \<open>Two retries are left at the sample state: two disconnects, and in the end its tunnel is opened,
  in the midst of other events.\<close>

definition sample_failures :: "event list" where
  "sample_failures =
     [HolePunchAttemptTimeout (PeerId ''w'') 7, DiscoveryTimeout, ConnectionLost (PeerId ''w'') 0,
      TunnelPeerConnected (PeerId ''w'') True, HolePunchAttemptStarted (PeerId ''w'') 8,
      HolePunchAttemptFailed (PeerId ''w'') 8 ''no'', TunnelDialFailed (PeerId ''w'') ''refused'',
      ConnectionLost (PeerId ''w'') 0, ConnectionLost (PeerId ''v'') 0,
      HolePunchAttemptStarted (PeerId ''w'') 9, TunnelPeerConnected (PeerId ''w'') True,
      HolePunchAttemptTimeout (PeerId ''w'') 9]"

theorem hole_punch_gives_up_witness:
  "let (t, cmds) = mealy_run tunnel_transition (sample_waiting 1) (map (Pair (sample_env 0)) sample_failures) in
    disconnects cmds (PeerId ''w'') = 2 \<and>
    SpawnTunnel (PeerId ''w'') (ServiceName ''ssh'') sample_bind \<in> set cmds"
proof -
  let ?w = "PeerId ''w''" and ?es = "map (Pair (sample_env 0)) sample_failures"
  have left: "retries (sample_waiting 1) ?w + 2 = 3"
    and waiting: "get_or [] (awaiting_holepunch (sample_waiting 1)) ?w = [sample_spec]"
    by (simp_all add: retries_def sample_waiting_def)
  have events: "map snd ?es = sample_failures" by (simp add: comp_def)
  have "filter (punch_event ?w) sample_failures =
      [HolePunchAttemptTimeout ?w 7, ConnectionLost ?w 0, HolePunchAttemptStarted ?w 8,
       HolePunchAttemptFailed ?w 8 ''no'', ConnectionLost ?w 0, HolePunchAttemptStarted ?w 9,
       HolePunchAttemptTimeout ?w 9]"
    by (simp add: sample_failures_def)
  moreover have "keeps_failing ?w 7 (Suc (Suc 0))
      [HolePunchAttemptTimeout ?w 7, ConnectionLost ?w 0, HolePunchAttemptStarted ?w 8,
       HolePunchAttemptFailed ?w 8 ''no'', ConnectionLost ?w 0, HolePunchAttemptStarted ?w 9,
       HolePunchAttemptTimeout ?w 9]"
    by (intro fails_again fails_last) simp_all
  ultimately have failing: "keeps_failing ?w 7 2 (filter (punch_event ?w) (map snd ?es))"
    unfolding events by (simp add: numeral_2_eq_2)
  have last: "punch_event ?w (snd (last ?es))" by (simp add: sample_failures_def)
  from hole_punch_gives_up [OF sample_waiting_active left failing last] show ?thesis
    unfolding waiting by (auto simp: split_beta Let_def spawn_all_def sample_spec_def)
qed

end
