(* ===== verification/Node_Attempts.thy ===== *)
theory Node_Attempts
  imports Node_Props
begin

text \<open>
  The two places of the node that know about hole punches agree: the connection records, which
  number the attempts and keep their deadlines, and the sessions of the state machine, which decide
  what a failed attempt leads to.  Between the turns of the event loop every session carries the
  number of the latest attempt for its peer, and a session that is still punching belongs to the
  attempt under way; so a timeout or a failure the node reports is never taken for an old one.
\<close>

section \<open>Sessions over a step of the state machine\<close>

abbreviation session_of :: "'sw node_state \<Rightarrow> peer_id \<Rightarrow> hole_punch_session option" where
  "session_of n p \<equiv> fmlookup (holepunch_sessions (app_tunnel (nd_app n))) p"

text \<open>A session is new, or continues one of its peer that was punching if it is.\<close>

definition continues :: "tunnel_state \<Rightarrow> peer_id \<Rightarrow> hole_punch_session \<Rightarrow> bool" where
  "continues s p t \<longleftrightarrow>
     (\<exists>u. fmlookup (holepunch_sessions s) p = Some u \<and> sess_attempt_id t = sess_attempt_id u \<and>
        (sess_phase t = Punching \<longrightarrow> sess_phase u = Punching))"

lemma continues_same: "fmlookup (holepunch_sessions s) p = Some t \<Longrightarrow> continues s p t"
  by (simp add: continues_def)

lemma continues_trans:
  "(\<And>t. fmlookup (holepunch_sessions s') p = Some t \<Longrightarrow> continues s p t) \<Longrightarrow> continues s' p t \<Longrightarrow>
     continues s p t"
  unfolding continues_def by metis

lemma refresh_session_keeps [simp]:
  "sess_attempt_id (refresh_session relays directs u) = sess_attempt_id u"
  "sess_phase (refresh_session relays directs u) = sess_phase u"
  by (simp_all add: refresh_session_def Let_def)

lemma session_step:
  assumes "fmlookup (holepunch_sessions (fst (tunnel_transition env s e))) p = Some t"
    and "\<forall>i. e \<noteq> HolePunchAttemptStarted p i"
  shows "continues s p t"
proof (cases e)
  case (PhaseChanged old new)
  with assms show ?thesis by (cases new) (simp_all add: on_phase_ready_def continues_same)
next
  case (TunnelDialFailed q r)
  with assms show ?thesis
    by (auto simp: on_tunnel_dial_failed_def mark_dial_retry_def Let_def reroute_frame continues_def
        split: option.splits if_splits)
next
  case (PeerIdentified q listen observed)
  with assms show ?thesis
    by (auto simp: update_address_oracle_def record_address_candidates_def Let_def continues_def
        split: option.splits if_splits)
next
  case (ConnectionLost q k)
  with assms show ?thesis
    by (auto simp: on_all_connections_lost_def set_session_phase_def clear_retry_state_def Let_def
        continues_def split: option.splits if_splits)
next
  case (HolePunchAttemptFailed q i r)
  with assms show ?thesis
    by (auto simp: retry_holepunch_attempt_def set_session_phase_def schedule_holepunch_retry_def
        clear_retry_state_def continues_def split: option.splits if_splits)
next
  case (HolePunchAttemptTimeout q i)
  with assms show ?thesis
    by (auto simp: retry_holepunch_attempt_def set_session_phase_def schedule_holepunch_retry_def
        clear_retry_state_def continues_def split: option.splits if_splits)
qed (use assms in \<open>auto simp: continues_def on_dht_peer_lookup_complete_def on_dht_service_resolved_def
    on_dht_service_failed_def route_connected_peer_def queue_for_direct_def store_provider_candidates_def
    on_tunnel_peer_connected_def clear_retry_state_def begin_holepunch_attempt_def Let_def
    split: option.splits list.splits prod.splits if_splits\<close>)

lemma session_started:
  "fmlookup (holepunch_sessions (fst (tunnel_transition env s (HolePunchAttemptStarted p i)))) p = Some t \<Longrightarrow>
     sess_attempt_id t = i"
  by (auto simp: begin_holepunch_attempt_def Let_def)

text \<open>The events that end a punching session of a peer.\<close>

definition ends_punching :: "event \<Rightarrow> peer_id \<Rightarrow> bool" where
  "ends_punching e p \<longleftrightarrow> e = TunnelPeerConnected p False \<or> e = ConnectionLost p 0"

lemma punching_ended:
  assumes "ends_punching e p"
    and "fmlookup (holepunch_sessions (fst (tunnel_transition env s e))) p = Some t"
  shows "sess_phase t \<noteq> Punching"
  using assms
  by (auto simp: ends_punching_def on_tunnel_peer_connected_def on_all_connections_lost_def
      set_session_phase_def clear_retry_state_def Let_def split: option.splits if_splits)

text \<open>The same for the whole state machine, which may pass a change of phase on first.\<close>

lemma app_tunnel_step:
  obtains u where "app_tunnel (fst (app_transition env s e)) = fst (tunnel_transition env u e)"
    and "holepunch_sessions u = holepunch_sessions (app_tunnel s)"
proof -
  have phase: "holepunch_sessions (fst (tunnel_transition env t (PhaseChanged old new))) = holepunch_sessions t"
    for t old new by (cases new) (simp_all add: on_phase_ready_def)
  show ?thesis
  proof (cases "phase (app_peer s) = phase (fst (peer_transition env (app_peer s) e))")
    case True
    then have "app_tunnel (fst (app_transition env s e)) = fst (tunnel_transition env (app_tunnel s) e)"
      by (simp add: app_transition_run tunnel_events_def split_beta Let_def)
    with that show ?thesis by blast
  next
    case False
    then have "app_tunnel (fst (app_transition env s e)) = fst (tunnel_transition env
        (fst (tunnel_transition env (app_tunnel s) (PhaseChanged (phase (app_peer s))
           (phase (fst (peer_transition env (app_peer s) e)))))) e)"
      by (simp add: app_transition_run tunnel_events_def split_beta Let_def)
    with that phase show ?thesis by blast
  qed
qed

section \<open>Agreement\<close>

text \<open>
  Every session carries the latest attempt number of its peer, but for the peers of \<open>A\<close>; every
  punching session belongs to an attempt under way, but for the peers of \<open>B\<close>.
\<close>

definition agree :: "peer_id set \<Rightarrow> peer_id set \<Rightarrow> 'sw node_state \<Rightarrow> bool" where
  "agree A B n \<longleftrightarrow>
     (\<forall>p t. session_of n p = Some t \<longrightarrow>
        (p \<notin> A \<longrightarrow> fmlookup (hole_punch_attempt_seq (nd_conn n)) p = Some (sess_attempt_id t)) \<and>
        (p \<notin> B \<longrightarrow> sess_phase t = Punching \<longrightarrow> attempt_id_of (nd_conn n) p \<noteq> None))"

lemma agreeI:
  assumes "\<And>p t. session_of n p = Some t \<Longrightarrow> p \<notin> A \<Longrightarrow>
      fmlookup (hole_punch_attempt_seq (nd_conn n)) p = Some (sess_attempt_id t)"
    and "\<And>p t. session_of n p = Some t \<Longrightarrow> p \<notin> B \<Longrightarrow> sess_phase t = Punching \<Longrightarrow>
      attempt_id_of (nd_conn n) p \<noteq> None"
  shows "agree A B n"
  using assms by (simp add: agree_def)

lemma agree_number:
  "agree A B n \<Longrightarrow> session_of n p = Some t \<Longrightarrow> p \<notin> A \<Longrightarrow>
     fmlookup (hole_punch_attempt_seq (nd_conn n)) p = Some (sess_attempt_id t)"
  by (simp add: agree_def)

lemma agree_active:
  "agree A B n \<Longrightarrow> session_of n p = Some t \<Longrightarrow> p \<notin> B \<Longrightarrow> sess_phase t = Punching \<Longrightarrow>
     attempt_id_of (nd_conn n) p \<noteq> None"
  by (simp add: agree_def)

lemma agree_mono: "agree A B n \<Longrightarrow> A \<subseteq> A' \<Longrightarrow> B \<subseteq> B' \<Longrightarrow> agree A' B' n"
  unfolding agree_def by (meson subsetD)

text \<open>The invariant looks at the state machine and the connection records only.\<close>

lemma agree_frame:
  "nd_app n' = nd_app n \<Longrightarrow> hole_punch_attempt_seq (nd_conn n') = hole_punch_attempt_seq (nd_conn n) \<Longrightarrow>
     (\<And>p. attempt_id_of (nd_conn n') p = attempt_id_of (nd_conn n) p) \<Longrightarrow> agree A B n' = agree A B n"
  by (simp add: agree_def)

lemma dispatch_app: "dispatch w e n = Some n' \<Longrightarrow> nd_app n' = fst (app_transition (w_env w) (nd_app n) e)"
  by (auto simp: dispatch_def split_beta)

lemma dispatch_session:
  assumes "dispatch w e n = Some n'" and "session_of n' p = Some t"
  shows "(\<forall>i. e \<noteq> HolePunchAttemptStarted p i) \<Longrightarrow> continues (app_tunnel (nd_app n)) p t"
    and "e = HolePunchAttemptStarted p i \<Longrightarrow> sess_attempt_id t = i"
    and "ends_punching e p \<Longrightarrow> sess_phase t \<noteq> Punching"
proof -
  obtain u where u: "app_tunnel (fst (app_transition (w_env w) (nd_app n) e)) = fst (tunnel_transition (w_env w) u e)"
    and same: "holepunch_sessions u = holepunch_sessions (app_tunnel (nd_app n))"
    by (rule app_tunnel_step)
  have after: "fmlookup (holepunch_sessions (fst (tunnel_transition (w_env w) u e))) p = Some t"
    using assms(2) by (simp only: dispatch_app [OF assms(1)] u)
  show "continues (app_tunnel (nd_app n)) p t" if "\<forall>i. e \<noteq> HolePunchAttemptStarted p i"
    using session_step [OF after that] by (simp add: continues_def same)
  show "sess_attempt_id t = i" if "e = HolePunchAttemptStarted p i"
    using session_started after unfolding that by blast
  show "sess_phase t \<noteq> Punching" if "ends_punching e p"
    using that after by (rule punching_ended)
qed

lemma dispatch_agree:
  assumes d: "dispatch w e n = Some n'" and agree: "agree A B n"
    and fresh: "\<And>p i. e = HolePunchAttemptStarted p i \<Longrightarrow>
      fmlookup (hole_punch_attempt_seq (nd_conn n)) p = Some i \<and> attempt_id_of (nd_conn n) p \<noteq> None"
  shows "agree (A - {p. \<exists>i. e = HolePunchAttemptStarted p i}) (B - {p. ends_punching e p}) n'"
proof (rule agreeI, unfold dispatch_conn [OF d])
  fix p t
  assume t: "session_of n' p = Some t" and "p \<notin> A - {p. \<exists>i. e = HolePunchAttemptStarted p i}"
  show "fmlookup (hole_punch_attempt_seq (nd_conn n)) p = Some (sess_attempt_id t)"
  proof (cases "\<exists>i. e = HolePunchAttemptStarted p i")
    case True
    then obtain i where i: "e = HolePunchAttemptStarted p i" by blast
    from fresh [OF i] dispatch_session(2) [OF d t i] show ?thesis by simp
  next
    case False
    with dispatch_session(1) [OF d t] obtain u where "session_of n p = Some u"
      and "sess_attempt_id t = sess_attempt_id u" by (auto simp: continues_def)
    moreover have "p \<notin> A" using False \<open>p \<notin> A - _\<close> by blast
    ultimately show ?thesis using agree_number [OF agree] by simp
  qed
next
  fix p t
  assume t: "session_of n' p = Some t" and B: "p \<notin> B - {p. ends_punching e p}" and ph: "sess_phase t = Punching"
  show "attempt_id_of (nd_conn n) p \<noteq> None"
  proof (cases "\<exists>i. e = HolePunchAttemptStarted p i")
    case True
    with fresh show ?thesis by blast
  next
    case False
    with dispatch_session(1) [OF d t] ph obtain u where "session_of n p = Some u" and "sess_phase u = Punching"
      by (auto simp: continues_def)
    moreover have "p \<notin> B" using B dispatch_session(3) [OF d t] ph by blast
    ultimately show ?thesis using agree_active [OF agree] by blast
  qed
qed

text \<open>Events other than the start of an attempt keep what holds.\<close>

fun starts_attempt :: "event \<Rightarrow> bool" where
  "starts_attempt (HolePunchAttemptStarted _ _) = True"
| "starts_attempt _ = False"

lemma dispatch_agree_other:
  "dispatch w e n = Some n' \<Longrightarrow> agree A B n \<Longrightarrow> \<not> starts_attempt e \<Longrightarrow>
     agree A (B - {p. ends_punching e p}) n'"
  by (rule agree_mono [OF dispatch_agree]) auto

lemma dispatch_agree_kept:
  "dispatch w e n = Some n' \<Longrightarrow> agree A B n \<Longrightarrow> \<not> starts_attempt e \<Longrightarrow> agree A B n'"
  by (rule agree_mono [OF dispatch_agree_other]) auto

section \<open>Arming\<close>

lemma start_attempt_numbers:
  assumes "start_hole_punch_attempt now peer timeout s = (s', r)"
  shows "\<And>p. p \<noteq> peer \<Longrightarrow> fmlookup (hole_punch_attempt_seq s') p = fmlookup (hole_punch_attempt_seq s) p"
    and "\<And>p. p \<noteq> peer \<Longrightarrow> attempt_id_of s' p = attempt_id_of s p"
    and "r = None \<Longrightarrow> s' = s"
    and "\<And>i. r = Some i \<Longrightarrow> fmlookup (hole_punch_attempt_seq s') peer = Some i \<and> attempt_id_of s' peer = Some i"
  using assms
  by (auto simp: start_hole_punch_attempt_def next_hole_punch_attempt_id_def attempt_id_of_def
      new_attempt_stats_def Let_def split: if_splits)

lemma start_attempt_agree:
  assumes "start_hole_punch_attempt now peer timeout (nd_conn n) = (conn', Some i)" and "agree A B n"
  shows "agree (insert peer A) (B - {peer}) (n\<lparr>nd_conn := conn'\<rparr>)"
proof (rule agreeI)
  fix p t
  assume t: "session_of (n\<lparr>nd_conn := conn'\<rparr>) p = Some t" and p: "p \<notin> insert peer A"
  then have "fmlookup (hole_punch_attempt_seq (nd_conn n)) p = Some (sess_attempt_id t)"
    using agree_number [OF assms(2)] by simp
  with p start_attempt_numbers(1) [OF assms(1)]
  show "fmlookup (hole_punch_attempt_seq (nd_conn (n\<lparr>nd_conn := conn'\<rparr>))) p = Some (sess_attempt_id t)"
    by simp
next
  fix p t
  assume t: "session_of (n\<lparr>nd_conn := conn'\<rparr>) p = Some t" and "p \<notin> B - {peer}" "sess_phase t = Punching"
  then show "attempt_id_of (nd_conn (n\<lparr>nd_conn := conn'\<rparr>)) p \<noteq> None"
    using agree_active [OF assms(2), of p t] start_attempt_numbers(2,4) [OF assms(1)]
    by (cases "p = peer") auto
qed

lemma arm_targets_agree:
  "arm_targets w peers n = Some n' \<Longrightarrow> agree {} B n \<Longrightarrow> agree {} B n'"
proof (induction w peers n rule: arm_targets.induct)
  case (1 w n)
  then show ?case by simp
next
  case (2 w peer peers n)
  obtain conn' started where s: "start_hole_punch_attempt (w_now w) peer HOLE_PUNCH_TIMEOUT (nd_conn n) =
      (conn', started)" by (metis surj_pair)
  show ?case
  proof (cases started)
    case None
    with 2 s show ?thesis by simp
  next
    case (Some i)
    with "2.prems" s obtain n1 where
      d: "dispatch w (HolePunchAttemptStarted peer i) (n\<lparr>nd_conn := conn'\<rparr>) = Some n1"
      and rest: "arm_targets w peers n1 = Some n'"
      by (auto split: option.splits)
    have "agree {peer} (B - {peer}) (n\<lparr>nd_conn := conn'\<rparr>)"
      using start_attempt_agree [of "w_now w" peer HOLE_PUNCH_TIMEOUT n conn' i "{}" B] s Some "2.prems"(2) by simp
    from dispatch_agree [OF d this] start_attempt_numbers(4) [OF s Some]
    have "agree ({peer} - {p. \<exists>j. HolePunchAttemptStarted peer i = HolePunchAttemptStarted p j})
        (B - {peer} - {p. ends_punching (HolePunchAttemptStarted peer i) p}) n1" by auto
    then have "agree {} B n1" by (rule agree_mono) auto
    with "2.IH"(2) [OF s [symmetric] Some d rest] show ?thesis .
  qed
qed

lemma arm_agree:
  "arm_hole_punch_for_tunnel_targets w n = Some n' \<Longrightarrow> agree {} B n \<Longrightarrow> agree {} B n'"
  by (auto simp: arm_hole_punch_for_tunnel_targets_def arm_targets_agree split: if_splits)

section \<open>Events\<close>

lemma observe_frame: "nd_app (observe_identify w e n) = nd_app n" "nd_conn (observe_identify w e n) = nd_conn n"
  by (auto simp: observe_identify_def record_observed_port_def refresh_bootstrap_observation_def Let_def
      split: event.split option.split)

lemma observe_agree: "agree A B (observe_identify w e n) = agree A B n"
  by (rule agree_frame) (simp_all add: observe_frame)

lemma attempt_scoped_cases:
  assumes "attempt_scoped conn e = Some e'"
  shows "e' = e \<or> (\<not> starts_attempt e' \<and> \<not> starts_attempt e \<and> (\<forall>p. \<not> ends_punching e p))"
  using assms by (cases e) (auto simp: ends_punching_def)

lemma process_event_other:
  assumes ev: "process_event w e n = Some (n', go_on)" and agree: "agree {} B n" and "\<not> starts_attempt e"
  shows "agree {} (B - {p. ends_punching e p}) n'"
proof (cases "attempt_scoped (nd_conn n) e")
  case None
  then have "e \<noteq> TunnelPeerConnected p False" "e \<noteq> ConnectionLost p 0" for p by auto
  then have "{p. ends_punching e p} = {}" by (simp add: ends_punching_def)
  with None ev agree show ?thesis by (simp add: process_event_def)
next
  case (Some e')
  have cases: "\<not> starts_attempt e'" "{p. ends_punching e p} \<subseteq> {p. ends_punching e' p}"
    using attempt_scoped_cases [OF Some] assms(3) by auto
  let ?n1 = "observe_identify w e' n"
  have one: "agree {} B ?n1" using agree by (simp add: observe_agree)
  show ?thesis
  proof (cases "stale_attempt_failure (nd_conn ?n1) e'")
    case True
    then have "{p. ends_punching e' p} = {}"
      by (auto simp: stale_attempt_failure_def ends_punching_def split: event.splits)
    with True Some ev one cases show ?thesis by (simp add: process_event_def Let_def)
  next
    case False
    with Some ev obtain n2 where d: "dispatch w e' ?n1 = Some n2"
      and arm: "arm_hole_punch_for_tunnel_targets w n2 = Some n'"
      by (auto simp: process_event_def Let_def split: option.splits)
    have "agree {} (B - {p. ends_punching e' p}) n2" by (rule dispatch_agree_other [OF d one cases(1)])
    then have "agree {} (B - {p. ends_punching e p}) n2" by (rule agree_mono) (use cases in auto)
    with arm show ?thesis by (rule arm_agree)
  qed
qed

lemma process_event_start:
  assumes ev: "process_event w (HolePunchAttemptStarted p i) n = Some (n', go_on)" and agree: "agree {p} B n"
    and "fmlookup (hole_punch_attempt_seq (nd_conn n)) p = Some i" and "attempt_id_of (nd_conn n) p \<noteq> None"
  shows "agree {} B n'"
proof -
  have same: "observe_identify w (HolePunchAttemptStarted p i) n = n" by (simp add: observe_identify_def)
  with ev obtain n2 where d: "dispatch w (HolePunchAttemptStarted p i) n = Some n2"
    and arm: "arm_hole_punch_for_tunnel_targets w n2 = Some n'"
    by (auto simp: process_event_def Let_def stale_attempt_failure_def split: option.splits)
  have "agree ({p} - {q. \<exists>j. HolePunchAttemptStarted p i = HolePunchAttemptStarted q j})
      (B - {q. ends_punching (HolePunchAttemptStarted p i) q}) n2"
    by (rule dispatch_agree [OF d agree]) (use assms(3,4) in auto)
  then have "agree {} B n2" by (rule agree_mono) auto
  with arm show ?thesis by (rule arm_agree)
qed

lemma process_event_stop:
  "process_event w e n = Some (n', False) \<Longrightarrow> app_phase (nd_app n') = ShuttingDown"
  by (auto simp: process_event_def Let_def split: option.splits if_splits)

text \<open>Unless the loop over the events was left to shut down.\<close>

definition settled :: "'sw node_state \<Rightarrow> bool" where
  "settled n \<longleftrightarrow> app_phase (nd_app n) = ShuttingDown \<or> agree {} {} n"

lemma process_events_agree:
  "process_events w es n = Some n' \<Longrightarrow> agree {} B n \<Longrightarrow> \<forall>e\<in>set es. \<not> starts_attempt e \<Longrightarrow>
     B \<subseteq> {p. \<exists>e\<in>set es. ends_punching e p} \<Longrightarrow> settled n'"
proof (induction es arbitrary: n B)
  case Nil
  then show ?case by (simp add: settled_def)
next
  case (Cons e es)
  from Cons.prems(1) obtain n1 go_on where ev: "process_event w e n = Some (n1, go_on)"
    by (auto split: option.splits)
  have one: "agree {} (B - {p. ends_punching e p}) n1"
    using process_event_other [OF ev Cons.prems(2)] Cons.prems(3) by simp
  show ?case
  proof (cases go_on)
    case True
    with Cons.prems(1) ev have "process_events w es n1 = Some n'" by simp
    moreover have "B - {p. ends_punching e p} \<subseteq> {p. \<exists>e\<in>set es. ends_punching e p}"
      using Cons.prems(4) by auto
    ultimately show ?thesis using Cons.IH one Cons.prems(3) by simp
  next
    case False
    with Cons.prems(1) ev have "n1 = n'" by simp
    with False ev process_event_stop show ?thesis by (auto simp: settled_def)
  qed
qed

lemma process_events_start:
  assumes run: "process_events w (HolePunchAttemptStarted p i # es) n = Some n'" and agree: "agree {p} {} n"
    and seq: "fmlookup (hole_punch_attempt_seq (nd_conn n)) p = Some i" "attempt_id_of (nd_conn n) p \<noteq> None"
    and es: "\<forall>e\<in>set es. \<not> starts_attempt e"
  shows "settled n'"
proof -
  from run obtain n1 go_on where ev: "process_event w (HolePunchAttemptStarted p i) n = Some (n1, go_on)"
    by (auto simp del: process_events.simps simp: process_events.simps(2) split: option.splits)
  from process_event_start [OF ev agree seq] have one: "agree {} {} n1" .
  show ?thesis
  proof (cases go_on)
    case True
    with run ev have "process_events w es n1 = Some n'" by simp
    from process_events_agree [OF this one es] show ?thesis by simp
  next
    case False
    with run ev have "n1 = n'" by simp
    with False ev process_event_stop show ?thesis by (auto simp: settled_def)
  qed
qed

lemma translated_starts_nothing:
  "e \<in> set (snd (translate_swarm_event env boot active conn ev q)) \<Longrightarrow> \<not> starts_attempt e"
proof (cases ev)
  case (SwBehaviour b)
  have kad: "e \<in> set (snd (translate_kad_event env active conn k q)) \<Longrightarrow> \<not> starts_attempt e" for k
  proof (cases k)
    case (OutboundQueryProgressed i r l)
    then show "e \<in> set (snd (translate_kad_event env active conn k q)) \<Longrightarrow> \<not> starts_attempt e"
      by (cases r) (auto simp: translate_get_providers_def Let_def
          split: option.splits sum.splits get_providers_ok.splits if_splits)
  qed simp
  then show "e \<in> set (snd (translate_swarm_event env boot active conn ev q)) \<Longrightarrow> \<not> starts_attempt e"
    unfolding SwBehaviour by (cases b) (auto split: sum.splits)
qed (auto split: sum.splits option.splits if_splits)

section \<open>Bookkeeping\<close>

lemma listen_frame:
  "nd_app (on_new_listen_addr w a n) = nd_app n" "nd_conn (on_new_listen_addr w a n) = nd_conn n"
  by (simp_all add: on_new_listen_addr_def Let_def)

lemma reconnect_frame:
  "nd_app (schedule_boot_reconnect w p n) = nd_app n" "nd_conn (schedule_boot_reconnect w p n) = nd_conn n"
  by (simp_all add: schedule_boot_reconnect_def split: prod.split option.split)

lemma external_frame:
  "nd_app (on_external_confirmed w a n) = nd_app n" "nd_conn (on_external_confirmed w a n) = nd_conn n"
  "nd_app (on_external_expired a n) = nd_app n" "nd_conn (on_external_expired a n) = nd_conn n"
  by (simp_all add: on_external_confirmed_def on_external_expired_def Let_def split: option.split)

lemma reconnect_one_frame:
  "nd_app (reconnect_one w p n) = nd_app n" "nd_conn (reconnect_one w p n) = nd_conn n"
  by (auto simp: reconnect_one_def reconnect_frame Let_def split: option.split prod.split sum.split)

lemma reconnects_frame:
  "nd_app (fold (reconnect_one w) ps n) = nd_app n \<and> nd_conn (fold (reconnect_one w) ps n) = nd_conn n"
  by (induction ps arbitrary: n) (simp_all add: reconnect_one_frame)

lemma dialing_frame:
  "hole_punch_attempt_seq (fst (on_dialing p c s)) = hole_punch_attempt_seq s"
  "attempt_id_of (fst (on_dialing p c s)) q = attempt_id_of s q"
  by (auto simp: on_dialing_def attempt_id_of_def Let_def split: option.split)

lemma error_frame:
  "hole_punch_attempt_seq (fst (on_outgoing_connection_error peer_opt c text s)) = hole_punch_attempt_seq s"
  "attempt_id_of (fst (on_outgoing_connection_error peer_opt c text s)) q = attempt_id_of s q"
  by (auto simp: on_outgoing_connection_error_def attempt_id_of_def Let_def split: option.split)

lemma due_frame:
  "hole_punch_attempt_seq (fst (take_due_hole_punch_timeouts env now s)) = hole_punch_attempt_seq s"
  "attempt_id_of (fst (take_due_hole_punch_timeouts env now s)) q = attempt_id_of s q"
  by (simp_all add: take_due_hole_punch_timeouts_def attempt_id_of_def Let_def)

lemma outgoing_error_agree: "agree A B (on_outgoing_error w peer_opt c text n) = agree A B n"
proof (rule agree_frame)
  show "nd_app (on_outgoing_error w peer_opt c text n) = nd_app n"
    by (simp add: on_outgoing_error_def reconnect_frame Let_def split: option.split)
  have "nd_conn (on_outgoing_error w peer_opt c text n) =
      fst (on_outgoing_connection_error peer_opt c text (nd_conn n))"
    by (simp add: on_outgoing_error_def reconnect_frame Let_def split: option.split)
  then show "hole_punch_attempt_seq (nd_conn (on_outgoing_error w peer_opt c text n)) =
      hole_punch_attempt_seq (nd_conn n)"
    "attempt_id_of (nd_conn (on_outgoing_error w peer_opt c text n)) p = attempt_id_of (nd_conn n) p" for p
    by (simp_all add: error_frame)
qed

lemma established_records:
  "hole_punch_attempt_seq (fst (on_connection_established ord p c relayed s)) = hole_punch_attempt_seq s"
  "relayed \<or> q \<noteq> p \<Longrightarrow> attempt_id_of (fst (on_connection_established ord p c relayed s)) q = attempt_id_of s q"
  "started_attempt_id (snd (on_connection_established ord p c relayed s)) = None"
  by (auto simp: on_connection_established_def attempt_id_of_def complete_hole_punch_attempt_def
      remove_pending_hole_punch_dials_for_peer_def Let_def)

lemma closed_records:
  "hole_punch_attempt_seq (fst (on_connection_closed p c k s)) = hole_punch_attempt_seq s"
  "\<not> peer_fully_disconnected (snd (on_connection_closed p c k s)) \<or> q \<noteq> p \<Longrightarrow>
     attempt_id_of (fst (on_connection_closed p c k s)) q = attempt_id_of s q"
  "peer_fully_disconnected (snd (on_connection_closed p c k s)) \<Longrightarrow>
     remaining_connections_of (fst (on_connection_closed p c k s)) p = 0"
  by (auto simp: closed_alt closed_base_def attempt_id_of_def complete_hole_punch_attempt_def
      remove_pending_hole_punch_dials_for_peer_def remaining_connections_of_def Let_def
      relayed_connection_count_def direct_connection_count_def connection_count_for_peer_def
      has_relayed_connection_def has_direct_connection_def)

text \<open>What the bookkeeping of a connection leaves to the events that follow.\<close>

lemma established_agree:
  assumes est: "on_established w p c endpoint n = (n1, synthetic)" and agree: "agree {} {} n"
  shows "(synthetic = [] \<and> agree {} (if endpoint_is_relayed endpoint then {} else {p}) n1) \<or>
    (\<exists>i. synthetic = [HolePunchAttemptStarted p i] \<and> agree {p} {} n1 \<and>
       fmlookup (hole_punch_attempt_seq (nd_conn n1)) p = Some i \<and> attempt_id_of (nd_conn n1) p \<noteq> None)"
proof -
  let ?r = "endpoint_is_relayed endpoint"
  let ?est = "on_connection_established (w_conn_order w) p c ?r (nd_conn n)"
  let ?n = "n\<lparr>nd_conn := fst ?est\<rparr>"
  have base: "agree {} (if ?r then {} else {p}) ?n"
    using agree established_records(2) [of ?r _ p "w_conn_order w" c "nd_conn n"]
    by (simp add: agree_def established_records)
  obtain conn2 started where s:
    "(if ?r \<and> has_holepunch_intent (app_tunnel (nd_app n)) p
      then start_hole_punch_attempt (w_now w) p HOLE_PUNCH_TIMEOUT (fst ?est) else (fst ?est, None)) = (conn2, started)"
    by (metis surj_pair)
  have n1: "nd_conn n1 = conn2" "nd_app n1 = nd_app n"
    and syn: "synthetic = (case started of Some i \<Rightarrow> [HolePunchAttemptStarted p i] | None \<Rightarrow> [])"
    using est s established_records(3) [of "w_conn_order w" p c ?r "nd_conn n"]
    by (auto simp: on_established_def Let_def split_beta split: option.splits if_splits)
  show ?thesis
  proof (cases started)
    case None
    then have "conn2 = fst ?est"
      using s start_attempt_numbers(3) [of "w_now w" p HOLE_PUNCH_TIMEOUT "fst ?est"] by (auto split: if_splits)
    with base have "agree {} (if ?r then {} else {p}) n1"
      by (subst agree_frame [of _ ?n]) (simp_all add: n1)
    with None syn show ?thesis by simp
  next
    case (Some i)
    then have start: "start_hole_punch_attempt (w_now w) p HOLE_PUNCH_TIMEOUT (nd_conn ?n) = (conn2, Some i)"
      using s by (auto split: if_splits)
    have "agree {p} {} (?n\<lparr>nd_conn := conn2\<rparr>)"
      by (rule agree_mono [OF start_attempt_agree [OF start base]]) auto
    then have "agree {p} {} n1" by (subst agree_frame [of _ "?n\<lparr>nd_conn := conn2\<rparr>"]) (simp_all add: n1)
    with start_attempt_numbers(4) [OF start refl] Some syn show ?thesis by (simp add: n1)
  qed
qed

lemma closed_agree:
  assumes cl: "on_closed w p c k n = (n1, synthetic, boot)" and agree: "agree {} {} n"
  shows "\<exists>r. synthetic = [ConnectionLost p r] \<and> agree {} (if r = 0 then {p} else {}) n1"
proof -
  let ?cl = "on_connection_closed p c k (nd_conn n)"
  have n1: "nd_conn n1 = fst ?cl" "nd_app n1 = nd_app n"
    and syn: "synthetic = [ConnectionLost p (remaining_connections_of (fst ?cl) p)]"
    using cl by (auto simp: on_closed_def Let_def split_beta)
  have "attempt_id_of (fst ?cl) q = attempt_id_of (nd_conn n) q"
    if "q \<notin> (if remaining_connections_of (fst ?cl) p = 0 then {p} else {})" for q
    using closed_records(2,3) [of p c k "nd_conn n"] that by (cases "q = p") (auto split: if_splits)
  with agree have "agree {} (if remaining_connections_of (fst ?cl) p = 0 then {p} else {}) n1"
    unfolding agree_def n1 closed_records(1) by simp
  with syn show ?thesis by blast
qed

section \<open>Turns\<close>

text \<open>What the bookkeeping of any swarm event leaves to the events that follow it.\<close>

lemma bookkeeping_agree:
  assumes b: "swarm_bookkeeping w event n = (n1, synthetic)" and agree: "agree {} {} n"
  shows "(\<exists>p i. synthetic = [HolePunchAttemptStarted p i] \<and> agree {p} {} n1 \<and>
       fmlookup (hole_punch_attempt_seq (nd_conn n1)) p = Some i \<and> attempt_id_of (nd_conn n1) p \<noteq> None) \<or>
    (\<exists>B. agree {} B n1 \<and> (\<forall>e\<in>set synthetic. \<not> starts_attempt e) \<and>
       B \<subseteq> {p. (\<exists>e\<in>set synthetic. ends_punching e p) \<or>
         (\<exists>c endpoint. event = SwConnectionEstablished p c endpoint \<and> \<not> endpoint_is_relayed endpoint)})"
proof (cases event)
  case (SwConnectionEstablished p c endpoint)
  obtain n2 syn where est: "on_established w p c endpoint n = (n2, syn)" by (metis surj_pair)
  have "nd_app n1 = nd_app n2" "nd_conn n1 = nd_conn n2" "synthetic = syn"
    using b est by (auto simp: SwConnectionEstablished swarm_bookkeeping_def split: if_splits)
  moreover from this have "agree A B n1 = agree A B n2" for A B by (simp add: agree_def)
  ultimately show ?thesis
    using established_agree [OF est agree] by (auto simp: SwConnectionEstablished split: if_splits)
next
  case (SwConnectionClosed p c endpoint k)
  obtain n2 syn boot where cl: "on_closed w p c k n = (n2, syn, boot)" by (metis prod_cases3)
  have n1: "nd_app n1 = nd_app n2" "nd_conn n1 = nd_conn n2" and syn: "synthetic = syn"
    using b cl by (auto simp: SwConnectionClosed swarm_bookkeeping_def reconnect_frame split: option.splits)
  from closed_agree [OF cl agree] obtain r where r: "syn = [ConnectionLost p r]"
    and ag: "agree {} (if r = 0 then {p} else {}) n2" by blast
  have "agree {} (if r = 0 then {p} else {}) n1" using ag by (simp add: agree_def n1)
  moreover have "(if r = 0 then {p} else {}) \<subseteq> {q. \<exists>e\<in>set syn. ends_punching e q}"
    by (simp add: r ends_punching_def)
  ultimately show ?thesis unfolding syn by (intro disjI2 exI conjI) (auto simp: r)
next
  case (SwDialing peer_opt c)
  have "agree {} {} n1 \<and> synthetic = []"
    using b agree by (cases peer_opt)
      (auto simp: SwDialing swarm_bookkeeping_def agree_def dialing_frame)
  then show ?thesis by auto
next
  case (SwOutgoingConnectionError peer_opt c err_msg)
  with b agree show ?thesis by (auto simp: swarm_bookkeeping_def outgoing_error_agree intro: exI [of _ "{}"])
next
  case (SwNewListenAddr a)
  with b agree show ?thesis
    by (auto simp: swarm_bookkeeping_def agree_def listen_frame intro: exI [of _ "{}"])
next
  case (SwExternalAddrConfirmed a)
  with b agree show ?thesis
    by (auto simp: swarm_bookkeeping_def agree_def external_frame intro: exI [of _ "{}"])
next
  case (SwExternalAddrExpired a)
  with b agree show ?thesis
    by (auto simp: swarm_bookkeeping_def agree_def external_frame intro: exI [of _ "{}"])
qed (use b agree in \<open>auto simp: swarm_bookkeeping_def intro: exI [of _ "{}"]\<close>)

lemma mapping_agree:
  assumes "on_mapping_finished w n = Some n'"
  shows "nd_conn n' = nd_conn n \<and> (agree A B n \<longrightarrow> agree A B n')"
  using assms
proof (cases rule: mapping_cases)
  case 1
  then show ?thesis by simp
next
  case 2
  then show ?thesis by (simp add: agree_def)
next
  case (3 a)
  have "agree A B (n\<lparr>nd_mapping_handle := False, nd_swarm := api_add_external (w_api w) a (nd_swarm n)\<rparr>) =
      agree A B n"
    by (simp add: agree_def)
  with dispatch_agree_kept [OF 3] dispatch_conn [OF 3] show ?thesis by simp
qed

lemma swarm_event_settled:
  assumes ev: "on_swarm_event w event n = Some n'" and agree: "agree {} {} n"
  shows "settled n'"
proof -
  obtain n1 synthetic where b: "swarm_bookkeeping w event n = (n1, synthetic)" by (metis surj_pair)
  with ev obtain n2 where m: "on_mapping_finished w n1 = Some n2"
    by (auto simp: on_swarm_event_def split: option.splits)
  obtain q translated where tr: "translate_swarm_event (w_env w) (w_boot w) (active_bootstrap_query (nd_ctx n2))
      (api_is_connected (w_api w) (nd_swarm n2)) event (queries (nd_ctx n2)) = (q, translated)"
    by (metis surj_pair)
  let ?n3 = "n2\<lparr>nd_ctx := nd_ctx n2\<lparr>queries := q\<rparr>\<rparr>"
  have run: "process_events w (synthetic @ translated) ?n3 = Some n'"
    using ev b m tr by (simp add: on_swarm_event_def)
  have same: "agree A B ?n3 = agree A B n2" "nd_conn ?n3 = nd_conn n1" for A B
    using mapping_agree [OF m] by (simp_all add: agree_def)
  have quiet: "\<forall>e\<in>set translated. \<not> starts_attempt e"
    using translated_starts_nothing tr by (metis snd_conv)
  show ?thesis
    using bookkeeping_agree [OF b agree]
  proof
    assume "\<exists>p i. synthetic = [HolePunchAttemptStarted p i] \<and> agree {p} {} n1 \<and>
       fmlookup (hole_punch_attempt_seq (nd_conn n1)) p = Some i \<and> attempt_id_of (nd_conn n1) p \<noteq> None"
    then obtain p i where p: "synthetic = [HolePunchAttemptStarted p i]" "agree {p} {} n1"
      "fmlookup (hole_punch_attempt_seq (nd_conn n1)) p = Some i" "attempt_id_of (nd_conn n1) p \<noteq> None" by blast
    have "agree {p} {} ?n3" using mapping_agree [OF m] p(2) by (simp add: same)
    with run p quiet show ?thesis
      using process_events_start [of w p i translated ?n3 n'] by (simp add: same(2))
  next
    assume "\<exists>B. agree {} B n1 \<and> (\<forall>e\<in>set synthetic. \<not> starts_attempt e) \<and>
       B \<subseteq> {p. (\<exists>e\<in>set synthetic. ends_punching e p) \<or>
         (\<exists>c endpoint. event = SwConnectionEstablished p c endpoint \<and> \<not> endpoint_is_relayed endpoint)}"
    then obtain B where B: "agree {} B n1" "\<forall>e\<in>set synthetic. \<not> starts_attempt e"
      "B \<subseteq> {p. (\<exists>e\<in>set synthetic. ends_punching e p) \<or>
         (\<exists>c endpoint. event = SwConnectionEstablished p c endpoint \<and> \<not> endpoint_is_relayed endpoint)}"
      by blast
    have direct: "TunnelPeerConnected p False \<in> set translated"
      if "event = SwConnectionEstablished p c endpoint" "\<not> endpoint_is_relayed endpoint" for p c endpoint
      using tr that by (auto simp: relayed_copies_agree)
    have "B \<subseteq> {p. \<exists>e\<in>set (synthetic @ translated). ends_punching e p}"
    proof
      fix p assume "p \<in> B"
      with B(3) consider e where "e \<in> set synthetic" "ends_punching e p"
        | c endpoint where "event = SwConnectionEstablished p c endpoint" "\<not> endpoint_is_relayed endpoint"
        by blast
      then show "p \<in> {p. \<exists>e\<in>set (synthetic @ translated). ends_punching e p}"
      proof cases
        case 1
        then show ?thesis by auto
      next
        case 2
        have "ends_punching (TunnelPeerConnected p False) p" by (simp add: ends_punching_def)
        with direct [OF 2] show ?thesis by (auto intro: bexI [of _ "TunnelPeerConnected p False"])
      qed
    qed
    moreover have "agree {} B ?n3" using mapping_agree [OF m] B(1) by (simp add: same)
    ultimately show ?thesis
      using process_events_agree [OF run] B(2) quiet by auto
  qed
qed

lemma report_timeouts_agree:
  "report_timeouts w due n = Some n' \<Longrightarrow> agree A B n \<Longrightarrow> agree A B n'"
proof (induction w due n rule: report_timeouts.induct)
  case (1 w n)
  then show ?case by simp
next
  case (2 w peer i due n)
  show ?case
  proof (cases "peer_is_relay_only (nd_conn n) peer")
    case False
    with 2 show ?thesis by simp
  next
    case True
    with "2.prems" obtain n1 where d: "dispatch w (HolePunchAttemptTimeout peer i) n = Some n1"
      and rest: "report_timeouts w due n1 = Some n'" by (auto split: option.splits)
    have "agree A B n1" by (rule dispatch_agree_kept [OF d "2.prems"(2)]) simp
    with "2.IH"(1) [OF True d rest] show ?thesis .
  qed
qed

lemma turn_settled:
  assumes turn: "node_turn w input n = Some n'" and agree: "agree {} {} n"
  shows "settled n'"
proof (cases input)
  case (InSwarm event)
  with turn agree show ?thesis by (simp add: swarm_event_settled)
next
  case InDiscoveryDeadline
  show ?thesis
  proof (cases "nd_discovery_fired n")
    case True
    with turn agree InDiscoveryDeadline show ?thesis by (simp add: settled_def)
  next
    case False
    with turn InDiscoveryDeadline have d: "dispatch w DiscoveryTimeout (n\<lparr>nd_discovery_fired := True\<rparr>) = Some n'"
      by (simp add: on_discovery_deadline_def)
    have "agree {} {} (n\<lparr>nd_discovery_fired := True\<rparr>)" using agree by (simp add: agree_def)
    from dispatch_agree_kept [OF d this] show ?thesis by (simp add: settled_def)
  qed
next
  case InReconnectDeadline
  have "agree {} {} (on_reconnect_deadline w n)"
    using agree reconnects_frame [of w "due_reconnects w n" n]
    by (simp add: agree_def on_reconnect_deadline_def)
  with turn InReconnectDeadline show ?thesis by (simp add: settled_def)
next
  case InHolePunchDeadline
  obtain conn' due where t: "take_due_hole_punch_timeouts (w_env w) (w_now w) (nd_conn n) = (conn', due)"
    by (metis surj_pair)
  have "agree {} {} (n\<lparr>nd_conn := conn'\<rparr>)"
    using agree due_frame [of "w_env w" "w_now w" "nd_conn n"] by (simp add: agree_def t)
  with turn InHolePunchDeadline t show ?thesis
    by (auto simp: on_hole_punch_deadline_def settled_def dest: report_timeouts_agree)
next
  case InShutdownSignal
  with turn have d: "dispatch w ShutdownRequested n = Some n'" by (simp add: on_shutdown_signal_def)
  from dispatch_agree_kept [OF d agree] show ?thesis by (simp add: settled_def)
qed

end
