(* ===== verification/Node_Observe.thy ===== *)
theory Node_Observe
  imports Node_Steps Tunnel_Retry
begin

text \<open>
  What the node does to the swarm, counted: measures of the swarm that only the execution of
  commands changes, and the one that counts the calls that disconnect a peer.
\<close>

section \<open>Observing commands\<close>

text \<open>A measure of the swarm that only the execution of commands changes, each by its weight.\<close>

definition observes :: "'sw swarm_api \<Rightarrow> ('sw \<Rightarrow> nat) \<Rightarrow> (command \<Rightarrow> nat) \<Rightarrow> bool" where
  "observes api tally weight \<longleftrightarrow>
     (\<forall>x c sw ctx sw' ctx'. execute_command api x c (sw, ctx) = Some (sw', ctx') \<longrightarrow>
        tally sw' = tally sw + weight c) \<and>
     (\<forall>sw sw'. swarm_call api sw sw' \<longrightarrow> tally sw' = tally sw)"

lemma observes_commands:
  "observes api tally weight \<Longrightarrow> execute_commands api x cs (sw, ctx) = Some (sw', ctx') \<Longrightarrow>
     tally sw' = tally sw + sum_list (map weight cs)"
proof (induction cs arbitrary: sw ctx)
  case Nil
  then show ?case by simp
next
  case (Cons c cs)
  then obtain sw1 ctx1 where one: "execute_command api x c (sw, ctx) = Some (sw1, ctx1)"
    and rest: "execute_commands api x cs (sw1, ctx1) = Some (sw', ctx')" by (auto split: option.splits)
  have "tally sw1 = tally sw + weight c" using Cons.prems(1) one unfolding observes_def by blast
  with Cons.IH [OF Cons.prems(1) rest] show ?case by simp
qed

section \<open>Disconnects\<close>

text \<open>The weight that counts the disconnects of a peer.\<close>

definition disconnect_of :: "peer_id \<Rightarrow> command \<Rightarrow> nat" where
  "disconnect_of p c = (if c = DisconnectPeer p then 1 else 0)"

lemma sum_disconnects: "sum_list (map (disconnect_of p) cs) = disconnects cs p"
  by (induction cs) (simp_all add: disconnect_of_def disconnects_def)

text \<open>
  A count of the calls of \<open>disconnect_peer_id\<close> for one peer, as a contract of the swarm alone: that
  call for that peer adds one, and no other call changes the count.
\<close>

definition counts_disconnects :: "'sw swarm_api \<Rightarrow> peer_id \<Rightarrow> ('sw \<Rightarrow> nat) \<Rightarrow> bool" where
  "counts_disconnects api p tally \<longleftrightarrow>
     (\<forall>q sw. tally (api_disconnect api q sw) = tally sw + (if q = p then 1 else 0)) \<and>
     (\<forall>sw. tally (fst (api_bootstrap api sw)) = tally sw) \<and>
     (\<forall>q a sw. tally (api_add_address api q a sw) = tally sw) \<and>
     (\<forall>a sw. tally (fst (api_listen_on api a sw)) = tally sw) \<and>
     (\<forall>q sw. tally (fst (api_get_closest_peers api q sw)) = tally sw) \<and>
     (\<forall>k sw. tally (fst (api_get_providers api k sw)) = tally sw) \<and>
     (\<forall>q as sw. tally (fst (api_dial_peer api q as sw)) = tally sw) \<and>
     (\<forall>a sw. tally (fst (api_dial_addr api a sw)) = tally sw) \<and>
     (\<forall>k sw. tally (api_start_providing api k sw) = tally sw) \<and>
     (\<forall>r sw. tally (api_put_record api r sw) = tally sw) \<and>
     (\<forall>c sw. tally (api_close_connection api c sw) = tally sw) \<and>
     (\<forall>a sw. tally (api_add_external api a sw) = tally sw) \<and>
     (\<forall>a sw. tally (api_remove_external api a sw) = tally sw) \<and>
     (\<forall>a sw. tally (api_dcutr_candidate api a sw) = tally sw)"

lemma publish_counted:
  assumes "counts_disconnects api p tally"
  shows "tally (publish_services api json now svcs sw) = tally sw"
  by (induction svcs arbitrary: sw)
    (use assms in \<open>auto simp: publish_services_def publish_one_def counts_disconnects_def Let_def
      split: option.split\<close>)

text \<open>Executing a command disconnects the peer exactly when the command is the one that asks for it.\<close>

lemma disconnects_observed:
  assumes counts: "counts_disconnects api p tally"
  shows "observes api tally (disconnect_of p)"
  unfolding observes_def
proof (intro conjI allI impI)
  fix x c sw ctx sw' ctx'
  assume run: "execute_command api x c (sw, ctx) = Some (sw', ctx')"
  have call: "api_bootstrap api sw = (sw1, r) \<Longrightarrow> tally sw1 = tally sw"
    "api_get_closest_peers api q sw = (sw1, i) \<Longrightarrow> tally sw1 = tally sw"
    "api_get_providers api k sw = (sw1, i) \<Longrightarrow> tally sw1 = tally sw" for sw1 r q i k
    using counts unfolding counts_disconnects_def by (metis fst_conv)+
  show "tally sw' = tally sw + disconnect_of p c"
  proof (cases "\<exists>q. c = DisconnectPeer q")
    case True
    with run counts show ?thesis by (auto simp: disconnect_of_def counts_disconnects_def split: if_splits)
  next
    case False
    with run counts have "tally sw' = tally sw"
      by (cases c) (auto simp: publish_counted dest: call split: prod.splits sum.splits,
          auto simp: counts_disconnects_def)
    with False show ?thesis by (simp add: disconnect_of_def)
  qed
next
  fix sw sw'
  assume "swarm_call api sw sw'"
  with counts show "tally sw' = tally sw" by (auto simp: swarm_call_def counts_disconnects_def)
qed

text \<open>The recording swarm counts the disconnects of a peer.\<close>

definition recorded_disconnects :: "peer_id \<Rightarrow> recording_swarm \<Rightarrow> nat" where
  "recorded_disconnects p sw = count_list (calls sw) (CallDisconnect p)"

lemma recorded_simps [simp]:
  "recorded_disconnects p (recording c sw) =
     recorded_disconnects p sw + (if c = CallDisconnect p then 1 else 0)"
  "recorded_disconnects p (fst (ask sw)) = recorded_disconnects p sw"
  by (simp_all add: recorded_disconnects_def recording_def ask_def)

lemma sample_counts: "counts_disconnects sample_api p (recorded_disconnects p)"
  by (simp add: counts_disconnects_def sample_api_def)

lemma sample_observes: "observes sample_api (recorded_disconnects p) (disconnect_of p)"
  by (rule disconnects_observed [OF sample_counts])

end
