(* ===== verification/Node_Progress.thy ===== *)
theory Node_Progress
  imports Node_Attempts Node_Observe
begin

text \<open>
  What a failed hole punch leads to in the running node.  By the agreement of \<open>Node_Attempts\<close> the
  timeout or the failure is always that of the session under way, so it is never ignored: the peer
  is disconnected for a retry, or, after three retries, its tunnels are opened over the relay.
\<close>

section \<open>Agreement on runs\<close>

lemma agree_initial: "agree {} {} (initial_node cfg m sw)"
proof -
  have names: "holepunch_sessions (fold (\<lambda>spec. add_service_tunnel (by_name_service spec) (by_name_bind spec)) specs s) =
      holepunch_sessions s" for specs s
    by (induction specs arbitrary: s) (simp_all add: add_service_tunnel_def)
  have peers: "holepunch_sessions (fold (\<lambda>spec. add_peer_tunnel (remote_peer spec) (spec_service spec) (spec_bind spec)) specs s) =
      holepunch_sessions s" for specs s
    by (induction specs arbitrary: s) (simp_all add: add_peer_tunnel_def)
  show ?thesis
    by (simp add: agree_def initial_node_def new_app_state_def requested_tunnels_def set_nat_mapping_def
        names peers new_tunnel_state_def)
qed

lemma start_settled:
  assumes "node_start w cfg probe sw = Inr (Some n)"
  shows "settled n"
proof -
  obtain m sw2 e where d: "dispatch w e (initial_node cfg m sw2) = Some n" and e: "\<not> starts_attempt e"
    using assms by (auto simp: node_start_def Let_def split: sum.splits if_splits)
  from dispatch_agree_kept [OF d agree_initial e] show ?thesis by (simp add: settled_def)
qed

lemma run_settled: "node_run n n' \<Longrightarrow> settled n \<Longrightarrow> settled n'"
proof (induction rule: node_run.induct)
  case (run_start n)
  then show ?case .
next
  case (run_turn n n1 w input n2)
  then have "agree {} {} n1" by (auto simp: settled_def)
  with run_turn.hyps(4) show ?case by (rule turn_settled)
qed

text \<open>A node between two turns.\<close>

definition node_between_turns :: "'sw node_state \<Rightarrow> bool" where
  "node_between_turns n \<longleftrightarrow>
     (\<exists>w cfg probe sw n0. env_ok (w_env w) \<and> node_start w cfg probe sw = Inr (Some n0) \<and> node_run n0 n) \<and>
     app_phase (nd_app n) \<noteq> ShuttingDown"

lemma between_turns:
  assumes "node_between_turns n"
  shows "node_wf n" and "agree {} {} n"
proof -
  obtain w :: "'a node_world" and cfg probe sw n0 where env: "env_ok (w_env w)"
    and start: "node_start w cfg probe sw = Inr (Some n0)" and run: "node_run n0 n"
    and up: "app_phase (nd_app n) \<noteq> ShuttingDown"
    using assms by (auto simp: node_between_turns_def)
  show "node_wf n" using run_safe [OF env start run] by blast
  show "agree {} {} n" using run_settled [OF run start_settled [OF start]] up by (simp add: settled_def)
qed

lemma attempt_numbered:
  assumes "node_wf n" and "attempt_id_of (nd_conn n) p = Some i"
  shows "fmlookup (hole_punch_attempt_seq (nd_conn n)) p = Some i"
proof -
  have "conn_wf (nd_conn n)" using assms(1) conn_reachable_wf by (auto simp: node_wf_def)
  with assms(2) show ?thesis by (auto simp: conn_wf_def attempt_id_of_def fmpred_iff)
qed

lemma session_matched:
  assumes "node_between_turns n" and "fmlookup (holepunch_sessions (app_tunnel (nd_app n))) p = Some session"
  shows "fmlookup (hole_punch_attempt_seq (nd_conn n)) p = Some (sess_attempt_id session) \<and>
    (\<forall>stats. active_attempt_stats (nd_conn n) p = Some stats \<longrightarrow>
       stats_attempt_id stats = sess_attempt_id session) \<and>
    (sess_phase session = Punching \<longrightarrow> active_attempt_stats (nd_conn n) p \<noteq> None)"
proof -
  note wf = between_turns [OF assms(1)]
  have seq: "fmlookup (hole_punch_attempt_seq (nd_conn n)) p = Some (sess_attempt_id session)"
    using agree_number [OF wf(2) assms(2)] by simp
  have "stats_attempt_id stats = sess_attempt_id session"
    if "active_attempt_stats (nd_conn n) p = Some stats" for stats
    using attempt_numbered [OF wf(1), of p "stats_attempt_id stats"] that seq
    by (simp add: attempt_id_of_def active_attempt_stats_def)
  moreover have "active_attempt_stats (nd_conn n) p \<noteq> None" if "sess_phase session = Punching"
    using agree_active [OF wf(2) assms(2)] that by (simp add: attempt_id_of_def active_attempt_stats_def)
  ultimately show ?thesis using seq by blast
qed

text \<open>C8: Between two turns of the event loop the state machine and the connection records agree on
  the hole punches: every session carries the number of the latest attempt for its peer, so that of
  the attempt under way if there is one; and a session that is punching has its attempt under way.\<close>

theorem sessions_match_attempts:
  assumes "node_between_turns n" and "fmlookup (holepunch_sessions (app_tunnel (nd_app n))) p = Some session"
  shows "fmlookup (hole_punch_attempt_seq (nd_conn n)) p = Some (sess_attempt_id session) \<and>
    (\<forall>stats. active_attempt_stats (nd_conn n) p = Some stats \<longrightarrow>
       stats_attempt_id stats = sess_attempt_id session) \<and>
    (sess_phase session = Punching \<longrightarrow> active_attempt_stats (nd_conn n) p \<noteq> None)"
  by (rule session_matched [OF assms])

section \<open>The tunnels of one peer\<close>

text \<open>What the state machine knows of the hole punch of a peer.\<close>

definition punch_view :: "tunnel_state \<Rightarrow> peer_id \<Rightarrow>
  tunnel_target list option \<times> hole_punch_session option \<times> nat \<times> bool" where
  "punch_view s p =
     (fmlookup (awaiting_holepunch s) p, fmlookup (holepunch_sessions s) p, retries s p,
      p |\<in>| pending_retry_redial s)"

lemma punch_view_retry_other:
  "p \<noteq> q \<Longrightarrow> punch_view (fst (retry_holepunch_attempt q i s)) p = punch_view s p"
  by (auto simp: punch_view_def retries_def retry_holepunch_attempt_def clear_retry_state_def
      set_session_phase_def schedule_holepunch_retry_def split: option.split)

lemma punch_view_begin_other:
  "p \<noteq> q \<Longrightarrow> punch_view (begin_holepunch_attempt q i s) p = punch_view s p"
  by (simp add: punch_view_def retries_def begin_holepunch_attempt_def Let_def)

text \<open>The hole punch of a peer has failed with waiting tunnels: it is tried again, or given up.\<close>

definition punch_failed :: "tunnel_state \<Rightarrow> tunnel_state \<Rightarrow> peer_id \<Rightarrow> bool" where
  "punch_failed s s' p \<longleftrightarrow>
     (if retries s p < 3
      then p |\<in>| pending_retry_redial s' \<and> retries s' p = retries s p + 1 \<and>
        fmlookup (awaiting_holepunch s') p = fmlookup (awaiting_holepunch s) p \<and>
        map_option sess_phase (fmlookup (holepunch_sessions s') p) = Some WaitingDisconnect
      else \<not> contains_key (awaiting_holepunch s') p \<and> \<not> contains_key (holepunch_sessions s') p)"

lemma retry_fails_punch:
  assumes "attempt_active s p i"
  shows "punch_failed s (fst (retry_holepunch_attempt p i s)) p"
    and "snd (retry_holepunch_attempt p i s) =
      (if retries s p < 3 then [DisconnectPeer p] else spawn_all p (get_or [] (awaiting_holepunch s) p))"
proof -
  obtain session where "fmlookup (holepunch_sessions s) p = Some session"
    using assms by (auto simp: attempt_active_def split: option.splits)
  have room: "MAX_RELAY_RECONNECT_RETRIES \<le> get_or 0 (holepunch_retry_attempts s) p \<longleftrightarrow> \<not> retries s p < 3"
    by (simp add: retries_def word_le_nat_alt MAX_RELAY_RECONNECT_RETRIES_def not_less)
  show "snd (retry_holepunch_attempt p i s) =
      (if retries s p < 3 then [DisconnectPeer p] else spawn_all p (get_or [] (awaiting_holepunch s) p))"
    using assms room by (simp add: retry_active)
  show "punch_failed s (fst (retry_holepunch_attempt p i s)) p"
  proof (cases "retries s p < 3")
    case True
    obtain session where "retry_holepunch_attempt p i s = (s\<lparr>
        holepunch_retry_attempts := fmupd p (get_or 0 (holepunch_retry_attempts s) p + 1)
          (holepunch_retry_attempts s),
        pending_retry_redial := finsert p (pending_retry_redial s),
        holepunch_sessions := fmupd p (session\<lparr>sess_phase := WaitingDisconnect\<rparr>)
          (holepunch_sessions s)\<rparr>, [DisconnectPeer p])"
      using retry_again [OF assms True] by blast
    moreover have "unat (get_or 0 (holepunch_retry_attempts s) p + 1) = retries s p + 1"
      using True by (simp add: retries_def unat_word_ariths)
    ultimately show ?thesis using True by (simp add: punch_failed_def retries_def)
  next
    case False
    with assms room show ?thesis
      by (simp add: punch_failed_def retry_active clear_retry_state_def)
  qed
qed

lemma punch_failed_view:
  "punch_view a p = punch_view s p \<Longrightarrow> punch_view b p = punch_view s' p \<Longrightarrow>
     punch_failed a b p = punch_failed s s' p"
  by (auto simp: punch_failed_def punch_view_def contains_key_def)

section \<open>Reports\<close>

lemma app_report:
  assumes "attempt_report e = Some (p, i)"
  shows "app_tunnel (fst (app_transition env s e)) = fst (retry_holepunch_attempt p i (app_tunnel s))"
    and "snd (app_transition env s e) = snd (retry_holepunch_attempt p i (app_tunnel s))"
proof -
  have "peer_transition env (app_peer s) e = (app_peer s, [])" using assms by (cases e) auto
  then show "app_tunnel (fst (app_transition env s e)) = fst (retry_holepunch_attempt p i (app_tunnel s))"
    and "snd (app_transition env s e) = snd (retry_holepunch_attempt p i (app_tunnel s))"
    using step_attempt_report [OF assms, of env "app_tunnel s"]
    by (simp_all add: app_transition_run tunnel_events_def split_beta Let_def)
qed

lemma dispatch_tasks:
  assumes "dispatch w e n = Some n'" and "registry_wf (tasks (nd_ctx n))"
  shows "registry_wf (tasks (nd_ctx n')) \<and>
    running_tasks (nd_ctx n') =
      running_tasks (nd_ctx n) + mset (concat (map spawned (snd (app_transition (w_env w) (nd_app n) e))))"
proof -
  obtain sw ctx where "execute_commands (w_api w) (w_exec w) (snd (app_transition (w_env w) (nd_app n) e))
      (nd_swarm n, nd_ctx n) = Some (sw, ctx)" and "nd_ctx n' = ctx"
    using assms(1) by (auto simp: dispatch_def split_beta)
  with execute_commands_tasks assms(2) show ?thesis by simp
qed

lemma spawned_all_targets: "concat (map spawned (spawn_all p specs)) = map (\<lambda>(service, bind). (p, service, bind)) specs"
  by (induction specs) (auto simp: spawn_all_def)

text \<open>A step of the node that leaves a peer alone: its view, the tasks, and no disconnect of it.\<close>

definition leaves_peer :: "'sw swarm_api \<Rightarrow> peer_id \<Rightarrow> 'sw node_state \<Rightarrow> 'sw node_state \<Rightarrow> bool" where
  "leaves_peer api p n n' \<longleftrightarrow>
     punch_view (app_tunnel (nd_app n')) p = punch_view (app_tunnel (nd_app n)) p \<and>
     nd_conn n' = nd_conn n \<and>
     (registry_wf (tasks (nd_ctx n)) \<longrightarrow>
        registry_wf (tasks (nd_ctx n')) \<and> running_tasks (nd_ctx n) \<subseteq># running_tasks (nd_ctx n')) \<and>
     (\<forall>tally. counts_disconnects api p tally \<longrightarrow> tally (nd_swarm n') = tally (nd_swarm n))"

lemma leaves_refl: "leaves_peer api p n n"
  by (simp add: leaves_peer_def)

lemma leaves_trans: "leaves_peer api p a b \<Longrightarrow> leaves_peer api p b c \<Longrightarrow> leaves_peer api p a c"
  unfolding leaves_peer_def by (auto intro: subset_mset.order_trans)

text \<open>A step disconnects the peer as often as its commands ask for.\<close>

lemma dispatch_tally:
  assumes d: "dispatch w e n = Some n'" and counts: "counts_disconnects (w_api w) p tally"
  shows "tally (nd_swarm n') =
    tally (nd_swarm n) + disconnects (snd (app_transition (w_env w) (nd_app n) e)) p"
proof -
  obtain sw ctx where "execute_commands (w_api w) (w_exec w) (snd (app_transition (w_env w) (nd_app n) e))
      (nd_swarm n, nd_ctx n) = Some (sw, ctx)" and "nd_swarm n' = sw"
    using d by (auto simp: dispatch_def split_beta)
  with observes_commands [OF disconnects_observed [OF counts]] show ?thesis
    by (simp add: sum_disconnects)
qed

lemma dispatch_leaves:
  assumes d: "dispatch w e n = Some n'"
    and view: "punch_view (app_tunnel (fst (app_transition (w_env w) (nd_app n) e))) p =
      punch_view (app_tunnel (nd_app n)) p"
    and none: "disconnects (snd (app_transition (w_env w) (nd_app n) e)) p = 0"
  shows "leaves_peer (w_api w) p n n'"
proof -
  have "tally (nd_swarm n') = tally (nd_swarm n)" if "counts_disconnects (w_api w) p tally" for tally
    using dispatch_tally [OF d that] none by simp
  then show ?thesis
    using dispatch_tasks [OF d] dispatch_conn [OF d] view by (simp add: leaves_peer_def dispatch_app [OF d])
qed

lemma report_leaves:
  "report_timeouts w due n = Some n' \<Longrightarrow> p \<notin> fst ` set due \<Longrightarrow> leaves_peer (w_api w) p n n'"
proof (induction w due n rule: report_timeouts.induct)
  case (1 w n)
  then show ?case by (simp add: leaves_refl)
next
  case (2 w peer i due n)
  show ?case
  proof (cases "peer_is_relay_only (nd_conn n) peer")
    case False
    with 2 show ?thesis by simp
  next
    case True
    with "2.prems" obtain n1 where d: "dispatch w (HolePunchAttemptTimeout peer i) n = Some n1"
      and rest: "report_timeouts w due n1 = Some n'" by (auto split: option.splits)
    have "leaves_peer (w_api w) p n n1"
      using "2.prems"(2) by (intro dispatch_leaves [OF d])
        (simp_all add: app_report [where p = peer and i = i] punch_view_retry_other retry_other_peer)
    moreover have "leaves_peer (w_api w) p n1 n'" using "2.IH"(1) [OF True d rest] "2.prems"(2) by simp
    ultimately show ?thesis by (rule leaves_trans)
  qed
qed

lemma report_append:
  "report_timeouts w (xs @ ys) n = Option.bind (report_timeouts w xs n) (report_timeouts w ys)"
proof (induction w xs n rule: report_timeouts.induct)
  case (1 w n)
  then show ?case by simp
next
  case (2 w peer i due n)
  then show ?case by (simp split: option.split)
qed

text \<open>
  What the failure of a hole punch has done to the node: to the state machine, to the tunnel tasks,
  and to the swarm, where the peer has been disconnected exactly once if it is tried again, and not
  at all if it is given up.
\<close>

definition failure_handled ::
  "'sw swarm_api \<Rightarrow> 'sw node_state \<Rightarrow> 'sw node_state \<Rightarrow> peer_id \<Rightarrow> bool" where
  "failure_handled api n n' p \<longleftrightarrow>
     punch_failed (app_tunnel (nd_app n)) (app_tunnel (nd_app n')) p \<and>
     (retries (app_tunnel (nd_app n)) p < 3 \<or>
        running_tasks (nd_ctx n) + mset (map (\<lambda>(service, bind). (p, service, bind))
            (get_or [] (awaiting_holepunch (app_tunnel (nd_app n))) p))
          \<subseteq># running_tasks (nd_ctx n')) \<and>
     (\<forall>tally. counts_disconnects api p tally \<longrightarrow>
        tally (nd_swarm n') =
          tally (nd_swarm n) + (if retries (app_tunnel (nd_app n)) p < 3 then 1 else 0))"

lemma dispatch_fails_punch:
  assumes d: "dispatch w e n = Some n'" and "attempt_report e = Some (p, i)"
    and "attempt_active (app_tunnel (nd_app n)) p i" and "registry_wf (tasks (nd_ctx n))"
  shows "failure_handled (w_api w) n n' p"
proof -
  have failed: "punch_failed (app_tunnel (nd_app n)) (app_tunnel (nd_app n')) p"
    using retry_fails_punch(1) [OF assms(3)] by (simp add: dispatch_app [OF d] app_report(1) [OF assms(2)])
  have asked: "disconnects (snd (app_transition (w_env w) (nd_app n) e)) p =
      (if retries (app_tunnel (nd_app n)) p < 3 then 1 else 0)"
    by (auto simp: app_report(2) [OF assms(2)] retry_fails_punch(2) [OF assms(3)] disconnects_def
        count_list_0_iff spawn_all_def)
  moreover have "tally (nd_swarm n') = tally (nd_swarm n) + (if retries (app_tunnel (nd_app n)) p < 3 then 1 else 0)"
    if "counts_disconnects (w_api w) p tally" for tally
    unfolding dispatch_tally [OF d that] asked ..
  ultimately show ?thesis
    using failed dispatch_tasks [OF d assms(4)] retry_fails_punch(2) [OF assms(3)]
    by (auto simp: failure_handled_def app_report(2) [OF assms(2)] spawned_all_targets)
qed

lemma failure_framed:
  assumes a: "leaves_peer api p a n" and f: "failure_handled api n n' p" and b: "leaves_peer api p n' b"
    and reg: "registry_wf (tasks (nd_ctx a))" "registry_wf (tasks (nd_ctx n'))"
  shows "failure_handled api a b p"
proof -
  have views: "punch_view (app_tunnel (nd_app n)) p = punch_view (app_tunnel (nd_app a)) p"
    "punch_view (app_tunnel (nd_app b)) p = punch_view (app_tunnel (nd_app n')) p"
    using a b by (simp_all add: leaves_peer_def)
  have failed: "punch_failed (app_tunnel (nd_app a)) (app_tunnel (nd_app b)) p"
    using f punch_failed_view [OF views(1)] views(2) punch_failed_view [OF refl views(2)]
    by (simp add: failure_handled_def)
  have tasks: "running_tasks (nd_ctx a) \<subseteq># running_tasks (nd_ctx n)"
    "running_tasks (nd_ctx n') \<subseteq># running_tasks (nd_ctx b)"
    using a b reg by (simp_all add: leaves_peer_def)
  have same: "retries (app_tunnel (nd_app a)) p = retries (app_tunnel (nd_app n)) p"
    "get_or [] (awaiting_holepunch (app_tunnel (nd_app a))) p =
      get_or [] (awaiting_holepunch (app_tunnel (nd_app n))) p"
    using views(1) by (simp_all add: punch_view_def get_or_def)
  show ?thesis
    unfolding failure_handled_def same
  proof (intro conjI allI impI)
    show "punch_failed (app_tunnel (nd_app a)) (app_tunnel (nd_app b)) p" by (rule failed)
    show "retries (app_tunnel (nd_app n)) p < 3 \<or>
        running_tasks (nd_ctx a) + mset (map (\<lambda>(service, bind). (p, service, bind))
            (get_or [] (awaiting_holepunch (app_tunnel (nd_app n))) p))
          \<subseteq># running_tasks (nd_ctx b)"
      using f tasks unfolding failure_handled_def
      by (metis (no_types, lifting) subset_mset.add_right_mono subset_mset.order_trans)
    fix tally assume t: "counts_disconnects api p tally"
    have "tally (nd_swarm n) = tally (nd_swarm a)" "tally (nd_swarm b) = tally (nd_swarm n')"
      using a b t by (simp_all add: leaves_peer_def)
    moreover have "tally (nd_swarm n') =
        tally (nd_swarm n) + (if retries (app_tunnel (nd_app n)) p < 3 then 1 else 0)"
      using f t by (simp add: failure_handled_def)
    ultimately show "tally (nd_swarm b) =
        tally (nd_swarm a) + (if retries (app_tunnel (nd_app n)) p < 3 then 1 else 0)" by simp
  qed
qed

section \<open>Timeouts\<close>

text \<open>C9: A hole punch whose time is up is never left hanging: when the deadline timer fires at or after the
  deadline of a punching session whose peer is still connected only through a relay and has waiting
  tunnels, then in that very turn either the retry counter goes up by one and the peer is marked for
  a redial, its tunnels still waiting, and the swarm is told exactly once to disconnect the peer; or,
  when three retries were used, nothing waits for the peer any more, each of its tunnels has a task,
  and the peer is not disconnected.  (The disconnects are those counted by any measure of the swarm
  that its call to disconnect the peer increases by one and its other calls leave alone.)\<close>

theorem due_punch_handled:
  assumes between: "node_between_turns n" and env: "env_ok (w_env w)"
    and turn: "node_turn w InHolePunchDeadline n = Some n'"
    and session: "fmlookup (holepunch_sessions (app_tunnel (nd_app n))) p = Some session"
      "sess_phase session = Punching" "contains_key (awaiting_holepunch (app_tunnel (nd_app n))) p"
    and relayed: "peer_is_relay_only (nd_conn n) p"
    and due: "fmlookup (hole_punch_deadlines (nd_conn n)) p = Some d" "deadline_at d \<le> w_now w"
  shows "failure_handled (w_api w) n n' p"
proof -
  note wf = between_turns [OF between]
  have reach: "conn_reachable (nd_conn n)" and reg: "registry_wf (tasks (nd_ctx n))"
    using wf(1) by (simp_all add: node_wf_def)
  obtain conn' due where t: "take_due_hole_punch_timeouts (w_env w) (w_now w) (nd_conn n) = (conn', due)"
    by (metis surj_pair)
  let ?n = "n\<lparr>nd_conn := conn'\<rparr>"
  from due_timeouts_taken_once [OF reach env, of "w_now w"] t assms(8,9)
  have dist: "distinct (map fst due)" and mem: "(p, deadline_attempt_id d) \<in> set due"
    and active: "attempt_id_of (nd_conn n) p = Some (deadline_attempt_id d)"
    by auto
  have id: "deadline_attempt_id d = sess_attempt_id session"
    using attempt_numbered [OF wf(1) active] agree_number [OF wf(2) session(1)] by simp
  obtain xs ys where split: "due = xs @ (p, deadline_attempt_id d) # ys"
    using mem by (meson split_list)
  then have notin: "p \<notin> fst ` set xs" "p \<notin> fst ` set ys" using dist by auto
  have "report_timeouts w due ?n = Some n'" using turn t by (simp add: on_hole_punch_deadline_def)
  then obtain n1 where one: "report_timeouts w xs ?n = Some n1"
    and rest: "report_timeouts w ((p, deadline_attempt_id d) # ys) n1 = Some n'"
    unfolding split report_append by (cases "report_timeouts w xs ?n") auto
  have before: "leaves_peer (w_api w) p ?n n1" using one notin(1) by (rule report_leaves)
  then have reg1: "registry_wf (tasks (nd_ctx n1))" using reg by (simp add: leaves_peer_def)
  have "peer_is_relay_only (nd_conn n1) p"
    using before relayed t by (auto simp: leaves_peer_def take_due_hole_punch_timeouts_def Let_def
        peer_is_relay_only_def has_relayed_connection_def has_direct_connection_def)
  with rest obtain n2 where d: "dispatch w (HolePunchAttemptTimeout p (deadline_attempt_id d)) n1 = Some n2"
    and last: "report_timeouts w ys n2 = Some n'" by (auto split: option.splits)
  have "attempt_active (app_tunnel (nd_app n1)) p (deadline_attempt_id d)"
    using before session id by (auto simp: attempt_active_def leaves_peer_def punch_view_def contains_key_def)
  then have handled: "failure_handled (w_api w) n1 n2 p" by (intro dispatch_fails_punch [OF d _ _ reg1]) simp_all
  have after: "leaves_peer (w_api w) p n2 n'" using last notin(2) by (rule report_leaves)
  have "registry_wf (tasks (nd_ctx n2))" using dispatch_tasks [OF d reg1] by blast
  with failure_framed [OF before handled after] reg have "failure_handled (w_api w) ?n n' p" by simp
  then show ?thesis by (simp add: failure_handled_def)
qed

section \<open>Failures reported by DCUtR\<close>

lemma nat_event_tunnel: "app_tunnel (fst (app_transition env s (NatStatusChanged x))) = app_tunnel s"
proof -
  have "fst (tunnel_transition env t (PhaseChanged old new)) = t" for t old new
    by (cases new) (simp_all add: on_phase_ready_def)
  then show ?thesis by (simp add: app_transition_run tunnel_events_def split_beta Let_def)
qed

lemma nat_event_disconnects: "disconnects (snd (app_transition env s (NatStatusChanged x))) p = 0"
proof -
  have "DisconnectPeer p \<notin> set (snd (peer_transition env (app_peer s) (NatStatusChanged x)))"
    using peer_commands_are_network [of env "app_peer s" "NatStatusChanged x"] by auto
  moreover have "DisconnectPeer p \<notin> set (snd (tunnel_transition env t (PhaseChanged old new)))" for t old new
    by (cases new) (auto simp: on_phase_ready_def initiate_lookups_def)
  ultimately show ?thesis
    by (intro disconnects_none) (auto simp: app_transition_run tunnel_events_def split_beta Let_def)
qed

lemma mapping_leaves: "on_mapping_finished w n = Some n' \<Longrightarrow> leaves_peer (w_api w) p n n'"
proof (erule mapping_cases)
  fix a
  let ?n1 = "n\<lparr>nd_mapping_handle := False, nd_swarm := api_add_external (w_api w) a (nd_swarm n)\<rparr>"
  assume d: "dispatch w (NatStatusChanged Public) ?n1 = Some n'"
  have "leaves_peer (w_api w) p ?n1 n'"
    by (rule dispatch_leaves [OF d]) (simp_all add: nat_event_tunnel nat_event_disconnects)
  moreover have "tally (nd_swarm ?n1) = tally (nd_swarm n)" if "counts_disconnects (w_api w) p tally" for tally
    using that by (simp add: counts_disconnects_def)
  ultimately show "leaves_peer (w_api w) p n n'" by (auto simp: leaves_peer_def)
qed (simp_all add: leaves_peer_def)

lemma arm_targets_leaves:
  "arm_targets w peers n = Some n' \<Longrightarrow> attempt_id_of (nd_conn n) p \<noteq> None \<Longrightarrow>
     registry_wf (tasks (nd_ctx n)) \<Longrightarrow>
     punch_view (app_tunnel (nd_app n')) p = punch_view (app_tunnel (nd_app n)) p \<and>
     running_tasks (nd_ctx n) \<subseteq># running_tasks (nd_ctx n') \<and>
     (\<forall>tally. counts_disconnects (w_api w) p tally \<longrightarrow> tally (nd_swarm n') = tally (nd_swarm n))"
proof (induction w peers n rule: arm_targets.induct)
  case (1 w n)
  then show ?case by simp
next
  case (2 w peer peers n)
  obtain conn' started where s: "start_hole_punch_attempt (w_now w) peer HOLE_PUNCH_TIMEOUT (nd_conn n) =
      (conn', started)" by (metis surj_pair)
  show ?case
  proof (cases started)
    case None
    with 2 s show ?thesis by simp
  next
    case (Some i)
    let ?n = "n\<lparr>nd_conn := conn'\<rparr>"
    from Some "2.prems"(1) s obtain n1 where d: "dispatch w (HolePunchAttemptStarted peer i) ?n = Some n1"
      and rest: "arm_targets w peers n1 = Some n'" by (auto split: option.splits)
    have "peer \<noteq> p"
      using s Some "2.prems"(2)
      by (auto simp: start_hole_punch_attempt_def attempt_id_of_def contains_key_def split: if_splits)
    have "app_tunnel (fst (app_transition (w_env w) (nd_app ?n) (HolePunchAttemptStarted peer i))) =
        begin_holepunch_attempt peer i (app_tunnel (nd_app n))"
      "snd (app_transition (w_env w) (nd_app ?n) (HolePunchAttemptStarted peer i)) = []"
      by (simp_all add: app_transition_run tunnel_events_def split_beta Let_def)
    with \<open>peer \<noteq> p\<close> have one: "leaves_peer (w_api w) p ?n n1"
      by (intro dispatch_leaves [OF d]) (simp_all add: punch_view_begin_other)
    moreover have "attempt_id_of (nd_conn n1) p \<noteq> None"
      using dispatch_conn [OF d] start_attempt_numbers(2) [OF s, of p] \<open>peer \<noteq> p\<close> "2.prems"(2) by simp
    ultimately show ?thesis
      using "2.IH"(2) [OF s [symmetric] Some d rest] "2.prems"(3)
      by (auto simp: leaves_peer_def intro: subset_mset.order_trans)
  qed
qed

lemma failure_armed:
  assumes f: "failure_handled (w_api w) a n p" and arm: "arm_hole_punch_for_tunnel_targets w n = Some n'"
    and "attempt_id_of (nd_conn n) p \<noteq> None" and "registry_wf (tasks (nd_ctx n))"
  shows "failure_handled (w_api w) a n' p"
proof -
  have "punch_view (app_tunnel (nd_app n')) p = punch_view (app_tunnel (nd_app n)) p"
    and "running_tasks (nd_ctx n) \<subseteq># running_tasks (nd_ctx n')"
    and "\<forall>tally. counts_disconnects (w_api w) p tally \<longrightarrow> tally (nd_swarm n') = tally (nd_swarm n)"
    using arm arm_targets_leaves [OF _ assms(3,4), of w _ n']
    by (auto simp: arm_hole_punch_for_tunnel_targets_def split: if_splits)
  with f punch_failed_view [OF refl this(1)] show ?thesis
    by (auto simp: failure_handled_def intro: subset_mset.order_trans)
qed

text \<open>C10: A hole punch that DCUtR reports as failed is handled the same way, in the turn of the report:
  one disconnect of the peer for a retry, its tunnels still waiting, or, after three retries, none
  and a task for each of them.  The report is matched with the attempt under way, which is that of
  the session.\<close>

theorem failed_punch_handled:
  assumes between: "node_between_turns n"
    and turn: "node_turn w (InSwarm (SwBehaviour (BehDcutr p (Inl reason)))) n = Some n'"
    and session: "fmlookup (holepunch_sessions (app_tunnel (nd_app n))) p = Some session"
      "sess_phase session = Punching" "contains_key (awaiting_holepunch (app_tunnel (nd_app n))) p"
  shows "failure_handled (w_api w) n n' p"
proof -
  note wf = between_turns [OF between]
  have reg: "registry_wf (tasks (nd_ctx n))" using wf(1) by (simp add: node_wf_def)
  let ?event = "SwBehaviour (BehDcutr p (Inl reason))"
  have quiet: "swarm_bookkeeping w ?event n = (n, [])" by (simp add: swarm_bookkeeping_def)
  obtain n2 where m: "on_mapping_finished w n = Some n2"
    using turn quiet by (auto simp: on_swarm_event_def split: option.splits)
  let ?n3 = "n2\<lparr>nd_ctx := nd_ctx n2\<lparr>queries := queries (nd_ctx n2)\<rparr>\<rparr>"
  obtain go_on where ev: "process_event w (HolePunchFailed p reason) ?n3 = Some (n', go_on)"
    using turn quiet m by (auto simp: on_swarm_event_def split: option.splits if_splits)
  have leaves: "leaves_peer (w_api w) p n ?n3"
    using mapping_leaves [OF m, of p] by (simp add: leaves_peer_def running_tasks_def)
  then have reg3: "registry_wf (tasks (nd_ctx ?n3))" and conn: "nd_conn ?n3 = nd_conn n"
    using reg by (simp_all add: leaves_peer_def)
  obtain stats where stats: "active_attempt_stats (nd_conn n) p = Some stats"
    and id: "stats_attempt_id stats = sess_attempt_id session"
    using session_matched [OF between session(1)] session(2) by auto
  let ?e = "HolePunchAttemptFailed p (sess_attempt_id session) reason"
  have scoped: "attempt_scoped (nd_conn ?n3) (HolePunchFailed p reason) = Some ?e"
    using stats id conn by simp
  have "observe_identify w ?e ?n3 = ?n3" "\<not> stale_attempt_failure (nd_conn ?n3) ?e"
    using stats id conn by (simp_all add: observe_identify_def stale_attempt_failure_def)
  with ev scoped obtain n4 where d: "dispatch w ?e ?n3 = Some n4"
    and arm: "arm_hole_punch_for_tunnel_targets w n4 = Some n'"
    by (auto simp: process_event_def Let_def split: option.splits)
  have "attempt_active (app_tunnel (nd_app ?n3)) p (sess_attempt_id session)"
    using leaves session by (auto simp: attempt_active_def leaves_peer_def punch_view_def contains_key_def)
  then have handled: "failure_handled (w_api w) ?n3 n4 p" by (intro dispatch_fails_punch [OF d _ _ reg3]) simp_all
  have "failure_handled (w_api w) n n4 p"
    using failure_framed [OF leaves handled leaves_refl reg] dispatch_tasks [OF d reg3] by blast
  moreover have "attempt_id_of (nd_conn n4) p \<noteq> None"
    using dispatch_conn [OF d] conn stats by (simp add: attempt_id_of_def active_attempt_stats_def)
  ultimately show ?thesis using failure_armed arm dispatch_tasks [OF d reg3] by blast
qed

section \<open>A run\<close>

definition sample_circuit :: connected_point where
  "sample_circuit = Dialer [P2pCircuit]"

text \<open>A step whose commands open no tunnel does not panic; only these parts of the node matter to the run.\<close>

lemma dispatch_quiet:
  assumes "\<forall>c\<in>set (snd (app_transition (w_env w) (nd_app n) e)). spawned c = []"
  obtains n' where "dispatch w e n = Some n'" and "nd_app n' = fst (app_transition (w_env w) (nd_app n) e)"
    and "nd_conn n' = nd_conn n" and "nd_mapping_handle n' = nd_mapping_handle n"
proof -
  obtain sw ctx where "execute_commands (w_api w) (w_exec w) (snd (app_transition (w_env w) (nd_app n) e))
      (nd_swarm n, nd_ctx n) = Some (sw, ctx)"
    using execute_commands_defined [OF assms] by fastforce
  with that show ?thesis by (simp add: dispatch_def split_beta)
qed

lemma arm_targets_idle:
  "\<forall>p\<in>set peers. contains_key (hole_punch_attempts (nd_conn n)) p \<Longrightarrow> arm_targets w peers n = Some n"
  by (induction peers) (simp_all add: start_hole_punch_attempt_def)

text \<open>The node of the sample configuration has started, and the peer of its tunnel has connected over
  a relay: the hole punch is under way.\<close>

definition punching_node :: "recording_swarm node_state \<Rightarrow> bool" where
  "punching_node n \<longleftrightarrow>
     app_phase (nd_app n) = Ready \<and> \<not> nd_mapping_handle n \<and>
     fmlookup (awaiting_holepunch (app_tunnel (nd_app n))) sample_peer = Some [(ServiceName ''ssh'', sample_bind)] \<and>
     map_option sess_phase (fmlookup (holepunch_sessions (app_tunnel (nd_app n))) sample_peer) = Some Punching \<and>
     peer_is_relay_only (nd_conn n) sample_peer \<and>
     fmlookup (hole_punch_deadlines (nd_conn n)) sample_peer =
       Some \<lparr>deadline_attempt_id = 1, deadline_at = 5 + HOLE_PUNCH_TIMEOUT\<rparr> \<and>
     fmdom (hole_punch_deadlines (nd_conn n)) = {|sample_peer|} \<and>
     retries (app_tunnel (nd_app n)) sample_peer = 0 \<and>
     (\<forall>q. has_holepunch_intent (app_tunnel (nd_app n)) q \<longrightarrow> q = sample_peer)"

lemma sample_started:
  obtains n where "node_start (sample_world 0) sample_config MappingUnknown empty_swarm = Inr (Some n)"
    and "app_phase (nd_app n) = Ready" and "app_tunnel (nd_app n) = requested_tunnels sample_config MappingUnknown"
    and "nd_conn n = new_connection_state" and "\<not> nd_mapping_handle n"
proof -
  let ?n = "initial_node sample_config MappingUnknown empty_swarm"
  have "\<forall>c\<in>set (snd (app_transition (w_env (sample_world 0)) (nd_app ?n) NoBootstrapPeers)). spawned c = []"
    by (auto simp: app_transition_run tunnel_events_def initial_node_def new_app_state_def
        new_peer_state_def on_phase_ready_def initiate_lookups_def split_beta)
  then obtain n where d: "dispatch (sample_world 0) NoBootstrapPeers ?n = Some n"
    and n: "nd_app n = fst (app_transition (w_env (sample_world 0)) (nd_app ?n) NoBootstrapPeers)"
    "nd_conn n = nd_conn ?n" "nd_mapping_handle n = nd_mapping_handle ?n" by (rule dispatch_quiet)
  have "node_start (sample_world 0) sample_config MappingUnknown empty_swarm = Inr (Some n)"
    using d by (simp add: node_start_def sample_config_def)
  moreover have "app_phase (nd_app n) = Ready \<and> app_tunnel (nd_app n) = requested_tunnels sample_config MappingUnknown"
    unfolding n
    by (simp add: app_transition_run tunnel_events_def initial_node_def new_app_state_def app_phase_def
        new_peer_state_def on_phase_ready_def split_beta)
  ultimately show ?thesis using that n by (simp add: initial_node_def)
qed

lemma process_event_quiet:
  assumes env: "env_ok (w_env w)" and e: "e = HolePunchAttemptStarted p i \<or> e = TunnelPeerConnected p True"
    and quiet: "\<forall>c\<in>set (snd (app_transition (w_env w) (nd_app n) e)). spawned c = []"
    and armed: "\<forall>q. has_holepunch_intent (app_tunnel (fst (app_transition (w_env w) (nd_app n) e))) q \<longrightarrow>
      contains_key (hole_punch_attempts (nd_conn n)) q"
  obtains n' where "process_event w e n = Some (n', app_phase (nd_app n') \<noteq> ShuttingDown)"
    and "nd_app n' = fst (app_transition (w_env w) (nd_app n) e)"
    and "nd_conn n' = nd_conn n" and "nd_mapping_handle n' = nd_mapping_handle n"
proof -
  obtain n' where d: "dispatch w e n = Some n'" and n': "nd_app n' = fst (app_transition (w_env w) (nd_app n) e)"
    "nd_conn n' = nd_conn n" "nd_mapping_handle n' = nd_mapping_handle n"
    using quiet by (rule dispatch_quiet)
  have "arm_hole_punch_for_tunnel_targets w n' = Some n'"
    unfolding arm_hole_punch_for_tunnel_targets_def
    using armed by (auto intro!: arm_targets_idle simp: n' target_peers_set [OF env])
  moreover have "attempt_scoped (nd_conn n) e = Some e" "observe_identify w e n = n"
    "\<not> stale_attempt_failure (nd_conn n) e"
    using e by (auto simp: observe_identify_def stale_attempt_failure_def)
  ultimately have "process_event w e n = Some (n', app_phase (nd_app n') \<noteq> ShuttingDown)"
    using d by (simp add: process_event_def)
  with that n' show ?thesis by blast
qed

lemma sample_first_turn:
  obtains n0 n where "node_start (sample_world 0) sample_config MappingUnknown empty_swarm = Inr (Some n0)"
    and "app_phase (nd_app n0) = Ready"
    and "node_turn (sample_world 5) (InSwarm (SwConnectionEstablished sample_peer (Suc 0) sample_circuit)) n0 = Some n"
    and "punching_node n"
proof -
  obtain n0 where start: "node_start (sample_world 0) sample_config MappingUnknown empty_swarm = Inr (Some n0)"
    and n0: "app_phase (nd_app n0) = Ready" "app_tunnel (nd_app n0) = requested_tunnels sample_config MappingUnknown"
      "nd_conn n0 = new_connection_state" "\<not> nd_mapping_handle n0"
    by (rule sample_started)
  define event where "event = SwConnectionEstablished sample_peer 1 sample_circuit"
  define n1 where "n1 = fst (swarm_bookkeeping (sample_world 5) event n0)"
  have intent: "has_holepunch_intent (app_tunnel (nd_app n0)) sample_peer"
    unfolding n0
    by (simp add: has_holepunch_intent_def requested_tunnels_def sample_config_def set_nat_mapping_def
        add_peer_tunnel_def sample_peer_def)
  have b: "swarm_bookkeeping (sample_world 5) event n0 = (n1, [HolePunchAttemptStarted sample_peer 1])"
    using intent n0(3)
    by (simp add: n1_def event_def swarm_bookkeeping_def on_established_def sample_circuit_def sample_world_def
        on_connection_established_def start_hole_punch_attempt_def next_hole_punch_attempt_id_def
        new_connection_state_def peer_is_relay_only_def has_relayed_connection_def has_direct_connection_def
        saturating_add_def Let_def)
  have n1: "nd_app n1 = nd_app n0" "\<not> nd_mapping_handle n1" "peer_is_relay_only (nd_conn n1) sample_peer"
    "contains_key (hole_punch_attempts (nd_conn n1)) sample_peer"
    "fmlookup (hole_punch_deadlines (nd_conn n1)) sample_peer =
       Some \<lparr>deadline_attempt_id = 1, deadline_at = 5 + HOLE_PUNCH_TIMEOUT\<rparr>"
    "fmdom (hole_punch_deadlines (nd_conn n1)) = {|sample_peer|}"
    using intent n0(3,4)
    by (simp_all add: n1_def event_def swarm_bookkeeping_def on_established_def sample_circuit_def sample_world_def
        on_connection_established_def start_hole_punch_attempt_def next_hole_punch_attempt_id_def
        new_connection_state_def peer_is_relay_only_def has_relayed_connection_def has_direct_connection_def
        saturating_add_def w_now_def w_env_def sample_exec_def sample_env_def Let_def)
  let ?env = "w_env (sample_world 5)"
  let ?e1 = "HolePunchAttemptStarted sample_peer 1" and ?e2 = "TunnelPeerConnected sample_peer True"
  obtain q translated where tr: "translate_swarm_event ?env (w_boot (sample_world 5))
      (active_bootstrap_query (nd_ctx n1)) (api_is_connected (w_api (sample_world 5)) (nd_swarm n1)) event
      (queries (nd_ctx n1)) = (q, [?e2])"
    by (simp add: event_def sample_circuit_def has_circuit_def sample_world_def)
  define m where "m = n1\<lparr>nd_ctx := nd_ctx n1\<lparr>queries := q\<rparr>\<rparr>"
  have m: "nd_app m = nd_app n0" "nd_conn m = nd_conn n1" "\<not> nd_mapping_handle m"
    using n1 by (simp_all add: m_def)
  have tunnel0: "app_tunnel (nd_app m) =
      add_peer_tunnel sample_peer (ServiceName ''ssh'') sample_bind new_tunnel_state"
    unfolding m n0(2)
    by (simp add: requested_tunnels_def sample_config_def set_nat_mapping_def add_peer_tunnel_def
        new_tunnel_state_def sample_peer_def)
  have step1: "app_transition ?env (nd_app m) ?e1 =
      (\<lparr>app_peer = app_peer (nd_app n0), app_tunnel = begin_holepunch_attempt sample_peer 1 (app_tunnel (nd_app m))\<rparr>, [])"
    by (simp add: app_transition_run tunnel_events_def split_beta Let_def m)
  have only: "has_holepunch_intent (begin_holepunch_attempt sample_peer 1 (app_tunnel (nd_app m))) r \<Longrightarrow> r = sample_peer" for r
    unfolding tunnel0
    by (auto simp: has_holepunch_intent_def begin_holepunch_attempt_def add_peer_tunnel_def
        new_tunnel_state_def entry_extend_def contains_key_def Let_def split: if_splits)
  obtain m1 where ev1: "process_event (sample_world 5) ?e1 m = Some (m1, app_phase (nd_app m1) \<noteq> ShuttingDown)"
    and m1: "nd_app m1 = fst (app_transition ?env (nd_app m) ?e1)" "nd_conn m1 = nd_conn m"
      "nd_mapping_handle m1 = nd_mapping_handle m"
    by (rule process_event_quiet [of "sample_world 5" ?e1 sample_peer 1 m])
      (use step1 only n1(4) m in auto)
  have step2: "app_transition ?env (nd_app m1) ?e2 =
      (\<lparr>app_peer = app_peer (nd_app n0),
        app_tunnel = fst (on_tunnel_peer_connected sample_peer True (app_tunnel (nd_app m1)))\<rparr>, [])"
    by (simp add: app_transition_run tunnel_events_def split_beta Let_def m m1 step1
        on_tunnel_peer_connected_def split: option.split)
  have only2: "has_holepunch_intent (fst (on_tunnel_peer_connected sample_peer True (app_tunnel (nd_app m1)))) r \<Longrightarrow>
      r = sample_peer" for r
    unfolding m1 step1 tunnel0
    by (auto simp: has_holepunch_intent_def begin_holepunch_attempt_def add_peer_tunnel_def on_tunnel_peer_connected_def
        queue_for_direct_def new_tunnel_state_def entry_extend_def contains_key_def Let_def split: if_splits option.splits)
  obtain m2 where ev2: "process_event (sample_world 5) ?e2 m1 = Some (m2, app_phase (nd_app m2) \<noteq> ShuttingDown)"
    and m2: "nd_app m2 = fst (app_transition ?env (nd_app m1) ?e2)" "nd_conn m2 = nd_conn m1"
      "nd_mapping_handle m2 = nd_mapping_handle m1"
    by (rule process_event_quiet [of "sample_world 5" ?e2 sample_peer 1 m1])
      (use step2 only2 n1(4) m m1 in auto)
  have end_app: "nd_app m2 = \<lparr>app_peer = app_peer (nd_app n0),
      app_tunnel = fst (on_tunnel_peer_connected sample_peer True
        (begin_holepunch_attempt sample_peer 1 (app_tunnel (nd_app m))))\<rparr>"
    unfolding m2(1) step2 by (simp add: m1(1) step1)
  then have phases: "app_phase (nd_app m1) = Ready" "app_phase (nd_app m2) = Ready"
    using n0(1) by (simp_all add: m1(1) step1 app_phase_def)
  have "on_mapping_finished (sample_world 5) n1 = Some n1"
    using n1(2) by (simp add: on_mapping_finished_def)
  then have turn: "node_turn (sample_world 5) (InSwarm event) n0 = Some m2"
    using b tr ev1 ev2 phases by (simp add: on_swarm_event_def m_def)
  have "has_holepunch_intent (app_tunnel (nd_app m2)) r \<Longrightarrow> r = sample_peer" for r
    using only2 unfolding m2(1) step2 by simp
  then have "punching_node m2"
    unfolding punching_node_def
    using phases(2) n1 m(2,3) m1(2,3) m2(2,3)
    by (simp add: end_app tunnel0 on_tunnel_peer_connected_def begin_holepunch_attempt_def
        queue_for_direct_def add_peer_tunnel_def new_tunnel_state_def retries_def Let_def)
  with that start n0(1) turn show ?thesis unfolding event_def One_nat_def by blast
qed

lemma sample_punching:
  obtains n where "node_between_turns n" and "punching_node n"
proof -
  obtain n0 n where start: "node_start (sample_world 0) sample_config MappingUnknown empty_swarm = Inr (Some n0)"
    and ready: "app_phase (nd_app n0) = Ready"
    and turn: "node_turn (sample_world 5) (InSwarm (SwConnectionEstablished sample_peer (Suc 0) sample_circuit)) n0 = Some n"
    and n: "punching_node n"
    by (rule sample_first_turn)
  have "node_run n0 n" by (rule run_turn [OF run_start _ sample_world_ok turn]) (simp add: ready)
  with start n have "node_between_turns n"
    by (auto simp: node_between_turns_def punching_node_def
        intro!: exI [of _ "sample_world 0"] exI [of _ sample_config])
  with n that show ?thesis by blast
qed

text \<open>The three properties at that node: its session is that of attempt 1; when its time is up, and when
  DCUtR reports a failure, the peer is disconnected for a first retry.\<close>

lemma punching_session:
  assumes "punching_node n"
  obtains session where "fmlookup (holepunch_sessions (app_tunnel (nd_app n))) sample_peer = Some session"
    and "sess_phase session = Punching" and "contains_key (awaiting_holepunch (app_tunnel (nd_app n))) sample_peer"
  using assms that by (auto simp: punching_node_def contains_key_def)

lemma sessions_match_attempts_witness:
  "\<exists>(n :: recording_swarm node_state) session. node_between_turns n \<and>
     fmlookup (holepunch_sessions (app_tunnel (nd_app n))) sample_peer = Some session \<and>
     fmlookup (hole_punch_attempt_seq (nd_conn n)) sample_peer = Some (sess_attempt_id session) \<and>
     active_attempt_stats (nd_conn n) sample_peer \<noteq> None"
proof -
  obtain n :: "recording_swarm node_state" where n: "node_between_turns n" "punching_node n"
    by (rule sample_punching)
  from n(2) obtain session where
    session: "fmlookup (holepunch_sessions (app_tunnel (nd_app n))) sample_peer = Some session"
      "sess_phase session = Punching" by (rule punching_session)
  from sessions_match_attempts [OF n(1) session(1)] session n(1) show ?thesis by auto
qed

lemma attempt_of_punching:
  assumes "node_between_turns n" and "punching_node n"
  shows "attempt_active (app_tunnel (nd_app n)) sample_peer 1"
    and "active_attempt_stats (nd_conn n) sample_peer \<noteq> None"
proof -
  obtain session where
    session: "fmlookup (holepunch_sessions (app_tunnel (nd_app n))) sample_peer = Some session"
      "sess_phase session = Punching" "contains_key (awaiting_holepunch (app_tunnel (nd_app n))) sample_peer"
    using assms(2) by (rule punching_session)
  have "conn_wf (nd_conn n)"
    using between_turns(1) [OF assms(1)] conn_reachable_wf by (auto simp: node_wf_def)
  then have active: "attempt_id_of (nd_conn n) sample_peer = Some 1"
    using assms(2) by (auto simp: conn_wf_def punching_node_def fmpred_iff)
  from attempt_numbered [OF between_turns(1) [OF assms(1)] this]
    agree_number [OF between_turns(2) [OF assms(1)] session(1)]
  have "sess_attempt_id session = 1" by simp
  with session show "attempt_active (app_tunnel (nd_app n)) sample_peer 1"
    by (simp add: attempt_active_def)
  show "active_attempt_stats (nd_conn n) sample_peer \<noteq> None"
    using active by (auto simp: active_attempt_stats_def attempt_id_of_def)
qed

lemma punching_report_quiet:
  assumes "node_between_turns n" and "punching_node n" and "attempt_report e = Some (sample_peer, 1)"
  shows "\<forall>c\<in>set (snd (app_transition env (nd_app n) e)). spawned c = []"
    and "awaiting_holepunch (app_tunnel (fst (app_transition env (nd_app n) e))) =
      awaiting_holepunch (app_tunnel (nd_app n))"
    and "pending_by_peer (app_tunnel (fst (app_transition env (nd_app n) e))) =
      pending_by_peer (app_tunnel (nd_app n))"
proof -
  note active = attempt_of_punching(1) [OF assms(1,2)]
  have room: "retries (app_tunnel (nd_app n)) sample_peer < 3"
    using assms(2) by (simp add: punching_node_def)
  show "\<forall>c\<in>set (snd (app_transition env (nd_app n) e)). spawned c = []"
    unfolding app_report(2) [OF assms(3)] retry_fails_punch(2) [OF active] using room by simp
  show "awaiting_holepunch (app_tunnel (fst (app_transition env (nd_app n) e))) =
      awaiting_holepunch (app_tunnel (nd_app n))"
    "pending_by_peer (app_tunnel (fst (app_transition env (nd_app n) e))) =
      pending_by_peer (app_tunnel (nd_app n))"
    unfolding app_report(1) [OF assms(3)]
    by (rule retry_again [OF active room], simp)+
qed

lemma sample_world_api [simp]: "w_api (sample_world t) = sample_api"
  by (simp add: sample_world_def)

lemma sample_handled:
  assumes "failure_handled sample_api n n' sample_peer" and "punching_node n"
  shows "retries (app_tunnel (nd_app n')) sample_peer = 1"
    and "sample_peer |\<in>| pending_retry_redial (app_tunnel (nd_app n'))"
    and "recorded_disconnects sample_peer (nd_swarm n') = recorded_disconnects sample_peer (nd_swarm n) + 1"
proof -
  have zero: "retries (app_tunnel (nd_app n)) sample_peer = 0"
    using assms(2) by (simp add: punching_node_def)
  then show "retries (app_tunnel (nd_app n')) sample_peer = 1"
    and "sample_peer |\<in>| pending_retry_redial (app_tunnel (nd_app n'))"
    using assms(1) by (simp_all add: failure_handled_def punch_failed_def)
  have "counts_disconnects sample_api sample_peer tally \<longrightarrow> tally (nd_swarm n') = tally (nd_swarm n) + 1" for tally
    using assms(1) zero by (simp add: failure_handled_def)
  with sample_counts
  show "recorded_disconnects sample_peer (nd_swarm n') = recorded_disconnects sample_peer (nd_swarm n) + 1"
    by blast
qed

lemma due_punch_handled_witness:
  "\<exists>(n :: recording_swarm node_state) n'. punching_node n \<and>
     node_turn (sample_world (5 + HOLE_PUNCH_TIMEOUT)) InHolePunchDeadline n = Some n' \<and>
     retries (app_tunnel (nd_app n')) sample_peer = 1 \<and>
     sample_peer |\<in>| pending_retry_redial (app_tunnel (nd_app n')) \<and>
     recorded_disconnects sample_peer (nd_swarm n') = recorded_disconnects sample_peer (nd_swarm n) + 1"
proof -
  let ?w = "sample_world (5 + HOLE_PUNCH_TIMEOUT)"
  obtain n :: "recording_swarm node_state" where n: "node_between_turns n" "punching_node n"
    by (rule sample_punching)
  from n(2) obtain session where
    session: "fmlookup (holepunch_sessions (app_tunnel (nd_app n))) sample_peer = Some session"
      "sess_phase session = Punching" "contains_key (awaiting_holepunch (app_tunnel (nd_app n))) sample_peer"
    by (rule punching_session)
  have relayed: "peer_is_relay_only (nd_conn n) sample_peer"
    and deadline: "fmlookup (hole_punch_deadlines (nd_conn n)) sample_peer =
      Some \<lparr>deadline_attempt_id = 1, deadline_at = 5 + HOLE_PUNCH_TIMEOUT\<rparr>"
    and dom: "fmdom (hole_punch_deadlines (nd_conn n)) = {|sample_peer|}"
    using n(2) by (simp_all add: punching_node_def)
  obtain conn' where t: "take_due_hole_punch_timeouts (w_env ?w) (w_now ?w) (nd_conn n) = (conn', [(sample_peer, 1)])"
    and conn': "peer_is_relay_only conn' sample_peer"
    using deadline relayed single_orders [OF sample_world_ok [of "5 + HOLE_PUNCH_TIMEOUT"]]
    by (simp add: take_due_hole_punch_timeouts_def due_timeouts_def dom List.map_filter_simps w_now_def
        sample_env_eq sample_env_def peer_is_relay_only_def has_relayed_connection_def
        has_direct_connection_def Let_def)
  have quiet: "\<forall>c\<in>set (snd (app_transition (w_env ?w) (nd_app (n\<lparr>nd_conn := conn'\<rparr>))
      (HolePunchAttemptTimeout sample_peer 1))). spawned c = []"
    using punching_report_quiet(1) [OF n, of "HolePunchAttemptTimeout sample_peer 1"] by simp
  obtain n' where "dispatch ?w (HolePunchAttemptTimeout sample_peer 1) (n\<lparr>nd_conn := conn'\<rparr>) = Some n'"
    by (rule dispatch_quiet [OF quiet])
  then have turn: "node_turn ?w InHolePunchDeadline n = Some n'"
    using t conn' by (simp add: on_hole_punch_deadline_def)
  have "failure_handled (w_api ?w) n n' sample_peer"
    by (rule due_punch_handled [OF n(1) sample_world_ok turn session relayed deadline])
      (simp add: w_now_def sample_env_eq sample_env_def)
  then have handled: "failure_handled sample_api n n' sample_peer" by simp
  from sample_handled [OF handled n(2)] n(2) turn show ?thesis by blast
qed

lemma failed_punch_handled_witness:
  "\<exists>(n :: recording_swarm node_state) n'. punching_node n \<and>
     node_turn (sample_world 6) (InSwarm (SwBehaviour (BehDcutr sample_peer (Inl ''no'')))) n = Some n' \<and>
     retries (app_tunnel (nd_app n')) sample_peer = 1 \<and>
     sample_peer |\<in>| pending_retry_redial (app_tunnel (nd_app n')) \<and>
     recorded_disconnects sample_peer (nd_swarm n') = recorded_disconnects sample_peer (nd_swarm n) + 1"
proof -
  let ?w = "sample_world 6" and ?e = "HolePunchAttemptFailed sample_peer 1 ''no''"
  obtain n :: "recording_swarm node_state" where n: "node_between_turns n" "punching_node n"
    by (rule sample_punching)
  from n(2) obtain session where
    session: "fmlookup (holepunch_sessions (app_tunnel (nd_app n))) sample_peer = Some session"
      "sess_phase session = Punching" "contains_key (awaiting_holepunch (app_tunnel (nd_app n))) sample_peer"
    by (rule punching_session)
  let ?n = "n\<lparr>nd_ctx := nd_ctx n\<lparr>queries := queries (nd_ctx n)\<rparr>\<rparr>"
  obtain stats where stats: "fmlookup (hole_punch_attempts (nd_conn n)) sample_peer = Some stats"
    using attempt_of_punching(2) [OF n] by (auto simp: active_attempt_stats_def)
  have id: "stats_attempt_id stats = 1"
    using session_matched [OF n(1) session(1)] stats attempt_of_punching(1) [OF n] session(1)
    by (simp add: active_attempt_stats_def attempt_active_def)
  have quiet: "\<forall>c\<in>set (snd (app_transition (w_env ?w) (nd_app ?n) ?e)). spawned c = []"
    using punching_report_quiet(1) [OF n, of ?e] by simp
  obtain n' where d: "dispatch ?w ?e ?n = Some n'" and n': "nd_app n' = fst (app_transition (w_env ?w) (nd_app ?n) ?e)"
    "nd_conn n' = nd_conn ?n" by (rule dispatch_quiet [OF quiet])
  have "has_holepunch_intent (app_tunnel (nd_app n')) q \<Longrightarrow> has_holepunch_intent (app_tunnel (nd_app n)) q" for q
    using punching_report_quiet(2,3) [OF n, of ?e] by (simp add: has_holepunch_intent_def n'(1))
  then have only: "q = sample_peer" if "has_holepunch_intent (app_tunnel (nd_app n')) q" for q
    using n(2) that unfolding punching_node_def by blast
  have "arm_hole_punch_for_tunnel_targets ?w n' = Some n'"
    unfolding arm_hole_punch_for_tunnel_targets_def
    using stats only
    by (auto intro!: arm_targets_idle simp: target_peers_set n'(2) contains_key_def dest!: only)
  moreover have "observe_identify ?w ?e ?n = ?n" "\<not> stale_attempt_failure (nd_conn ?n) ?e"
    "attempt_scoped (nd_conn ?n) (HolePunchFailed sample_peer ''no'') = Some ?e"
    using stats id by (simp_all add: observe_identify_def stale_attempt_failure_def active_attempt_stats_def)
  ultimately have "process_events ?w [HolePunchFailed sample_peer ''no''] ?n = Some n'"
    using d by (auto simp: process_event_def)
  moreover have "on_mapping_finished ?w n = Some n"
    using n(2) by (simp add: on_mapping_finished_def punching_node_def)
  ultimately have turn: "node_turn ?w (InSwarm (SwBehaviour (BehDcutr sample_peer (Inl ''no'')))) n = Some n'"
    by (simp add: on_swarm_event_def swarm_bookkeeping_def)
  have handled: "failure_handled sample_api n n' sample_peer"
    using failed_punch_handled [OF n(1) turn session] by simp
  from sample_handled [OF handled n(2)] n(2) turn show ?thesis by blast
qed

end
