(* ===== verification/Connection_Swarm.thy ===== *)
theory Connection_Swarm
  imports Connection_Props
begin

text \<open>
  The connection records of \<open>src/src/node/connection_state.rs\<close> against the connections that are
  really open.  libp2p gives every connection an identifier of its own, reports it as established
  once and as closed once, and says with the closing whether the peer has another connection.  Under
  this contract the records hold exactly the open direct connections, and only open relayed ones.
\<close>

section \<open>Open connections\<close>

text \<open>The open connections, each with its peer and whether it is relayed.\<close>

type_synonym open_connections = "(connection_id, peer_id \<times> bool) fmap"

definition open_over :: "open_connections \<Rightarrow> peer_id \<Rightarrow> bool \<Rightarrow> connection_id set" where
  "open_over net p relayed = {c. fmlookup net c = Some (p, relayed)}"

lemma open_over_fmupd:
  "c |\<notin>| fmdom net \<Longrightarrow> open_over (fmupd c (p, r) net) q s =
     (if q = p \<and> s = r then insert c (open_over net q s) else open_over net q s)"
  by (auto simp: open_over_def fmdom_notD)

lemma open_over_fmdrop: "open_over (fmdrop c net) q s = open_over net q s - {c}"
  by (auto simp: open_over_def)

text \<open>What \<open>num_established\<close> says of the closing of a connection.\<close>

definition counts_others :: "open_connections \<Rightarrow> peer_id \<Rightarrow> connection_id \<Rightarrow> 32 word \<Rightarrow> bool" where
  "counts_others net p c k \<longleftrightarrow>
     (k = 0 \<longleftrightarrow> open_over net p True \<union> open_over net p False \<subseteq> {c})"

definition mirrors :: "open_connections \<Rightarrow> connection_state \<Rightarrow> bool" where
  "mirrors net s \<longleftrightarrow>
     (\<forall>p. fset (get_or {||} (direct_connections s) p) = open_over net p False \<and>
        fset (get_or {||} (relayed_connections s) p) \<subseteq> open_over net p True)"

lemma mirrorsD:
  assumes "mirrors net s"
  shows "fset (get_or {||} (direct_connections s) p) = open_over net p False"
    and "fset (get_or {||} (relayed_connections s) p) \<subseteq> open_over net p True"
  using assms by (simp_all add: mirrors_def)

lemma mirrors_new: "mirrors fmempty new_connection_state"
  by (simp add: mirrors_def new_connection_state_def open_over_def)

lemma mirrors_frame:
  "direct_connections s' = direct_connections s \<Longrightarrow> relayed_connections s' = relayed_connections s \<Longrightarrow>
     mirrors net s' = mirrors net s"
  by (simp add: mirrors_def)

text \<open>No set of connections is empty, so a peer has a key exactly when it has a connection.\<close>

lemma nonempty_key:
  "fmpred (\<lambda>_ ids. ids \<noteq> {||}) m \<Longrightarrow> contains_key m p \<longleftrightarrow> fset (get_or {||} m p) \<noteq> {}"
  by (auto simp: get_or_def contains_key_def fmpred_iff fset_eq_iff split: option.split)

lemma conn_keys:
  assumes "conn_wf s"
  shows "has_direct_connection s p \<longleftrightarrow> fset (get_or {||} (direct_connections s) p) \<noteq> {}"
    and "has_relayed_connection s p \<longleftrightarrow> fset (get_or {||} (relayed_connections s) p) \<noteq> {}"
  using assms
  by (auto simp: conn_wf_def has_direct_connection_def has_relayed_connection_def nonempty_key)

section \<open>The operations\<close>

lemma get_or_simps:
  "get_or d (fmupd k v m) q = (if q = k then v else get_or d m q)"
  "get_or d (fmdrop k m) q = (if q = k then d else get_or d m q)"
  by (simp_all add: get_or_def)

lemma get_or_entry_insert:
  "fset (get_or {||} (entry_insert p c m) q) =
     (if q = p then insert c (fset (get_or {||} m q)) else fset (get_or {||} m q))"
  by (simp add: entry_insert_def get_or_def)

lemma get_or_remove:
  "fset (get_or {||} (fst (remove_connection_id m p c)) q) =
     (if q = p then fset (get_or {||} m q) - {c} else fset (get_or {||} m q))"
  by (auto simp: remove_connection_id_def get_or_def Let_def split: option.splits)

lemma mirrors_established:
  assumes m: "mirrors net s" and fresh: "c |\<notin>| fmdom net"
  shows "mirrors (fmupd c (p, relayed) net) (fst (on_connection_established ord p c relayed s))"
proof (cases relayed)
  case True
  with m fresh show ?thesis
    by (auto simp: mirrors_def on_connection_established_def get_or_entry_insert open_over_fmupd)
next
  case False
  let ?s' = "fst (on_connection_established ord p c False s)"
  have "direct_connections ?s' = entry_insert p c (direct_connections s)"
    "relayed_connections ?s' = fmdrop p (relayed_connections s)"
    by (simp_all add: on_connection_established_def complete_hole_punch_attempt_def
        remove_pending_hole_punch_dials_for_peer_def Let_def)
  with m fresh False show ?thesis
    by (auto simp: mirrors_def get_or_entry_insert get_or_simps open_over_fmupd)
qed

lemma closed_connections:
  "get_or {||} (direct_connections (fst (on_connection_closed p c k s))) q =
     get_or {||} (direct_connections (closed_base p c s)) q"
  "get_or {||} (relayed_connections (fst (on_connection_closed p c k s))) q =
     get_or {||} (relayed_connections (closed_base p c s)) q"
  by (auto simp: closed_alt complete_hole_punch_attempt_def remove_pending_hole_punch_dials_for_peer_def
      get_or_simps has_relayed_connection_def has_direct_connection_def get_or_def contains_key_def Let_def
      split: option.split)

lemma mirrors_closed:
  assumes "mirrors net s" and "fmlookup net c = Some (p, r)"
  shows "mirrors (fmdrop c net) (fst (on_connection_closed p c k s))"
proof -
  have "c \<notin> open_over net q t" if "q \<noteq> p" for q t
    using assms(2) that by (simp add: open_over_def)
  with assms(1) show ?thesis
    by (auto simp: mirrors_def closed_connections closed_base_def get_or_remove open_over_fmdrop)
qed

text \<open>The operations that open and close nothing.\<close>

lemma connections_frame:
  "direct_connections (fst (start_hole_punch_attempt now p timeout s)) = direct_connections s"
  "relayed_connections (fst (start_hole_punch_attempt now p timeout s)) = relayed_connections s"
  "direct_connections (fst (on_dialing p c s)) = direct_connections s"
  "relayed_connections (fst (on_dialing p c s)) = relayed_connections s"
  "direct_connections (fst (on_outgoing_connection_error peer_opt c err s)) = direct_connections s"
  "relayed_connections (fst (on_outgoing_connection_error peer_opt c err s)) = relayed_connections s"
  "direct_connections (fst (take_due_hole_punch_timeouts env now s)) = direct_connections s"
  "relayed_connections (fst (take_due_hole_punch_timeouts env now s)) = relayed_connections s"
  by (auto simp: start_hole_punch_attempt_def next_hole_punch_attempt_id_def on_dialing_def
      on_outgoing_connection_error_def take_due_hole_punch_timeouts_def Let_def split: option.split)

section \<open>What is reported\<close>

lemma closing_reports:
  assumes "conn_wf s" and m: "mirrors net s" and c: "fmlookup net c = Some (p, r)"
    and k: "counts_others net p c k"
  shows "let (s', update) = on_connection_closed p c k s; others = fmdrop c net in
    (peer_fully_disconnected update \<longleftrightarrow> open_over others p True = {} \<and> open_over others p False = {}) \<and>
    (peer_fully_disconnected update \<longrightarrow> active_attempt_stats s' p = None) \<and>
    (clear_direct_registry update \<longleftrightarrow> open_over others p False = {} \<and>
       (\<not> r \<or> open_over others p True = {}))"
proof -
  let ?b = "closed_base p c s"
  have base: "fset (get_or {||} (direct_connections ?b) p) = open_over (fmdrop c net) p False"
    "fset (get_or {||} (relayed_connections ?b) p) \<subseteq> open_over (fmdrop c net) p True"
    using mirrorsD [OF m, of p] by (auto simp: closed_base_def get_or_remove open_over_fmdrop)
  have keys: "has_direct_connection ?b p \<longleftrightarrow> open_over (fmdrop c net) p False \<noteq> {}"
    "has_relayed_connection ?b p \<Longrightarrow> open_over (fmdrop c net) p True \<noteq> {}"
    using conn_keys [OF wf_closed_base [OF assms(1)], of p c p] base by auto
  have zero: "k = 0 \<longleftrightarrow> open_over (fmdrop c net) p True = {} \<and> open_over (fmdrop c net) p False = {}"
    using k by (auto simp: counts_others_def open_over_fmdrop)
  let ?fully = "k = 0 \<and> \<not> has_relayed_connection ?b p \<and> \<not> has_direct_connection ?b p"
  have fully: "?fully \<longleftrightarrow> open_over (fmdrop c net) p True = {} \<and> open_over (fmdrop c net) p False = {}"
    using zero keys by auto
  have gone: "snd (remove_connection_id (direct_connections s) p c) \<longleftrightarrow>
      open_over net p False \<noteq> {} \<and> open_over (fmdrop c net) p False = {}"
  proof -
    have "fmpred (\<lambda>_ ids. ids \<noteq> {||}) (direct_connections s)" using assms(1) by (simp add: conn_wf_def)
    then have "contains_key (direct_connections s) p \<longleftrightarrow> open_over net p False \<noteq> {}"
      "contains_key (fst (remove_connection_id (direct_connections s) p c)) p \<longleftrightarrow>
        open_over (fmdrop c net) p False \<noteq> {}"
      using nonempty_key [of "direct_connections s" p] nonempty_key [OF remove_nonempty, of "direct_connections s" p c p]
        mirrorsD(1) [OF m, of p]
      by (simp_all add: get_or_remove open_over_fmdrop)
    with remove_connection_id_cases [of "direct_connections s" p c] show ?thesis
      by (metis prod.collapse)
  qed
  have own: "open_over net p False \<noteq> {} \<and> open_over (fmdrop c net) p False = {} \<longleftrightarrow>
      \<not> r \<and> open_over (fmdrop c net) p False = {}"
  proof -
    have "c \<in> open_over net p False \<longleftrightarrow> \<not> r" using c by (simp add: open_over_def)
    then show ?thesis unfolding open_over_fmdrop by blast
  qed
  have "?fully \<Longrightarrow> active_attempt_stats (fst (on_connection_closed p c k s)) p = None"
    by (simp add: closed_alt active_attempt_stats_def complete_hole_punch_attempt_def
        remove_pending_hole_punch_dials_for_peer_def Let_def)
  moreover have "peer_fully_disconnected (snd (on_connection_closed p c k s)) \<longleftrightarrow> ?fully"
    "clear_direct_registry (snd (on_connection_closed p c k s)) \<longleftrightarrow>
       snd (remove_connection_id (direct_connections s) p c) \<or> ?fully"
    by (simp_all add: closed_alt)
  ultimately show ?thesis
    unfolding gone own fully by (auto simp: split_beta Let_def)
qed

text \<open>C14: Closing a connection reports the peer as fully disconnected exactly when the swarm has no
  other connection to it, and then the attempt under way for it is forgotten; and it takes the peer out
  of the registry of direct peers exactly when the peer has no direct connection left and either
  just lost one or is fully disconnected.\<close>

theorem closing_reports_truth:
  assumes "conn_wf s" and m: "mirrors net s" and c: "fmlookup net c = Some (p, r)"
    and k: "counts_others net p c k"
  shows "let (s', update) = on_connection_closed p c k s; others = fmdrop c net in
    (peer_fully_disconnected update \<longleftrightarrow> open_over others p True = {} \<and> open_over others p False = {}) \<and>
    (peer_fully_disconnected update \<longrightarrow> active_attempt_stats s' p = None) \<and>
    (clear_direct_registry update \<longleftrightarrow> open_over others p False = {} \<and>
       (\<not> r \<or> open_over others p True = {}))"
  by (rule closing_reports [OF assms])

text \<open>The only connection of a relayed peer is closed.\<close>

theorem closing_reports_truth_witness:
  "peer_fully_disconnected (snd (on_connection_closed sample_peer 1 0 sample_relayed)) \<and>
   clear_direct_registry (snd (on_connection_closed sample_peer 1 0 sample_relayed))"
proof -
  let ?net = "fmupd (Suc 0) (sample_peer, True) fmempty :: open_connections"
  have only: "open_over ?net sample_peer t \<subseteq> {Suc 0}" "open_over (fmdrop (Suc 0) ?net) sample_peer t = {}" for t
    by (auto simp: open_over_def split: if_splits)
  have "mirrors ?net sample_relayed"
    unfolding sample_relayed_def using mirrors_established [OF mirrors_new, of 1] by simp
  moreover have "counts_others ?net sample_peer (Suc 0) 0"
    using only(1) [of True] only(1) [of False] by (simp add: counts_others_def)
  ultimately show ?thesis
    using closing_reports_truth [OF conn_reachable_wf [OF sample_relayed_reachable], of ?net "Suc 0" sample_peer True 0]
    by (simp add: split_beta Let_def only(2))
qed

end
