(* ===== verification/Node_Net.thy ===== *)
theory Node_Net
  imports Node_Progress Connection_Swarm
begin

text \<open>
  The node and the connections of the swarm.  Over any run in which the swarm reports its
  connections as libp2p documents, three parts of the node agree with the connections that are open:
  the connection records, the registry that tunnel tasks ask for direct peers, and the set of
  relayed peers of the state machine.
\<close>

section \<open>Runs with their connections\<close>

text \<open>What a turn says about the connections, and what libp2p promises of it: a new connection has a
  fresh identifier, a closed one was open, and there are fewer than 2^32 of them.\<close>

fun net_after :: "node_input \<Rightarrow> open_connections \<Rightarrow> open_connections" where
  "net_after (InSwarm (SwConnectionEstablished p c endpoint)) net =
     fmupd c (p, endpoint_is_relayed endpoint) net"
| "net_after (InSwarm (SwConnectionClosed p c endpoint k)) net = fmdrop c net"
| "net_after _ net = net"

fun net_allows :: "open_connections \<Rightarrow> node_input \<Rightarrow> bool" where
  "net_allows net (InSwarm (SwConnectionEstablished p c endpoint)) \<longleftrightarrow>
     c |\<notin>| fmdom net \<and> fcard (fmdom net) + 1 < 2 ^ 32"
| "net_allows net (InSwarm (SwConnectionClosed p c endpoint k)) \<longleftrightarrow>
     (\<exists>r. fmlookup net c = Some (p, r)) \<and> counts_others net p c k"
| "net_allows net _ \<longleftrightarrow> True"

inductive net_run :: "'sw node_state \<Rightarrow> open_connections \<Rightarrow> 'sw node_state \<Rightarrow> bool" where
  net_start: "net_run n fmempty n"
| net_turn: "net_run n net n1 \<Longrightarrow> app_phase (nd_app n1) \<noteq> ShuttingDown \<Longrightarrow> env_ok (w_env w) \<Longrightarrow>
    net_allows net input \<Longrightarrow> node_turn w input n1 = Some n2 \<Longrightarrow> net_run n (net_after input net) n2"

lemma net_run_node_run: "net_run n net n' \<Longrightarrow> node_run n n'"
  by (induction rule: net_run.induct) (auto intro: node_run.intros)

section \<open>Views of the node\<close>

text \<open>
  A view of the node that events of the state machine change in a known way, and that arming and
  observing leave alone, is known after the whole processing of a list of events.
\<close>

locale node_view =
  fixes view :: "'sw node_state \<Rightarrow> 'v" and event_effect :: "event \<Rightarrow> 'v \<Rightarrow> 'v"
  assumes view_dispatch: "dispatch w e n = Some n' \<Longrightarrow> view n' = event_effect e (view n)"
    and view_start: "view (n\<lparr>nd_conn := fst (start_hole_punch_attempt now p timeout (nd_conn n))\<rparr>) = view n"
    and view_observe: "view (observe_identify w e n) = view n"
    and view_mapping: "view (n\<lparr>nd_mapping_handle := False, nd_swarm := sw\<rparr>) = view n"
      "view (n\<lparr>nd_mapping_handle := False\<rparr>) = view n"
    and attempts_no_effect: "event_effect (HolePunchAttemptStarted p i) v = v"
      "event_effect (HolePunchAttemptTimeout p i) v = v" "event_effect (HolePunchAttemptFailed p i r) v = v"
      "event_effect (HolePunchFailed p r) v = v" "event_effect (NatStatusChanged status) v = v"
begin

lemma view_arm_targets: "arm_targets w peers n = Some n' \<Longrightarrow> view n' = view n"
proof (induction w peers n rule: arm_targets.induct)
  case (1 w n)
  then show ?case by simp
next
  case (2 w peer peers n)
  obtain conn' started where s: "start_hole_punch_attempt (w_now w) peer HOLE_PUNCH_TIMEOUT (nd_conn n) =
      (conn', started)" by (metis surj_pair)
  have same: "view (n\<lparr>nd_conn := conn'\<rparr>) = view n"
    using view_start [where n = n and now = "w_now w" and p = peer and timeout = HOLE_PUNCH_TIMEOUT]
    by (simp add: s)
  show ?case
  proof (cases started)
    case None
    with 2 s show ?thesis by simp
  next
    case (Some i)
    with "2.prems" s obtain n1 where d: "dispatch w (HolePunchAttemptStarted peer i) (n\<lparr>nd_conn := conn'\<rparr>) = Some n1"
      and rest: "arm_targets w peers n1 = Some n'" by (auto split: option.splits)
    have "view n1 = view n" using view_dispatch [OF d] same by (simp add: attempts_no_effect)
    with "2.IH"(2) [OF s [symmetric] Some d rest] show ?thesis by simp
  qed
qed

lemma view_arm: "arm_hole_punch_for_tunnel_targets w n = Some n' \<Longrightarrow> view n' = view n"
  by (auto simp: arm_hole_punch_for_tunnel_targets_def view_arm_targets split: if_splits)

lemma view_report: "report_timeouts w due n = Some n' \<Longrightarrow> view n' = view n"
proof (induction w due n rule: report_timeouts.induct)
  case (1 w n)
  then show ?case by simp
next
  case (2 w peer i due n)
  show ?case
  proof (cases "peer_is_relay_only (nd_conn n) peer")
    case False
    with 2 show ?thesis by simp
  next
    case True
    with "2.prems" obtain n1 where d: "dispatch w (HolePunchAttemptTimeout peer i) n = Some n1"
      and rest: "report_timeouts w due n1 = Some n'" by (auto split: option.splits)
    with "2.IH"(1) [OF True d rest] view_dispatch [OF d] show ?thesis by (simp add: attempts_no_effect)
  qed
qed

lemma view_mapping_finished: "on_mapping_finished w n = Some n' \<Longrightarrow> view n' = view n"
  by (erule mapping_cases) (auto simp: view_mapping attempts_no_effect dest: view_dispatch)

lemma view_event:
  assumes "process_event w e n = Some (n', go_on)"
  shows "view n' = event_effect e (view n)"
proof (cases "attempt_scoped (nd_conn n) e")
  case None
  then obtain p r where "e = HolePunchFailed p r" by (cases e) auto
  with assms None show ?thesis by (auto simp: process_event_def attempts_no_effect)
next
  case (Some e')
  then have same: "event_effect e' v = event_effect e v" for v by (cases e) (auto simp: attempts_no_effect)
  let ?n1 = "observe_identify w e' n"
  show ?thesis
  proof (cases "stale_attempt_failure (nd_conn ?n1) e'")
    case True
    then obtain p i r where "e' = HolePunchAttemptFailed p i r"
      by (cases e') (auto simp: stale_attempt_failure_def)
    then have "event_effect e (view n) = view n" using same [of "view n"] by (simp add: attempts_no_effect)
    moreover have "n' = ?n1" using assms Some True by (simp add: process_event_def Let_def)
    ultimately show ?thesis by (simp add: view_observe)
  next
    case False
    with assms Some obtain n2 where d: "dispatch w e' ?n1 = Some n2"
      and arm: "arm_hole_punch_for_tunnel_targets w n2 = Some n'"
      by (auto simp: process_event_def Let_def split: option.splits)
    show ?thesis by (simp add: view_arm [OF arm] view_dispatch [OF d] view_observe same)
  qed
qed

lemma view_events:
  "process_events w es n = Some n' \<Longrightarrow>
     \<exists>k\<le>length es. view n' = fold event_effect (take k es) (view n) \<and>
       (k = length es \<or> app_phase (nd_app n') = ShuttingDown)"
proof (induction es arbitrary: n)
  case Nil
  then show ?case by simp
next
  case (Cons e es)
  from Cons.prems obtain n1 go_on where ev: "process_event w e n = Some (n1, go_on)"
    by (auto split: option.splits)
  note one = view_event [OF ev]
  show ?case
  proof (cases go_on)
    case True
    with Cons.prems ev have "process_events w es n1 = Some n'" by simp
    from Cons.IH [OF this] obtain k where "k \<le> length es"
      "view n' = fold event_effect (take k es) (view n1)" "k = length es \<or> app_phase (nd_app n') = ShuttingDown" by blast
    with one show ?thesis by (intro exI [of _ "Suc k"]) simp
  next
    case False
    with Cons.prems ev have "n1 = n'" by simp
    with False ev process_event_stop one show ?thesis by (intro exI [of _ "Suc 0"]) auto
  qed
qed

text \<open>A whole turn for a swarm event.\<close>

lemma view_swarm_event:
  assumes ev: "on_swarm_event w event n = Some n'"
    and queries: "\<And>m q. view (m\<lparr>nd_ctx := nd_ctx m\<lparr>queries := q\<rparr>\<rparr>) = view m"
  obtains n1 synthetic tables active conn where "swarm_bookkeeping w event n = (n1, synthetic)"
    and "\<exists>k\<le>length (synthetic @ snd (translate_swarm_event (w_env w) (w_boot w) active conn event tables)).
      view n' = fold event_effect (take k (synthetic @
        snd (translate_swarm_event (w_env w) (w_boot w) active conn event tables))) (view n1) \<and>
      (k = length (synthetic @ snd (translate_swarm_event (w_env w) (w_boot w) active conn event tables)) \<or>
        app_phase (nd_app n') = ShuttingDown)"
proof -
  obtain n1 synthetic where b: "swarm_bookkeeping w event n = (n1, synthetic)" by (metis surj_pair)
  with ev obtain n2 where m: "on_mapping_finished w n1 = Some n2"
    by (auto simp: on_swarm_event_def split: option.splits)
  obtain q translated where tr: "translate_swarm_event (w_env w) (w_boot w) (active_bootstrap_query (nd_ctx n2))
      (api_is_connected (w_api w) (nd_swarm n2)) event (queries (nd_ctx n2)) = (q, translated)"
    by (metis surj_pair)
  let ?n3 = "n2\<lparr>nd_ctx := nd_ctx n2\<lparr>queries := q\<rparr>\<rparr>"
  have "process_events w (synthetic @ translated) ?n3 = Some n'"
    using ev b m tr by (simp add: on_swarm_event_def)
  from view_events [OF this] show ?thesis
    by (intro that [OF b, of "active_bootstrap_query (nd_ctx n2)" "api_is_connected (w_api w) (nd_swarm n2)"
          "queries (nd_ctx n2)"]) (simp add: tr queries view_mapping_finished [OF m])
qed

end

section \<open>The connections and the direct peers\<close>

text \<open>What only the bookkeeping of connections changes.\<close>

definition net_view :: "'sw node_state \<Rightarrow>
  (peer_id, connection_id fset) fmap \<times> (peer_id, connection_id fset) fmap \<times> direct_peer_registry" where
  "net_view n = (direct_connections (nd_conn n), relayed_connections (nd_conn n), direct_peers (nd_ctx n))"

lemma execute_command_direct:
  "execute_command api x c (sw, ctx) = Some (sw', ctx') \<Longrightarrow> direct_peers ctx' = direct_peers ctx"
  by (cases c) (auto split: prod.splits sum.splits)

lemma execute_commands_direct:
  "execute_commands api x cs (sw, ctx) = Some (sw', ctx') \<Longrightarrow> direct_peers ctx' = direct_peers ctx"
proof (induction cs arbitrary: sw ctx)
  case Nil
  then show ?case by simp
next
  case (Cons c cs)
  then obtain sw1 ctx1 where "execute_command api x c (sw, ctx) = Some (sw1, ctx1)"
    and "execute_commands api x cs (sw1, ctx1) = Some (sw', ctx')" by (auto split: option.splits)
  with Cons.IH execute_command_direct show ?case by metis
qed

interpretation conns: node_view net_view "\<lambda>_ v. v"
  by unfold_locales
    (auto simp: net_view_def dispatch_def split_beta connections_frame observe_identify_def record_observed_port_def
      refresh_bootstrap_observation_def Let_def dest: execute_commands_direct split: event.split option.split)

section \<open>The marks of relayed peers\<close>

abbreviation marks_of :: "'sw node_state \<Rightarrow> peer_id fset" where
  "marks_of n \<equiv> relayed_peers (app_tunnel (nd_app n))"

fun relay_mark :: "event \<Rightarrow> peer_id fset \<Rightarrow> peer_id fset" where
  "relay_mark (TunnelPeerConnected p relayed) marks =
     (if relayed then finsert p marks else marks |-| {|p|})"
| "relay_mark (ConnectionLost p r) marks = (if r = 0 then marks |-| {|p|} else marks)"
| "relay_mark _ marks = marks"

lemma tunnel_marks: "relayed_peers (fst (tunnel_transition env s e)) = relay_mark e (relayed_peers s)"
proof (cases e)
  case (PhaseChanged old new)
  then show ?thesis by (cases new) (simp_all add: on_phase_ready_def)
next
  case (TunnelDialFailed q r)
  then show ?thesis
    by (auto simp: on_tunnel_dial_failed_def mark_dial_retry_def Let_def reroute_frame split: option.splits)
qed (auto simp: on_dht_peer_lookup_complete_def on_dht_service_resolved_def on_dht_service_failed_def
    route_connected_peer_def queue_for_direct_def store_provider_candidates_def on_tunnel_peer_connected_def
    clear_retry_state_def begin_holepunch_attempt_def retry_holepunch_attempt_def set_session_phase_def
    schedule_holepunch_retry_def update_address_oracle_def record_address_candidates_def
    on_all_connections_lost_def Let_def split: option.splits list.splits prod.splits if_splits)

lemma app_marks:
  "relayed_peers (app_tunnel (fst (app_transition env s e))) = relay_mark e (relayed_peers (app_tunnel s))"
  by (simp add: app_transition_run tunnel_events_def split_beta Let_def tunnel_marks)

interpretation marks: node_view marks_of relay_mark
  by unfold_locales (simp_all add: dispatch_app app_marks observe_frame)

lemma translated_marks:
  "relay_mark e marks \<noteq> marks \<Longrightarrow> e \<in> set (snd (translate_swarm_event env boot active conn ev q)) \<Longrightarrow>
     \<exists>p c endpoint. ev = SwConnectionEstablished p c endpoint"
proof (cases ev)
  case (SwBehaviour b)
  have kad: "e \<in> set (snd (translate_kad_event env active conn k q)) \<Longrightarrow> relay_mark e marks = marks" for k
  proof (cases k)
    case (OutboundQueryProgressed i r l)
    then show "e \<in> set (snd (translate_kad_event env active conn k q)) \<Longrightarrow> relay_mark e marks = marks"
      by (cases r) (auto simp: translate_get_providers_def Let_def
          split: option.splits sum.splits get_providers_ok.splits if_splits)
  qed simp
  assume "relay_mark e marks \<noteq> marks" "e \<in> set (snd (translate_swarm_event env boot active conn ev q))"
  with kad show ?thesis unfolding SwBehaviour by (cases b) (auto split: sum.splits)
qed (auto split: sum.splits option.splits if_splits)

text \<open>C26: The mark of a relayed peer can outlive the relayed connection.  When a relayed connection opens
  to a peer that has a direct one and closes again, the peer stays marked: whatever tunnels are
  then routed to it wait for a direct path that is already there, nothing is opened, and no attempt
  is started for them, since the peer is not relay-only.\<close>

theorem relayed_mark_outlives:
  assumes "has_direct_connection conn p" and "0 < r"
  shows "let t' = fst (mealy_run tunnel_transition t
      [(env, TunnelPeerConnected p True), (env, ConnectionLost p r)]) in
    p |\<in>| relayed_peers t' \<and>
    route_connected_peer p specs t' = (queue_for_direct p specs t', []) \<and>
    start_hole_punch_attempt now p timeout conn = (conn, None)"
proof -
  define t' where "t' = fst (mealy_run tunnel_transition t
      [(env, TunnelPeerConnected p True), (env, ConnectionLost p r)])"
  define t1 where "t1 = fst (tunnel_transition env t (TunnelPeerConnected p True))"
  have "p |\<in>| relayed_peers t1" unfolding t1_def tunnel_marks by simp
  moreover have "t' = t1" using assms(2) by (simp add: t'_def t1_def split_beta Let_def)
  ultimately have "p |\<in>| relayed_peers t'" by simp
  then show ?thesis
    unfolding t'_def [symmetric] Let_def
    using assms(1) by (simp add: route_connected_peer_def start_hole_punch_attempt_def peer_is_relay_only_def)
qed

text \<open>A tunnel to a peer whose relayed connection is gone, with the direct one on record.\<close>

theorem relayed_mark_outlives_witness:
  "\<exists>t conn. has_direct_connection conn sample_peer \<and> \<not> has_relayed_connection conn sample_peer \<and>
     route_connected_peer sample_peer [(ServiceName [], sample_bind)] t =
       (queue_for_direct sample_peer [(ServiceName [], sample_bind)] t, [])"
proof -
  let ?conn = "fst (on_connection_established sorted_list_of_fset sample_peer 1 False new_connection_state)"
  have c: "has_direct_connection ?conn sample_peer" "\<not> has_relayed_connection ?conn sample_peer"
    by (simp_all add: on_connection_established_def new_connection_state_def has_direct_connection_def
        has_relayed_connection_def complete_hole_punch_attempt_def remove_pending_hole_punch_dials_for_peer_def)
  have "0 < (1 :: 32 word)" by simp
  from relayed_mark_outlives [OF c(1) this, unfolded Let_def] c show ?thesis by blast
qed

section \<open>The invariant\<close>

definition net_ok :: "open_connections \<Rightarrow> 'sw node_state \<Rightarrow> bool" where
  "net_ok net n \<longleftrightarrow>
     mirrors net (nd_conn n) \<and>
     (\<forall>p. is_direct (direct_peers (nd_ctx n)) p \<longleftrightarrow> open_over net p False \<noteq> {})"

definition marks_ok :: "'sw node_state \<Rightarrow> bool" where
  "marks_ok n \<longleftrightarrow>
     (\<forall>p. (has_relayed_connection (nd_conn n) p \<longrightarrow> p |\<in>| marks_of n) \<and>
        (p |\<in>| marks_of n \<longrightarrow> has_relayed_connection (nd_conn n) p \<or> has_direct_connection (nd_conn n) p))"

lemma net_ok_view: "net_view n' = net_view n \<Longrightarrow> net_ok net n' = net_ok net n"
  by (simp add: net_ok_def net_view_def mirrors_def)

lemma marks_ok_view: "net_view n' = net_view n \<Longrightarrow> marks_of n' = marks_of n \<Longrightarrow> marks_ok n' = marks_ok n"
  by (simp add: marks_ok_def net_view_def has_relayed_connection_def has_direct_connection_def)

subsection \<open>Connections come and go\<close>

lemma established_frame:
  fixes w p c endpoint n
  defines "est \<equiv> on_connection_established (w_conn_order w) p c (endpoint_is_relayed endpoint) (nd_conn n)"
    and "r \<equiv> on_established w p c endpoint n"
  shows "direct_connections (nd_conn (fst r)) = direct_connections (fst est)"
    and "relayed_connections (nd_conn (fst r)) = relayed_connections (fst est)"
    and "direct_peers (nd_ctx (fst r)) = (if direct_connection_established (snd est)
      then mark_direct p (direct_peers (nd_ctx n)) else direct_peers (nd_ctx n))"
    and "nd_app (fst r) = nd_app n"
    and "snd r = [] \<or> (\<exists>i. snd r = [HolePunchAttemptStarted p i])"
proof -
  define intent where "intent = (endpoint_is_relayed endpoint \<and> has_holepunch_intent (app_tunnel (nd_app n)) p)"
  define started where "started = (if intent then start_hole_punch_attempt (w_now w) p HOLE_PUNCH_TIMEOUT (fst est)
    else (fst est, None))"
  have frame: "direct_connections (fst started) = direct_connections (fst est)"
    "relayed_connections (fst started) = relayed_connections (fst est)"
    by (simp_all add: started_def connections_frame)
  have r: "nd_conn (fst r) = fst started" "nd_app (fst r) = nd_app n"
    "direct_peers (nd_ctx (fst r)) = (if direct_connection_established (snd est)
      then mark_direct p (direct_peers (nd_ctx n)) else direct_peers (nd_ctx n))"
    "snd r = (case (case snd started of Some i \<Rightarrow> Some i | None \<Rightarrow> started_attempt_id (snd est)) of
      Some i \<Rightarrow> [HolePunchAttemptStarted p i] | None \<Rightarrow> [])"
    unfolding r_def started_def intent_def est_def on_established_def Let_def split_beta by simp_all
  show "direct_connections (nd_conn (fst r)) = direct_connections (fst est)"
    "relayed_connections (nd_conn (fst r)) = relayed_connections (fst est)"
    "direct_peers (nd_ctx (fst r)) = (if direct_connection_established (snd est)
      then mark_direct p (direct_peers (nd_ctx n)) else direct_peers (nd_ctx n))"
    "nd_app (fst r) = nd_app n"
    using r frame by simp_all
  show "snd r = [] \<or> (\<exists>i. snd r = [HolePunchAttemptStarted p i])"
    unfolding r(4) by (simp split: option.split)
qed

lemma established_view:
  assumes "swarm_bookkeeping w (SwConnectionEstablished p c endpoint) n = (n1, synthetic)"
  shows "net_view n1 =
      (let s' = fst (on_connection_established (w_conn_order w) p c (endpoint_is_relayed endpoint) (nd_conn n))
       in (direct_connections s', relayed_connections s',
           if endpoint_is_relayed endpoint then direct_peers (nd_ctx n)
           else mark_direct p (direct_peers (nd_ctx n))))"
    and "marks_of n1 = marks_of n"
    and "synthetic = [] \<or> (\<exists>i. synthetic = [HolePunchAttemptStarted p i])"
proof -
  let ?est = "on_connection_established (w_conn_order w) p c (endpoint_is_relayed endpoint) (nd_conn n)"
  have flag: "direct_connection_established (snd ?est) \<longleftrightarrow> \<not> endpoint_is_relayed endpoint"
    "started_attempt_id (snd ?est) = None"
    by (simp_all add: on_connection_established_def Let_def split_beta)
  obtain n2 syn where est: "on_established w p c endpoint n = (n2, syn)" by (metis surj_pair)
  have n1: "net_view n1 = net_view n2" "marks_of n1 = marks_of n2" "synthetic = syn"
    using assms est by (auto simp: swarm_bookkeeping_def net_view_def split: if_splits)
  have n2: "n2 = fst (on_established w p c endpoint n)" "syn = snd (on_established w p c endpoint n)"
    using est by simp_all
  show "net_view n1 = (let s' = fst ?est
       in (direct_connections s', relayed_connections s',
           if endpoint_is_relayed endpoint then direct_peers (nd_ctx n)
           else mark_direct p (direct_peers (nd_ctx n))))"
    unfolding n1 n2 by (simp add: net_view_def established_frame flag Let_def)
  show "marks_of n1 = marks_of n" unfolding n1 n2 by (simp add: established_frame)
  show "synthetic = [] \<or> (\<exists>i. synthetic = [HolePunchAttemptStarted p i])"
    unfolding n1 n2 by (rule established_frame)
qed

lemma closed_view:
  assumes "swarm_bookkeeping w (SwConnectionClosed p c endpoint k) n = (n1, synthetic)"
  shows "net_view n1 =
      (let (s', update) = on_connection_closed p c k (nd_conn n)
       in (direct_connections s', relayed_connections s',
           if clear_direct_registry update then clear_direct p (direct_peers (nd_ctx n))
           else direct_peers (nd_ctx n)))"
    and "marks_of n1 = marks_of n"
    and "synthetic = [ConnectionLost p (remaining_connections_of (fst (on_connection_closed p c k (nd_conn n))) p)]"
proof -
  have frame: "net_view (schedule_boot_reconnect w q m) = net_view m"
    "marks_of (schedule_boot_reconnect w q m) = marks_of m" for q m
    by (auto simp: schedule_boot_reconnect_def net_view_def split: prod.splits option.splits)
  obtain n2 syn boot where cl: "on_closed w p c k n = (n2, syn, boot)" by (metis prod_cases3)
  with assms have "net_view n1 = net_view n2" "marks_of n1 = marks_of n2" "synthetic = syn"
    by (auto simp: swarm_bookkeeping_def frame split: option.splits)
  then have n1: "net_view n1 = net_view (fst (on_closed w p c k n))"
    "marks_of n1 = marks_of (fst (on_closed w p c k n))" "synthetic = fst (snd (on_closed w p c k n))"
    using cl by simp_all
  show "net_view n1 =
      (let (s', update) = on_connection_closed p c k (nd_conn n)
       in (direct_connections s', relayed_connections s',
           if clear_direct_registry update then clear_direct p (direct_peers (nd_ctx n))
           else direct_peers (nd_ctx n)))"
    unfolding n1 by (simp add: on_closed_def net_view_def Let_def split_beta)
  show "marks_of n1 = marks_of n" unfolding n1 by (simp add: on_closed_def Let_def split_beta)
  show "synthetic = [ConnectionLost p (remaining_connections_of (fst (on_connection_closed p c k (nd_conn n))) p)]"
    unfolding n1 by (simp add: on_closed_def Let_def split_beta)
qed

subsection \<open>Turns\<close>

lemma other_view:
  assumes "swarm_bookkeeping w event n = (n1, synthetic)"
    and "\<forall>p c endpoint. event \<noteq> SwConnectionEstablished p c endpoint"
    and "\<forall>p c endpoint k. event \<noteq> SwConnectionClosed p c endpoint k"
  shows "net_view n1 = net_view n" and "marks_of n1 = marks_of n" and "synthetic = []"
proof -
  have "net_view n1 = net_view n \<and> marks_of n1 = marks_of n \<and> synthetic = []"
  proof (cases event)
    case (SwDialing peer_opt c)
    with assms show ?thesis
      by (cases peer_opt) (auto simp: swarm_bookkeeping_def net_view_def connections_frame)
  next
    case (SwOutgoingConnectionError peer_opt c err_msg)
    have "net_view (on_outgoing_error w peer_opt c err_msg n) = net_view n \<and>
        marks_of (on_outgoing_error w peer_opt c err_msg n) = marks_of n"
      by (auto simp: on_outgoing_error_def schedule_boot_reconnect_def net_view_def connections_frame Let_def
          split: option.splits prod.splits)
    with assms SwOutgoingConnectionError show ?thesis by (auto simp: swarm_bookkeeping_def)
  next
    case (SwNewListenAddr a)
    have "net_view (on_new_listen_addr w a n) = net_view n \<and> marks_of (on_new_listen_addr w a n) = marks_of n"
      by (simp add: on_new_listen_addr_def net_view_def Let_def)
    with assms SwNewListenAddr show ?thesis by (auto simp: swarm_bookkeeping_def)
  next
    case (SwExternalAddrConfirmed a)
    have "net_view (on_external_confirmed w a n) = net_view n \<and> marks_of (on_external_confirmed w a n) = marks_of n"
      by (simp add: on_external_confirmed_def net_view_def Let_def split: option.split)
    with assms SwExternalAddrConfirmed show ?thesis by (auto simp: swarm_bookkeeping_def)
  next
    case (SwExternalAddrExpired a)
    have "net_view (on_external_expired a n) = net_view n \<and> marks_of (on_external_expired a n) = marks_of n"
      by (simp add: on_external_expired_def net_view_def split: option.split)
    with assms SwExternalAddrExpired show ?thesis by (auto simp: swarm_bookkeeping_def)
  qed (use assms in \<open>auto simp: swarm_bookkeeping_def\<close>)
  then show "net_view n1 = net_view n" and "marks_of n1 = marks_of n" and "synthetic = []" by blast+
qed

lemma fold_same: "(\<And>x. x \<in> set xs \<Longrightarrow> f x v = v) \<Longrightarrow> fold f xs v = v"
  by (induction xs) auto

lemma view_queries:
  "net_view (m\<lparr>nd_ctx := nd_ctx m\<lparr>queries := q\<rparr>\<rparr>) = net_view m"
  "marks_of (m\<lparr>nd_ctx := nd_ctx m\<lparr>queries := q\<rparr>\<rparr>) = marks_of m"
  by (simp_all add: net_view_def)

lemma fold_id: "fold (\<lambda>_ v. v) xs v = v"
  by (induction xs) simp_all

text \<open>What a turn for a swarm event does to the two views, after the bookkeeping.\<close>

lemma swarm_event_views:
  assumes ev: "on_swarm_event w event n = Some n'" and b: "swarm_bookkeeping w event n = (n1, synthetic)"
  shows "net_view n' = net_view n1"
    and "app_phase (nd_app n') \<noteq> ShuttingDown \<Longrightarrow> \<exists>tables active conn.
      marks_of n' = fold relay_mark (synthetic @
        snd (translate_swarm_event (w_env w) (w_boot w) active conn event tables)) (marks_of n1)"
proof -
  show "net_view n' = net_view n1"
    by (rule conns.view_swarm_event [OF ev view_queries(1)]) (use b in \<open>auto simp: fold_id\<close>)
  show "\<exists>tables active conn. marks_of n' = fold relay_mark (synthetic @
      snd (translate_swarm_event (w_env w) (w_boot w) active conn event tables)) (marks_of n1)"
    if "app_phase (nd_app n') \<noteq> ShuttingDown"
    by (rule marks.view_swarm_event [OF ev view_queries(2)]) (use b that in auto)
qed

text \<open>Who has a connection after one was established or closed.\<close>

lemma has_after_established:
  fixes s :: connection_state and ord p c
  defines "s' r \<equiv> fst (on_connection_established ord p c r s)"
  shows "has_relayed_connection (s' True) q \<longleftrightarrow> q = p \<or> has_relayed_connection s q"
    and "has_direct_connection (s' True) q \<longleftrightarrow> has_direct_connection s q"
    and "has_relayed_connection (s' False) q \<longleftrightarrow> q \<noteq> p \<and> has_relayed_connection s q"
    and "has_direct_connection (s' False) q \<longleftrightarrow> q = p \<or> has_direct_connection s q"
  by (auto simp: s'_def has_relayed_connection_def has_direct_connection_def on_connection_established_def
      complete_hole_punch_attempt_def remove_pending_hole_punch_dials_for_peer_def entry_insert_def
      contains_key_def Let_def)

lemma has_after_closed:
  assumes "conn_wf s"
  shows "has_relayed_connection (fst (on_connection_closed p c k s)) q \<longleftrightarrow>
      has_relayed_connection s q \<and> (q = p \<longrightarrow> \<not> fset (get_or {||} (relayed_connections s) p) \<subseteq> {c})"
    and "has_direct_connection (fst (on_connection_closed p c k s)) q \<longleftrightarrow>
      has_direct_connection s q \<and> (q = p \<longrightarrow> \<not> fset (get_or {||} (direct_connections s) p) \<subseteq> {c})"
  using conn_keys [OF assms] conn_keys [OF wf_closed [OF assms, of p c k]]
  by (auto simp: closed_connections closed_base_def get_or_remove)

lemma fcard_get_or: "connection_count_for_peer m p = card (fset (get_or {||} m p))"
  by (simp add: connection_count_for_peer_def get_or_def fcard.rep_eq split: option.split)

lemma small_word_zero: "k < 2 ^ 32 \<Longrightarrow> (word_of_nat k :: 32 word) = 0 \<longleftrightarrow> k = 0"
  by (auto simp: word_of_nat_eq_0_iff dest: nat_dvd_not_less)

lemma remaining_zero:
  assumes m: "mirrors net s" and few: "fcard (fmdom net) < 2 ^ 32" and wf: "conn_wf s"
  shows "remaining_connections_of s p = 0 \<longleftrightarrow> \<not> has_relayed_connection s p \<and> \<not> has_direct_connection s p"
proof -
  let ?R = "fset (get_or {||} (relayed_connections s) p)" and ?D = "fset (get_or {||} (direct_connections s) p)"
  let ?dom = "fset (fmdom net)"
  have R: "?R \<subseteq> open_over net p True" and D: "?D = open_over net p False"
    using mirrorsD [OF m, of p] by simp_all
  then have "?R \<inter> ?D = {}" by (auto simp: open_over_def)
  then have "card ?R + card ?D = card (?R \<union> ?D)" by (simp add: card_Un_disjoint)
  also have "\<dots> \<le> card ?dom"
    using R D by (intro card_mono) (auto simp: open_over_def intro: fmdomI)
  also have "\<dots> < 2 ^ 32" using few by (simp add: fcard.rep_eq)
  finally have "card ?R + card ?D < 2 ^ 32" .
  then have "(word_of_nat (card ?R + card ?D) :: 32 word) = 0 \<longleftrightarrow> card ?R + card ?D = 0"
    by (rule small_word_zero)
  then have "remaining_connections_of s p = 0 \<longleftrightarrow> ?R = {} \<and> ?D = {}"
    by (simp add: remaining_connections_of_def relayed_connection_count_def direct_connection_count_def
        fcard_get_or)
  with conn_keys [OF wf] show ?thesis by auto
qed

text \<open>One turn keeps the agreement.\<close>

definition agrees :: "open_connections \<Rightarrow> 'sw node_state \<Rightarrow> bool" where
  "agrees net n \<longleftrightarrow> net_ok net n \<and> fcard (fmdom net) < 2 ^ 32 \<and>
     (app_phase (nd_app n) = ShuttingDown \<or> marks_ok n)"

lemma view_has:
  "net_view n = (d, r, reg) \<Longrightarrow> direct_connections s = d \<Longrightarrow> relayed_connections s = r \<Longrightarrow>
     has_relayed_connection (nd_conn n) q = has_relayed_connection s q \<and>
     has_direct_connection (nd_conn n) q = has_direct_connection s q"
  by (auto simp: net_view_def has_relayed_connection_def has_direct_connection_def)

lemma established_agrees:
  assumes ok: "net_ok net n" "marks_ok n" and allowed: "net_allows net (InSwarm (SwConnectionEstablished p c endpoint))"
    and ev: "on_swarm_event w (SwConnectionEstablished p c endpoint) n = Some n'"
  shows "agrees (net_after (InSwarm (SwConnectionEstablished p c endpoint)) net) n'"
proof -
  let ?r = "endpoint_is_relayed endpoint"
  let ?s = "fst (on_connection_established (w_conn_order w) p c ?r (nd_conn n))"
  have fresh: "c |\<notin>| fmdom net" and few: "fcard (fmdom net) + 1 < 2 ^ 32" using allowed by simp_all
  obtain n1 synthetic where b: "swarm_bookkeeping w (SwConnectionEstablished p c endpoint) n = (n1, synthetic)"
    by (metis surj_pair)
  note view = established_view [OF b] and turn = swarm_event_views [OF ev b]
  have n': "net_view n' = (direct_connections ?s, relayed_connections ?s,
      if ?r then direct_peers (nd_ctx n) else mark_direct p (direct_peers (nd_ctx n)))"
    using turn(1) view(1) by (simp add: Let_def)
  have "net_ok (fmupd c (p, ?r) net) n'"
    using mirrors_established [OF _ fresh, of "nd_conn n" p ?r "w_conn_order w"] ok(1) n' fresh
    by (auto simp: net_ok_def net_view_def mirrors_def open_over_fmupd)
  moreover have "marks_ok n'" if "app_phase (nd_app n') \<noteq> ShuttingDown"
  proof -
    have "relay_mark (HolePunchAttemptStarted p i) = (\<lambda>m. m)" for i by (simp add: fun_eq_iff)
    then have "marks_of n' = relay_mark (TunnelPeerConnected p ?r) (marks_of n)"
      using turn(2) [OF that] view(2,3) by (auto simp: relayed_copies_agree)
    with ok(2) view_has [OF n' refl refl] show ?thesis
      by (cases ?r) (auto simp: marks_ok_def has_after_established)
  qed
  moreover have "fcard (fmdom (fmupd c (p, ?r) net)) < 2 ^ 32" using few fresh by (simp add: fcard_finsert_if)
  ultimately show ?thesis by (auto simp: agrees_def)
qed

lemma closed_agrees:
  assumes ok: "net_ok net n" "marks_ok n" and wf: "conn_wf (nd_conn n)" and few: "fcard (fmdom net) < 2 ^ 32"
    and allowed: "net_allows net (InSwarm (SwConnectionClosed p c endpoint k))"
    and ev: "on_swarm_event w (SwConnectionClosed p c endpoint k) n = Some n'"
  shows "agrees (net_after (InSwarm (SwConnectionClosed p c endpoint k)) net) n'"
proof -
  let ?cl = "on_connection_closed p c k (nd_conn n)"
  obtain r where c: "fmlookup net c = Some (p, r)" and k: "counts_others net p c k" using allowed by auto
  have m: "mirrors net (nd_conn n)" using ok(1) by (simp add: net_ok_def)
  have m': "mirrors (fmdrop c net) (fst ?cl)" using m c by (rule mirrors_closed)
  obtain n1 synthetic where b: "swarm_bookkeeping w (SwConnectionClosed p c endpoint k) n = (n1, synthetic)"
    by (metis surj_pair)
  note view = closed_view [OF b] and turn = swarm_event_views [OF ev b]
  have n': "net_view n' = (direct_connections (fst ?cl), relayed_connections (fst ?cl),
      if clear_direct_registry (snd ?cl) then clear_direct p (direct_peers (nd_ctx n))
      else direct_peers (nd_ctx n))"
    using turn(1) view(1) by (simp add: split_beta Let_def)
  have registry: "clear_direct_registry (snd ?cl) \<longleftrightarrow> open_over (fmdrop c net) p False = {} \<and>
      (\<not> r \<or> open_over (fmdrop c net) p True = {})"
    using closing_reports [OF wf m c k] by (simp add: split_beta Let_def)
  have other: "open_over (fmdrop c net) q t = open_over net q t" if "q \<noteq> p \<or> t \<noteq> r" for q t
    using c that by (auto simp: open_over_fmdrop open_over_def)
  have same: "is_direct (direct_peers (nd_ctx n)) q \<longleftrightarrow> open_over net q False \<noteq> {}" for q
    using ok(1) by (simp add: net_ok_def)
  have reg': "direct_peers (nd_ctx n') = (if clear_direct_registry (snd ?cl)
      then clear_direct p (direct_peers (nd_ctx n)) else direct_peers (nd_ctx n))"
    using n' by (simp add: net_view_def)
  have "is_direct (direct_peers (nd_ctx n')) q \<longleftrightarrow> open_over (fmdrop c net) q False \<noteq> {}" for q
  proof (cases "q = p")
    case False
    with other [of q False] same [of q] reg' show ?thesis by simp
  next
    case True
    have "open_over (fmdrop c net) p False \<subseteq> open_over net p False" by (auto simp: open_over_fmdrop)
    with True registry other [of p False] same [of p] reg' show ?thesis by (cases r) auto
  qed
  moreover have "mirrors (fmdrop c net) (nd_conn n')"
    using m' n' by (subst mirrors_frame [of _ "fst ?cl"]) (simp_all add: net_view_def)
  ultimately have "net_ok (fmdrop c net) n'" by (simp add: net_ok_def)
  moreover have few': "fcard (fmdom (fmdrop c net)) < 2 ^ 32"
  proof -
    have "fmdom net |-| {|c|} |\<subseteq>| fmdom net" by blast
    from fcard_mono [OF this] few show ?thesis by simp
  qed
  moreover have "marks_ok n'" if "app_phase (nd_app n') \<noteq> ShuttingDown"
  proof -
    have "marks_of n' = relay_mark (ConnectionLost p (remaining_connections_of (fst ?cl) p)) (marks_of n)"
      using turn(2) [OF that] view(2,3) by simp
    moreover note remaining_zero [OF m' few' wf_closed [OF wf]]
    ultimately show ?thesis
      using ok(2) view_has [OF n' refl refl] has_after_closed [OF wf, of p c k]
      unfolding marks_ok_def by auto
  qed
  ultimately show ?thesis by (auto simp: agrees_def)
qed

lemma turn_agrees:
  assumes ok: "agrees net n" and up: "app_phase (nd_app n) \<noteq> ShuttingDown" and wf: "conn_wf (nd_conn n)"
    and allowed: "net_allows net input" and turn: "node_turn w input n = Some n'"
  shows "agrees (net_after input net) n'"
proof -
  have net: "net_ok net n" "marks_ok n" "fcard (fmdom net) < 2 ^ 32"
    using ok up by (auto simp: agrees_def)
  have same: "agrees net n'" if "net_view n' = net_view n"
    and "app_phase (nd_app n') = ShuttingDown \<or> marks_of n' = marks_of n"
    using net that net_ok_view [OF that(1)] marks_ok_view [OF that(1)] by (auto simp: agrees_def)
  show ?thesis
  proof (cases input)
    case (InSwarm event)
    with turn have ev: "on_swarm_event w event n = Some n'" by simp
    show ?thesis
    proof (cases "(\<exists>p c endpoint. event = SwConnectionEstablished p c endpoint) \<or>
        (\<exists>p c endpoint k. event = SwConnectionClosed p c endpoint k)")
      case True
      with allowed ev InSwarm established_agrees [OF net(1,2)] closed_agrees [OF net(1,2) wf net(3)]
      show ?thesis by (elim disjE exE) (simp_all only:)
    next
      case False
      obtain n1 synthetic where b: "swarm_bookkeeping w event n = (n1, synthetic)" by (metis surj_pair)
      have quiet: "net_view n1 = net_view n" "marks_of n1 = marks_of n" "synthetic = []"
        using other_view [OF b] False by blast+
      have none: "fold relay_mark (snd (translate_swarm_event env boot active conn event tables)) m = m"
        for env boot active conn tables m
        using translated_marks [where marks = m and ev = event] False by (intro fold_same) blast
      have "marks_of n' = marks_of n" if "app_phase (nd_app n') \<noteq> ShuttingDown"
        using swarm_event_views(2) [OF ev b that] by (auto simp: quiet none)
      with swarm_event_views(1) [OF ev b] quiet(1) have "agrees net n'" by (intro same) auto
      moreover have "net_after input net = net" using False InSwarm by (cases event) auto
      ultimately show ?thesis by simp
    qed
  next
    case InDiscoveryDeadline
    have "net_view (n\<lparr>nd_discovery_fired := True\<rparr>) = net_view n" by (simp add: net_view_def)
    moreover have "n' = n \<or> dispatch w DiscoveryTimeout (n\<lparr>nd_discovery_fired := True\<rparr>) = Some n'"
      using turn InDiscoveryDeadline by (auto simp: on_discovery_deadline_def split: if_splits)
    ultimately have "net_view n' = net_view n \<and> marks_of n' = marks_of n"
      using conns.view_dispatch marks.view_dispatch by fastforce
    with same InDiscoveryDeadline show ?thesis by simp
  next
    case InReconnectDeadline
    have "direct_peers (nd_ctx (reconnect_one w p m)) = direct_peers (nd_ctx m)" for p m
      by (auto simp: reconnect_one_def schedule_boot_reconnect_def Let_def
          split: option.split prod.split sum.split)
    then have "direct_peers (nd_ctx (fold (reconnect_one w) ps m)) = direct_peers (nd_ctx m)" for ps m
      by (induction ps arbitrary: m) simp_all
    with reconnects_frame [of w "due_reconnects w n" n]
    have "net_view (on_reconnect_deadline w n) = net_view n" "marks_of (on_reconnect_deadline w n) = marks_of n"
      by (simp_all add: net_view_def on_reconnect_deadline_def)
    with turn InReconnectDeadline same show ?thesis by simp
  next
    case InHolePunchDeadline
    obtain conn' due where t: "take_due_hole_punch_timeouts (w_env w) (w_now w) (nd_conn n) = (conn', due)"
      by (metis surj_pair)
    with turn InHolePunchDeadline have r: "report_timeouts w due (n\<lparr>nd_conn := conn'\<rparr>) = Some n'"
      by (simp add: on_hole_punch_deadline_def)
    have "net_view (n\<lparr>nd_conn := conn'\<rparr>) = net_view n"
      using connections_frame(7,8) [of "w_env w" "w_now w" "nd_conn n"] by (simp add: net_view_def t)
    with same conns.view_report [OF r] marks.view_report [OF r] InHolePunchDeadline show ?thesis by simp
  next
    case InShutdownSignal
    with turn have d: "dispatch w ShutdownRequested n = Some n'" by (simp add: on_shutdown_signal_def)
    have "net_view n' = net_view n \<and> marks_of n' = marks_of n"
      using conns.view_dispatch [OF d] marks.view_dispatch [OF d] by simp
    with same InShutdownSignal show ?thesis by simp
  qed
qed

section \<open>Runs\<close>

lemma start_agrees:
  assumes "node_start w cfg probe sw = Inr (Some n)"
  shows "agrees fmempty n"
proof -
  obtain m sw2 e where d: "dispatch w e (initial_node cfg m sw2) = Some n"
    and e: "e = NoBootstrapPeers \<or> e = NatStatusChanged Private"
    using assms by (auto simp: node_start_def Let_def split: sum.splits if_splits)
  have view: "net_view n = net_view (initial_node cfg m sw2)" by (rule conns.view_dispatch [OF d])
  have marks: "marks_of n = marks_of (initial_node cfg m sw2)"
  proof -
    have "relay_mark e m = m" for m using e by (elim disjE) simp_all
    with marks.view_dispatch [OF d] show ?thesis by simp
  qed
  have "net_ok fmempty (initial_node cfg m sw2)" "marks_ok (initial_node cfg m sw2)"
    using mirrors_new
    by (simp_all add: net_ok_def marks_ok_def initial_node_def new_execution_context_def new_app_state_def
        requested_tunnels_relayed open_over_def has_relayed_connection_def has_direct_connection_def)
      (simp_all add: new_connection_state_def)
  with net_ok_view [OF view] marks_ok_view [OF view marks] show ?thesis
    by (simp add: agrees_def fcard.rep_eq)
qed

lemma run_agrees:
  assumes "node_start w cfg probe sw = Inr (Some n0)" and "env_ok (w_env w)" and "net_run n0 net n"
  shows "agrees net n"
  using assms(3,1,2)
proof (induction rule: net_run.induct)
  case (net_start n)
  then show ?case by (simp add: start_agrees)
next
  case (net_turn n net n1 w' input n2)
  have "conn_reachable (nd_conn n1)"
    using run_safe [OF net_turn.prems(2,1) net_run_node_run [OF net_turn.hyps(1)]] by (simp add: node_wf_def)
  then have wf: "conn_wf (nd_conn n1)" by (rule conn_reachable_wf)
  have "agrees net n1" using net_turn.IH net_turn.prems by simp
  from turn_agrees [OF this net_turn.hyps(2) wf net_turn.hyps(4,5)] show ?case .
qed

text \<open>C3: Whatever connections come and go, as long as the swarm reports them as libp2p documents, the node
  knows them: the connection records hold exactly the open direct connections and only open relayed
  ones; the registry that tunnel tasks consult lists exactly the peers with an open direct
  connection; an attempt under way is for a peer without one; and, until the node shuts down, the
  state machine marks every peer with a relayed connection on record as relayed, and marks no peer
  that has no connection.\<close>

theorem node_knows_its_connections:
  assumes "env_ok (w_env w)" and "node_start w cfg probe sw = Inr (Some n0)" and "net_run n0 net n"
  shows "mirrors net (nd_conn n) \<and>
    (\<forall>p. is_direct (direct_peers (nd_ctx n)) p \<longleftrightarrow> open_over net p False \<noteq> {}) \<and>
    (\<forall>p. active_attempt_stats (nd_conn n) p \<noteq> None \<longrightarrow> open_over net p False = {}) \<and>
    (app_phase (nd_app n) \<noteq> ShuttingDown \<longrightarrow>
       (\<forall>p. (has_relayed_connection (nd_conn n) p \<longrightarrow> p |\<in>| relayed_peers (app_tunnel (nd_app n))) \<and>
          (p |\<in>| relayed_peers (app_tunnel (nd_app n)) \<longrightarrow>
             open_over net p True \<union> open_over net p False \<noteq> {})))"
proof -
  have ag: "agrees net n" by (rule run_agrees [OF assms(2,1,3)])
  have m: "mirrors net (nd_conn n)"
    and reg: "\<forall>p. is_direct (direct_peers (nd_ctx n)) p \<longleftrightarrow> open_over net p False \<noteq> {}"
    using ag by (simp_all add: agrees_def net_ok_def)
  have wf: "conn_wf (nd_conn n)"
    using run_safe [OF assms(1,2) net_run_node_run [OF assms(3)]] conn_reachable_wf by (auto simp: node_wf_def)
  have no_direct: "open_over net p False = {}" if "active_attempt_stats (nd_conn n) p \<noteq> None" for p
    using wf that conn_keys(1) [OF wf, of p] mirrorsD(1) [OF m, of p]
    by (auto simp: conn_wf_def active_attempt_stats_def fmpred_iff has_direct_connection_def)
  have marks: "(has_relayed_connection (nd_conn n) p \<longrightarrow> p |\<in>| marks_of n) \<and>
      (p |\<in>| marks_of n \<longrightarrow> open_over net p True \<union> open_over net p False \<noteq> {})"
    if "app_phase (nd_app n) \<noteq> ShuttingDown" for p
    using ag that conn_keys [OF wf, of p] mirrorsD [OF m, of p]
    unfolding agrees_def marks_ok_def by blast
  show ?thesis using m reg no_direct marks by blast
qed

text \<open>The relayed connection of the sample run.\<close>

lemma node_knows_its_connections_witness:
  "\<exists>(n0 :: recording_swarm node_state) n.
     node_start (sample_world 0) sample_config MappingUnknown empty_swarm = Inr (Some n0) \<and>
     net_run n0 (fmupd (Suc 0) (sample_peer, True) fmempty) n \<and>
     sample_peer |\<in>| relayed_peers (app_tunnel (nd_app n)) \<and>
     \<not> is_direct (direct_peers (nd_ctx n)) sample_peer"
proof -
  obtain n0 n where start: "node_start (sample_world 0) sample_config MappingUnknown empty_swarm = Inr (Some n0)"
    and ready: "app_phase (nd_app n0) = Ready"
    and turn: "node_turn (sample_world 5) (InSwarm (SwConnectionEstablished sample_peer (Suc 0) sample_circuit)) n0 = Some n"
    and n: "punching_node n"
    by (rule sample_first_turn)
  have "net_run n0 (net_after (InSwarm (SwConnectionEstablished sample_peer (Suc 0) sample_circuit)) fmempty) n"
    by (rule net_turn [OF net_start _ sample_world_ok _ turn]) (simp_all add: ready fcard.rep_eq)
  then have run: "net_run n0 (fmupd (Suc 0) (sample_peer, True) fmempty) n"
    by (simp add: sample_circuit_def)
  have "has_relayed_connection (nd_conn n) sample_peer" "app_phase (nd_app n) \<noteq> ShuttingDown"
    using n by (simp_all add: punching_node_def peer_is_relay_only_def)
  with node_knows_its_connections [OF sample_world_ok start run]
  have "sample_peer |\<in>| relayed_peers (app_tunnel (nd_app n)) \<and> \<not> is_direct (direct_peers (nd_ctx n)) sample_peer"
    by (simp add: open_over_def)
  with start run show ?thesis by blast
qed

end
