(* ===== verification/Node_Direct.thy ===== *)
theory Node_Direct
  imports Node_Net
begin

text \<open>
  What a direct connection does for the tunnels of its peer: in the turn in which the swarm reports it, every
  tunnel to the peer gets its task, whatever else happens in that turn.
\<close>

section \<open>The queues of a peer\<close>

text \<open>The tunnels that are held for a peer, those pending first.\<close>

definition held_for :: "tunnel_state \<Rightarrow> peer_id \<Rightarrow> tunnel_target list" where
  "held_for s p = get_or [] (pending_by_peer s) p @ get_or [] (awaiting_holepunch s) p"

definition tasks_for :: "peer_id \<Rightarrow> tunnel_target list \<Rightarrow> tunnel_task multiset" where
  "tasks_for p specs = mset (map (\<lambda>(service, bind). (p, service, bind)) specs)"

text \<open>A part of a turn that keeps what is held for a peer, ends no task and starts no shutdown.\<close>

definition queues_kept :: "peer_id \<Rightarrow> 'sw node_state \<Rightarrow> 'sw node_state \<Rightarrow> bool" where
  "queues_kept p n n' \<longleftrightarrow>
     fmlookup (pending_by_peer (app_tunnel (nd_app n'))) p = fmlookup (pending_by_peer (app_tunnel (nd_app n))) p \<and>
     fmlookup (awaiting_holepunch (app_tunnel (nd_app n'))) p =
       fmlookup (awaiting_holepunch (app_tunnel (nd_app n))) p \<and>
     (registry_wf (tasks (nd_ctx n)) \<longrightarrow>
        registry_wf (tasks (nd_ctx n')) \<and> running_tasks (nd_ctx n) \<subseteq># running_tasks (nd_ctx n')) \<and>
     (app_phase (nd_app n) \<noteq> ShuttingDown \<longrightarrow> app_phase (nd_app n') \<noteq> ShuttingDown)"

lemma kept_refl: "queues_kept p n n"
  by (simp add: queues_kept_def)

lemma kept_trans: "queues_kept p a b \<Longrightarrow> queues_kept p b c \<Longrightarrow> queues_kept p a c"
  by (auto simp: queues_kept_def intro: subset_mset.order_trans)

lemma kept_frame:
  "nd_app n' = nd_app n \<Longrightarrow> tasks (nd_ctx n') = tasks (nd_ctx n) \<Longrightarrow> queues_kept p n n'"
  by (simp add: queues_kept_def running_tasks_def)

lemma phase_stays_up:
  "e \<noteq> ShutdownRequested \<Longrightarrow> app_phase s \<noteq> ShuttingDown \<Longrightarrow>
     app_phase (fst (app_transition env s e)) \<noteq> ShuttingDown"
  by (simp add: app_phase_def app_transition_run phase_cases split: event.split)

text \<open>The tunnel machine only takes note of attempts, of the NAT and of bootstrap connections.\<close>

lemma bridge_ignored: "fst (tunnel_transition env t (PhaseChanged old new)) = t"
  by (cases new) (simp_all add: on_phase_ready_def)

lemma event_keeps_queues:
  assumes "e = HolePunchAttemptStarted q i \<or> e = NatStatusChanged status \<or> e = BootstrapConnected q a"
  shows "pending_by_peer (app_tunnel (fst (app_transition env s e))) = pending_by_peer (app_tunnel s)"
    and "awaiting_holepunch (app_tunnel (fst (app_transition env s e))) = awaiting_holepunch (app_tunnel s)"
  using assms
  by (auto simp: app_transition_run tunnel_events_def split_beta Let_def bridge_ignored
      begin_holepunch_attempt_def)

lemma dispatch_keeps_queues:
  assumes d: "dispatch w e n = Some n'"
    and e: "e = HolePunchAttemptStarted q i \<or> e = NatStatusChanged status \<or> e = BootstrapConnected q a"
  shows "queues_kept p n n'"
proof -
  have "e \<noteq> ShutdownRequested" using e by auto
  with dispatch_tasks [OF d] phase_stays_up [of e "nd_app n" "w_env w"] show ?thesis
    by (simp add: queues_kept_def dispatch_app [OF d] event_keeps_queues [OF e])
qed

lemma arm_targets_keeps_queues: "arm_targets w peers n = Some n' \<Longrightarrow> queues_kept p n n'"
proof (induction w peers n rule: arm_targets.induct)
  case (1 w n)
  then show ?case by (simp add: kept_refl)
next
  case (2 w peer peers n)
  obtain conn' started where s: "start_hole_punch_attempt (w_now w) peer HOLE_PUNCH_TIMEOUT (nd_conn n) =
      (conn', started)" by (metis surj_pair)
  show ?case
  proof (cases started)
    case None
    with 2 s show ?thesis by simp
  next
    case (Some i)
    with "2.prems" s obtain n1 where d: "dispatch w (HolePunchAttemptStarted peer i) (n\<lparr>nd_conn := conn'\<rparr>) = Some n1"
      and rest: "arm_targets w peers n1 = Some n'" by (auto split: option.splits)
    have "queues_kept p n (n\<lparr>nd_conn := conn'\<rparr>)" by (rule kept_frame) simp_all
    moreover have "queues_kept p (n\<lparr>nd_conn := conn'\<rparr>) n1"
      by (rule dispatch_keeps_queues [OF d]) simp
    moreover have "queues_kept p n1 n'" using "2.IH"(2) [OF s [symmetric] Some d rest] .
    ultimately show ?thesis using kept_trans by blast
  qed
qed

lemma arm_keeps_queues: "arm_hole_punch_for_tunnel_targets w n = Some n' \<Longrightarrow> queues_kept p n n'"
  by (auto simp: arm_hole_punch_for_tunnel_targets_def kept_refl arm_targets_keeps_queues split: if_splits)

lemma mapping_keeps_queues: "on_mapping_finished w n = Some n' \<Longrightarrow> queues_kept p n n'"
proof (erule mapping_cases)
  fix a
  let ?n1 = "n\<lparr>nd_mapping_handle := False, nd_swarm := api_add_external (w_api w) a (nd_swarm n)\<rparr>"
  assume "dispatch w (NatStatusChanged Public) ?n1 = Some n'"
  then have "queues_kept p ?n1 n'" by (rule dispatch_keeps_queues) simp
  then show "queues_kept p n n'" by (simp add: queues_kept_def)
qed (simp_all add: kept_frame)

section \<open>A direct connection\<close>

lemma bootstrap_event_kept:
  assumes ev: "process_event w (BootstrapConnected q a) n = Some (n', go_on)"
    and up: "app_phase (nd_app n) \<noteq> ShuttingDown"
  shows "queues_kept p n n'" and "go_on"
proof -
  obtain n1 where d: "dispatch w (BootstrapConnected q a) n = Some n1"
    and arm: "arm_hole_punch_for_tunnel_targets w n1 = Some n'"
    and go_on: "go_on \<longleftrightarrow> app_phase (nd_app n') \<noteq> ShuttingDown"
    using ev by (auto simp: process_event_def observe_identify_def stale_attempt_failure_def split: option.splits)
  show kept: "queues_kept p n n'"
    using dispatch_keeps_queues [OF d, of q undefined undefined a p] arm_keeps_queues [OF arm, of p] kept_trans
    by blast
  show go_on using kept up by (simp add: go_on queues_kept_def)
qed

lemma connected_event_serves:
  assumes ev: "process_event w (TunnelPeerConnected p False) n = Some (n', go_on)"
    and reg: "registry_wf (tasks (nd_ctx n))"
  shows "running_tasks (nd_ctx n) + tasks_for p (held_for (app_tunnel (nd_app n)) p) \<subseteq># running_tasks (nd_ctx n')"
    and "\<not> has_holepunch_intent (app_tunnel (nd_app n')) p"
proof -
  let ?e = "TunnelPeerConnected p False"
  obtain n1 where d: "dispatch w ?e n = Some n1" and arm: "arm_hole_punch_for_tunnel_targets w n1 = Some n'"
    using ev by (auto simp: process_event_def observe_identify_def stale_attempt_failure_def split: option.splits)
  have cmds: "snd (app_transition (w_env w) (nd_app n) ?e) = spawn_all p (held_for (app_tunnel (nd_app n)) p)"
    and tunnel: "app_tunnel (fst (app_transition (w_env w) (nd_app n) ?e)) =
      fst (on_tunnel_peer_connected p False (app_tunnel (nd_app n)))"
    by (simp_all add: app_transition_run tunnel_events_def split_beta Let_def held_for_def
        on_tunnel_peer_connected_def clear_retry_state_def)
  note kept = arm_keeps_queues [OF arm, of p]
  have "running_tasks (nd_ctx n1) = running_tasks (nd_ctx n) + tasks_for p (held_for (app_tunnel (nd_app n)) p)"
    and "registry_wf (tasks (nd_ctx n1))"
    using dispatch_tasks [OF d reg] by (simp_all add: cmds spawned_all_targets tasks_for_def)
  with kept show "running_tasks (nd_ctx n) + tasks_for p (held_for (app_tunnel (nd_app n)) p)
      \<subseteq># running_tasks (nd_ctx n')" by (simp add: queues_kept_def)
  have "\<not> has_holepunch_intent (app_tunnel (nd_app n1)) p"
    by (simp add: dispatch_app [OF d] tunnel has_holepunch_intent_def on_tunnel_peer_connected_def Let_def)
  with kept show "\<not> has_holepunch_intent (app_tunnel (nd_app n')) p"
    by (simp add: queues_kept_def has_holepunch_intent_def contains_key_def)
qed

text \<open>C4: When the swarm reports a direct connection to a peer, then in that very turn every tunnel held for the
  peer, pending or waiting for a hole punch, gets a task of its own, no running task is lost, none is held
  for the peer any more, and the tasks find the peer in the registry of direct peers.\<close>

theorem direct_connection_serves_all:
  assumes between: "node_between_turns n" and direct: "\<not> endpoint_is_relayed endpoint"
    and turn: "node_turn w (InSwarm (SwConnectionEstablished p c endpoint)) n = Some n'"
  shows "running_tasks (nd_ctx n) + tasks_for p (held_for (app_tunnel (nd_app n)) p) \<subseteq># running_tasks (nd_ctx n') \<and>
    \<not> has_holepunch_intent (app_tunnel (nd_app n')) p \<and> is_direct (direct_peers (nd_ctx n')) p"
proof -
  let ?event = "SwConnectionEstablished p c endpoint"
  have ev: "on_swarm_event w ?event n = Some n'" using turn by simp
  have reg: "registry_wf (tasks (nd_ctx n))" and up: "app_phase (nd_app n) \<noteq> ShuttingDown"
    using between_turns [OF between] between by (simp_all add: node_wf_def node_between_turns_def)
  obtain n1 where b: "swarm_bookkeeping w ?event n = (n1, [])" and n1: "nd_app n1 = nd_app n"
      "tasks (nd_ctx n1) = tasks (nd_ctx n)" "is_direct (direct_peers (nd_ctx n1)) p"
    using direct
    by (fastforce simp: swarm_bookkeeping_def on_established_def on_connection_established_def Let_def split_beta)
  obtain n2 where m: "on_mapping_finished w n1 = Some n2"
    using ev b by (auto simp: on_swarm_event_def split: option.splits)
  define n3 where "n3 = n2\<lparr>nd_ctx := nd_ctx n2\<lparr>queries := queries (nd_ctx n2)\<rparr>\<rparr>"
  have "queues_kept p n n1" using n1(1,2) by (rule kept_frame)
  moreover have "queues_kept p n1 n2" by (rule mapping_keeps_queues [OF m])
  moreover have "queues_kept p n2 n3" by (rule kept_frame) (simp_all add: n3_def)
  ultimately have kept: "queues_kept p n n3" using kept_trans by blast
  define boot where "boot = (if p |\<in>| w_boot w then [BootstrapConnected p
      (case endpoint of Dialer a \<Rightarrow> a | Listener _ a \<Rightarrow> a)] else [])"
  have run: "process_events w (boot @ [TunnelPeerConnected p False]) n3 = Some n'"
    using ev b m direct by (simp add: on_swarm_event_def n3_def boot_def relayed_copies_agree)
  obtain n4 go_on where kept4: "queues_kept p n n4"
    and last: "process_event w (TunnelPeerConnected p False) n4 = Some (n', go_on)"
  proof (cases "p |\<in>| w_boot w")
    case False
    with run kept that show ?thesis by (auto simp: boot_def split: option.splits if_splits)
  next
    case True
    with run obtain m1 go1 where one: "process_event w (BootstrapConnected p
        (case endpoint of Dialer a \<Rightarrow> a | Listener _ a \<Rightarrow> a)) n3 = Some (m1, go1)"
      by (auto simp: boot_def split: option.splits)
    have "app_phase (nd_app n3) \<noteq> ShuttingDown" using kept up by (simp add: queues_kept_def)
    note stays = bootstrap_event_kept [OF one this]
    with True run one have "process_events w [TunnelPeerConnected p False] m1 = Some n'" by (simp add: boot_def)
    then obtain go2 where "process_event w (TunnelPeerConnected p False) m1 = Some (n', go2)"
      by (auto split: option.splits if_splits)
    with that kept_trans [OF kept stays(1)] show ?thesis by blast
  qed
  have reg4: "registry_wf (tasks (nd_ctx n4))" and grown: "running_tasks (nd_ctx n) \<subseteq># running_tasks (nd_ctx n4)"
    and held: "held_for (app_tunnel (nd_app n4)) p = held_for (app_tunnel (nd_app n)) p"
    using kept4 reg by (simp_all add: queues_kept_def held_for_def get_or_def)
  note served = connected_event_serves [OF last reg4]
  have "is_direct (direct_peers (nd_ctx n')) p"
    using swarm_event_views(1) [OF ev b] n1(3) by (simp add: net_view_def)
  moreover have "running_tasks (nd_ctx n) + tasks_for p (held_for (app_tunnel (nd_app n)) p)
      \<subseteq># running_tasks (nd_ctx n')"
    using served(1) subset_mset.add_right_mono [OF grown] unfolding held by (rule subset_mset.order_trans [rotated])
  ultimately show ?thesis using served(2) by blast
qed

text \<open>Commands that open no tunnel leave the registry of tasks alone.\<close>

lemma quiet_commands_keep_tasks:
  "(\<forall>c\<in>set cs. spawned c = []) \<Longrightarrow> execute_commands api x cs (sw, ctx) = Some (sw', ctx') \<Longrightarrow>
     tasks ctx' = tasks ctx"
proof (induction cs arbitrary: sw ctx)
  case Nil
  then show ?case by simp
next
  case (Cons c cs)
  then obtain sw1 ctx1 where one: "execute_command api x c (sw, ctx) = Some (sw1, ctx1)"
    and rest: "execute_commands api x cs (sw1, ctx1) = Some (sw', ctx')" by (auto split: option.splits)
  have "tasks ctx1 = tasks ctx"
    using one Cons.prems(1) by (cases c) (auto split: prod.splits sum.splits)
  with Cons.IH [OF _ rest] Cons.prems(1) show ?case by simp
qed

lemma quiet_dispatch_keeps_tasks:
  assumes "dispatch w e n = Some n'" and "\<forall>c\<in>set (snd (app_transition (w_env w) (nd_app n) e)). spawned c = []"
  shows "tasks (nd_ctx n') = tasks (nd_ctx n)"
proof -
  obtain sw ctx where "execute_commands (w_api w) (w_exec w) (snd (app_transition (w_env w) (nd_app n) e))
      (nd_swarm n, nd_ctx n) = Some (sw, ctx)" and "nd_ctx n' = ctx"
    using assms(1) by (auto simp: dispatch_def split_beta)
  with quiet_commands_keep_tasks [OF assms(2)] show ?thesis by simp
qed

text \<open>At the sample node, which holds one tunnel for the peer.\<close>

theorem direct_connection_serves_all_witness:
  "\<exists>(n :: recording_swarm node_state) n'. node_between_turns n \<and>
     node_turn (sample_world 5) (InSwarm (SwConnectionEstablished sample_peer (Suc 0) (Dialer []))) n = Some n' \<and>
     (sample_peer, ServiceName ''ssh'', sample_bind) \<in># running_tasks (nd_ctx n') \<and>
     is_direct (direct_peers (nd_ctx n')) sample_peer"
proof -
  let ?w = "sample_world 5" and ?event = "SwConnectionEstablished sample_peer (Suc 0) (Dialer [])"
  let ?e = "TunnelPeerConnected sample_peer False"
  obtain n :: "recording_swarm node_state" where
    start: "node_start (sample_world 0) sample_config MappingUnknown empty_swarm = Inr (Some n)"
    and n: "app_phase (nd_app n) = Ready" "app_tunnel (nd_app n) = requested_tunnels sample_config MappingUnknown"
      "nd_conn n = new_connection_state" "\<not> nd_mapping_handle n"
    by (rule sample_started)
  have between: "node_between_turns n"
    using start n(1) run_start [of n] sample_world_ok [of 0] unfolding node_between_turns_def by force
  have first: "dispatch (sample_world 0) NoBootstrapPeers (initial_node sample_config MappingUnknown empty_swarm) = Some n"
    using start by (simp add: node_start_def sample_config_def split: option.splits)
  have quiet: "\<forall>c\<in>set (snd (app_transition (w_env (sample_world 0))
      (nd_app (initial_node sample_config MappingUnknown empty_swarm)) NoBootstrapPeers)). spawned c = []"
    by (auto simp: app_transition_run tunnel_events_def initial_node_def new_app_state_def
        new_peer_state_def on_phase_ready_def initiate_lookups_def split_beta)
  have tasks: "tasks (nd_ctx n) = new_tunnel_registry"
    using quiet_dispatch_keeps_tasks [OF first quiet] by (simp add: initial_node_def new_execution_context_def)
  obtain n1 where b: "swarm_bookkeeping ?w ?event n = (n1, [])" and n1: "nd_app n1 = nd_app n"
      "tasks (nd_ctx n1) = tasks (nd_ctx n)" "\<not> nd_mapping_handle n1"
    using n(4)
    by (fastforce simp: swarm_bookkeeping_def on_established_def on_connection_established_def Let_def split_beta)
  have held: "held_for (app_tunnel (nd_app n)) sample_peer = [(ServiceName ''ssh'', sample_bind)]"
    and only: "pending_by_peer (app_tunnel (nd_app n)) = fmupd sample_peer [(ServiceName ''ssh'', sample_bind)] fmempty"
      "awaiting_holepunch (app_tunnel (nd_app n)) = fmempty"
    unfolding n(2)
    by (simp_all add: held_for_def requested_tunnels_def sample_config_def set_nat_mapping_def add_peer_tunnel_def
        new_tunnel_state_def entry_extend_def sample_peer_def)
  define m where "m = n1\<lparr>nd_ctx := nd_ctx n1\<lparr>queries := queries (nd_ctx n1)\<rparr>\<rparr>"
  have drop: "fmdrop sample_peer (fmupd sample_peer v fmempty) = fmempty" for v :: "tunnel_target list"
    by (rule fmap_ext) simp
  have cmds: "snd (app_transition (w_env ?w) (nd_app m) ?e) = [SpawnTunnel sample_peer (ServiceName ''ssh'') sample_bind]"
    and gone: "pending_by_peer (app_tunnel (fst (app_transition (w_env ?w) (nd_app m) ?e))) = fmempty"
      "awaiting_holepunch (app_tunnel (fst (app_transition (w_env ?w) (nd_app m) ?e))) = fmempty"
    by (simp_all add: m_def n1(1) app_transition_run tunnel_events_def split_beta Let_def
        on_tunnel_peer_connected_def clear_retry_state_def only spawn_all_def drop)
  obtain m1 where d: "dispatch ?w ?e m = Some m1"
    and m1: "nd_app m1 = fst (app_transition (w_env ?w) (nd_app m) ?e)"
    using cmds tasks n1(2)
    by (fastforce simp: dispatch_def split_beta m_def register_def checked_add_def new_tunnel_registry_def Let_def)
  have "q \<notin> set (holepunch_target_peers (w_env ?w) (app_tunnel (nd_app m1)))" for q
    unfolding target_peers_set [OF sample_world_ok] by (simp add: m1 gone has_holepunch_intent_def)
  then have "holepunch_target_peers (w_env ?w) (app_tunnel (nd_app m1)) = []"
    by (metis list.set_intros(1) neq_Nil_conv)
  then have "arm_hole_punch_for_tunnel_targets ?w m1 = Some m1"
    by (simp add: arm_hole_punch_for_tunnel_targets_def)
  with d have "process_event ?w ?e m = Some (m1, app_phase (nd_app m1) \<noteq> ShuttingDown)"
    by (simp add: process_event_def observe_identify_def stale_attempt_failure_def)
  moreover have "on_mapping_finished ?w n1 = Some n1" using n1(3) by (simp add: on_mapping_finished_def)
  ultimately have turn: "node_turn ?w (InSwarm ?event) n = Some m1"
    using b by (simp add: on_swarm_event_def m_def sample_world_def has_circuit_def)
  have "running_tasks (nd_ctx n) + {#(sample_peer, ServiceName ''ssh'', sample_bind)#} \<subseteq># running_tasks (nd_ctx m1)"
    and "is_direct (direct_peers (nd_ctx m1)) sample_peer"
    using direct_connection_serves_all [OF between _ turn] by (simp_all add: held tasks_for_def)
  moreover from this(1) have "(sample_peer, ServiceName ''ssh'', sample_bind) \<in># running_tasks (nd_ctx m1)"
    by (rule mset_subset_eqD) simp
  ultimately show ?thesis using between turn by blast
qed

end
