(* ===== verification/Node_History.thy ===== *)
theory Node_History
  imports Node_Direct
begin

text \<open>
  The node as a broker, turn by turn.  The events that a turn feeds to the state machine are computed
  here along the event loop; each of them answers the input of the turn, and what the turn does with
  the tunnel requests is the run of the broker over exactly these events.
\<close>

section \<open>The events of a turn\<close>

text \<open>Arming feeds the start of each attempt it makes.\<close>

fun arm_events :: "'sw node_world \<Rightarrow> peer_id list \<Rightarrow> 'sw node_state \<Rightarrow> event list" where
  "arm_events w [] n = []"
| "arm_events w (peer # peers) n =
     (case start_hole_punch_attempt (w_now w) peer HOLE_PUNCH_TIMEOUT (nd_conn n) of
        (_, None) \<Rightarrow> arm_events w peers n
      | (conn', Some i) \<Rightarrow>
          HolePunchAttemptStarted peer i #
          (case dispatch w (HolePunchAttemptStarted peer i) (n\<lparr>nd_conn := conn'\<rparr>) of
             None \<Rightarrow> []
           | Some n' \<Rightarrow> arm_events w peers n'))"

definition target_events :: "'sw node_world \<Rightarrow> 'sw node_state \<Rightarrow> event list" where
  "target_events w n =
     (if app_phase (nd_app n) = ShuttingDown then []
      else arm_events w (holepunch_target_peers (w_env w) (app_tunnel (nd_app n))) n)"

text \<open>A public port mapping that has just been found.\<close>

definition mapping_events :: "'sw node_world \<Rightarrow> 'sw node_state \<Rightarrow> event list" where
  "mapping_events w n =
     (case w_mapping w of
        Some (Inr (Some mapping)) \<Rightarrow> if nd_mapping_handle n then [NatStatusChanged Public] else []
      | _ \<Rightarrow> [])"

text \<open>An event of the loop, in the form the machine sees it, and the attempts armed after it.\<close>

definition event_events :: "'sw node_world \<Rightarrow> event \<Rightarrow> 'sw node_state \<Rightarrow> event list" where
  "event_events w e0 n0 =
     (case attempt_scoped (nd_conn n0) e0 of
        None \<Rightarrow> []
      | Some e \<Rightarrow>
          (let n1 = observe_identify w e n0 in
           if stale_attempt_failure (nd_conn n1) e then []
           else e # (case dispatch w e n1 of None \<Rightarrow> [] | Some n2 \<Rightarrow> target_events w n2)))"

fun loop_events :: "'sw node_world \<Rightarrow> event list \<Rightarrow> 'sw node_state \<Rightarrow> event list" where
  "loop_events w [] n = []"
| "loop_events w (e # es) n =
     event_events w e n @
     (case process_event w e n of Some (n', True) \<Rightarrow> loop_events w es n' | _ \<Rightarrow> [])"

definition swarm_events :: "'sw node_world \<Rightarrow> swarm_event \<Rightarrow> 'sw node_state \<Rightarrow> event list" where
  "swarm_events w event n =
     (let (n1, synthetic) = swarm_bookkeeping w event n in
      mapping_events w n1 @
      (case on_mapping_finished w n1 of
         None \<Rightarrow> []
       | Some n2 \<Rightarrow>
           (let (q, translated) =
                  translate_swarm_event (w_env w) (w_boot w) (active_bootstrap_query (nd_ctx n2))
                    (api_is_connected (w_api w) (nd_swarm n2)) event (queries (nd_ctx n2))
            in loop_events w (synthetic @ translated) (n2\<lparr>nd_ctx := nd_ctx n2\<lparr>queries := q\<rparr>\<rparr>))))"

text \<open>The attempts whose time is up and whose peer is still connected only through a relay.\<close>

definition due_reports :: "'sw node_world \<Rightarrow> 'sw node_state \<Rightarrow> event list" where
  "due_reports w n =
     map (\<lambda>(p, i). HolePunchAttemptTimeout p i)
       (filter (\<lambda>(p, _). peer_is_relay_only (nd_conn n) p)
         (snd (take_due_hole_punch_timeouts (w_env w) (w_now w) (nd_conn n))))"

fun turn_events :: "'sw node_world \<Rightarrow> node_input \<Rightarrow> 'sw node_state \<Rightarrow> event list" where
  "turn_events w (InSwarm event) n = swarm_events w event n"
| "turn_events w InDiscoveryDeadline n = (if nd_discovery_fired n then [] else [DiscoveryTimeout])"
| "turn_events w InReconnectDeadline n = []"
| "turn_events w InHolePunchDeadline n = due_reports w n"
| "turn_events w InShutdownSignal n = [ShutdownRequested]"

section \<open>Moves of the broker\<close>

text \<open>The broker makes no move for the other events.\<close>

lemma rearranged_nothing: "rearranged (\<lambda>t a b. False) A A' \<longleftrightarrow> A' = A"
proof
  assume "rearranged (\<lambda>t a b. False) A A'"
  then obtain K M where "A = K + image_mset (\<lambda>(t, a, b). (t, a)) M" "A' = K + image_mset (\<lambda>(t, a, b). (t, b)) M"
    "\<forall>x\<in>#M. False" by (auto simp: rearranged_def)
  moreover from this have "M = {#}" by (metis multiset_nonemptyE)
  ultimately show "A' = A" by simp
qed (simp add: rearranged_refl)

fun unmoved :: "event \<Rightarrow> bool" where
  "unmoved NoBootstrapPeers = True"
| "unmoved (NatStatusChanged _) = True"
| "unmoved (PhaseChanged _ _) = True"
| "unmoved _ = False"

lemma broker_unmoved:
  assumes "unmoved e" and "broker_step e b b'"
  shows "b' = b"
proof -
  have "may_move e (br_relayed b) = (\<lambda>t x y. False)" "relayed_after e (br_relayed b) = br_relayed b"
    using assms(1) by (cases e; simp add: fun_eq_iff)+
  with assms(2) show ?thesis by (simp add: broker_step_def rearranged_nothing)
qed

text \<open>The machine in the node is fed the event, after the phase change it makes, if any.\<close>

lemma app_step_broker:
  assumes env: "env_ok env"
  shows "broker_step e (broker_view running (app_tunnel s) [])
    (broker_view (running + mset (concat (map spawned (snd (app_transition env s e)))))
       (app_tunnel (fst (app_transition env s e))) [])"
proof -
  let ?r = "mealy_run tunnel_transition (app_tunnel s) (map (Pair env) (tunnel_events env s e))"
  have network: "concat (map spawned (snd (peer_transition env (app_peer s) e))) = []"
    using peer_commands_are_network by (simp add: concat_eq_Nil_conv network_command_spawns_nothing)
  have "spec_run broker_step (tunnel_events env s e) (broker_view running (app_tunnel s) [])
      (broker_view running (fst ?r) (snd ?r))"
    using broker.run_refines [OF TrueI tunnel_events_good [OF env], where issued = "[]"]
    by (simp add: comp_def)
  then have "broker_step e (broker_view running (app_tunnel s) []) (broker_view running (fst ?r) (snd ?r))"
    by (auto simp: tunnel_events_def Let_def spec_run_simps split: if_splits dest: broker_unmoved [rotated])
  then show ?thesis
    unfolding broker_view_issued [where issued = "snd ?r"]
    by (simp only: app_transition_run fst_conv snd_conv app_state.select_convs map_append
        concat_append network append_Nil)
qed

text \<open>From one state of the node to another, the broker runs over the events.\<close>

definition moves :: "event list \<Rightarrow> 'sw node_state \<Rightarrow> 'sw node_state \<Rightarrow> bool" where
  "moves es n n' \<longleftrightarrow>
     (registry_wf (tasks (nd_ctx n)) \<longrightarrow>
        registry_wf (tasks (nd_ctx n')) \<and> spec_run broker_step es (node_broker n) (node_broker n'))"

lemma moves_append: "moves es a b \<Longrightarrow> moves fs b c \<Longrightarrow> moves (es @ fs) a c"
  by (auto simp: moves_def intro: spec_run_append)

lemma moves_still: "nd_app n' = nd_app n \<Longrightarrow> tasks (nd_ctx n') = tasks (nd_ctx n) \<Longrightarrow> moves [] n n'"
  by (simp add: moves_def node_broker_def running_tasks_def spec_run_simps)

lemma moves_refl: "moves [] n n"
  by (rule moves_still) simp_all

text \<open>What does not touch the machine or the tasks may come before or after.\<close>

lemma moves_before:
  "nd_app n = nd_app a \<Longrightarrow> tasks (nd_ctx n) = tasks (nd_ctx a) \<Longrightarrow> moves es n n' \<Longrightarrow> moves es a n'"
  using moves_append [OF moves_still, of n a es n'] by simp

lemma moves_dispatch:
  assumes "env_ok (w_env w)" and d: "dispatch w e n = Some n'"
  shows "moves [e] n n'"
  unfolding moves_def
proof (intro impI conjI)
  assume reg: "registry_wf (tasks (nd_ctx n))"
  note t = dispatch_tasks [OF d reg]
  then show "registry_wf (tasks (nd_ctx n'))" by blast
  show "spec_run broker_step [e] (node_broker n) (node_broker n')"
    using app_step_broker [OF assms(1), of e "running_tasks (nd_ctx n)" "nd_app n"] t
    by (simp add: node_broker_def dispatch_app [OF d] spec_run_simps)
qed

section \<open>A turn moves the broker over its events\<close>

lemma arm_moves:
  "env_ok (w_env w) \<Longrightarrow> arm_targets w peers n = Some n' \<Longrightarrow> moves (arm_events w peers n) n n'"
proof (induction w peers n rule: arm_targets.induct)
  case (1 w n)
  then show ?case by (simp add: moves_refl)
next
  case (2 w peer peers n)
  obtain conn' started where s: "start_hole_punch_attempt (w_now w) peer HOLE_PUNCH_TIMEOUT (nd_conn n) =
      (conn', started)" by (metis surj_pair)
  show ?case
  proof (cases started)
    case None
    with 2 s show ?thesis by simp
  next
    case (Some i)
    let ?n = "n\<lparr>nd_conn := conn'\<rparr>" and ?e = "HolePunchAttemptStarted peer i"
    from Some "2.prems"(2) s obtain n1 where d: "dispatch w ?e ?n = Some n1"
      and rest: "arm_targets w peers n1 = Some n'" by (auto split: option.splits)
    have "moves [?e] n n1" by (rule moves_before [OF _ _ moves_dispatch [OF "2.prems"(1) d]]) simp_all
    from moves_append [OF this "2.IH"(2) [OF s [symmetric] Some d "2.prems"(1) rest]] s Some d
    show ?thesis by simp
  qed
qed

lemma target_moves:
  "env_ok (w_env w) \<Longrightarrow> arm_hole_punch_for_tunnel_targets w n = Some n' \<Longrightarrow> moves (target_events w n) n n'"
  by (auto simp: arm_hole_punch_for_tunnel_targets_def target_events_def arm_moves moves_refl split: if_splits)

lemma observed_tasks: "nd_ctx (observe_identify w e n) = nd_ctx n"
  by (auto simp: observe_identify_def record_observed_port_def refresh_bootstrap_observation_def Let_def
      split: event.split option.split)

lemma event_moves:
  assumes env: "env_ok (w_env w)" and ev: "process_event w e n = Some (n', go_on)"
  shows "moves (event_events w e n) n n'"
proof (cases "attempt_scoped (nd_conn n) e")
  case None
  with ev show ?thesis by (simp add: process_event_def event_events_def moves_refl)
next
  case (Some e')
  let ?n1 = "observe_identify w e' n"
  have still: "moves [] n ?n1" by (rule moves_still) (simp_all add: observe_frame observed_tasks)
  show ?thesis
  proof (cases "stale_attempt_failure (nd_conn ?n1) e'")
    case True
    with Some ev still show ?thesis by (simp add: process_event_def event_events_def Let_def)
  next
    case False
    with Some ev obtain n2 where d: "dispatch w e' ?n1 = Some n2"
      and arm: "arm_hole_punch_for_tunnel_targets w n2 = Some n'"
      by (auto simp: process_event_def Let_def split: option.splits)
    from moves_append [OF still moves_append [OF moves_dispatch [OF env d] target_moves [OF env arm]]]
    show ?thesis using Some False d by (simp add: event_events_def Let_def)
  qed
qed

lemma loop_moves:
  "env_ok (w_env w) \<Longrightarrow> process_events w es n = Some n' \<Longrightarrow> moves (loop_events w es n) n n'"
proof (induction es arbitrary: n)
  case Nil
  then show ?case by (simp add: moves_refl)
next
  case (Cons e es)
  from Cons.prems(2) obtain n1 go_on where ev: "process_event w e n = Some (n1, go_on)"
    by (auto split: option.splits)
  note one = event_moves [OF Cons.prems(1) ev]
  show ?case
  proof (cases go_on)
    case True
    with Cons.prems(2) ev have "process_events w es n1 = Some n'" by simp
    from moves_append [OF one Cons.IH [OF Cons.prems(1) this]] ev True show ?thesis by simp
  next
    case False
    with Cons.prems(2) ev one show ?thesis by simp
  qed
qed

text \<open>The bookkeeping before the translation touches neither the machine nor the tasks.\<close>

lemma bookkeeping_still:
  assumes "swarm_bookkeeping w event n = (n1, synthetic)"
  shows "nd_app n1 = nd_app n" and "tasks (nd_ctx n1) = tasks (nd_ctx n)"
proof -
  have sched: "nd_app (schedule_boot_reconnect w p m) = nd_app m"
    "nd_ctx (schedule_boot_reconnect w p m) = nd_ctx m" for p and m :: "'a node_state"
    by (simp_all add: schedule_boot_reconnect_def split: prod.split option.split)
  have est: "nd_app (fst (on_established w p c endpoint n)) = nd_app n"
    "tasks (nd_ctx (fst (on_established w p c endpoint n))) = tasks (nd_ctx n)" for p c endpoint
    by (simp_all add: on_established_def Let_def split_beta)
  have cl: "nd_app (fst (on_closed w p c k n)) = nd_app n"
    "tasks (nd_ctx (fst (on_closed w p c k n))) = tasks (nd_ctx n)" for p c k
    by (simp_all add: on_closed_def Let_def split_beta)
  have "nd_app n1 = nd_app n \<and> tasks (nd_ctx n1) = tasks (nd_ctx n)"
  proof (cases event)
    case (SwConnectionEstablished p c endpoint)
    with assms est [of p c endpoint] show ?thesis
      by (auto simp: swarm_bookkeeping_def split: prod.splits)
  next
    case (SwConnectionClosed p c endpoint k)
    with assms cl [of p c k] show ?thesis
      by (auto simp: swarm_bookkeeping_def sched split: prod.splits option.splits)
  next
    case (SwDialing peer_opt c)
    with assms show ?thesis by (cases peer_opt) (auto simp: swarm_bookkeeping_def)
  next
    case (SwOutgoingConnectionError peer_opt c err)
    with assms show ?thesis
      by (auto simp: swarm_bookkeeping_def on_outgoing_error_def sched Let_def split: option.splits)
  qed (use assms in \<open>auto simp: swarm_bookkeeping_def on_new_listen_addr_def on_external_confirmed_def
      on_external_expired_def Let_def split: option.splits\<close>)
  then show "nd_app n1 = nd_app n" and "tasks (nd_ctx n1) = tasks (nd_ctx n)" by simp_all
qed

lemma mapping_moves:
  assumes env: "env_ok (w_env w)" and m: "on_mapping_finished w n = Some n'"
  shows "moves (mapping_events w n) n n'"
proof (cases "mapping_events w n = []")
  case True
  then have "n' = n \<or> n' = n\<lparr>nd_mapping_handle := False\<rparr>"
    using m by (auto simp: on_mapping_finished_def mapping_events_def Let_def
        split: if_splits option.splits sum.splits)
  with True moves_still [of "n\<lparr>nd_mapping_handle := False\<rparr>" n] show ?thesis by (auto simp: moves_refl)
next
  case False
  then obtain mapping where "w_mapping w = Some (Inr (Some mapping))" "nd_mapping_handle n"
    and events: "mapping_events w n = [NatStatusChanged Public]"
    by (auto simp: mapping_events_def split: option.splits sum.splits if_splits)
  with m obtain a where d: "dispatch w (NatStatusChanged Public)
      (n\<lparr>nd_mapping_handle := False, nd_swarm := api_add_external (w_api w) a (nd_swarm n)\<rparr>) = Some n'"
    by (auto simp: on_mapping_finished_def Let_def split: option.splits)
  show ?thesis
    unfolding events by (rule moves_before [OF _ _ moves_dispatch [OF env d]]) simp_all
qed

lemma swarm_event_moves:
  assumes env: "env_ok (w_env w)" and ev: "on_swarm_event w event n = Some n'"
  shows "moves (swarm_events w event n) n n'"
proof -
  obtain n1 synthetic where b: "swarm_bookkeeping w event n = (n1, synthetic)" by (metis surj_pair)
  with ev obtain n2 where m: "on_mapping_finished w n1 = Some n2"
    by (auto simp: on_swarm_event_def split: option.splits)
  obtain q translated where tr: "translate_swarm_event (w_env w) (w_boot w) (active_bootstrap_query (nd_ctx n2))
      (api_is_connected (w_api w) (nd_swarm n2)) event (queries (nd_ctx n2)) = (q, translated)"
    by (metis surj_pair)
  let ?n3 = "n2\<lparr>nd_ctx := nd_ctx n2\<lparr>queries := q\<rparr>\<rparr>"
  have run: "process_events w (synthetic @ translated) ?n3 = Some n'"
    using ev b m tr by (simp add: on_swarm_event_def)
  have "moves [] n n1" by (rule moves_still) (simp_all add: bookkeeping_still [OF b])
  from moves_append [OF this mapping_moves [OF env m]] have one: "moves (mapping_events w n1) n n2" by simp
  have "moves (loop_events w (synthetic @ translated) ?n3) n2 n'"
    by (rule moves_before [OF _ _ loop_moves [OF env run]]) simp_all
  from moves_append [OF one this] show ?thesis using b m tr by (simp add: swarm_events_def)
qed

lemma report_moves:
  "env_ok (w_env w) \<Longrightarrow> report_timeouts w due n = Some n' \<Longrightarrow>
     moves (map (\<lambda>(p, i). HolePunchAttemptTimeout p i)
       (filter (\<lambda>(p, _). peer_is_relay_only (nd_conn n) p) due)) n n'"
proof (induction w due n rule: report_timeouts.induct)
  case (1 w n)
  then show ?case by (simp add: moves_refl)
next
  case (2 w peer i due n)
  show ?case
  proof (cases "peer_is_relay_only (nd_conn n) peer")
    case False
    with 2 show ?thesis by simp
  next
    case True
    with "2.prems"(2) obtain n1 where d: "dispatch w (HolePunchAttemptTimeout peer i) n = Some n1"
      and rest: "report_timeouts w due n1 = Some n'" by (auto split: option.splits)
    from moves_append [OF moves_dispatch [OF "2.prems"(1) d] "2.IH"(1) [OF True d "2.prems"(1) rest]]
    show ?thesis using True dispatch_conn [OF d] by simp
  qed
qed

lemma due_records:
  "peer_is_relay_only (fst (take_due_hole_punch_timeouts env now s)) p = peer_is_relay_only s p"
  by (simp add: take_due_hole_punch_timeouts_def peer_is_relay_only_def has_relayed_connection_def
      has_direct_connection_def Let_def)

lemma reconnects_still: "tasks (nd_ctx (fold (reconnect_one w) ps n)) = tasks (nd_ctx n)"
proof (induction ps arbitrary: n)
  case Nil
  then show ?case by simp
next
  case (Cons p ps)
  have "nd_ctx (reconnect_one w p n) = nd_ctx n"
    by (auto simp: reconnect_one_def schedule_boot_reconnect_def Let_def split: option.split prod.split sum.split)
  with Cons show ?case by simp
qed

lemma turn_moves:
  assumes env: "env_ok (w_env w)" and turn: "node_turn w input n = Some n'"
  shows "moves (turn_events w input n) n n'"
proof (cases input)
  case (InSwarm event)
  with turn env show ?thesis by (simp add: swarm_event_moves)
next
  case InDiscoveryDeadline
  show ?thesis
  proof (cases "nd_discovery_fired n")
    case True
    with turn InDiscoveryDeadline show ?thesis by (simp add: moves_refl)
  next
    case False
    with turn InDiscoveryDeadline have d: "dispatch w DiscoveryTimeout (n\<lparr>nd_discovery_fired := True\<rparr>) = Some n'"
      by (simp add: on_discovery_deadline_def)
    have "moves [DiscoveryTimeout] n n'" by (rule moves_before [OF _ _ moves_dispatch [OF env d]]) simp_all
    with InDiscoveryDeadline False show ?thesis by simp
  qed
next
  case InReconnectDeadline
  with turn have "n' = on_reconnect_deadline w n" by simp
  with InReconnectDeadline reconnects_frame [of w "due_reconnects w n" n] show ?thesis
    by (auto simp: on_reconnect_deadline_def reconnects_still intro: moves_still)
next
  case InHolePunchDeadline
  obtain conn' due where t: "take_due_hole_punch_timeouts (w_env w) (w_now w) (nd_conn n) = (conn', due)"
    by (metis surj_pair)
  with turn InHolePunchDeadline have "report_timeouts w due (n\<lparr>nd_conn := conn'\<rparr>) = Some n'"
    by (simp add: on_hole_punch_deadline_def)
  from report_moves [OF env this] have "moves (due_reports w n) (n\<lparr>nd_conn := conn'\<rparr>) n'"
    using due_records [of "w_env w" "w_now w" "nd_conn n"] by (simp add: due_reports_def t)
  then have "moves (due_reports w n) n n'" by (rule moves_before [rotated 2]) simp_all
  with InHolePunchDeadline show ?thesis by simp
next
  case InShutdownSignal
  with turn env show ?thesis by (simp add: on_shutdown_signal_def moves_dispatch)
qed

section \<open>The events answer the input\<close>

text \<open>
  The events that an input may bring to the machine.  A peer is reported as connected, with or
  without a relay, only when the swarm reports that connection; as lost only with the last or another of
  its connections; its hole punch as failed only when DCUtR says so of the attempt under way, and as
  timed out only at the deadline timer, at or after its deadline; a lookup has a result only when
  Kademlia reports one for a query that was asked for it.
\<close>

fun brings :: "'sw node_world \<Rightarrow> 'sw node_state \<Rightarrow> node_input \<Rightarrow> event \<Rightarrow> bool" where
  "brings w n input (TunnelPeerConnected p relayed) \<longleftrightarrow>
     (\<exists>c endpoint. input = InSwarm (SwConnectionEstablished p c endpoint) \<and> relayed = is_relayed endpoint)"
| "brings w n input (ConnectionLost p k) \<longleftrightarrow>
     (\<exists>c endpoint num. input = InSwarm (SwConnectionClosed p c endpoint num) \<and>
        k = remaining_connections_of (fst (on_connection_closed p c num (nd_conn n))) p)"
| "brings w n input (TunnelDialFailed p reason) \<longleftrightarrow>
     (\<exists>c. input = InSwarm (SwOutgoingConnectionError (Some p) c reason)) \<and> p |\<notin>| w_boot w"
| "brings w n input (HolePunchAttemptFailed p i reason) \<longleftrightarrow>
     input = InSwarm (SwBehaviour (BehDcutr p (Inl reason))) \<and> attempt_id_of (nd_conn n) p = Some i"
| "brings w n input (HolePunchAttemptTimeout p i) \<longleftrightarrow>
     input = InHolePunchDeadline \<and> peer_is_relay_only (nd_conn n) p \<and>
     (\<exists>d. fmlookup (hole_punch_deadlines (nd_conn n)) p = Some d \<and> deadline_attempt_id d = i \<and>
        deadline_at d \<le> w_now w)"
| "brings w n input (DhtPeerLookupComplete p connected) \<longleftrightarrow>
     (\<exists>q n1. input = InSwarm (SwBehaviour (BehKademlia (OutboundQueryProgressed q QueryGetClosestPeers True))) \<and>
        on_mapping_finished w n = Some n1 \<and> fmlookup (kad_tunnel_queries (queries (nd_ctx n1))) q = Some p \<and>
        connected = api_is_connected (w_api w) (nd_swarm n1) p)"
| "brings w n input (DhtServiceResolved service providers) \<longleftrightarrow>
     (\<exists>q found last n1. input = InSwarm (SwBehaviour (BehKademlia
          (OutboundQueryProgressed q (QueryGetProviders (Inr (FoundProviders found))) last))) \<and>
        on_mapping_finished w n = Some n1 \<and> fmlookup (kad_service_queries (queries (nd_ctx n1))) q = Some service \<and>
        set providers = (\<lambda>p. (p, api_is_connected (w_api w) (nd_swarm n1) p)) ` fset found)"
| "brings w n input DiscoveryTimeout \<longleftrightarrow> input = InDiscoveryDeadline"
| "brings w n input ShutdownRequested \<longleftrightarrow> input = InShutdownSignal"
| "brings w n input (HolePunchFailed p reason) \<longleftrightarrow> False"
| "brings w n input NoBootstrapPeers \<longleftrightarrow> False"
| "brings w n input (PhaseChanged a b) \<longleftrightarrow> False"
| "brings w n input e \<longleftrightarrow> (\<exists>event. input = InSwarm event)"

text \<open>The events that an input must bring.\<close>

fun required :: "'sw node_world \<Rightarrow> 'sw node_state \<Rightarrow> node_input \<Rightarrow> event list" where
  "required w n (InSwarm (SwConnectionEstablished p c endpoint)) = [TunnelPeerConnected p (is_relayed endpoint)]"
| "required w n (InSwarm (SwConnectionClosed p c endpoint num)) =
     [ConnectionLost p (remaining_connections_of (fst (on_connection_closed p c num (nd_conn n))) p)]"
| "required w n (InSwarm (SwOutgoingConnectionError (Some p) c reason)) =
     (if p |\<notin>| w_boot w \<and> \<not> str_contains ''local peer id'' reason then [TunnelDialFailed p reason] else [])"
| "required w n (InSwarm (SwBehaviour (BehDcutr p (Inl reason)))) =
     (case attempt_id_of (nd_conn n) p of Some i \<Rightarrow> [HolePunchAttemptFailed p i reason] | None \<Rightarrow> [])"
| "required w n InHolePunchDeadline = due_reports w n"
| "required w n InShutdownSignal = [ShutdownRequested]"
| "required w n _ = []"

lemma armed_started: "e \<in> set (arm_events w peers n) \<Longrightarrow> starts_attempt e"
proof (induction peers arbitrary: n)
  case Nil
  then show ?case by simp
next
  case (Cons peer peers)
  then show ?case by (auto split: prod.splits option.splits)
qed

lemma event_of:
  "e \<in> set (event_events w e0 n) \<Longrightarrow> starts_attempt e \<or> attempt_scoped (nd_conn n) e0 = Some e"
  by (auto simp: event_events_def target_events_def Let_def split: option.splits if_splits dest: armed_started)

definition dcutr_failure :: "event \<Rightarrow> bool" where
  "dcutr_failure e \<longleftrightarrow> (\<exists>p reason. e = HolePunchFailed p reason)"

lemma scoped_same: "\<not> dcutr_failure e \<Longrightarrow> attempt_scoped conn e = Some e"
  by (cases e) (auto simp: dcutr_failure_def)

lemma loop_of:
  "e \<in> set (loop_events w es n) \<Longrightarrow> \<forall>e0\<in>set es. \<not> dcutr_failure e0 \<Longrightarrow> starts_attempt e \<or> e \<in> set es"
proof (induction es arbitrary: n)
  case Nil
  then show ?case by simp
next
  case (Cons e0 es)
  then show ?case
    by (auto dest!: event_of simp: scoped_same split: option.splits prod.splits bool.splits)
qed

lemma started_brought: "starts_attempt e \<Longrightarrow> brings w n (InSwarm event) e"
  by (cases e) auto

lemma event_stays_up:
  assumes ev: "process_event w e n = Some (n', go_on)" and "e \<noteq> ShutdownRequested"
    and "app_phase (nd_app n) \<noteq> ShuttingDown"
  shows "app_phase (nd_app n') \<noteq> ShuttingDown"
proof (cases "attempt_scoped (nd_conn n) e")
  case None
  with assms show ?thesis by (simp add: process_event_def)
next
  case (Some e')
  have "e' \<noteq> ShutdownRequested" using Some assms(2) by (cases e) auto
  with phase_stays_up [of e' "nd_app n" "w_env w"] assms(3) Some ev show ?thesis
    by (auto simp: process_event_def Let_def observe_frame queues_kept_def dest!: dispatch_app arm_keeps_queues
        split: option.splits if_splits)
qed

lemma loop_all:
  "process_events w es n = Some n' \<Longrightarrow> app_phase (nd_app n) \<noteq> ShuttingDown \<Longrightarrow>
     \<forall>e\<in>set es. \<not> dcutr_failure e \<and> e \<noteq> ShutdownRequested \<and> (\<forall>p i r. e \<noteq> HolePunchAttemptFailed p i r) \<Longrightarrow>
     set es \<subseteq> set (loop_events w es n)"
proof (induction es arbitrary: n)
  case Nil
  then show ?case by simp
next
  case (Cons e es)
  from Cons.prems(1) obtain n1 go_on where ev: "process_event w e n = Some (n1, go_on)"
    by (auto split: option.splits)
  have up: "app_phase (nd_app n1) \<noteq> ShuttingDown"
    by (rule event_stays_up [OF ev]) (use Cons.prems in auto)
  have plain: "\<not> stale_attempt_failure conn e" for conn
    using Cons.prems(3) by (cases e) (auto simp: stale_attempt_failure_def)
  have "attempt_scoped (nd_conn n) e = Some e" using Cons.prems(3) by (simp add: scoped_same)
  with plain have "e \<in> set (event_events w e n)" by (simp add: event_events_def Let_def)
  moreover have go_on using up ev \<open>attempt_scoped (nd_conn n) e = Some e\<close> plain
    by (auto simp: process_event_def Let_def split: option.splits)
  ultimately show ?case using Cons.IH [OF _ up] Cons.prems ev by auto
qed

subsection \<open>Swarm events\<close>

lemma synthetic_of:
  assumes "swarm_bookkeeping w event n = (n1, synthetic)" and "e \<in> set synthetic"
  shows "\<not> dcutr_failure e" and "brings w n (InSwarm event) e" and "e \<noteq> ShutdownRequested"
    and "\<forall>p i r. e \<noteq> HolePunchAttemptFailed p i r"
proof -
  have est: "snd (on_established w p c endpoint n) = [] \<or>
      (\<exists>i. snd (on_established w p c endpoint n) = [HolePunchAttemptStarted p i])" for p c endpoint
    by (rule established_frame(5))
  have "starts_attempt e \<or> (\<exists>p c endpoint k. event = SwConnectionClosed p c endpoint k \<and>
      e = ConnectionLost p (remaining_connections_of (fst (on_connection_closed p c k (nd_conn n))) p))"
  proof (cases event)
    case (SwConnectionEstablished p c endpoint)
    with assms est [of p c endpoint] show ?thesis
      by (auto simp: swarm_bookkeeping_def split: prod.splits if_splits)
  next
    case (SwConnectionClosed p c endpoint k)
    with assms show ?thesis
      by (auto simp: swarm_bookkeeping_def on_closed_def Let_def split: prod.splits option.splits if_splits)
  next
    case (SwDialing peer_opt c)
    with assms show ?thesis by (cases peer_opt) (auto simp: swarm_bookkeeping_def)
  qed (use assms in \<open>auto simp: swarm_bookkeeping_def\<close>)
  then show "\<not> dcutr_failure e" and "brings w n (InSwarm event) e" and "e \<noteq> ShutdownRequested"
    and "\<forall>p i r. e \<noteq> HolePunchAttemptFailed p i r"
    by (auto simp: dcutr_failure_def started_brought)
qed

text \<open>Behaviour events need no bookkeeping.\<close>

lemma behaviour_bookkeeping: "swarm_bookkeeping w (SwBehaviour b) n = (n, [])"
  by (simp add: swarm_bookkeeping_def)

text \<open>What the translation of an event gives, other than the failures that DCUtR reports.\<close>

lemma kad_brings:
  assumes env: "env_ok (w_env w)" and m: "on_mapping_finished w n = Some n1"
    and e: "e \<in> set (snd (translate_kad_event (w_env w) active (api_is_connected (w_api w) (nd_swarm n1)) k
      (queries (nd_ctx n1))))"
  shows "brings w n (InSwarm (SwBehaviour (BehKademlia k))) e"
proof (cases k)
  case (OutboundQueryProgressed q r last)
  have order: "set (peer_order (w_env w) A) = fset A" for A :: "peer_id fset"
    using env by (auto simp: env_ok_def iterates_def)
  show ?thesis
  proof (cases r)
    case (QueryGetProviders result)
    show ?thesis
    proof (cases "\<exists>found. result = Inr (FoundProviders found)")
      case True
      then obtain found where found: "result = Inr (FoundProviders found)" by blast
      show ?thesis
        using e m by (auto simp: OutboundQueryProgressed QueryGetProviders found translate_get_providers_def
            contains_key_def order Let_def split: option.splits if_splits)
    next
      case False
      with e show ?thesis
        by (auto simp: OutboundQueryProgressed QueryGetProviders translate_get_providers_def Let_def
            split: option.splits if_splits sum.splits get_providers_ok.splits)
    qed
  next
    case (QueryBootstrap result)
    with e show ?thesis by (auto simp: OutboundQueryProgressed split: if_splits sum.splits)
  next
    case QueryGetClosestPeers
    with e m show ?thesis by (auto simp: OutboundQueryProgressed split: if_splits option.splits)
  next
    case QueryOther
    with e show ?thesis by (simp add: OutboundQueryProgressed)
  qed
next
  case KadOther
  with e show ?thesis by simp
qed

lemma translated_brings:
  assumes env: "env_ok (w_env w)" and b: "swarm_bookkeeping w event n = (n1, synthetic)"
    and m: "on_mapping_finished w n1 = Some n2"
    and e: "e \<in> set (snd (translate_swarm_event (w_env w) (w_boot w) active
      (api_is_connected (w_api w) (nd_swarm n2)) event (queries (nd_ctx n2))))"
    and other: "\<not> dcutr_failure e"
  shows "brings w n (InSwarm event) e"
proof (cases event)
  case (SwBehaviour behaviour)
  show ?thesis
  proof (cases behaviour)
    case (BehKademlia k)
    with b SwBehaviour have "n1 = n" by (simp add: behaviour_bookkeeping)
    with kad_brings [OF env] m e show ?thesis by (simp add: SwBehaviour BehKademlia)
  next
    case (BehDcutr p result)
    with e other show ?thesis by (auto simp: SwBehaviour dcutr_failure_def split: sum.splits)
  qed (use e in \<open>auto simp: SwBehaviour\<close>)
qed (use e in \<open>auto split: option.splits sum.splits if_splits\<close>)

lemma translated_plain:
  "e \<in> set (snd (translate_swarm_event env boot active conn event q)) \<Longrightarrow>
     e \<noteq> ShutdownRequested \<and> (\<forall>p i r. e \<noteq> HolePunchAttemptFailed p i r) \<and>
     (dcutr_failure e \<longrightarrow> (\<exists>p reason. event = SwBehaviour (BehDcutr p (Inl reason))))"
proof (cases event)
  case (SwBehaviour behaviour)
  have kad: "e \<in> set (snd (translate_kad_event env active conn k q)) \<Longrightarrow>
      e \<noteq> ShutdownRequested \<and> (\<forall>p i r. e \<noteq> HolePunchAttemptFailed p i r) \<and> \<not> dcutr_failure e" for k
  proof (cases k)
    case (OutboundQueryProgressed i r l)
    then show "e \<in> set (snd (translate_kad_event env active conn k q)) \<Longrightarrow>
        e \<noteq> ShutdownRequested \<and> (\<forall>p i r. e \<noteq> HolePunchAttemptFailed p i r) \<and> \<not> dcutr_failure e"
      by (cases r) (auto simp: translate_get_providers_def dcutr_failure_def Let_def
          split: option.splits sum.splits get_providers_ok.splits if_splits)
  qed simp
  then show "e \<in> set (snd (translate_swarm_event env boot active conn event q)) \<Longrightarrow> ?thesis"
    unfolding SwBehaviour by (cases behaviour) (auto simp: dcutr_failure_def split: sum.splits)
qed (auto simp: dcutr_failure_def split: sum.splits option.splits if_splits)

lemma dcutr_events:
  assumes ev: "on_swarm_event w (SwBehaviour (BehDcutr p (Inl reason))) n = Some n'"
  shows "\<exists>n3. nd_conn n3 = nd_conn n \<and> swarm_events w (SwBehaviour (BehDcutr p (Inl reason))) n =
    mapping_events w n @ event_events w (HolePunchFailed p reason) n3"
proof -
  obtain n2 where m: "on_mapping_finished w n = Some n2"
    using ev by (auto simp: on_swarm_event_def behaviour_bookkeeping split: option.splits)
  let ?n3 = "n2\<lparr>nd_ctx := nd_ctx n2\<lparr>queries := queries (nd_ctx n2)\<rparr>\<rparr>"
  have "nd_conn ?n3 = nd_conn n" using mapping_agree [OF m] by simp
  moreover have "swarm_events w (SwBehaviour (BehDcutr p (Inl reason))) n =
      mapping_events w n @ event_events w (HolePunchFailed p reason) ?n3"
    using m by (simp add: swarm_events_def behaviour_bookkeeping split: option.split prod.split bool.split)
  ultimately show ?thesis by blast
qed

lemma mapping_brings: "e \<in> set (mapping_events w n) \<Longrightarrow> brings w m (InSwarm event) e"
  by (auto simp: mapping_events_def split: option.splits sum.splits if_splits)

lemma swarm_brings:
  assumes env: "env_ok (w_env w)" and ev: "on_swarm_event w event n = Some n'"
    and e: "e \<in> set (swarm_events w event n)"
  shows "brings w n (InSwarm event) e"
proof (cases "\<exists>p reason. event = SwBehaviour (BehDcutr p (Inl reason))")
  case True
  then obtain p reason where event: "event = SwBehaviour (BehDcutr p (Inl reason))" by blast
  obtain n3 where "nd_conn n3 = nd_conn n"
    and "swarm_events w event n = mapping_events w n @ event_events w (HolePunchFailed p reason) n3"
    using dcutr_events ev unfolding event by blast
  with e show ?thesis
    by (auto simp: event active_attempt_stats_def attempt_id_of_def
        dest!: event_of mapping_brings started_brought [where event = event])
next
  case False
  obtain n1 synthetic where b: "swarm_bookkeeping w event n = (n1, synthetic)" by (metis surj_pair)
  with ev obtain n2 where m: "on_mapping_finished w n1 = Some n2"
    by (auto simp: on_swarm_event_def split: option.splits)
  let ?tr = "translate_swarm_event (w_env w) (w_boot w) (active_bootstrap_query (nd_ctx n2))
    (api_is_connected (w_api w) (nd_swarm n2)) event (queries (nd_ctx n2))"
  let ?es = "synthetic @ snd ?tr"
  have plain: "\<forall>e0\<in>set ?es. \<not> dcutr_failure e0"
    using synthetic_of(1) [OF b] translated_plain False by fastforce
  obtain m3 where "swarm_events w event n = mapping_events w n1 @ loop_events w ?es m3"
    using b m by (simp add: swarm_events_def split_beta)
  with e consider "e \<in> set (mapping_events w n1)" | "starts_attempt e" | "e \<in> set ?es"
    using loop_of [OF _ plain] by auto
  then show ?thesis
  proof cases
    case 3
    with synthetic_of(2) [OF b] translated_brings [OF env b m] plain show ?thesis by auto
  qed (simp_all add: mapping_brings started_brought)
qed

subsection \<open>Nothing is left out\<close>

lemma mapping_stays_up:
  "on_mapping_finished w n = Some n' \<Longrightarrow> app_phase (nd_app n) \<noteq> ShuttingDown \<Longrightarrow>
     app_phase (nd_app n') \<noteq> ShuttingDown"
  using mapping_keeps_queues [of w n n' undefined] by (simp add: queues_kept_def)

lemma swarm_events_all:
  assumes ev: "on_swarm_event w event n = Some n'" and up: "app_phase (nd_app n) \<noteq> ShuttingDown"
    and other: "\<nexists>p reason. event = SwBehaviour (BehDcutr p (Inl reason))"
    and b: "swarm_bookkeeping w event n = (n1, synthetic)"
    and direct: "\<And>active conn q. e \<in> set (synthetic @ snd (translate_swarm_event (w_env w) (w_boot w) active conn event q))"
  shows "e \<in> set (swarm_events w event n)"
proof -
  obtain n2 where m: "on_mapping_finished w n1 = Some n2"
    using ev b by (auto simp: on_swarm_event_def split: option.splits)
  obtain q translated where tr: "translate_swarm_event (w_env w) (w_boot w) (active_bootstrap_query (nd_ctx n2))
      (api_is_connected (w_api w) (nd_swarm n2)) event (queries (nd_ctx n2)) = (q, translated)"
    by (metis surj_pair)
  let ?n3 = "n2\<lparr>nd_ctx := nd_ctx n2\<lparr>queries := q\<rparr>\<rparr>" and ?es = "synthetic @ translated"
  have run: "process_events w ?es ?n3 = Some n'"
    using ev b m tr by (simp add: on_swarm_event_def)
  have up3: "app_phase (nd_app ?n3) \<noteq> ShuttingDown"
    using mapping_stays_up [OF m] up bookkeeping_still(1) [OF b] by simp
  have tr_mem: "x \<in> set (snd (translate_swarm_event (w_env w) (w_boot w) (active_bootstrap_query (nd_ctx n2))
      (api_is_connected (w_api w) (nd_swarm n2)) event (queries (nd_ctx n2))))" if "x \<in> set translated" for x
    using that tr by simp
  have "\<forall>x\<in>set ?es. \<not> dcutr_failure x \<and> x \<noteq> ShutdownRequested \<and> (\<forall>p i r. x \<noteq> HolePunchAttemptFailed p i r)"
    using synthetic_of(1,3,4) [OF b] translated_plain [OF tr_mem] other by (metis Un_iff set_append)
  from loop_all [OF run up3 this] direct [of "active_bootstrap_query (nd_ctx n2)"
      "api_is_connected (w_api w) (nd_swarm n2)" "queries (nd_ctx n2)"]
  show ?thesis using b m tr by (auto simp: swarm_events_def)
qed

lemma closed_synthetic:
  assumes "swarm_bookkeeping w (SwConnectionClosed p c endpoint k) n = (n1, synthetic)"
  shows "synthetic = [ConnectionLost p (remaining_connections_of (fst (on_connection_closed p c k (nd_conn n))) p)]"
  using assms by (auto simp: swarm_bookkeeping_def on_closed_def Let_def split: prod.splits option.splits if_splits)

lemma swarm_requires:
  assumes ev: "on_swarm_event w event n = Some n'" and up: "app_phase (nd_app n) \<noteq> ShuttingDown"
  shows "set (required w n (InSwarm event)) \<subseteq> set (swarm_events w event n)"
proof -
  obtain n1 synthetic where b: "swarm_bookkeeping w event n = (n1, synthetic)" by (metis surj_pair)
  note all = swarm_events_all [OF ev up _ b]
  show ?thesis
  proof (cases event)
    case (SwConnectionEstablished p c endpoint)
    then show ?thesis using all by auto
  next
    case (SwConnectionClosed p c endpoint k)
    have "synthetic = [ConnectionLost p (remaining_connections_of (fst (on_connection_closed p c k (nd_conn n))) p)]"
      by (rule closed_synthetic) (use b SwConnectionClosed in simp)
    then show ?thesis using all SwConnectionClosed by auto
  next
    case (SwOutgoingConnectionError peer_opt c err)
    then show ?thesis using all by (cases peer_opt) auto
  next
    case (SwBehaviour behaviour)
    show ?thesis
    proof (cases "\<exists>p reason i. behaviour = BehDcutr p (Inl reason) \<and> attempt_id_of (nd_conn n) p = Some i")
      case True
      then obtain p reason i where event: "event = SwBehaviour (BehDcutr p (Inl reason))"
        and i: "attempt_id_of (nd_conn n) p = Some i" using SwBehaviour by blast
      obtain n3 where conn: "nd_conn n3 = nd_conn n"
        and "swarm_events w event n = mapping_events w n @ event_events w (HolePunchFailed p reason) n3"
        using dcutr_events ev unfolding event by blast
      moreover obtain stats where "active_attempt_stats (nd_conn n) p = Some stats" and "stats_attempt_id stats = i"
        using i by (auto simp: attempt_id_of_def active_attempt_stats_def)
      ultimately have "HolePunchAttemptFailed p i reason \<in> set (swarm_events w event n)"
        by (simp add: event_events_def stale_attempt_failure_def observe_frame Let_def)
      with i show ?thesis by (simp add: event)
    next
      case False
      have "required w n (InSwarm event) = []"
      proof (cases behaviour)
        case (BehDcutr p result)
        with False show ?thesis by (cases result) (auto simp: SwBehaviour split: option.split)
      qed (simp_all add: SwBehaviour)
      then show ?thesis by simp
    qed
  qed simp_all
qed

section \<open>Histories\<close>

text \<open>A history of the node: its turns in order, each with its world, its input and the node before it.\<close>

type_synonym 'sw turn = "'sw node_world \<times> node_input \<times> 'sw node_state"

inductive node_history :: "'sw node_state \<Rightarrow> 'sw turn list \<Rightarrow> 'sw node_state \<Rightarrow> bool" where
  history_start: "node_history n [] n"
| history_turn: "node_history n ts n1 \<Longrightarrow> app_phase (nd_app n1) \<noteq> ShuttingDown \<Longrightarrow> env_ok (w_env w) \<Longrightarrow>
    node_turn w input n1 = Some n2 \<Longrightarrow> node_history n (ts @ [(w, input, n1)]) n2"

definition history_events :: "'sw turn list \<Rightarrow> event list" where
  "history_events ts = concat (map (\<lambda>(w, input, n). turn_events w input n) ts)"

text \<open>Every run has a history.\<close>

lemma run_history: "node_run n n' \<Longrightarrow> \<exists>ts. node_history n ts n'"
  by (induction rule: node_run.induct) (blast intro: history_start history_turn)+

lemma history_run: "node_history n ts n' \<Longrightarrow> node_run n n'"
  by (induction rule: node_history.induct) (blast intro: run_start run_turn)+

lemma history_moves: "node_history n ts n' \<Longrightarrow> moves (history_events ts) n n'"
proof (induction rule: node_history.induct)
  case (history_start n)
  then show ?case by (simp add: history_events_def moves_refl)
next
  case (history_turn n ts n1 w input n2)
  from moves_append [OF history_turn.IH turn_moves [OF history_turn.hyps(3,4)]]
  show ?case by (simp add: history_events_def)
qed

text \<open>The events of a turn are among those its input may bring, and none it must bring is missing.\<close>

definition answers :: "'sw turn \<Rightarrow> bool" where
  "answers t \<longleftrightarrow>
     (case t of (w, input, n) \<Rightarrow>
        (\<forall>e\<in>set (turn_events w input n). brings w n input e) \<and>
        set (required w n input) \<subseteq> set (turn_events w input n))"

lemma due_brings:
  assumes env: "env_ok (w_env w)" and "conn_reachable (nd_conn n)" and e: "e \<in> set (due_reports w n)"
  shows "brings w n InHolePunchDeadline e"
proof -
  obtain p i where e: "e = HolePunchAttemptTimeout p i" "peer_is_relay_only (nd_conn n) p"
    and "(p, i) \<in> set (snd (take_due_hole_punch_timeouts (w_env w) (w_now w) (nd_conn n)))"
    using assms(3) by (auto simp: due_reports_def)
  with due_timeouts_taken_once [OF assms(2) env, of "w_now w"] show ?thesis
    by (auto simp: split_beta Let_def)
qed

lemma turn_answers:
  assumes env: "env_ok (w_env w)" and turn: "node_turn w input n = Some n'" and wf: "node_wf n"
    and up: "app_phase (nd_app n) \<noteq> ShuttingDown"
  shows "answers (w, input, n)"
proof (cases input)
  case (InSwarm event)
  with turn have "on_swarm_event w event n = Some n'" by simp
  with swarm_brings [OF env this] swarm_requires [OF this up] InSwarm show ?thesis by (simp add: answers_def)
next
  case InHolePunchDeadline
  have "conn_reachable (nd_conn n)" using wf by (simp add: node_wf_def)
  with due_brings [OF env this] InHolePunchDeadline show ?thesis by (simp add: answers_def)
qed (simp_all add: answers_def)

lemma history_answers:
  "node_history n ts n' \<Longrightarrow> node_wf n \<Longrightarrow> \<forall>t\<in>set ts. answers t"
proof (induction rule: node_history.induct)
  case (history_turn n ts n1 w input n2)
  have "node_wf n1"
    using node_run_safe [OF history_run [OF history_turn.hyps(1)]] history_turn.prems by (simp add: safe_step_def)
  with turn_answers [OF history_turn.hyps(3,4) _ history_turn.hyps(2)] history_turn show ?case by auto
qed simp

text \<open>The start makes no move.\<close>

lemma start_broker:
  assumes env: "env_ok (w_env w)" and start: "node_start w cfg probe sw = Inr (Some n)"
  shows "node_broker n = initial_broker cfg" and "registry_wf (tasks (nd_ctx n))" and "node_wf n"
proof -
  show "node_wf n" using start_safe [OF assms] by blast
  then show "registry_wf (tasks (nd_ctx n))" by (simp add: node_wf_def)
  obtain m sw2 e where d: "dispatch w e (initial_node cfg m sw2) = Some n" and e: "unmoved e"
    using start by (auto simp: node_start_def Let_def split: sum.splits if_splits)
  have "registry_wf (tasks (nd_ctx (initial_node cfg m sw2)))"
    using initial_node_wf [of cfg m sw2] by (simp add: node_wf_def)
  with moves_dispatch [OF env d] have "broker_step e (initial_broker cfg) (node_broker n)"
    by (simp add: moves_def spec_run_simps initial_node_broker)
  with broker_unmoved [OF e] show "node_broker n = initial_broker cfg" by blast
qed



end
