(* ===== verification/Node_Armed.thy ===== *)
theory Node_Armed
  imports Node_History
begin

text \<open>
  The hole punches that the node owes: between the turns of its event loop every peer with tunnels
  pending or waiting that is connected only through a relay has an attempt under way.  The code arms
  only after the events it processes; so every other step of a turn must leave no peer unarmed.
\<close>

section \<open>The invariant\<close>

definition all_armed :: "'sw node_state \<Rightarrow> bool" where
  "all_armed n \<longleftrightarrow>
     (\<forall>p. has_holepunch_intent (app_tunnel (nd_app n)) p \<and> peer_is_relay_only (nd_conn n) p \<longrightarrow>
        contains_key (hole_punch_attempts (nd_conn n)) p)"

text \<open>Arming is left out only to shut down.\<close>

definition armed :: "'sw node_state \<Rightarrow> bool" where
  "armed n \<longleftrightarrow> app_phase (nd_app n) = ShuttingDown \<or> all_armed n"

lemma all_armed_mono:
  assumes "all_armed n"
    and "\<And>p. has_holepunch_intent (app_tunnel (nd_app n')) p \<Longrightarrow> has_holepunch_intent (app_tunnel (nd_app n)) p"
    and "\<And>p. peer_is_relay_only (nd_conn n') p \<Longrightarrow> peer_is_relay_only (nd_conn n) p"
    and "\<And>p. contains_key (hole_punch_attempts (nd_conn n)) p \<Longrightarrow> contains_key (hole_punch_attempts (nd_conn n')) p"
  shows "all_armed n'"
  using assms unfolding all_armed_def by blast

lemma all_armed_same: "nd_app n' = nd_app n \<Longrightarrow> nd_conn n' = nd_conn n \<Longrightarrow> all_armed n' = all_armed n"
  by (simp add: all_armed_def)

section \<open>Arming\<close>

lemma intent_started:
  "has_holepunch_intent (app_tunnel (fst (app_transition env s (HolePunchAttemptStarted q i)))) p =
     has_holepunch_intent (app_tunnel s) p"
  using event_keeps_queues [of "HolePunchAttemptStarted q i" q i] by (simp add: has_holepunch_intent_def)

lemma arm_targets_keeps:
  "arm_targets w peers n = Some n' \<Longrightarrow>
     has_holepunch_intent (app_tunnel (nd_app n')) p = has_holepunch_intent (app_tunnel (nd_app n)) p \<and>
     peer_is_relay_only (nd_conn n') p = peer_is_relay_only (nd_conn n) p"
proof (induction w peers n rule: arm_targets.induct)
  case (1 w n)
  then show ?case by simp
next
  case (2 w peer peers n)
  obtain conn' started where s: "start_hole_punch_attempt (w_now w) peer HOLE_PUNCH_TIMEOUT (nd_conn n) =
      (conn', started)" by (metis surj_pair)
  show ?case
  proof (cases started)
    case None
    with 2 s show ?thesis by simp
  next
    case (Some i)
    with "2.prems" s obtain n1 where d: "dispatch w (HolePunchAttemptStarted peer i) (n\<lparr>nd_conn := conn'\<rparr>) = Some n1"
      and rest: "arm_targets w peers n1 = Some n'" by (auto split: option.splits)
    with "2.IH"(2) [OF s [symmetric] Some d rest] start_attempt_frame(1) [OF s]
    show ?thesis by (simp add: dispatch_app [OF d] dispatch_conn [OF d] intent_started)
  qed
qed

lemma arming_arms:
  assumes env: "env_ok (w_env w)" and arm: "arm_hole_punch_for_tunnel_targets w n = Some n'"
  shows "armed n'"
proof (cases "app_phase (nd_app n) = ShuttingDown")
  case True
  with arm show ?thesis by (simp add: arm_hole_punch_for_tunnel_targets_def armed_def)
next
  case False
  with arm have targets: "arm_targets w (holepunch_target_peers (w_env w) (app_tunnel (nd_app n))) n = Some n'"
    by (simp add: arm_hole_punch_for_tunnel_targets_def)
  show ?thesis
    using arm_targets_attempts [OF targets] arm_targets_keeps [OF targets] target_peers_set [OF env]
    by (simp add: armed_def all_armed_def)
qed

section \<open>Events\<close>

text \<open>The events that are always handed to the machine.\<close>

definition solid :: "event \<Rightarrow> bool" where
  "solid e \<longleftrightarrow> \<not> dcutr_failure e \<and> (\<forall>p i r. e \<noteq> HolePunchAttemptFailed p i r)"

lemma process_event_armed:
  assumes env: "env_ok (w_env w)" and ev: "process_event w e n = Some (n', go_on)"
    and armed: "armed n \<or> solid e"
  shows "armed n'"
proof (cases "attempt_scoped (nd_conn n) e")
  case None
  then have "\<not> solid e" by (cases e) (auto simp: solid_def dcutr_failure_def)
  with None ev armed show ?thesis by (simp add: process_event_def)
next
  case (Some e')
  let ?n1 = "observe_identify w e' n"
  show ?thesis
  proof (cases "stale_attempt_failure (nd_conn ?n1) e'")
    case True
    then obtain p i r where "e' = HolePunchAttemptFailed p i r"
      by (cases e') (auto simp: stale_attempt_failure_def)
    with Some have "\<not> solid e" by (cases e) (auto simp: solid_def dcutr_failure_def)
    with armed have "armed ?n1" by (simp add: armed_def all_armed_def observe_frame)
    with True Some ev show ?thesis by (simp add: process_event_def Let_def)
  next
    case False
    with Some ev obtain n2 where "arm_hole_punch_for_tunnel_targets w n2 = Some n'"
      by (auto simp: process_event_def Let_def split: option.splits)
    with env show ?thesis by (rule arming_arms)
  qed
qed

lemma process_events_armed:
  "env_ok (w_env w) \<Longrightarrow> process_events w es n = Some n' \<Longrightarrow> armed n \<or> (\<exists>e\<in>set es. solid e) \<Longrightarrow> armed n'"
proof (induction es arbitrary: n)
  case Nil
  then show ?case by simp
next
  case (Cons e es)
  from Cons.prems(2) obtain n1 go_on where ev: "process_event w e n = Some (n1, go_on)"
    by (auto split: option.splits)
  have one: "armed n1 \<or> (\<exists>e\<in>set es. solid e)"
    using process_event_armed [OF Cons.prems(1) ev] Cons.prems(3) by auto
  show ?case
  proof (cases go_on)
    case True
    with Cons.prems(2) ev have "process_events w es n1 = Some n'" by simp
    with Cons.IH [OF Cons.prems(1) _ one] show ?thesis .
  next
    case False
    with Cons.prems(2) ev process_event_stop show ?thesis by (auto simp: armed_def)
  qed
qed

section \<open>Steps without arming\<close>

lemma attempts_of: "contains_key (hole_punch_attempts s) p \<longleftrightarrow> attempt_id_of s p \<noteq> None"
  by (simp add: contains_key_def attempt_id_of_def)

lemma relay_only_frame:
  "peer_is_relay_only (fst (on_dialing q c s)) p = peer_is_relay_only s p"
  "peer_is_relay_only (fst (on_outgoing_connection_error peer_opt c err s)) p = peer_is_relay_only s p"
  by (simp_all add: peer_is_relay_only_def has_relayed_connection_def has_direct_connection_def connections_frame)

text \<open>The bookkeeping of events other than connections that come and go.\<close>

lemma bookkeeping_armed:
  assumes b: "swarm_bookkeeping w event n = (n1, synthetic)" and armed: "all_armed n"
    and "\<nexists>p c endpoint. event = SwConnectionEstablished p c endpoint"
    and "\<nexists>p c endpoint k. event = SwConnectionClosed p c endpoint k"
  shows "all_armed n1"
proof (cases event)
  case (SwDialing peer_opt c)
  show ?thesis
  proof (cases peer_opt)
    case None
    with b armed SwDialing show ?thesis by (simp add: swarm_bookkeeping_def)
  next
    case (Some p)
    with b SwDialing have "n1 = n\<lparr>nd_conn := fst (on_dialing p c (nd_conn n))\<rparr>" by (simp add: swarm_bookkeeping_def)
    with all_armed_mono [OF armed, of n1] show ?thesis
      by (simp add: attempts_of dialing_frame relay_only_frame)
  qed
next
  case (SwOutgoingConnectionError peer_opt c err)
  with b have n1: "n1 = on_outgoing_error w peer_opt c err n" by (simp add: swarm_bookkeeping_def)
  have "nd_app n1 = nd_app n" "nd_conn n1 = fst (on_outgoing_connection_error peer_opt c err (nd_conn n))"
    unfolding n1 by (simp_all add: on_outgoing_error_def reconnect_frame Let_def split: option.split)
  with all_armed_mono [OF armed, of n1] show ?thesis
    by (simp add: attempts_of error_frame relay_only_frame)
qed (use assms in \<open>auto simp: swarm_bookkeeping_def all_armed_def listen_frame external_frame\<close>)

lemma mapping_armed:
  assumes "on_mapping_finished w n = Some n'" and "all_armed n"
  shows "all_armed n'"
  using assms(1)
proof (cases rule: mapping_cases)
  case (3 a)
  show ?thesis
    by (rule all_armed_mono [OF assms(2)]) (use dispatch_app [OF 3] dispatch_conn [OF 3] in \<open>simp_all add: nat_event_tunnel\<close>)
qed (use assms(2) in \<open>simp_all add: all_armed_def\<close>)

lemma swarm_event_armed:
  assumes env: "env_ok (w_env w)" and ev: "on_swarm_event w event n = Some n'" and armed: "all_armed n"
  shows "armed n'"
proof -
  obtain n1 synthetic where b: "swarm_bookkeeping w event n = (n1, synthetic)" by (metis surj_pair)
  with ev obtain n2 where m: "on_mapping_finished w n1 = Some n2"
    by (auto simp: on_swarm_event_def split: option.splits)
  obtain q translated where tr: "translate_swarm_event (w_env w) (w_boot w) (active_bootstrap_query (nd_ctx n2))
      (api_is_connected (w_api w) (nd_swarm n2)) event (queries (nd_ctx n2)) = (q, translated)"
    by (metis surj_pair)
  let ?n3 = "n2\<lparr>nd_ctx := nd_ctx n2\<lparr>queries := q\<rparr>\<rparr>"
  have run: "process_events w (synthetic @ translated) ?n3 = Some n'"
    using ev b m tr by (simp add: on_swarm_event_def)
  have "armed ?n3 \<or> (\<exists>e\<in>set (synthetic @ translated). solid e)"
  proof (cases "(\<exists>p c endpoint. event = SwConnectionEstablished p c endpoint) \<or>
      (\<exists>p c endpoint k. event = SwConnectionClosed p c endpoint k)")
    case True
    then show ?thesis
    proof
      assume "\<exists>p c endpoint. event = SwConnectionEstablished p c endpoint"
      with tr show ?thesis by (auto simp: solid_def dcutr_failure_def)
    next
      assume "\<exists>p c endpoint k. event = SwConnectionClosed p c endpoint k"
      then obtain p c endpoint k where "event = SwConnectionClosed p c endpoint k" by blast
      with b have "synthetic = [ConnectionLost p (remaining_connections_of (fst (on_connection_closed p c k (nd_conn n))) p)]"
        by (intro closed_synthetic) simp
      then show ?thesis by (simp add: solid_def dcutr_failure_def)
    qed
  next
    case False
    with mapping_armed [OF m bookkeeping_armed [OF b armed]] show ?thesis
      by (auto simp: armed_def all_armed_def)
  qed
  with process_events_armed [OF env run] show ?thesis by blast
qed

text \<open>Timeouts only end intents.\<close>

lemma intent_retry:
  "has_holepunch_intent (fst (retry_holepunch_attempt q i s)) p \<Longrightarrow> has_holepunch_intent s p"
  by (auto simp: has_holepunch_intent_def retry_holepunch_attempt_def clear_retry_state_def
      set_session_phase_def schedule_holepunch_retry_def contains_key_def split: option.splits if_splits)

lemma report_armed:
  "report_timeouts w due n = Some n' \<Longrightarrow> all_armed n \<Longrightarrow> all_armed n'"
proof (induction w due n rule: report_timeouts.induct)
  case (1 w n)
  then show ?case by simp
next
  case (2 w peer i due n)
  show ?case
  proof (cases "peer_is_relay_only (nd_conn n) peer")
    case False
    with 2 show ?thesis by simp
  next
    case True
    with "2.prems" obtain n1 where d: "dispatch w (HolePunchAttemptTimeout peer i) n = Some n1"
      and rest: "report_timeouts w due n1 = Some n'" by (auto split: option.splits)
    have "all_armed n1"
      by (rule all_armed_mono [OF "2.prems"(2)])
        (auto simp: dispatch_app [OF d] dispatch_conn [OF d] app_report [where p = peer and i = i] dest: intent_retry)
    with "2.IH"(1) [OF True d rest] show ?thesis .
  qed
qed

lemma discovery_tunnel: "app_tunnel (fst (app_transition env s DiscoveryTimeout)) = app_tunnel s"
  by (simp add: app_transition_run tunnel_events_def bridge_ignored split_beta Let_def)

lemma shutdown_phase: "app_phase (fst (app_transition env s ShutdownRequested)) = ShuttingDown"
  by (simp add: app_transition_run app_phase_def split_beta Let_def)

lemma turn_armed:
  assumes env: "env_ok (w_env w)" and turn: "node_turn w input n = Some n'" and armed: "all_armed n"
  shows "armed n'"
proof (cases input)
  case (InSwarm event)
  with turn swarm_event_armed [OF env _ armed] show ?thesis by simp
next
  case InDiscoveryDeadline
  with turn have "n' = n \<or> dispatch w DiscoveryTimeout (n\<lparr>nd_discovery_fired := True\<rparr>) = Some n'"
    by (simp add: on_discovery_deadline_def split: if_splits)
  then have "app_tunnel (nd_app n') = app_tunnel (nd_app n) \<and> nd_conn n' = nd_conn n"
    using dispatch_app [of w DiscoveryTimeout "n\<lparr>nd_discovery_fired := True\<rparr>" n']
      dispatch_conn [of w DiscoveryTimeout "n\<lparr>nd_discovery_fired := True\<rparr>" n'] by (auto simp: discovery_tunnel)
  with armed show ?thesis by (simp add: armed_def all_armed_def)
next
  case InReconnectDeadline
  with turn armed reconnects_frame [of w "due_reconnects w n" n] show ?thesis
    by (auto simp: armed_def all_armed_def on_reconnect_deadline_def)
next
  case InHolePunchDeadline
  obtain conn' due where t: "take_due_hole_punch_timeouts (w_env w) (w_now w) (nd_conn n) = (conn', due)"
    by (metis surj_pair)
  have "all_armed (n\<lparr>nd_conn := conn'\<rparr>)"
    by (rule all_armed_mono [OF armed])
      (use due_records [of "w_env w" "w_now w" "nd_conn n"] due_frame(2) [of "w_env w" "w_now w" "nd_conn n"]
        in \<open>simp_all add: t attempts_of\<close>)
  with turn InHolePunchDeadline t show ?thesis
    by (auto simp: on_hole_punch_deadline_def armed_def dest: report_armed)
next
  case InShutdownSignal
  with turn show ?thesis by (auto simp: on_shutdown_signal_def armed_def shutdown_phase dest!: dispatch_app)
qed

section \<open>Runs\<close>

lemma start_armed:
  assumes "node_start w cfg probe sw = Inr (Some n)"
  shows "all_armed n"
proof -
  obtain m sw2 e where "dispatch w e (initial_node cfg m sw2) = Some n"
    using assms by (auto simp: node_start_def Let_def split: sum.splits if_splits)
  from dispatch_conn [OF this] have "nd_conn n = new_connection_state" by (simp add: initial_node_def)
  then show ?thesis
    by (simp add: all_armed_def peer_is_relay_only_def has_relayed_connection_def new_connection_state_def)
qed

lemma run_armed: "node_run n n' \<Longrightarrow> all_armed n \<Longrightarrow> armed n'"
proof (induction rule: node_run.induct)
  case (run_start n)
  then show ?case by (simp add: armed_def)
next
  case (run_turn n n1 w input n2)
  then have "all_armed n1" by (auto simp: armed_def)
  with run_turn.hyps(3,4) show ?case by (rule turn_armed)
qed

text \<open>C11: A hole punch that is owed is always under way: between any two turns of the event loop every peer
  that has a tunnel pending or waiting and is connected only through a relay has a hole-punch
  attempt under way, with the number of its session if it has one.  This holds however the peer came
  to be in that position: because a relayed connection was made, because its direct connection was
  closed, because a lookup led to it or because a failed dial of another peer moved a tunnel to it.
  (An attempt whose time is up counts as under way until a connection of the peer ends it.)\<close>

theorem waiting_peers_are_armed:
  assumes "node_between_turns n" and "has_holepunch_intent (app_tunnel (nd_app n)) p"
    and "peer_is_relay_only (nd_conn n) p"
  shows "\<exists>stats. active_attempt_stats (nd_conn n) p = Some stats \<and>
    (\<forall>session. fmlookup (holepunch_sessions (app_tunnel (nd_app n))) p = Some session \<longrightarrow>
       sess_attempt_id session = stats_attempt_id stats)"
proof -
  obtain w :: "'a node_world" and cfg probe sw n0 where start: "node_start w cfg probe sw = Inr (Some n0)"
    and run: "node_run n0 n" and up: "app_phase (nd_app n) \<noteq> ShuttingDown"
    using assms(1) by (auto simp: node_between_turns_def)
  have "all_armed n" using run_armed [OF run start_armed [OF start]] up by (simp add: armed_def)
  with assms(2,3) obtain stats where "active_attempt_stats (nd_conn n) p = Some stats"
    by (auto simp: all_armed_def active_attempt_stats_def contains_key_def)
  with session_matched [OF assms(1), of p] show ?thesis by auto
qed

theorem waiting_peers_are_armed_witness:
  "\<exists>n :: recording_swarm node_state. punching_node n \<and>
     active_attempt_stats (nd_conn n) sample_peer \<noteq> None"
proof -
  obtain n :: "recording_swarm node_state" where n: "node_between_turns n" "punching_node n"
    by (rule sample_punching)
  then have "has_holepunch_intent (app_tunnel (nd_app n)) sample_peer" "peer_is_relay_only (nd_conn n) sample_peer"
    by (auto simp: punching_node_def has_holepunch_intent_def contains_key_def)
  from waiting_peers_are_armed [OF n(1) this] n(2) show ?thesis by auto
qed

end
