(* ===== verification/Node_Trace.thy ===== *)
theory Node_Trace
  imports Node_Progress
begin

text \<open>
  The node runs the state machine: over any turns, the state of the machine inside the node is that
  of a run of \<open>AppState\<close>, and what the node has done to the outside world is what the commands of
  that run ask for.  So every property of the runs of the machine is one of the node; here it gives
  the bound on the disconnects of a peer.
\<close>

section \<open>Following the machine\<close>

definition follows :: "'sw swarm_api \<Rightarrow> (step_env \<times> event) list \<Rightarrow> 'sw node_state \<Rightarrow> 'sw node_state \<Rightarrow> bool" where
  "follows api es n n' \<longleftrightarrow>
     (let (s, cmds) = mealy_run app_transition (nd_app n) es in
      nd_app n' = s \<and> (\<forall>(env, e)\<in>set es. env_ok env) \<and>
      (registry_wf (tasks (nd_ctx n)) \<longrightarrow> registry_wf (tasks (nd_ctx n')) \<and>
         running_tasks (nd_ctx n') = running_tasks (nd_ctx n) + mset (concat (map spawned cmds))) \<and>
      (\<forall>tally weight. observes api tally weight \<longrightarrow>
         tally (nd_swarm n') = tally (nd_swarm n) + sum_list (map weight cmds)))"

lemma follows_still:
  "nd_app n' = nd_app n \<Longrightarrow> tasks (nd_ctx n') = tasks (nd_ctx n) \<Longrightarrow>
     nd_swarm n' = nd_swarm n \<or> swarm_call api (nd_swarm n) (nd_swarm n') \<Longrightarrow> follows api [] n n'"
  by (auto simp: follows_def running_tasks_def observes_def)

lemma follows_nothing:
  "nd_app n' = nd_app n \<Longrightarrow> tasks (nd_ctx n') = tasks (nd_ctx n) \<Longrightarrow>
     nd_swarm n' = nd_swarm n \<or> swarm_call api (nd_swarm n) (nd_swarm n') \<Longrightarrow> \<exists>es. follows api es n n'"
  using follows_still by blast

lemma follows_dispatch:
  assumes "dispatch w e n = Some n'" and "env_ok (w_env w)"
  shows "follows (w_api w) [(w_env w, e)] n n'"
proof -
  obtain sw ctx where exec: "execute_commands (w_api w) (w_exec w) (snd (app_transition (w_env w) (nd_app n) e))
      (nd_swarm n, nd_ctx n) = Some (sw, ctx)"
    and n': "n' = n\<lparr>nd_swarm := sw, nd_ctx := ctx, nd_app := fst (app_transition (w_env w) (nd_app n) e)\<rparr>"
    using assms(1) by (auto simp: dispatch_def split_beta)
  from execute_commands_tasks [OF exec] observes_commands [OF _ exec] assms(2) show ?thesis
    by (simp add: follows_def n' split_beta Let_def)
qed

lemma follows_tally:
  assumes "follows api es n n'" and "observes api tally weight"
  shows "tally (nd_swarm n') = tally (nd_swarm n) +
    sum_list (map weight (snd (mealy_run app_transition (nd_app n) es)))"
  using assms unfolding follows_def split_beta Let_def by blast

lemma follows_append:
  assumes a: "follows api es n n1" and b: "follows api fs n1 n2"
  shows "follows api (es @ fs) n n2"
  unfolding follows_def split_beta Let_def
proof (intro conjI)
  have s1: "nd_app n1 = fst (mealy_run app_transition (nd_app n) es)"
    using a by (simp add: follows_def split_beta Let_def)
  have cmds: "snd (mealy_run app_transition (nd_app n) (es @ fs)) =
      snd (mealy_run app_transition (nd_app n) es) @ snd (mealy_run app_transition (nd_app n1) fs)"
    by (simp add: mealy_run_append s1)
  show "nd_app n2 = fst (mealy_run app_transition (nd_app n) (es @ fs))"
    using b by (simp add: follows_def mealy_run_append s1 split_beta Let_def)
  show "\<forall>x\<in>set (es @ fs). env_ok (fst x)"
    using a b by (auto simp: follows_def split_beta Let_def)
  show "registry_wf (tasks (nd_ctx n)) \<longrightarrow> registry_wf (tasks (nd_ctx n2)) \<and>
      running_tasks (nd_ctx n2) = running_tasks (nd_ctx n) +
        mset (concat (map spawned (snd (mealy_run app_transition (nd_app n) (es @ fs)))))"
    using a b unfolding cmds by (auto simp: follows_def split_beta Let_def)
  show "\<forall>tally weight. observes api tally weight \<longrightarrow> tally (nd_swarm n2) = tally (nd_swarm n) +
      sum_list (map weight (snd (mealy_run app_transition (nd_app n) (es @ fs))))"
  proof (intro allI impI)
    fix tally weight
    assume o: "observes api tally weight"
    from follows_tally [OF a o] follows_tally [OF b o]
    show "tally (nd_swarm n2) = tally (nd_swarm n) +
        sum_list (map weight (snd (mealy_run app_transition (nd_app n) (es @ fs))))"
      unfolding cmds by simp
  qed
qed

lemma step_follows:
  assumes "node_step w n n'" and "env_ok (w_env w)"
  shows "\<exists>es. follows (w_api w) es n n'"
  using assms
proof (induction rule: node_step.induct)
  case (does_dispatch e n n')
  then show ?case using follows_dispatch by blast
next
  case (does_schedule n p)
  have "nd_app (schedule_boot_reconnect w p n) = nd_app n \<and> nd_ctx (schedule_boot_reconnect w p n) = nd_ctx n \<and>
      nd_swarm (schedule_boot_reconnect w p n) = nd_swarm n"
    by (simp add: schedule_boot_reconnect_def split: prod.split option.split)
  then show ?case by (intro follows_nothing) simp_all
qed (intro follows_nothing; simp)+

lemma turn_follows:
  assumes env: "env_ok (w_env w)" and turn: "node_turn w input n = Some n'"
  shows "\<exists>es. follows (w_api w) es n n'"
proof (rule turn_by_steps [OF env turn])
  show "\<exists>es. follows (w_api w) es a a" for a by (rule exI [of _ "[]"], rule follows_still) simp_all
  show "\<exists>es. follows (w_api w) es a c" if "\<exists>es. follows (w_api w) es a b" "\<exists>es. follows (w_api w) es b c" for a b c
    using that follows_append by blast
  show "\<exists>es. follows (w_api w) es a b" if "node_step w a b" for a b
    using that env by (rule step_follows)
qed

section \<open>Runs on one swarm\<close>

inductive swarm_run :: "'sw swarm_api \<Rightarrow> 'sw node_state \<Rightarrow> 'sw node_state \<Rightarrow> bool" for api where
  swarm_start: "swarm_run api n n"
| swarm_turn: "swarm_run api n n1 \<Longrightarrow> app_phase (nd_app n1) \<noteq> ShuttingDown \<Longrightarrow> w_api w = api \<Longrightarrow>
    env_ok (w_env w) \<Longrightarrow> node_turn w input n1 = Some n2 \<Longrightarrow> swarm_run api n n2"

text \<open>C2: Whatever turns the node takes on its swarm, it follows the state machine: there are events such that
  its machine is in the state that \<open>AppState\<close> reaches on them, its tunnel tasks have grown by
  exactly those the commands of that run ask for, and any measure of the swarm that counts
  executed commands has grown by the weight of exactly those commands.\<close>

theorem node_follows_machine:
  assumes "swarm_run api n n'"
  shows "\<exists>es. let (s, cmds) = mealy_run app_transition (nd_app n) es in
    nd_app n' = s \<and> (\<forall>(env, e)\<in>set es. env_ok env) \<and>
    (registry_wf (tasks (nd_ctx n)) \<longrightarrow> registry_wf (tasks (nd_ctx n')) \<and>
       running_tasks (nd_ctx n') = running_tasks (nd_ctx n) + mset (concat (map spawned cmds))) \<and>
    (\<forall>tally weight. observes api tally weight \<longrightarrow>
       tally (nd_swarm n') = tally (nd_swarm n) + sum_list (map weight cmds))"
proof -
  have "\<exists>es. follows api es n n'"
    using assms
  proof (induction rule: swarm_run.induct)
    case (swarm_start n)
    have "follows api [] n n" by (rule follows_still) simp_all
    then show ?case by blast
  next
    case (swarm_turn n n1 w input n2)
    then obtain es where "follows api es n n1" by blast
    moreover obtain fs where "follows api fs n1 n2"
      using turn_follows [OF swarm_turn.hyps(4,5)] swarm_turn.hyps(3) by blast
    ultimately show ?case using follows_append by blast
  qed
  then show ?thesis unfolding follows_def .
qed

section \<open>Disconnects\<close>

text \<open>The elementary steps of the node during which tunnels to a peer wait for a hole punch.\<close>

definition waits_for :: "'sw node_state \<Rightarrow> peer_id \<Rightarrow> bool" where
  "waits_for n p \<longleftrightarrow> contains_key (awaiting_holepunch (app_tunnel (nd_app n))) p"

definition waiting_step :: "'sw swarm_api \<Rightarrow> peer_id \<Rightarrow> 'sw node_state \<Rightarrow> 'sw node_state \<Rightarrow> bool" where
  "waiting_step api p n n' \<longleftrightarrow>
     (\<exists>w. w_api w = api \<and> env_ok (w_env w) \<and> node_step w n n') \<and> waits_for n p \<and> waits_for n' p"

lemma app_retries:
  assumes env: "env_ok env" and wf: "app_wf s"
    and waits: "contains_key (awaiting_holepunch (app_tunnel s)) p"
      "contains_key (awaiting_holepunch (app_tunnel (fst (app_transition env s e)))) p"
  shows "retries (app_tunnel (fst (app_transition env s e))) p =
    retries (app_tunnel s) p + disconnects (snd (app_transition env s e)) p"
proof -
  let ?es = "map (Pair env) (tunnel_events env s e)"
  have bridge: "fst (tunnel_transition env t (PhaseChanged old new)) = t" for t old new
    by (cases new) (simp_all add: on_phase_ready_def)
  have "contains_key (awaiting_holepunch (fst (mealy_run tunnel_transition (app_tunnel s) (take k ?es)))) p"
    if "k \<le> length ?es" for k
  proof (cases "k = length ?es")
    case True
    with waits(2) show ?thesis by (simp add: app_transition_run)
  next
    case False
    with that have "k < length ?es" by simp
    with waits(1) bridge show ?thesis
      by (auto simp: tunnel_events_def Let_def less_Suc_eq mealy_run_Cons simp del: mealy_run.simps(2)
          split: if_splits)
  qed
  moreover have "tunnel_wf (app_tunnel s)" using wf by (simp add: app_wf_def)
  ultimately have "retries (fst (mealy_run tunnel_transition (app_tunnel s) ?es)) p =
      retries (app_tunnel s) p + disconnects (snd (mealy_run tunnel_transition (app_tunnel s) ?es)) p"
    using env by (intro run_retries) auto
  moreover have "disconnects (snd (peer_transition env (app_peer s) e)) p = 0"
    using peer_commands_are_network [of env "app_peer s" e] by (intro disconnects_none) auto
  ultimately show ?thesis by (simp add: app_transition_run)
qed

lemma waiting_step_counts:
  assumes step: "waiting_step api p n n'" and wf: "node_wf n" and obs: "observes api tally (disconnect_of p)"
  shows "tally (nd_swarm n') + retries (app_tunnel (nd_app n)) p =
      tally (nd_swarm n) + retries (app_tunnel (nd_app n')) p \<and> node_wf n'"
proof -
  obtain w where w: "w_api w = api" "env_ok (w_env w)" and one: "node_step w n n'"
    and waits: "waits_for n p" "waits_for n' p"
    using step by (auto simp: waiting_step_def)
  have wf': "node_wf n'" using step_safe [OF one w(2)] wf by (simp add: safe_step_def)
  have still: "tally (nd_swarm n') + retries (app_tunnel (nd_app n)) p =
      tally (nd_swarm n) + retries (app_tunnel (nd_app n')) p"
    if "nd_app n' = nd_app n" "nd_swarm n' = nd_swarm n \<or> swarm_call api (nd_swarm n) (nd_swarm n')"
    using that obs by (auto simp: observes_def)
  from one have "tally (nd_swarm n') + retries (app_tunnel (nd_app n)) p =
      tally (nd_swarm n) + retries (app_tunnel (nd_app n')) p"
  proof cases
    case (does_dispatch e)
    have "follows api [(w_env w, e)] n n'" using follows_dispatch [OF does_dispatch w(2)] w(1) by simp
    from follows_tally [OF this obs] have "tally (nd_swarm n') = tally (nd_swarm n) +
        disconnects (snd (app_transition (w_env w) (nd_app n) e)) p"
      by (simp add: sum_disconnects split_beta)
    moreover have "nd_app n' = fst (app_transition (w_env w) (nd_app n) e)" by (rule dispatch_app [OF does_dispatch])
    moreover have "app_wf (nd_app n)" using wf by (simp add: node_wf_def)
    ultimately show ?thesis
      using app_retries [OF w(2), of "nd_app n" p e] waits by (simp add: waits_for_def)
  next
    case (does_schedule q)
    have "nd_app n' = nd_app n \<and> nd_swarm n' = nd_swarm n"
      by (simp add: does_schedule schedule_boot_reconnect_def split: prod.split option.split)
    with still show ?thesis by blast
  qed (rule still; use w(1) in simp)+
  with wf' show ?thesis by blast
qed

text \<open>C15: While tunnels to a peer wait for a hole punch, the node disconnects that peer at most three
  times: over any elementary steps of its turns, in any order and with any events, during which the
  tunnels keep waiting, the calls to disconnect the peer are exactly as many as the retry counter
  has grown by, and no more than three.\<close>

theorem waiting_peer_disconnects_bounded:
  assumes "(waiting_step api p)\<^sup>*\<^sup>* n n'" and "node_wf n" and "observes api tally (disconnect_of p)"
  shows "tally (nd_swarm n') + retries (app_tunnel (nd_app n)) p =
      tally (nd_swarm n) + retries (app_tunnel (nd_app n')) p \<and>
    tally (nd_swarm n') \<le> tally (nd_swarm n) + 3"
proof -
  have "tally (nd_swarm n') + retries (app_tunnel (nd_app n)) p =
      tally (nd_swarm n) + retries (app_tunnel (nd_app n')) p \<and> node_wf n'"
    using assms(1)
  proof (induction rule: rtranclp_induct)
    case base
    with assms(2) show ?case by simp
  next
    case (step b c)
    with waiting_step_counts [OF step.hyps(2) _ assms(3)] show ?case by auto
  qed
  moreover from this have "retries (app_tunnel (nd_app n')) p \<le> 3"
    by (intro retries_bounded) (simp add: node_wf_def app_wf_def)
  ultimately show ?thesis by simp
qed

section \<open>The sample run\<close>

lemma node_follows_machine_witness:
  "\<exists>(n0 :: recording_swarm node_state) n es. swarm_run sample_api n0 n \<and> punching_node n \<and>
     nd_app n = fst (mealy_run app_transition (nd_app n0) es)"
proof -
  obtain n0 n where "app_phase (nd_app n0) = Ready"
    and turn: "node_turn (sample_world 5) (InSwarm (SwConnectionEstablished sample_peer (Suc 0) sample_circuit)) n0 = Some n"
    and n: "punching_node n"
    by (rule sample_first_turn)
  then have run: "swarm_run sample_api n0 n"
    by (intro swarm_turn [OF swarm_start _ _ _ turn]) simp_all
  from node_follows_machine [OF run] obtain es where "nd_app n = fst (mealy_run app_transition (nd_app n0) es)"
    by (auto simp: split_beta Let_def)
  with run n show ?thesis by blast
qed

lemma waiting_peer_disconnects_bounded_witness:
  "\<exists>(n :: recording_swarm node_state) n'. waiting_step sample_api sample_peer n n' \<and>
     recorded_disconnects sample_peer (nd_swarm n') = recorded_disconnects sample_peer (nd_swarm n) + 1"
proof -
  obtain n :: "recording_swarm node_state" where n: "node_between_turns n" "punching_node n"
    by (rule sample_punching)
  have wf: "node_wf n" by (rule between_turns [OF n(1)])
  let ?e = "HolePunchAttemptTimeout sample_peer 1"
  have "\<forall>c\<in>set (snd (app_transition (w_env (sample_world 6)) (nd_app n) ?e)). spawned c = []"
    by (rule punching_report_quiet(1) [OF n]) simp
  then obtain n' where d: "dispatch (sample_world 6) ?e n = Some n'" by (rule dispatch_quiet)
  have "registry_wf (tasks (nd_ctx n))" using wf by (simp add: node_wf_def)
  from dispatch_fails_punch [OF d _ attempt_of_punching(1) [OF n] this]
  have handled: "failure_handled sample_api n n' sample_peer" by simp
  have zero: "retries (app_tunnel (nd_app n)) sample_peer = 0"
    and waits: "waits_for n sample_peer"
    using n(2) by (simp_all add: punching_node_def waits_for_def contains_key_def)
  have one: "retries (app_tunnel (nd_app n')) sample_peer = 1" and "waits_for n' sample_peer"
    using handled zero waits
    by (simp_all add: failure_handled_def punch_failed_def waits_for_def contains_key_def)
  with waits d have step: "waiting_step sample_api sample_peer n n'"
    unfolding waiting_step_def
    by (intro conjI exI [of _ "sample_world 6"] does_dispatch [OF d]) simp_all
  then have path: "(waiting_step sample_api sample_peer)\<^sup>*\<^sup>* n n'" by (rule r_into_rtranclp)
  from waiting_peer_disconnects_bounded [OF path wf sample_observes] zero one
  have "recorded_disconnects sample_peer (nd_swarm n') = recorded_disconnects sample_peer (nd_swarm n) + 1"
    by simp
  with step show ?thesis by blast
qed

end
