(* ===== verification/Node_Log.thy ===== *)
theory Node_Log
  imports Node_Props Connection_Swarm
begin

text \<open>
  What the event loop of \<open>src/src/node/mod.rs\<close> logs, as data: a line has a level, a message and the
  fields of the \<open>tracing\<close> macro in their order, before they are printed.  The lines are functions of
  the states between which the loop is at that point; nothing reads them back.
\<close>

section \<open>Log lines\<close>

datatype log_level = Debug | Info | Warn

datatype log_value =
    LogText string
  | LogTexts "string list"
  | LogOptText "string option"
  | LogNat nat
  | LogBool bool
  | LogPeer peer_id
  | LogProviders "(peer_id \<times> bool) list"
  | LogName service_name
  | LogAddr multiaddr
  | LogAddrs "multiaddr list"
  | LogIp ip_addr
  | LogPorts "16 word fset"
  | LogPortsByIp "(ip_addr, 16 word fset) fmap"
  | LogPhase phase

record log_line =
  lg_level :: log_level
  lg_message :: string
  lg_fields :: "(string \<times> log_value) list"

abbreviation line :: "log_level \<Rightarrow> string \<Rightarrow> (string \<times> log_value) list \<Rightarrow> log_line" where
  "line level message fs \<equiv> \<lparr>lg_level = level, lg_message = message, lg_fields = fs\<rparr>"

abbreviation field :: "log_line \<Rightarrow> string \<Rightarrow> log_value option" where
  "field l name \<equiv> map_of (lg_fields l) name"

text \<open>An em dash in UTF-8.\<close>

definition em_dash :: string where
  "em_dash = [CHR 0xE2, CHR 0x80, CHR 0x94]"

definition direct_count_field :: "connection_state \<Rightarrow> peer_id \<Rightarrow> string \<times> log_value" where
  "direct_count_field conn peer = (''direct_connections'', LogNat (direct_connection_count conn peer))"

definition relayed_count_field :: "connection_state \<Rightarrow> peer_id \<Rightarrow> string \<times> log_value" where
  "relayed_count_field conn peer = (''relayed_connections'', LogNat (relayed_connection_count conn peer))"

definition timeout_secs :: nat where
  "timeout_secs = HOLE_PUNCH_TIMEOUT div 1000000000"

section \<open>Connections\<close>

fun log_connection_opened :: "peer_id \<Rightarrow> connection_id \<Rightarrow> connected_point \<Rightarrow> bool \<Rightarrow> log_line" where
  "log_connection_opened peer c (Dialer address) relayed =
     line Debug ''connection opened''
       [(''peer'', LogPeer peer), (''connection_id'', LogNat c), (''relayed'', LogBool relayed),
        (''direction'', LogText ''outbound''), (''remote_addr'', LogAddr address)]"
| "log_connection_opened peer c (Listener here send_back) relayed =
     line Debug ''connection opened''
       [(''peer'', LogPeer peer), (''connection_id'', LogNat c), (''relayed'', LogBool relayed),
        (''direction'', LogText ''inbound''), (''local_addr'', LogAddr here),
        (''remote_addr'', LogAddr send_back)]"

definition log_phase_transition :: "phase \<Rightarrow> phase \<Rightarrow> nat \<Rightarrow> log_line list" where
  "log_phase_transition old new commands =
     (if old = new then []
      else [line Info ''phase transition''
        [(''from'', LogPhase old), (''to'', LogPhase new), (''commands'', LogNat commands)]])"

text \<open>The lines of an established connection.  \<open>conn\<close> is the state of the records after the update
  and the start of an attempt, \<open>closed\<close> tells which connections \<open>close_connection\<close> found.\<close>

definition log_established ::
  "'sw node_world \<Rightarrow> (connection_id \<Rightarrow> bool) \<Rightarrow> app_state \<Rightarrow> connection_state \<Rightarrow> peer_id \<Rightarrow> connection_id \<Rightarrow>
   bool \<Rightarrow> 64 word option \<Rightarrow> connection_established_update \<Rightarrow> log_line list" where
  "log_established w closed app conn peer c relayed started update =
     (if relayed_connection_count conn peer + direct_connection_count conn peer = 1
      then [line Info ''peer connected''
        [(''peer'', LogPeer peer), (''relayed'', LogBool relayed),
         relayed_count_field conn peer, direct_count_field conn peer]] else []) @
     (case (case started of Some i \<Rightarrow> Some i | None \<Rightarrow> started_attempt_id update) of
        None \<Rightarrow> []
      | Some i \<Rightarrow> [line Debug ''relayed path active; waiting for DCUtR direct upgrade''
          [(''peer'', LogPeer peer), (''attempt_id'', LogNat (unat i)), (''connection_id'', LogNat c),
           (''timeout_secs'', LogNat timeout_secs)]]) @
     (case completed_attempt update of
        None \<Rightarrow> []
      | Some stats \<Rightarrow> [line Info ''hole punch succeeded (DCUtR); direct connection established''
          [(''peer'', LogPeer peer), (''attempt_id'', LogNat (unat (stats_attempt_id stats))),
           (''elapsed_ms'', LogNat (elapsed_ms stats (w_now w))),
           (''dials_started'', LogNat (unat (dials_started stats))),
           (''dial_failures'', LogNat (unat (dials_failed stats))),
           (''last_dial_error'', LogOptText (last_dial_error stats)),
           direct_count_field conn peer, relayed_count_field conn peer,
           (''known_addrs'', LogTexts (known_addrs_for_peer (w_env w) app peer))]]) @
     map (\<lambda>r. line Debug ''closed relayed connection after direct upgrade''
         [(''peer'', LogPeer peer), (''connection_id'', LogNat r)])
       (filter closed (relayed_connections_to_close update))"

definition log_dialing :: "connection_state \<Rightarrow> peer_id \<Rightarrow> connection_id \<Rightarrow> dialing_update \<Rightarrow> log_line list" where
  "log_dialing conn peer c update =
     (case update of
        DialTracked i attempt \<Rightarrow> [line Debug ''hole-punch dial attempt started''
          [(''peer'', LogPeer peer), (''attempt_id'', LogNat (unat i)), (''connection_id'', LogNat c),
           (''attempt'', LogNat (unat attempt)), relayed_count_field conn peer, direct_count_field conn peer]]
      | RelayOnlyWithoutActiveAttempt \<Rightarrow> [line Debug ''ignoring hole-punch dial start without active attempt''
          [(''peer'', LogPeer peer), (''connection_id'', LogNat c)]]
      | DialIgnored \<Rightarrow> [])"

definition log_outgoing_error ::
  "connection_state \<Rightarrow> connection_id \<Rightarrow> string \<Rightarrow> outgoing_error_update \<Rightarrow> log_line list" where
  "log_outgoing_error conn c text update =
     (case update of
        ErrorTracked peer i attempt failures \<Rightarrow>
          (let flags = hole_punch_error_flags_of text in
           [line Debug ''hole-punch dial attempt failed''
             [(''peer'', LogPeer peer), (''attempt_id'', LogNat (unat i)), (''connection_id'', LogNat c),
              (''attempt'', LogNat (unat attempt)), (''failures'', LogNat (unat failures)),
              (''error'', LogText text),
              (''has_handshake_timeout'', LogBool (has_handshake_timeout flags)),
              (''has_unsupported_bare_p2p'', LogBool (has_unsupported_bare_p2p flags)),
              (''has_pending_abort'', LogBool (has_pending_abort flags)),
              relayed_count_field conn peer, direct_count_field conn peer]])
      | StaleTracked peer expected received \<Rightarrow> [line Debug ''ignoring stale hole-punch dial failure''
          [(''peer'', LogPeer peer), (''expected_attempt'', LogNat (unat expected)),
           (''received_attempt'', LogNat (unat received)), (''connection_id'', LogNat c),
           (''error'', LogText text)]]
      | RelayOnlyUntracked peer \<Rightarrow> [line Debug ''ignoring untracked dial failure while relay-only''
          [(''peer'', LogPeer peer), (''connection_id'', LogNat c), (''error'', LogText text)]]
      | ErrorIgnored \<Rightarrow> [])"

definition log_external_candidate :: "multiaddr \<Rightarrow> log_line" where
  "log_external_candidate address =
     line Debug (if is_valid_external_candidate address then ''new external address candidate''
       else ''ignoring invalid external address candidate'') [(''address'', LogAddr address)]"

section \<open>Identify\<close>

text \<open>The public direct ports a peer advertises, for each address.\<close>

definition direct_public_ports_by_ip :: "multiaddr list \<Rightarrow> (ip_addr, 16 word fset) fmap" where
  "direct_public_ports_by_ip listen_addrs =
     fold (\<lambda>(ip, p) m. entry_insert ip p m)
       (List.map_filter extract_public_ip_port (filter is_valid_external_candidate listen_addrs)) fmempty"

definition log_identify ::
  "connection_state \<Rightarrow> peer_id \<Rightarrow> multiaddr list \<Rightarrow> multiaddr \<Rightarrow> log_line list" where
  "log_identify conn peer listen_addrs observed =
     [line Debug ''identify received''
       [(''peer'', LogPeer peer), (''observed_addr'', LogAddr observed),
        (''listen_addrs'', LogAddrs listen_addrs),
        (''public_listen_addrs'', LogAddrs (filter has_public_ip listen_addrs)),
        (''relayed_observation_ignored'', LogBool (has_relayed_connection conn peer))]] @
     (let ports = direct_public_ports_by_ip listen_addrs in
      if fBex (fmran ports) (\<lambda>ps. 1 < fcard ps)
      then [line Warn ''peer advertises multiple direct public ports; hole-punch candidates may be stale''
        [(''peer'', LogPeer peer), (''ports_by_ip'', LogPortsByIp ports)]] else [])"

text \<open>The ports observed for one of the node's own addresses, the new one included.\<close>

definition log_observed_port ::
  "nat_mapping \<Rightarrow> connection_state \<Rightarrow> (ip_addr, 16 word fset) fmap \<Rightarrow> peer_id \<Rightarrow> multiaddr \<Rightarrow> log_line list" where
  "log_observed_port stun conn observations peer observed =
     (if has_relayed_connection conn peer then []
      else case extract_public_ip_port observed of
             None \<Rightarrow> []
           | Some (ip, p) \<Rightarrow>
               (let known = get_or {||} observations ip; ports = finsert p known;
                    whose = [(''observer'', LogPeer peer), (''observed_ip'', LogIp ip)];
                    nat_field = (''nat'', LogText (show_nat_mapping stun)) in
                if p |\<in>| known then []
                else if fcard ports = 1
                then [line Debug ''NAT mapping observed'' (whose @ [(''observed_port'', LogNat (unat p))])]
                else case stun of
                  MappingUnknown \<Rightarrow>
                    [line Warn (''symmetric NAT likely '' @ em_dash @ '' multiple external ports for same IP, hole-punching may fail'')
                      (whose @ [(''observed_ports'', LogPorts ports)])]
                | EndpointIndependent \<Rightarrow>
                    [line Warn ''NAT mapping inconsistency: STUN says endpoint-independent but observations show multiple external ports''
                      (whose @ [(''observed_ports'', LogPorts ports), nat_field])]
                | AddressDependent \<Rightarrow>
                    [line Debug ''multiple external ports observed; consistent with restricted NAT classification''
                      (whose @ [(''observed_ports'', LogPorts ports), nat_field])]))"

section \<open>State events\<close>

text \<open>What is logged of an event before it is handed to the state machine; \<open>None\<close> is the \<open>continue\<close>
  that drops it, after a line of its own.\<close>

definition log_punch_failed ::
  "'sw node_world \<Rightarrow> nat_mapping \<Rightarrow> 'sw node_state \<Rightarrow> peer_id \<Rightarrow> 64 word \<Rightarrow> string \<Rightarrow> log_line \<times> bool" where
  "log_punch_failed w stun n peer i text =
     (let known = (''known_addrs'', LogTexts (known_addrs_for_peer (w_env w) (nd_app n) peer));
          what = [(''peer'', LogPeer peer), (''attempt_id'', LogNat (unat i)), (''reason'', LogText text),
                  (''nat'', LogText (nat_type_summary stun (nd_observed_ports n)))];
          counts = [direct_count_field (nd_conn n) peer, relayed_count_field (nd_conn n) peer]
      in case active_attempt_stats (nd_conn n) peer of
           Some stats \<Rightarrow>
             if stats_attempt_id stats \<noteq> i
             then (line Debug ''ignoring stale hole-punch failure event''
                [(''peer'', LogPeer peer), (''expected_attempt'', LogNat (unat (stats_attempt_id stats))),
                 (''received_attempt'', LogNat (unat i))], False)
             else (line Warn ''hole punch failed''
                (what @ [(''elapsed_ms'', LogNat (elapsed_ms stats (w_now w))),
                   (''dials_started'', LogNat (unat (dials_started stats))),
                   (''dial_failures'', LogNat (unat (dials_failed stats))),
                   (''last_dial_error'', LogOptText (last_dial_error stats))] @ counts @ [known]), True)
         | None \<Rightarrow> (line Warn ''hole punch failed'' (what @ counts @ [known]), True))"

definition log_state_event ::
  "'sw node_world \<Rightarrow> nat_mapping \<Rightarrow> 'sw node_state \<Rightarrow> event \<Rightarrow> log_line list \<times> bool" where
  "log_state_event w stun n e =
     (let known = (\<lambda>peer. (''known_addrs'', LogTexts (known_addrs_for_peer (w_env w) (nd_app n) peer))) in
      case e of
        DhtPeerLookupComplete peer connected \<Rightarrow> ([line Debug ''DHT peer lookup complete''
          [(''peer'', LogPeer peer), (''connected'', LogBool connected)]], True)
      | DhtServiceResolved service providers \<Rightarrow> ([line Info ''DHT provider resolved service''
          [(''service_name'', LogName service), (''provider_count'', LogNat (length providers)),
           (''providers'', LogProviders providers)]], True)
      | DhtServiceFailed service text \<Rightarrow> ([line Warn ''DHT provider lookup failed''
          [(''service_name'', LogName service), (''reason'', LogText text)]], True)
      | HolePunchAttemptStarted peer i \<Rightarrow> ([line Info ''hole punch started''
          [(''peer'', LogPeer peer), (''attempt_id'', LogNat (unat i)),
           (''timeout_secs'', LogNat timeout_secs), known peer]], True)
      | TunnelPeerConnected peer relayed \<Rightarrow> ([line Debug ''tunnel peer connected state updated''
          [(''peer'', LogPeer peer), (''relayed'', LogBool relayed), direct_count_field (nd_conn n) peer,
           relayed_count_field (nd_conn n) peer, known peer]], True)
      | TunnelDialFailed peer text \<Rightarrow> ([line Debug ''tunnel dial failed event received''
          [(''peer'', LogPeer peer), (''reason'', LogText text)]], True)
      | RelayReservationAccepted relay_peer \<Rightarrow> ([line Info ''relay reservation accepted''
          [(''relay_peer'', LogPeer relay_peer)]], True)
      | HolePunchAttemptFailed peer i text \<Rightarrow>
          (let (l, go_on) = log_punch_failed w stun n peer i text in ([l], go_on))
      | HolePunchAttemptTimeout peer i \<Rightarrow>
          ([line Warn ''hole punch timeout reached without direct upgrade; scheduling retry''
            [(''peer'', LogPeer peer), (''attempt_id'', LogNat (unat i)),
             (''timeout_secs'', LogNat timeout_secs), direct_count_field (nd_conn n) peer,
             relayed_count_field (nd_conn n) peer, known peer]], True)
      | _ \<Rightarrow> ([], True))"

text \<open>The name of the variant, as \<open>strum\<close> displays it.\<close>

fun event_label :: "event \<Rightarrow> string" where
  "event_label (ListeningOn _) = ''ListeningOn''"
| "event_label (BootstrapConnected _ _) = ''BootstrapConnected''"
| "event_label ShutdownRequested = ''ShutdownRequested''"
| "event_label KademliaBootstrapOk = ''KademliaBootstrapOk''"
| "event_label (KademliaBootstrapFailed _) = ''KademliaBootstrapFailed''"
| "event_label (MdnsDiscovered _) = ''MdnsDiscovered''"
| "event_label (MdnsExpired _) = ''MdnsExpired''"
| "event_label (PeerIdentified _ _ _) = ''PeerIdentified''"
| "event_label (NatStatusChanged _) = ''NatStatusChanged''"
| "event_label DiscoveryTimeout = ''DiscoveryTimeout''"
| "event_label (RelayReservationAccepted _) = ''RelayReservationAccepted''"
| "event_label (RelayReservationFailed _ _) = ''RelayReservationFailed''"
| "event_label (ConnectionLost _ _) = ''ConnectionLost''"
| "event_label NoBootstrapPeers = ''NoBootstrapPeers''"
| "event_label (ExternalAddrConfirmed _) = ''ExternalAddrConfirmed''"
| "event_label (ExternalAddrExpired _) = ''ExternalAddrExpired''"
| "event_label (DhtPeerLookupComplete _ _) = ''DhtPeerLookupComplete''"
| "event_label (DhtServiceResolved _ _) = ''DhtServiceResolved''"
| "event_label (DhtServiceFailed _ _) = ''DhtServiceFailed''"
| "event_label (TunnelDialFailed _ _) = ''TunnelDialFailed''"
| "event_label (TunnelPeerConnected _ _) = ''TunnelPeerConnected''"
| "event_label (HolePunchAttemptStarted _ _) = ''HolePunchAttemptStarted''"
| "event_label (HolePunchFailed _ _) = ''HolePunchFailed''"
| "event_label (HolePunchAttemptFailed _ _ _) = ''HolePunchAttemptFailed''"
| "event_label (HolePunchAttemptTimeout _ _) = ''HolePunchAttemptTimeout''"
| "event_label (PhaseChanged _ _) = ''PhaseChanged''"

text \<open>The lines of a transition, and of the arming of tunnel targets.\<close>

definition log_processed :: "'sw node_world \<Rightarrow> 'sw node_state \<Rightarrow> event \<Rightarrow> log_line list" where
  "log_processed w n e =
     (let (app, cmds) = app_transition (w_env w) (nd_app n) e in
      line Debug ''event processed''
        [(''event'', LogText (event_label e)), (''commands'', LogNat (length cmds))] #
      log_phase_transition (app_phase (nd_app n)) (app_phase app) (length cmds))"

fun log_arm_targets :: "'sw node_world \<Rightarrow> peer_id list \<Rightarrow> 'sw node_state \<Rightarrow> log_line list" where
  "log_arm_targets w [] n = []"
| "log_arm_targets w (peer # peers) n =
     (case start_hole_punch_attempt (w_now w) peer HOLE_PUNCH_TIMEOUT (nd_conn n) of
        (_, None) \<Rightarrow> log_arm_targets w peers n
      | (conn', Some i) \<Rightarrow>
          (let n1 = n\<lparr>nd_conn := conn'\<rparr>; e = HolePunchAttemptStarted peer i in
           line Info ''hole punch started''
             [(''peer'', LogPeer peer), (''attempt_id'', LogNat (unat i)),
              (''timeout_secs'', LogNat timeout_secs),
              (''known_addrs'', LogTexts (known_addrs_for_peer (w_env w) (nd_app n) peer))] #
           log_processed w n1 e @
           (case dispatch w e n1 of None \<Rightarrow> [] | Some n' \<Rightarrow> log_arm_targets w peers n')))"

text \<open>A bootstrap peer's view of the node's own address.\<close>

definition log_boot_observation :: "'sw node_world \<Rightarrow> peer_id \<Rightarrow> multiaddr \<Rightarrow> 'sw node_state \<Rightarrow> log_line list" where
  "log_boot_observation w peer observed n =
     (if peer |\<in>| w_boot w \<and> \<not> has_relayed_connection (nd_conn n) peer \<and> is_valid_external_candidate observed
      then case extract_public_ip_port observed of
             None \<Rightarrow> []
           | Some (ip, p) \<Rightarrow>
               (case fmlookup (nd_boot_observed n) ip of
                  Some prev \<Rightarrow>
                    if prev \<noteq> observed
                    then [line Info ''bootstrap observation replaced stale external address''
                      [(''observer'', LogPeer peer), (''observed_ip'', LogIp ip), (''old_addr'', LogAddr prev),
                       (''new_addr'', LogAddr observed)]] else []
                | None \<Rightarrow> []) @
               (if fmlookup (nd_boot_observed n) ip \<noteq> Some observed
                then [line Debug ''bootstrap observation refreshed external address for DCUtR''
                  [(''observer'', LogPeer peer), (''observed_ip'', LogIp ip),
                   (''observed_port'', LogNat (unat p))]] else [])
      else [])"

text \<open>All lines of the processing of one event, in order.\<close>

definition log_process_event :: "'sw node_world \<Rightarrow> nat_mapping \<Rightarrow> 'sw node_state \<Rightarrow> event \<Rightarrow> log_line list" where
  "log_process_event w stun n0 e0 =
     (case attempt_scoped (nd_conn n0) e0 of
        None \<Rightarrow>
          (case e0 of
             HolePunchFailed peer text \<Rightarrow>
               [line Warn ''hole punch failed (DCUtR reported error without active attempt)''
                 [(''peer'', LogPeer peer), (''reason'', LogText text),
                  (''nat'', LogText (nat_type_summary stun (nd_observed_ports n0)))]]
           | _ \<Rightarrow> [])
      | Some e \<Rightarrow>
          (let n1 = observe_identify w e n0; (lines, go_on) = log_state_event w stun n1 e in
           (case e of
              PeerIdentified peer listen_addrs observed \<Rightarrow>
                log_boot_observation w peer observed n0 @ log_identify (nd_conn n0) peer listen_addrs observed @
                log_observed_port stun (nd_conn n0) (nd_observed_ports n0) peer observed
            | _ \<Rightarrow> []) @
           lines @
           (if \<not> go_on then []
            else log_processed w n1 e @
              (case dispatch w e n1 of
                 None \<Rightarrow> []
               | Some n2 \<Rightarrow>
                   if app_phase (nd_app n2) = ShuttingDown then [line Info ''shutting down'' []]
                   else log_arm_targets w (holepunch_target_peers (w_env w) (app_tunnel (nd_app n2))) n2))))"

section \<open>Nothing happens silently\<close>

definition messages :: "log_line list \<Rightarrow> string list" where
  "messages ls = map lg_message ls"

lemma messages_simps [simp]:
  "messages [] = []" "messages (l # ls) = lg_message l # messages ls"
  "messages (ls @ ms) = messages ls @ messages ms"
  by (simp_all add: messages_def)

definition phase_lines :: "log_line list \<Rightarrow> log_line list" where
  "phase_lines ls = filter (\<lambda>l. lg_message l = ''phase transition'') ls"

lemma phase_lines_simps [simp]:
  "phase_lines [] = []" "phase_lines (ls @ ms) = phase_lines ls @ phase_lines ms"
  "phase_lines (l # ls) = (if lg_message l = ''phase transition'' then l # phase_lines ls else phase_lines ls)"
  by (simp_all add: phase_lines_def)

lemma state_event_continues: "snd (log_state_event w stun n e) \<longleftrightarrow> \<not> stale_attempt_failure (nd_conn n) e"
  by (cases e) (auto simp: log_state_event_def log_punch_failed_def stale_attempt_failure_def Let_def
      split: option.splits)

lemma state_event_plain:
  "phase_lines (fst (log_state_event w stun n e)) = []"
  "''event processed'' \<notin> set (messages (fst (log_state_event w stun n e)))"
  by (cases e; auto simp: log_state_event_def log_punch_failed_def Let_def split: option.splits)+

lemma stale_logged:
  "stale_attempt_failure (nd_conn n) e \<Longrightarrow> fst (log_state_event w stun n e) \<noteq> []"
  by (cases e) (auto simp: log_state_event_def log_punch_failed_def stale_attempt_failure_def Let_def
      split: option.splits)

lemma identify_plain:
  "phase_lines (log_boot_observation w p a n) = []" "phase_lines (log_identify c p as a) = []"
  "phase_lines (log_observed_port stun c obs p a) = []"
  by (auto simp: log_boot_observation_def log_identify_def log_observed_port_def Let_def split: option.splits
      nat_mapping.splits)

text \<open>Starting an attempt changes no phase, so arming logs no phase transition.\<close>

lemma attempt_keeps_phase: "app_phase (fst (app_transition env s (HolePunchAttemptStarted p i))) = app_phase s"
  by (simp add: app_transition_def app_phase_def split_beta Let_def)

lemma arm_plain: "phase_lines (log_arm_targets w ps n) = []"
proof (induction ps arbitrary: n)
  case Nil
  then show ?case by simp
next
  case (Cons p ps)
  have "phase_lines (log_processed w m (HolePunchAttemptStarted p i)) = []" for m i
    using attempt_keeps_phase [of "w_env w" "nd_app m" p i]
    by (simp add: log_processed_def log_phase_transition_def split_beta Let_def)
  with Cons show ?case
    by (auto simp: Let_def split: prod.split option.split)
qed

text \<open>An event that is not handed to the state machine.\<close>

definition dropped :: "connection_state \<Rightarrow> event \<Rightarrow> bool" where
  "dropped conn e \<longleftrightarrow>
     (case attempt_scoped conn e of None \<Rightarrow> True | Some e' \<Rightarrow> stale_attempt_failure conn e')"

lemma phase_kept_dispatch:
  "dispatch w (HolePunchAttemptStarted p i) n = Some n' \<Longrightarrow> app_phase (nd_app n') = app_phase (nd_app n)"
  using attempt_keeps_phase [of "w_env w" "nd_app n" p i] by (auto simp: dispatch_def split_beta)

lemma arm_keeps_phase: "arm_targets w ps n = Some n' \<Longrightarrow> app_phase (nd_app n') = app_phase (nd_app n)"
proof (induction w ps n rule: arm_targets.induct)
  case (1 w n)
  then show ?case by simp
next
  case (2 w p ps n)
  then show ?case
    by (fastforce split: prod.splits option.splits dest: phase_kept_dispatch)
qed

lemma observed_frame:
  "nd_app (observe_identify w e n) = nd_app n" "nd_conn (observe_identify w e n) = nd_conn n"
  "nd_ctx (observe_identify w e n) = nd_ctx n"
  by (simp_all add: observe_identify_def record_observed_port_def refresh_bootstrap_observation_def Let_def
      split: event.split option.split)

lemma dropped_log:
  assumes "dropped (nd_conn n) e" and "process_event w e n = Some (n', go_on)"
  shows "log_process_event w stun n e \<noteq> []"
    and "''event processed'' \<notin> set (messages (log_process_event w stun n e))"
    and "phase_lines (log_process_event w stun n e) = []"
    and "nd_app n' = nd_app n" and "nd_ctx n' = nd_ctx n" and "nd_conn n' = nd_conn n"
proof -
  have "log_process_event w stun n e \<noteq> [] \<and>
    ''event processed'' \<notin> set (messages (log_process_event w stun n e)) \<and>
    phase_lines (log_process_event w stun n e) = [] \<and>
    nd_app n' = nd_app n \<and> nd_ctx n' = nd_ctx n \<and> nd_conn n' = nd_conn n"
  proof (cases "attempt_scoped (nd_conn n) e")
    case None
    then show ?thesis
      using assms by (cases e) (auto simp: log_process_event_def process_event_def)
  next
    case (Some e')
    let ?n1 = "observe_identify w e' n"
    have stale: "stale_attempt_failure (nd_conn n) e'" using assms(1) Some by (simp add: dropped_def)
    then have no_identify: "(case e' of PeerIdentified p as a \<Rightarrow> f p as a | _ \<Rightarrow> []) = []" for f :: "_ \<Rightarrow> _ \<Rightarrow> _ \<Rightarrow> log_line list"
      by (cases e') (auto simp: stale_attempt_failure_def)
    obtain ls where ls: "log_state_event w stun ?n1 e' = (ls, False)"
      using state_event_continues [of w stun ?n1 e'] stale by (metis observed_frame(2) prod.collapse)
    have "log_process_event w stun n e = ls"
      by (simp add: log_process_event_def Some Let_def ls no_identify)
    moreover have "n' = ?n1" using assms(2) Some stale by (simp add: process_event_def Let_def observed_frame)
    ultimately show ?thesis
      using state_event_plain [of w stun ?n1 e'] stale_logged [of ?n1 e' w stun] stale
      by (simp add: observed_frame ls)
  qed
  then show "log_process_event w stun n e \<noteq> []"
    and "''event processed'' \<notin> set (messages (log_process_event w stun n e))"
    and "phase_lines (log_process_event w stun n e) = []"
    and "nd_app n' = nd_app n" and "nd_ctx n' = nd_ctx n" and "nd_conn n' = nd_conn n"
    by simp_all
qed

lemma processed_log:
  assumes "\<not> dropped (nd_conn n) e" and "process_event w e n = Some (n', go_on)"
  shows "''event processed'' \<in> set (messages (log_process_event w stun n e))"
    and "\<exists>k. phase_lines (log_process_event w stun n e) =
      log_phase_transition (app_phase (nd_app n)) (app_phase (nd_app n')) k"
proof -
  obtain e' where e': "attempt_scoped (nd_conn n) e = Some e'" "\<not> stale_attempt_failure (nd_conn n) e'"
    using assms(1) by (auto simp: dropped_def split: option.splits)
  let ?n1 = "observe_identify w e' n"
  obtain ls where ls: "log_state_event w stun ?n1 e' = (ls, True)"
    using state_event_continues [of w stun ?n1 e'] e'(2) by (metis observed_frame(2) prod.collapse)
  obtain n2 where d: "dispatch w e' ?n1 = Some n2"
    and arm: "arm_hole_punch_for_tunnel_targets w n2 = Some n'"
    using assms(2) e' by (auto simp: process_event_def Let_def observed_frame split: option.splits)
  have same: "app_phase (nd_app n') = app_phase (nd_app n2)"
    using arm arm_keeps_phase by (auto simp: arm_hole_punch_for_tunnel_targets_def split: if_splits)
  define ids where "ids = (case e' of PeerIdentified peer listen_addrs observed \<Rightarrow>
      log_boot_observation w peer observed n @ log_identify (nd_conn n) peer listen_addrs observed @
      log_observed_port stun (nd_conn n) (nd_observed_ports n) peer observed | _ \<Rightarrow> [])"
  define rest where "rest = (if app_phase (nd_app n2) = ShuttingDown then [line Info ''shutting down'' []]
      else log_arm_targets w (holepunch_target_peers (w_env w) (app_tunnel (nd_app n2))) n2)"
  have all: "log_process_event w stun n e = ids @ ls @ log_processed w ?n1 e' @ rest"
    by (simp add: log_process_event_def e'(1) ls d Let_def ids_def rest_def)
  show "''event processed'' \<in> set (messages (log_process_event w stun n e))"
    by (simp add: all log_processed_def split_beta Let_def)
  have "phase_lines ids = []" by (simp add: ids_def identify_plain split: event.split)
  moreover have "phase_lines rest = []" by (simp add: rest_def arm_plain)
  moreover have "phase_lines ls = []" using state_event_plain(1) [of w stun ?n1 e'] ls by simp
  moreover have "nd_app n2 = fst (app_transition (w_env w) (nd_app n) e')"
    using d by (auto simp: dispatch_def split_beta observed_frame)
  ultimately show "\<exists>k. phase_lines (log_process_event w stun n e) =
      log_phase_transition (app_phase (nd_app n)) (app_phase (nd_app n')) k"
    unfolding all same
    by (intro exI [of _ "length (snd (app_transition (w_env w) (nd_app n) e'))"])
      (simp add: log_processed_def log_phase_transition_def split_beta Let_def observed_frame)
qed

text \<open>No event disappears without a trace: of every event that is processed, the log says that it was handed
  to the state machine, or why not, and then the machine, the records of connections and the context
  of execution are as before.  A line tells of a phase transition exactly when the phase changed, and
  from which phase to which.\<close>

lemma log_accounts_for_events:
  assumes "process_event w e n = Some (n', go_on)"
  shows "let ls = log_process_event w stun n e in ls \<noteq> [] \<and>
    (''event processed'' \<in> set (messages ls) \<or>
       nd_app n' = nd_app n \<and> nd_conn n' = nd_conn n \<and> nd_ctx n' = nd_ctx n) \<and>
    (\<exists>k. phase_lines ls = log_phase_transition (app_phase (nd_app n)) (app_phase (nd_app n')) k)"
proof (cases "dropped (nd_conn n) e")
  case True
  with dropped_log [OF True assms] show ?thesis by (simp add: log_phase_transition_def)
next
  case False
  with processed_log [OF False assms, of stun] show ?thesis by (auto simp: Let_def)
qed

text \<open>A DCUtR error without an attempt under way.\<close>

lemma log_accounts_for_events_witness:
  "messages (log_process_event (sample_world 0) MappingUnknown sample_node
     (HolePunchFailed (PeerId ''x'') ''no response'')) =
   [''hole punch failed (DCUtR reported error without active attempt)''] \<and>
   process_event (sample_world 0) (HolePunchFailed (PeerId ''x'') ''no response'') sample_node =
     Some (sample_node, True)"
proof -
  let ?e = "HolePunchFailed (PeerId ''x'') ''no response''"
  have none: "attempt_scoped (nd_conn sample_node) ?e = None"
    by (simp add: sample_node_def active_attempt_stats_def sample_relayed_def on_connection_established_def
        new_connection_state_def)
  then have p: "process_event (sample_world 0) ?e sample_node = Some (sample_node, True)"
    by (simp add: process_event_def)
  from log_accounts_for_events [OF this, of MappingUnknown]
  have "log_process_event (sample_world 0) MappingUnknown sample_node ?e \<noteq> []" by (simp add: Let_def)
  with none p show ?thesis by (simp add: log_process_event_def)
qed

section \<open>Warnings about the NAT\<close>

text \<open>A warning is logged for an observed address exactly when the connection is direct, the address is
  a public one whose port is new while other ports were seen for the same address, and STUN did not
  say that the mapping depends on the address; and then, if STUN said nothing, the summary given with
  every later failure of a hole punch calls the NAT symmetric.\<close>

lemma nat_warning_consistent:
  "let ls = log_observed_port stun (nd_conn n) (nd_observed_ports n) peer observed;
       warned = (\<exists>l\<in>set ls. lg_level l = Warn);
       after = nd_observed_ports (record_observed_port peer observed n) in
   (warned \<longleftrightarrow> \<not> has_relayed_connection (nd_conn n) peer \<and> stun \<noteq> AddressDependent \<and>
      (\<exists>ip p q. extract_public_ip_port observed = Some (ip, p) \<and>
         p |\<notin>| get_or {||} (nd_observed_ports n) ip \<and> q |\<in>| get_or {||} (nd_observed_ports n) ip)) \<and>
   (warned \<and> stun = MappingUnknown \<longrightarrow>
      nat_type_summary stun after = ''symmetric NAT likely (multiple ports per IP)'')"
proof -
  define ls where "ls = log_observed_port stun (nd_conn n) (nd_observed_ports n) peer observed"
  define known where "known = get_or {||} (nd_observed_ports n)"
  have one: "fcard (finsert p ps) = Suc 0 \<longleftrightarrow> ps |\<subseteq>| {|p|}" for p and ps :: "16 word fset"
  proof -
    have "card (insert p (fset ps)) = Suc 0 \<longleftrightarrow> fset ps \<subseteq> {p}"
      by (auto simp: card_1_singleton_iff)
    then show ?thesis by (simp add: fcard.rep_eq less_eq_fset.rep_eq)
  qed
  have warned: "(\<exists>l\<in>set ls. lg_level l = Warn) \<longleftrightarrow>
      \<not> has_relayed_connection (nd_conn n) peer \<and> stun \<noteq> AddressDependent \<and>
      (\<exists>ip p q. extract_public_ip_port observed = Some (ip, p) \<and> p |\<notin>| known ip \<and> q |\<in>| known ip)"
  proof (cases "extract_public_ip_port observed")
    case None
    then show ?thesis by (simp add: ls_def log_observed_port_def)
  next
    case (Some a)
    obtain ip p where a: "a = (ip, p)" by (metis surj_pair)
    have "known ip |\<subseteq>| {|p|} \<longleftrightarrow> known ip = {||}" if "p |\<notin>| known ip" using that by auto
    then show ?thesis
      using Some a
      by (cases stun) (auto simp: ls_def log_observed_port_def known_def [symmetric] one Let_def)
  qed
  have "nat_type_summary stun (nd_observed_ports (record_observed_port peer observed n)) =
      ''symmetric NAT likely (multiple ports per IP)''"
    if w: "\<exists>l\<in>set ls. lg_level l = Warn" and stun: "stun = MappingUnknown"
  proof -
    from w warned obtain ip p q where a: "extract_public_ip_port observed = Some (ip, p)"
      and pq: "p |\<notin>| known ip" "q |\<in>| known ip" and r: "\<not> has_relayed_connection (nd_conn n) peer" by blast
    have "fmlookup (nd_observed_ports (record_observed_port peer observed n)) ip = Some (finsert p (known ip))"
      using a r by (simp add: record_observed_port_def known_def)
    with pq show ?thesis
      unfolding stun summary_symmetric_iff
      by (intro exI [of _ ip] exI [of _ "finsert p (known ip)"] exI [of _ p] exI [of _ q]) auto
  qed
  with warned show ?thesis unfolding ls_def known_def Let_def by blast
qed

text \<open>The warning about a peer: two of the valid addresses it advertises share the address and differ in
  the port.\<close>

lemma ports_collected:
  "fset (get_or {||} (fold (\<lambda>(ip, p) m. entry_insert ip p m) xs m) ip) =
     fset (get_or {||} m ip) \<union> {p. (ip, p) \<in> set xs}"
proof (induction xs arbitrary: m)
  case Nil
  then show ?case by simp
next
  case (Cons x xs)
  obtain i p where "x = (i, p)" by (metis surj_pair)
  with Cons show ?case by (auto simp: get_or_entry_insert)
qed

lemma several_ports: "1 < fcard ps \<longleftrightarrow> (\<exists>p q. p |\<in>| ps \<and> q |\<in>| ps \<and> p \<noteq> q)"
proof -
  have "card (fset ps) \<le> Suc 0 \<longleftrightarrow> (\<forall>p\<in>fset ps. \<forall>q\<in>fset ps. p = q)"
    by (rule card_le_Suc0_iff_eq) simp
  then show ?thesis by (auto simp: fcard.rep_eq not_less_eq_eq not_le [symmetric])
qed

lemma peer_ports_warning:
  "(\<exists>l\<in>set (log_identify conn peer listen_addrs observed). lg_level l = Warn) \<longleftrightarrow>
     (\<exists>a\<in>set listen_addrs. \<exists>b\<in>set listen_addrs. \<exists>ip p q.
        is_valid_external_candidate a \<and> is_valid_external_candidate b \<and>
        extract_public_ip_port a = Some (ip, p) \<and> extract_public_ip_port b = Some (ip, q) \<and> p \<noteq> q)"
proof -
  define m where "m = direct_public_ports_by_ip listen_addrs"
  have at: "fset (get_or {||} m ip) =
      {p. \<exists>a\<in>set listen_addrs. is_valid_external_candidate a \<and> extract_public_ip_port a = Some (ip, p)}" for ip
    by (force simp: m_def direct_public_ports_by_ip_def ports_collected List.map_filter_def)
  have "fBex (fmran m) (\<lambda>ps. 1 < fcard ps) \<longleftrightarrow> (\<exists>ip. 1 < fcard (get_or {||} m ip))"
  proof
    assume "fBex (fmran m) (\<lambda>ps. 1 < fcard ps)"
    then obtain ip ps where "fmlookup m ip = Some ps" "1 < fcard ps" by (auto simp: fmlookup_ran_iff)
    then have "1 < fcard (get_or {||} m ip)" by (simp add: get_or_def)
    then show "\<exists>ip. 1 < fcard (get_or {||} m ip)" by blast
  next
    assume "\<exists>ip. 1 < fcard (get_or {||} m ip)"
    then obtain ip where ip: "1 < fcard (get_or {||} m ip)" by blast
    then obtain ps where "fmlookup m ip = Some ps" by (cases "fmlookup m ip") (auto simp: get_or_def fcard.rep_eq)
    with ip show "fBex (fmran m) (\<lambda>ps. 1 < fcard ps)" by (auto simp: get_or_def intro: fmranI)
  qed
  also have "\<dots> \<longleftrightarrow> (\<exists>ip p q. p \<in> fset (get_or {||} m ip) \<and> q \<in> fset (get_or {||} m ip) \<and> p \<noteq> q)"
    unfolding several_ports by blast
  also have "\<dots> \<longleftrightarrow> (\<exists>a\<in>set listen_addrs. \<exists>b\<in>set listen_addrs. \<exists>ip p q.
        is_valid_external_candidate a \<and> is_valid_external_candidate b \<and>
        extract_public_ip_port a = Some (ip, p) \<and> extract_public_ip_port b = Some (ip, q) \<and> p \<noteq> q)"
    unfolding at by blast
  finally show ?thesis by (simp add: log_identify_def m_def [symmetric] Let_def)
qed

section \<open>Counters\<close>

text \<open>In a reachable state of the records, no line about the end of an attempt tells of more failed dials
  than of started ones.\<close>

definition counters_sound :: "log_line \<Rightarrow> bool" where
  "counters_sound l \<longleftrightarrow>
     (case (field l ''dial_failures'', field l ''dials_started'') of
        (Some (LogNat f), Some (LogNat s)) \<Rightarrow> f \<le> s
      | (None, None) \<Rightarrow> True
      | _ \<Rightarrow> False)"

lemma failure_counters_sound:
  assumes "conn_reachable (nd_conn n)"
  shows "\<forall>l\<in>set (fst (log_state_event w stun n e)). counters_sound l"
proof -
  have "unat (dials_failed stats) \<le> unat (dials_started stats)"
    if "active_attempt_stats (nd_conn n) p = Some stats" for p stats
    using reachable_failed_le [OF assms] that by (auto simp: active_attempt_stats_def word_le_nat_alt)
  then show ?thesis
    by (cases e) (auto simp: log_state_event_def log_punch_failed_def counters_sound_def direct_count_field_def
        relayed_count_field_def Let_def split: option.splits if_splits)
qed

text \<open>A dial is logged exactly when its peer is relay-only; a failed dial is never logged as one of a
  superseded attempt.\<close>

lemma dials_logged:
  "log_dialing conn' p c (snd (on_dialing p c s)) \<noteq> [] \<longleftrightarrow> peer_is_relay_only s p"
  by (auto simp: log_dialing_def on_dialing_def Let_def split: option.split)

lemma stale_dials_unlogged:
  assumes "conn_reachable s"
  shows "''ignoring stale hole-punch dial failure'' \<notin>
    set (messages (log_outgoing_error conn' c err (snd (on_outgoing_connection_error peer_opt c err s))))"
  using stale_dials_unreachable [OF assms, of peer_opt c err]
  by (auto simp: log_outgoing_error_def Let_def split: outgoing_error_update.split)

text \<open>The end of an attempt by a direct connection is logged with sound counters as well.\<close>

lemma success_counters_sound:
  assumes "conn_reachable s"
  shows "\<forall>l\<in>set (log_established w closed app conn' p c r started (snd (on_connection_established ord p c r s))).
    lg_message l = ''hole punch succeeded (DCUtR); direct connection established'' \<longrightarrow> counters_sound l"
proof -
  have "unat (dials_failed stats) \<le> unat (dials_started stats)"
    if "completed_attempt (snd (on_connection_established ord p c r s)) = Some stats" for stats
  proof -
    have "fmlookup (hole_punch_attempts s) p = Some stats"
      using that by (auto simp: on_connection_established_def complete_hole_punch_attempt_def Let_def
          remove_pending_hole_punch_dials_for_peer_def split: if_splits option.splits)
    from reachable_failed_le [OF assms this] show ?thesis by (simp add: word_le_nat_alt)
  qed
  then show ?thesis
    by (auto simp: log_established_def counters_sound_def direct_count_field_def relayed_count_field_def
        split: option.splits if_splits)
qed

end
