(* ===== verification/Test_Support.thy ===== *)
theory Test_Support
  imports Events
begin

text \<open>
  The generators of \<open>src/src/test_utils.rs\<close> as predicates: the values that a property test may be
  given.  A peer is any peer: its generator hashes the public key of a seed, which is libp2p's.
\<close>

definition arb_port :: "16 word \<Rightarrow> bool" where
  "arb_port p \<longleftrightarrow> 1024 \<le> p \<and> p < 65535"

definition arb_phase :: "phase \<Rightarrow> bool" where
  "arb_phase p \<longleftrightarrow> List.member [Joining, Ready, ShuttingDown] p"

definition arb_nat_status :: "nat_status \<Rightarrow> bool" where
  "arb_nat_status status \<longleftrightarrow> List.member [Unknown, Public, Private] status"

text \<open>No phase and no status is left out, so a test over them is one over the whole type.\<close>

lemma state_generators_total: "arb_phase p" "arb_nat_status status"
  by (cases p; simp add: arb_phase_def) (cases status; simp add: arb_nat_status_def)

fun arb_multiaddr :: "multiaddr \<Rightarrow> bool" where
  "arb_multiaddr [Ip4 (Ipv4 a b c d), Tcp number] \<longleftrightarrow>
     1 \<le> a \<and> a \<le> 254 \<and> 1 \<le> d \<and> d \<le> 254 \<and> 1024 \<le> number \<and> number < 65535"
| "arb_multiaddr _ \<longleftrightarrow> False"

fun arb_nonloopback_multiaddr :: "multiaddr \<Rightarrow> bool" where
  "arb_nonloopback_multiaddr [Ip4 (Ipv4 a b c d), Tcp number] \<longleftrightarrow>
     (1 \<le> a \<and> a \<le> 126 \<or> 128 \<le> a \<and> a \<le> 254) \<and> 1 \<le> d \<and> d \<le> 254 \<and>
     1024 \<le> number \<and> number < 65535"
| "arb_nonloopback_multiaddr _ \<longleftrightarrow> False"

fun arb_public_multiaddr :: "multiaddr \<Rightarrow> bool" where
  "arb_public_multiaddr [Ip4 (Ipv4 a b c d), Udp number, QuicV1] \<longleftrightarrow>
     1 \<le> a \<and> a \<le> 223 \<and> 1 \<le> d \<and> d \<le> 254 \<and> 1024 \<le> number \<and> number < 65535 \<and>
     \<not> v4_is_private (Ipv4 a b 0 0) \<and> \<not> v4_is_loopback (Ipv4 a b 0 0) \<and>
     \<not> v4_is_unspecified (Ipv4 a b 0 0)"
| "arb_public_multiaddr _ \<longleftrightarrow> False"

fun arb_private_multiaddr :: "multiaddr \<Rightarrow> bool" where
  "arb_private_multiaddr [Ip4 (Ipv4 a b c d), Udp number, QuicV1] \<longleftrightarrow>
     (a = 10 \<or> a = 172 \<and> 16 \<le> b \<and> b \<le> 31 \<or> a = 192 \<and> b = 168) \<and>
     1024 \<le> number \<and> number < 65535"
| "arb_private_multiaddr _ \<longleftrightarrow> False"

definition arb_relay_circuit_multiaddr :: "multiaddr \<Rightarrow> bool" where
  "arb_relay_circuit_multiaddr a \<longleftrightarrow>
     (case rev a of
        P2pCircuit # P2p _ # base \<Rightarrow> arb_nonloopback_multiaddr (rev base)
      | _ \<Rightarrow> False)"

lemma public_form:
  "arb_public_multiaddr a \<Longrightarrow> \<exists>ip number. a = [Ip4 ip, Udp number, QuicV1] \<and>
     \<not> v4_is_private ip \<and> \<not> v4_is_loopback ip \<and> \<not> v4_is_unspecified ip"
  by (cases a rule: arb_public_multiaddr.cases) auto

lemma private_form:
  "arb_private_multiaddr a \<Longrightarrow> \<exists>ip number. a = [Ip4 ip, Udp number, QuicV1] \<and> v4_is_private ip"
  by (cases a rule: arb_private_multiaddr.cases) auto

lemma nonloopback_form:
  "arb_nonloopback_multiaddr a \<Longrightarrow> \<exists>ip number. a = [Ip4 ip, Tcp number] \<and> \<not> v4_is_loopback ip"
  by (cases a rule: arb_nonloopback_multiaddr.cases) (auto simp: word_le_nat_alt)

end
