(* ===== verification/Peer_Tests.thy ===== *)
theory Peer_Tests
  imports Peer_Facts Test_Support
begin

text \<open>
  The tests of \<open>src/src/state/peer.rs\<close>, each as a predicate on the values it is given: the assertions
  of the test, in their order.  They hold for all values, not only for those a run of the test
  draws.
\<close>

section \<open>The tests\<close>

definition shutdown_absorbs_any_phase :: "step_env \<Rightarrow> phase \<Rightarrow> bool" where
  "shutdown_absorbs_any_phase env ph =
     (let state = new_peer_state\<lparr>phase := ph\<rparr>;
          (new_state, commands) = peer_transition env state ShutdownRequested
      in phase new_state = ShuttingDown \<and> Shutdown \<in> set commands)"

definition bootstrap_stays_joining :: "step_env \<Rightarrow> peer_id \<Rightarrow> multiaddr \<Rightarrow> bool" where
  "bootstrap_stays_joining env peer addr =
     (let (new_state, commands) = peer_transition env new_peer_state (BootstrapConnected peer addr)
      in phase new_state = Joining \<and> KademliaBootstrap \<in> set commands \<and>
         KademliaAddAddress peer addr \<in> set commands \<and>
         contains_key (known_peers new_state) peer \<and> peer |\<in>| bootstrap_peers new_state)"

definition second_bootstrap_reissues_kad_bootstrap ::
  "step_env \<Rightarrow> peer_id \<Rightarrow> peer_id \<Rightarrow> multiaddr \<Rightarrow> multiaddr \<Rightarrow> bool" where
  "second_bootstrap_reissues_kad_bootstrap env peer1 peer2 addr1 addr2 =
     (let (state, _) = peer_transition env new_peer_state (BootstrapConnected peer1 addr1);
          (state', commands) = peer_transition env state (BootstrapConnected peer2 addr2)
      in phase state = Joining \<and> phase state' = Joining \<and> KademliaBootstrap \<in> set commands)"

definition kad_completion_needs_external_addrs_for_ready ::
  "step_env \<Rightarrow> peer_id \<Rightarrow> multiaddr \<Rightarrow> multiaddr \<Rightarrow> bool" where
  "kad_completion_needs_external_addrs_for_ready env peer addr external_addr =
     (let (s1, _) = peer_transition env new_peer_state (BootstrapConnected peer addr);
          (s2, _) = peer_transition env s1 KademliaBootstrapOk;
          (s3, _) = peer_transition env s2 (ExternalAddrConfirmed external_addr)
      in phase s1 = Joining \<and> phase s2 = Joining \<and> kad_bootstrapped s2 \<and> phase s3 = Ready)"

definition external_addr_confirmed_triggers_ready ::
  "step_env \<Rightarrow> peer_id \<Rightarrow> multiaddr \<Rightarrow> multiaddr \<Rightarrow> bool" where
  "external_addr_confirmed_triggers_ready env peer addr external_addr =
     (let (s1, _) = peer_transition env new_peer_state (BootstrapConnected peer addr);
          (s2, _) = peer_transition env s1 (ExternalAddrConfirmed external_addr);
          (s3, _) = peer_transition env s2 KademliaBootstrapOk
      in phase s2 = Joining \<and> external_addr |\<in>| external_addrs s2 \<and> phase s3 = Ready)"

definition discovery_timeout_enters_ready_with_kad_and_peers ::
  "step_env \<Rightarrow> peer_id \<Rightarrow> multiaddr \<Rightarrow> bool" where
  "discovery_timeout_enters_ready_with_kad_and_peers env peer addr =
     (let state = new_peer_state\<lparr>phase := Joining, kad_bootstrapped := True,
            known_peers := entry_insert peer addr fmempty\<rparr>;
          (state', _) = peer_transition env state DiscoveryTimeout
      in phase state' = Ready)"

definition discovery_timeout_with_no_peers_stays_joining :: "step_env \<Rightarrow> nat_status \<Rightarrow> bool" where
  "discovery_timeout_with_no_peers_stays_joining env status =
     (let state = new_peer_state\<lparr>phase := Joining, nat_status := status\<rparr>;
          (state', _) = peer_transition env state DiscoveryTimeout
      in phase state' = Joining)"

definition bootstrap_reconnect_in_ready_refreshes :: "step_env \<Rightarrow> peer_id \<Rightarrow> multiaddr \<Rightarrow> bool" where
  "bootstrap_reconnect_in_ready_refreshes env peer addr =
     (let state = new_peer_state\<lparr>phase := Ready, bootstrap_peers := {|peer|}\<rparr>;
          (state', commands) = peer_transition env state (BootstrapConnected peer addr)
      in phase state' = Ready \<and> KademliaBootstrap \<in> set commands)"

definition nat_status_always_updates :: "step_env \<Rightarrow> phase \<Rightarrow> nat_status \<Rightarrow> bool" where
  "nat_status_always_updates env ph new_status =
     (let state = new_peer_state\<lparr>phase := ph\<rparr>;
          (new_state, _) = peer_transition env state (NatStatusChanged new_status)
      in nat_status new_state = new_status)"

definition nat_transitions_symmetric :: "step_env \<Rightarrow> nat_status \<Rightarrow> nat_status \<Rightarrow> bool" where
  "nat_transitions_symmetric env from_status to_status =
     (let state = new_peer_state\<lparr>phase := Joining\<rparr>;
          (s1, _) = peer_transition env state (NatStatusChanged from_status);
          (s2, _) = peer_transition env s1 (NatStatusChanged to_status)
      in nat_status s1 = from_status \<and> nat_status s2 = to_status)"

definition nat_private_requests_relay :: "step_env \<Rightarrow> peer_id \<Rightarrow> multiaddr \<Rightarrow> bool" where
  "nat_private_requests_relay env peer addr =
     (let state = new_peer_state\<lparr>phase := Joining, bootstrap_peers := {|peer|},
            known_peers := entry_insert peer addr fmempty\<rparr>;
          (state', commands) = peer_transition env state (NatStatusChanged Private)
      in nat_status state' = Private \<and>
         list_ex (\<lambda>c. case c of RequestRelayReservation relay_peer _ \<Rightarrow> relay_peer = peer | _ \<Rightarrow> False)
           commands)"

definition mdns_discovered_preserves_phase_and_nat ::
  "step_env \<Rightarrow> phase \<Rightarrow> nat_status \<Rightarrow> peer_id \<Rightarrow> multiaddr \<Rightarrow> bool" where
  "mdns_discovered_preserves_phase_and_nat env ph status peer addr =
     (let state = new_peer_state\<lparr>phase := ph, nat_status := status\<rparr>;
          (new_state, commands) = peer_transition env state (MdnsDiscovered [(peer, addr)])
      in phase new_state = ph \<and> nat_status new_state = status \<and>
         contains_key (known_peers new_state) peer \<and> KademliaAddAddress peer addr \<in> set commands)"

definition mdns_expired_removes_addresses ::
  "step_env \<Rightarrow> peer_id \<Rightarrow> multiaddr \<Rightarrow> multiaddr \<Rightarrow> bool" where
  "mdns_expired_removes_addresses env peer addr1 addr2 =
     (let state = new_peer_state\<lparr>known_peers :=
            entry_insert peer addr2 (entry_insert peer addr1 fmempty)\<rparr>;
          (s1, _) = peer_transition env state (MdnsExpired [(peer, addr1)]);
          (s2, _) = peer_transition env s1 (MdnsExpired [(peer, addr2)])
      in if addr1 = addr2 then \<not> contains_key (known_peers s1) peer
         else contains_key (known_peers s1) peer \<and> \<not> contains_key (known_peers s2) peer)"

definition no_bootstrap_peers_enters_ready :: "step_env \<Rightarrow> phase \<Rightarrow> bool" where
  "no_bootstrap_peers_enters_ready env ph =
     (let state = new_peer_state\<lparr>phase := ph\<rparr>;
          (new_state, _) = peer_transition env state NoBootstrapPeers
      in case ph of Joining \<Rightarrow> phase new_state = Ready | _ \<Rightarrow> phase new_state = ph)"

definition external_addr_confirmed_adds_to_set :: "step_env \<Rightarrow> multiaddr \<Rightarrow> bool" where
  "external_addr_confirmed_adds_to_set env addr =
     (let (s1, _) = peer_transition env new_peer_state (ExternalAddrConfirmed addr);
          (s2, _) = peer_transition env s1 (ExternalAddrConfirmed addr)
      in addr |\<in>| external_addrs s1 \<and> addr |\<in>| external_addrs s2 \<and> fcard (external_addrs s2) = 1)"

definition external_addr_expired_removes_from_set :: "step_env \<Rightarrow> multiaddr \<Rightarrow> bool" where
  "external_addr_expired_removes_from_set env addr =
     (let state = new_peer_state\<lparr>external_addrs := {|addr|}\<rparr>;
          (state', _) = peer_transition env state (ExternalAddrExpired addr)
      in addr |\<notin>| external_addrs state')"

definition relay_accepted_sets_reserved :: "step_env \<Rightarrow> peer_id \<Rightarrow> bool" where
  "relay_accepted_sets_reserved env relay_peer =
     (let state = new_peer_state\<lparr>relay_reserved := False\<rparr>;
          (new_state, _) = peer_transition env state (RelayReservationAccepted relay_peer)
      in relay_reserved new_state)"

definition relay_failed_clears_reserved :: "step_env \<Rightarrow> peer_id \<Rightarrow> string \<Rightarrow> bool" where
  "relay_failed_clears_reserved env relay_peer reason =
     (let state = new_peer_state\<lparr>phase := Joining, relay_reserved := False\<rparr>;
          (new_state, _) = peer_transition env state (RelayReservationFailed relay_peer reason)
      in \<not> relay_reserved new_state)"

definition public_nat_clears_relay :: "step_env \<Rightarrow> peer_id \<Rightarrow> bool" where
  "public_nat_clears_relay env relay_peer =
     (let state = new_peer_state\<lparr>phase := Ready, relay_reserved := True, kad_bootstrapped := True,
            known_peers := fmupd relay_peer {||} fmempty\<rparr>;
          (new_state, _) = peer_transition env state (NatStatusChanged Public)
      in \<not> relay_reserved new_state)"

text \<open>The addresses that the commands give to Kademlia.\<close>

definition kad_addrs :: "command list \<Rightarrow> (peer_id \<times> multiaddr) list" where
  "kad_addrs commands =
     List.map_filter (\<lambda>c. case c of KademliaAddAddress p addr \<Rightarrow> Some (p, addr) | _ \<Rightarrow> None) commands"

definition peer_identified_adds_public_addresses_to_kademlia ::
  "step_env \<Rightarrow> peer_id \<Rightarrow> multiaddr list \<Rightarrow> multiaddr \<Rightarrow> bool" where
  "peer_identified_adds_public_addresses_to_kademlia env peer addrs observed =
     (let (new_state, commands) = peer_transition env new_peer_state (PeerIdentified peer addrs observed);
          kad = map snd (filter (\<lambda>pa. fst pa = peer) (kad_addrs commands))
      in (case fmlookup (known_peers new_state) peer of
            None \<Rightarrow> False
          | Some stored \<Rightarrow> fBall stored (\<lambda>a. a \<in> set addrs)) \<and>
         kad \<noteq> [] \<and> list_all (\<lambda>a. a \<in> set addrs) kad)"

definition peer_identified_filters_private_addrs_from_kademlia ::
  "step_env \<Rightarrow> peer_id \<Rightarrow> multiaddr \<Rightarrow> multiaddr \<Rightarrow> multiaddr \<Rightarrow> bool" where
  "peer_identified_filters_private_addrs_from_kademlia env peer public_addr private_addr observed =
     (let (new_state, commands) = peer_transition env new_peer_state
            (PeerIdentified peer [public_addr, private_addr] observed);
          kad = map snd (kad_addrs commands)
      in (case fmlookup (known_peers new_state) peer of
            None \<Rightarrow> False
          | Some stored \<Rightarrow> public_addr |\<in>| stored \<and> private_addr |\<in>| stored) \<and>
         length kad = 1 \<and> kad ! 0 = public_addr)"

definition connection_lost_removes_peer_and_regresses :: "step_env \<Rightarrow> peer_id \<Rightarrow> multiaddr \<Rightarrow> bool" where
  "connection_lost_removes_peer_and_regresses env peer addr =
     (let state = new_peer_state\<lparr>phase := Ready, kad_bootstrapped := True,
            bootstrap_peers := {|peer|}, known_peers := entry_insert peer addr fmempty\<rparr>;
          (new_state, commands) = peer_transition env state (ConnectionLost peer 0)
      in \<not> contains_key (known_peers new_state) peer \<and> phase new_state = Joining \<and>
         \<not> kad_bootstrapped new_state \<and> KademliaBootstrap \<in> set commands)"

definition connection_lost_standalone_stays_ready :: "step_env \<Rightarrow> peer_id \<Rightarrow> multiaddr \<Rightarrow> bool" where
  "connection_lost_standalone_stays_ready env peer addr =
     (let state = new_peer_state\<lparr>phase := Ready, kad_bootstrapped := True,
            known_peers := entry_insert peer addr fmempty\<rparr>;
          (new_state, commands) = peer_transition env state (ConnectionLost peer 0)
      in \<not> contains_key (known_peers new_state) peer \<and> phase new_state = Ready \<and>
         kad_bootstrapped new_state \<and> KademliaBootstrap \<notin> set commands)"

definition connection_lost_with_remaining_keeps_peer ::
  "step_env \<Rightarrow> peer_id \<Rightarrow> multiaddr \<Rightarrow> 32 word \<Rightarrow> bool" where
  "connection_lost_with_remaining_keeps_peer env peer addr remaining =
     (let state = new_peer_state\<lparr>phase := Ready, known_peers := entry_insert peer addr fmempty\<rparr>;
          (new_state, _) = peer_transition env state (ConnectionLost peer remaining)
      in contains_key (known_peers new_state) peer \<and> phase new_state = Ready)"

definition listening_on_loopback_is_noop :: "step_env \<Rightarrow> phase \<Rightarrow> 16 word \<Rightarrow> bool" where
  "listening_on_loopback_is_noop env ph number =
     (let state = new_peer_state\<lparr>phase := ph\<rparr>;
          addr = [Ip4 (Ipv4 127 0 0 1), Tcp number];
          (_, commands) = peer_transition env state (ListeningOn addr)
      in commands = [])"

definition listening_on_nonloopback_is_noop :: "step_env \<Rightarrow> phase \<Rightarrow> multiaddr \<Rightarrow> bool" where
  "listening_on_nonloopback_is_noop env ph addr =
     (let state = new_peer_state\<lparr>phase := ph\<rparr>;
          (_, commands) = peer_transition env state (ListeningOn addr)
      in commands = [])"

definition listening_on_circuit_is_noop :: "step_env \<Rightarrow> phase \<Rightarrow> multiaddr \<Rightarrow> bool" where
  "listening_on_circuit_is_noop env ph addr =
     (let state = new_peer_state\<lparr>phase := ph\<rparr>;
          (_, commands) = peer_transition env state (ListeningOn addr)
      in commands = [])"

definition log_only_events_preserve_state ::
  "step_env \<Rightarrow> phase \<Rightarrow> nat_status \<Rightarrow> peer_id \<Rightarrow> string \<Rightarrow> bool" where
  "log_only_events_preserve_state env ph status peer reason =
     (let state = new_peer_state\<lparr>phase := ph, nat_status := status\<rparr>;
          (s1, c1) = peer_transition env state (HolePunchFailed peer reason);
          (s2, c2) = peer_transition env state (DhtPeerLookupComplete peer True);
          (s3, c3) = peer_transition env state (TunnelPeerConnected peer False)
      in (phase s1 = ph \<and> nat_status s1 = status \<and> c1 = []) \<and>
         (phase s2 = ph \<and> nat_status s2 = status \<and> c2 = []) \<and>
         (phase s3 = ph \<and> nat_status s3 = status \<and> c3 = []))"

definition kad_ok_without_external_addrs_stays_joining :: "step_env \<Rightarrow> nat_status \<Rightarrow> bool" where
  "kad_ok_without_external_addrs_stays_joining env status =
     (let state = new_peer_state\<lparr>phase := Joining, nat_status := status\<rparr>;
          (state', _) = peer_transition env state KademliaBootstrapOk
      in phase state' = Joining \<and> kad_bootstrapped state')"

definition bootstrap_reconnect_in_joining_stays_joining :: "step_env \<Rightarrow> peer_id \<Rightarrow> multiaddr \<Rightarrow> bool" where
  "bootstrap_reconnect_in_joining_stays_joining env peer addr =
     (let state = new_peer_state\<lparr>phase := Joining, kad_bootstrapped := True,
            bootstrap_peers := {|peer|}\<rparr>;
          (state', commands) = peer_transition env state (BootstrapConnected peer addr)
      in phase state' = Joining \<and> KademliaBootstrap \<in> set commands)"

text \<open>The address of the first relay request.\<close>

definition first_relay_addr :: "command list \<Rightarrow> multiaddr option" where
  "first_relay_addr commands =
     (case List.map_filter (\<lambda>c. case c of RequestRelayReservation _ addr \<Rightarrow> Some addr | _ \<Rightarrow> None) commands of
        [] \<Rightarrow> None | addr # _ \<Rightarrow> Some addr)"

definition relay_addr_prefers_public_over_loopback ::
  "step_env \<Rightarrow> peer_id \<Rightarrow> multiaddr \<Rightarrow> 16 word \<Rightarrow> bool" where
  "relay_addr_prefers_public_over_loopback env peer public_addr number =
     (let loopback_addr = [Ip4 (Ipv4 127 0 0 1), Udp number, QuicV1];
          state = new_peer_state\<lparr>phase := Joining, bootstrap_peers := {|peer|},
            known_peers := entry_insert peer public_addr (entry_insert peer loopback_addr fmempty)\<rparr>;
          (_, commands) = peer_transition env state (NatStatusChanged Private)
      in case first_relay_addr commands of Some addr \<Rightarrow> has_public_ip addr | None \<Rightarrow> True)"

definition relay_addr_prefers_public_over_private ::
  "step_env \<Rightarrow> peer_id \<Rightarrow> multiaddr \<Rightarrow> multiaddr \<Rightarrow> bool" where
  "relay_addr_prefers_public_over_private env peer public_addr private_addr =
     (let state = new_peer_state\<lparr>phase := Joining, bootstrap_peers := {|peer|},
            known_peers := entry_insert peer public_addr (entry_insert peer private_addr fmempty)\<rparr>;
          (_, commands) = peer_transition env state (NatStatusChanged Private)
      in case first_relay_addr commands of Some addr \<Rightarrow> has_public_ip addr | None \<Rightarrow> True)"

definition connection_lost_bootstrap_resets_relay_reserved ::
  "step_env \<Rightarrow> peer_id \<Rightarrow> multiaddr \<Rightarrow> peer_id \<Rightarrow> multiaddr \<Rightarrow> bool" where
  "connection_lost_bootstrap_resets_relay_reserved env peer addr other_peer other_addr \<longleftrightarrow>
     (peer \<noteq> other_peer \<longrightarrow>
       (let state = new_peer_state\<lparr>phase := Ready, relay_reserved := True,
              bootstrap_peers := {|peer|},
              known_peers := entry_insert other_peer other_addr (entry_insert peer addr fmempty)\<rparr>;
            (state', _) = peer_transition env state (ConnectionLost peer 0)
        in \<not> relay_reserved state' \<and> phase state' = Ready))"

definition connection_lost_non_bootstrap_keeps_relay_reserved ::
  "step_env \<Rightarrow> peer_id \<Rightarrow> multiaddr \<Rightarrow> peer_id \<Rightarrow> multiaddr \<Rightarrow> bool" where
  "connection_lost_non_bootstrap_keeps_relay_reserved env peer addr bootstrap_peer bootstrap_addr \<longleftrightarrow>
     (peer \<noteq> bootstrap_peer \<longrightarrow>
       (let state = new_peer_state\<lparr>phase := Ready, relay_reserved := True,
              bootstrap_peers := {|bootstrap_peer|},
              known_peers := entry_insert bootstrap_peer bootstrap_addr (entry_insert peer addr fmempty)\<rparr>;
            (state', _) = peer_transition env state (ConnectionLost peer 0)
        in relay_reserved state' \<and> phase state' = Ready))"

definition peer_identified_replaces_stale_public_addr_for_same_ip :: "step_env \<Rightarrow> peer_id \<Rightarrow> bool" where
  "peer_identified_replaces_stale_public_addr_for_same_ip env peer =
     (let old_addr = [Ip4 (Ipv4 203 0 113 10), Udp 41000, QuicV1];
          new_addr = [Ip4 (Ipv4 203 0 113 10), Udp 42000, QuicV1];
          (s1, _) = peer_transition env new_peer_state (PeerIdentified peer [old_addr] old_addr);
          (s2, _) = peer_transition env s1 (PeerIdentified peer [new_addr] new_addr)
      in case fmlookup (known_peers s2) peer of
           None \<Rightarrow> False
         | Some stored \<Rightarrow> fcard stored = 1 \<and> new_addr |\<in>| stored)"

section \<open>They hold for all values\<close>

text \<open>The tests of the phase.\<close>

lemma phase_tests:
  "shutdown_absorbs_any_phase env ph"
  "bootstrap_stays_joining env peer addr"
  "second_bootstrap_reissues_kad_bootstrap env peer peer2 addr addr2"
  "kad_completion_needs_external_addrs_for_ready env peer addr external_addr"
  "external_addr_confirmed_triggers_ready env peer addr external_addr"
  "discovery_timeout_enters_ready_with_kad_and_peers env peer addr"
  "discovery_timeout_with_no_peers_stays_joining env status"
  "bootstrap_reconnect_in_ready_refreshes env peer addr"
  "no_bootstrap_peers_enters_ready env ph"
  "kad_ok_without_external_addrs_stays_joining env status"
  "bootstrap_reconnect_in_joining_stays_joining env peer addr"
  by (simp_all add: shutdown_absorbs_any_phase_def bootstrap_stays_joining_def
      second_bootstrap_reissues_kad_bootstrap_def kad_completion_needs_external_addrs_for_ready_def
      external_addr_confirmed_triggers_ready_def discovery_timeout_enters_ready_with_kad_and_peers_def
      discovery_timeout_with_no_peers_stays_joining_def bootstrap_reconnect_in_ready_refreshes_def
      no_bootstrap_peers_enters_ready_def kad_ok_without_external_addrs_stays_joining_def
      bootstrap_reconnect_in_joining_stays_joining_def new_peer_state_def on_bootstrap_connected_def
      maybe_become_ready_def on_discovery_timeout_def entry_insert_def contains_key_def
      split: phase.split)

text \<open>The tests of the NAT status and the relay.\<close>

lemma iterates_single: "iterates ord \<Longrightarrow> ord {|x|} = [x]"
proof -
  assume "iterates ord"
  then have d: "distinct (ord {|x|})" and s: "set (ord {|x|}) = {x}" by (auto simp: iterates_def)
  then have "length (ord {|x|}) = 1" by (metis distinct_card card_1_singleton_iff One_nat_def)
  with s show ?thesis by (cases "ord {|x|}") auto
qed

lemma nat_tests:
  "nat_status_always_updates env ph status"
  "nat_transitions_symmetric env status status2"
  "relay_accepted_sets_reserved env peer"
  "relay_failed_clears_reserved env peer reason"
  "public_nat_clears_relay env peer"
  by (cases status; cases status2;
      simp add: nat_status_always_updates_def nat_transitions_symmetric_def relay_accepted_sets_reserved_def
        relay_failed_clears_reserved_def public_nat_clears_relay_def new_peer_state_def
        on_nat_status_changed_def maybe_request_relay_def Let_def)+

lemma relay_request_test:
  assumes "env_ok env"
  shows "nat_private_requests_relay env peer addr"
proof -
  have "peer_order env {|peer|} = [peer]" using assms by (simp add: env_ok_def iterates_single)
  moreover have "prefer_public_addr env {|addr|} \<noteq> None" by (simp add: prefer_public_addr_None [OF assms])
  ultimately show ?thesis
    by (auto simp: nat_private_requests_relay_def new_peer_state_def on_nat_status_changed_def
        maybe_request_relay_def entry_insert_def option_list_def)
qed

lemma public_has_public_ip: "arb_public_multiaddr a \<Longrightarrow> has_public_ip a"
  by (auto simp: has_public_ip_def needs_external_rewrite_def dest!: public_form)

lemma private_no_public_ip: "arb_private_multiaddr a \<Longrightarrow> \<not> has_public_ip a"
  by (auto simp: has_public_ip_def needs_external_rewrite_def dest!: private_form)

text \<open>A relay is asked for at a public address when one is known.\<close>

lemma relay_addr_public:
  assumes env: "env_ok env" and "a |\<in>| addrs" and "has_public_ip a"
    and known: "fmlookup (known_peers s) = (\<lambda>q. if q = peer then Some addrs else None)"
  shows "case first_relay_addr (option_list (maybe_request_relay env s)) of
    Some addr \<Rightarrow> has_public_ip addr | None \<Rightarrow> True"
proof (cases "maybe_request_relay env s")
  case None
  then show ?thesis by (simp add: option_list_def first_relay_addr_def map_filter_simps)
next
  case (Some c)
  from env Some obtain q addr where c: "c = RequestRelayReservation q addr" and "q |\<in>| fmdom (known_peers s)"
    and picked: "prefer_public_addr env (get_or {||} (known_peers s) q) = Some addr"
    by (rule maybe_request_relay_Some)
  then have "q = peer" using known by (auto simp: fmlookup_dom_iff split: if_splits)
  with picked known have "prefer_public_addr env addrs = Some addr" by simp
  with prefer_public_addr_Some [OF env this] assms(2,3) have "has_public_ip addr" by blast
  with Some c show ?thesis by (simp add: option_list_def first_relay_addr_def map_filter_simps)
qed

lemma relay_addr_tests:
  assumes env: "env_ok env" and public: "arb_public_multiaddr public_addr"
  shows "relay_addr_prefers_public_over_loopback env peer public_addr number"
    and "relay_addr_prefers_public_over_private env peer public_addr private_addr"
proof -
  have "case first_relay_addr (option_list (maybe_request_relay env (new_peer_state\<lparr>phase := Joining,
      nat_status := Private, known_peers := entry_insert peer public_addr (entry_insert peer a fmempty),
      bootstrap_peers := {|peer|}\<rparr>))) of Some addr \<Rightarrow> has_public_ip addr | None \<Rightarrow> True" for a
    by (rule relay_addr_public [OF env, of public_addr "{|public_addr, a|}" _ peer])
      (use public_has_public_ip [OF public] in \<open>auto simp: entry_insert_def\<close>)
  then show "relay_addr_prefers_public_over_loopback env peer public_addr number"
    and "relay_addr_prefers_public_over_private env peer public_addr private_addr"
    by (simp_all add: relay_addr_prefers_public_over_loopback_def relay_addr_prefers_public_over_private_def
        on_nat_status_changed_def new_peer_state_def Let_def)
qed

text \<open>The tests of the address book.\<close>

lemma address_tests:
  "mdns_discovered_preserves_phase_and_nat env ph status peer addr"
  "mdns_expired_removes_addresses env peer addr addr2"
  "external_addr_confirmed_adds_to_set env addr"
  "external_addr_expired_removes_from_set env addr"
  "peer_identified_replaces_stale_public_addr_for_same_ip env peer"
  by (auto simp: mdns_discovered_preserves_phase_and_nat_def mdns_expired_removes_addresses_def
      external_addr_confirmed_adds_to_set_def external_addr_expired_removes_from_set_def
      peer_identified_replaces_stale_public_addr_for_same_ip_def new_peer_state_def entry_insert_def
      mdns_expire_one_def maybe_become_ready_def on_peer_identified_def contains_key_def Let_def
      replace_stale_public_addr_for_ip_def extract_public_ip_def extract_public_ip_port_def
      needs_external_rewrite_def fcard_finsert_disjoint)

text \<open>The tests of lost connections and of events that are only logged.\<close>

lemma fmupd_not_empty [simp]: "fmupd k v m \<noteq> fmempty"
proof
  assume "fmupd k v m = fmempty"
  then have "fmlookup (fmupd k v m) k = fmlookup fmempty k" by simp
  then show False by simp
qed

lemma lost_tests:
  "connection_lost_removes_peer_and_regresses env peer addr"
  "connection_lost_standalone_stays_ready env peer addr"
  "connection_lost_bootstrap_resets_relay_reserved env peer addr peer2 addr2"
  "connection_lost_non_bootstrap_keeps_relay_reserved env peer addr peer2 addr2"
  "remaining \<noteq> 0 \<Longrightarrow> connection_lost_with_remaining_keeps_peer env peer addr remaining"
  by (simp_all add: connection_lost_removes_peer_and_regresses_def connection_lost_standalone_stays_ready_def
      connection_lost_bootstrap_resets_relay_reserved_def
      connection_lost_non_bootstrap_keeps_relay_reserved_def
      connection_lost_with_remaining_keeps_peer_def new_peer_state_def entry_insert_def
      on_connection_lost_def contains_key_def fmdrop_fmupd Let_def)

lemma log_tests:
  "listening_on_loopback_is_noop env ph number"
  "listening_on_nonloopback_is_noop env ph addr"
  "listening_on_circuit_is_noop env ph addr"
  "log_only_events_preserve_state env ph status peer reason"
  by (simp_all add: listening_on_loopback_is_noop_def listening_on_nonloopback_is_noop_def
      listening_on_circuit_is_noop_def log_only_events_preserve_state_def)

text \<open>The tests of identify.\<close>

lemma identify_kad:
  "set (kad_addrs (snd (identify_addrs peer addrs entry))) \<subseteq> Pair peer ` set addrs"
  by (induction peer addrs entry rule: identify_addrs.induct)
    (auto simp: kad_addrs_def map_filter_simps Let_def split_beta)

lemma identify_entry: "fset (fst (identify_addrs peer addrs entry)) \<subseteq> fset entry \<union> set addrs"
proof (induction peer addrs entry rule: identify_addrs.induct)
  case (2 peer addr addrs entry)
  have "fset (replace_stale_public_addr_for_ip addr entry) \<subseteq> fset entry"
    by (auto simp: replace_stale_public_addr_for_ip_def split: option.splits)
  with 2 show ?case by (fastforce simp: Let_def split_beta)
qed simp

lemma identify_adds:
  assumes "addrs \<noteq> []" and "\<forall>a\<in>set addrs. has_public_ip a"
  shows "kad_addrs (snd (identify_addrs peer addrs {||})) \<noteq> []"
proof -
  obtain a rest where addrs: "addrs = a # rest" using assms(1) by (cases addrs) auto
  have "a |\<notin>| replace_stale_public_addr_for_ip a {||}"
    by (simp add: replace_stale_public_addr_for_ip_def split: option.split)
  with assms(2) show ?thesis
    by (simp add: addrs kad_addrs_def map_filter_simps Let_def split_beta)
qed

lemma identify_tests:
  assumes "addrs \<noteq> []" and "\<forall>a\<in>set addrs. arb_public_multiaddr a"
    and "arb_public_multiaddr public_addr" and "arb_private_multiaddr private_addr"
  shows "peer_identified_adds_public_addresses_to_kademlia env peer addrs observed"
    and "peer_identified_filters_private_addrs_from_kademlia env peer public_addr private_addr observed"
proof -
  let ?r = "identify_addrs peer addrs {||}"
  have new: "known_peers new_peer_state = fmempty" "bootstrap_peers new_peer_state = {||}"
    by (simp_all add: new_peer_state_def)
  have only: "\<forall>pa\<in>set (kad_addrs (snd ?r)). fst pa = peer \<and> snd pa \<in> set addrs"
    using identify_kad [of peer addrs "{||}"] by auto
  then have all: "filter (\<lambda>pa. fst pa = peer) (kad_addrs (snd ?r)) = kad_addrs (snd ?r)"
    by (simp add: filter_id_conv)
  have "kad_addrs (snd ?r) \<noteq> []"
    using assms(1,2) by (intro identify_adds) (auto intro: public_has_public_ip)
  moreover have "fBall (fst ?r) (\<lambda>a. a \<in> set addrs)"
    using identify_entry [of peer addrs "{||}"] by auto
  ultimately show "peer_identified_adds_public_addresses_to_kademlia env peer addrs observed"
    using only by (fastforce simp: peer_identified_adds_public_addresses_to_kademlia_def
        on_peer_identified_def new split_beta Let_def all list_all_iff)
  have "extract_public_ip private_addr = None"
    using private_no_public_ip [OF assms(4)] extract_public_ip_port_defined [of private_addr]
    by (cases "extract_public_ip_port private_addr") (simp_all add: extract_public_ip_def)
  moreover have "private_addr \<noteq> public_addr"
    using private_no_public_ip [OF assms(4)] public_has_public_ip [OF assms(3)] by auto
  ultimately show "peer_identified_filters_private_addrs_from_kademlia env peer public_addr private_addr observed"
    using private_no_public_ip [OF assms(4)] public_has_public_ip [OF assms(3)]
    by (simp add: peer_identified_filters_private_addrs_from_kademlia_def on_peer_identified_def new Let_def
        replace_stale_public_addr_for_ip_def kad_addrs_def map_filter_simps split: option.split)
qed

text \<open>C40: Every unit test of the peer state machine (\<open>state/peer.rs\<close>) holds for all the values it may be
  given and for every iteration order of the hash maps, not only for those that a run of the
  test draws: on the phase, the NAT status and the relay, the address book, lost connections,
  identify, and the events that change nothing.\<close>

theorem peer_tests_hold:
  assumes "env_ok env" and "arb_public_multiaddr public_addr" and "arb_private_multiaddr private_addr"
    and "addrs \<noteq> []" and "\<forall>a\<in>set addrs. arb_public_multiaddr a" and "remaining \<noteq> 0"
  shows "shutdown_absorbs_any_phase env ph \<and> bootstrap_stays_joining env peer addr \<and>
    second_bootstrap_reissues_kad_bootstrap env peer peer2 addr addr2 \<and>
    kad_completion_needs_external_addrs_for_ready env peer addr addr2 \<and>
    external_addr_confirmed_triggers_ready env peer addr addr2 \<and>
    discovery_timeout_enters_ready_with_kad_and_peers env peer addr \<and>
    discovery_timeout_with_no_peers_stays_joining env status \<and>
    bootstrap_reconnect_in_ready_refreshes env peer addr \<and>
    nat_status_always_updates env ph status \<and> nat_transitions_symmetric env status status2 \<and>
    nat_private_requests_relay env peer addr \<and>
    mdns_discovered_preserves_phase_and_nat env ph status peer addr \<and>
    mdns_expired_removes_addresses env peer addr addr2 \<and> no_bootstrap_peers_enters_ready env ph \<and>
    external_addr_confirmed_adds_to_set env addr \<and> external_addr_expired_removes_from_set env addr \<and>
    relay_accepted_sets_reserved env peer \<and> relay_failed_clears_reserved env peer reason \<and>
    public_nat_clears_relay env peer \<and>
    peer_identified_adds_public_addresses_to_kademlia env peer addrs addr \<and>
    peer_identified_filters_private_addrs_from_kademlia env peer public_addr private_addr addr \<and>
    connection_lost_removes_peer_and_regresses env peer addr \<and>
    connection_lost_standalone_stays_ready env peer addr \<and>
    connection_lost_with_remaining_keeps_peer env peer addr remaining \<and>
    listening_on_loopback_is_noop env ph number \<and> listening_on_nonloopback_is_noop env ph addr \<and>
    listening_on_circuit_is_noop env ph addr \<and>
    log_only_events_preserve_state env ph status peer reason \<and>
    kad_ok_without_external_addrs_stays_joining env status \<and>
    bootstrap_reconnect_in_joining_stays_joining env peer addr \<and>
    relay_addr_prefers_public_over_loopback env peer public_addr number \<and>
    relay_addr_prefers_public_over_private env peer public_addr private_addr \<and>
    connection_lost_bootstrap_resets_relay_reserved env peer addr peer2 addr2 \<and>
    connection_lost_non_bootstrap_keeps_relay_reserved env peer addr peer2 addr2 \<and>
    peer_identified_replaces_stale_public_addr_for_same_ip env peer"
  using phase_tests nat_tests relay_request_test [OF assms(1)] relay_addr_tests [OF assms(1,2)]
    address_tests lost_tests lost_tests(5) [OF assms(6)] log_tests identify_tests [OF assms(4,5,2,3)]
  by (intro conjI)

theorem peer_tests_hold_witness:
  "peer_identified_filters_private_addrs_from_kademlia (sample_env 0) (PeerId ''w'')
     [Ip4 (Ipv4 203 0 113 9), Udp 4001, QuicV1] [Ip4 (Ipv4 10 0 0 9), Udp 4001, QuicV1] []"
proof -
  have "arb_public_multiaddr [Ip4 (Ipv4 203 0 113 9), Udp 4001, QuicV1]"
    and "arb_private_multiaddr [Ip4 (Ipv4 10 0 0 9), Udp 4001, QuicV1]"
    by (simp_all add: word_le_nat_alt word_less_nat_alt)
  from peer_tests_hold [OF env_ok_sample this, of "[[Ip4 (Ipv4 203 0 113 9), Udp 4001, QuicV1]]" 1] this
  show ?thesis by simp
qed

end
