(* ===== verification/Tunnel_Tests.thy ===== *)
theory Tunnel_Tests
  imports Tunnel_Retry Test_Support
begin

text \<open>
  The tests of \<open>src/src/state/tunnel.rs\<close>, each as a predicate on the values it is given: the
  assertions of the test, in their order.  Peers, services, bind addresses and reasons that a test
  only passes on are arguments also where the test fixes them, so that the lemmas cover every
  choice.  The steps of a test see one clock: a test runs within a moment.
\<close>

section \<open>Ready, lookups and resolutions\<close>

definition phase_changed_to_ready_publishes :: "step_env \<Rightarrow> phase \<Rightarrow> bool" where
  "phase_changed_to_ready_publishes env old =
     (old \<noteq> Ready \<longrightarrow>
       (let (_, commands) = tunnel_transition env new_tunnel_state (PhaseChanged old Ready)
        in PublishServices \<in> set commands))"

definition phase_changed_to_ready_initiates_lookups ::
  "step_env \<Rightarrow> phase \<Rightarrow> peer_id \<Rightarrow> service_name \<Rightarrow> service_addr \<Rightarrow> service_name \<Rightarrow> service_addr \<Rightarrow> bool"
where
  "phase_changed_to_ready_initiates_lookups env old peer service bind svc svc_bind =
     (old \<noteq> Ready \<longrightarrow>
       (let state = add_service_tunnel svc svc_bind
              (add_peer_tunnel peer service bind new_tunnel_state);
            (_, commands) = tunnel_transition env state (PhaseChanged old Ready)
        in PublishServices \<in> set commands \<and>
           list_ex (\<lambda>c. case c of DhtLookupPeer p \<Rightarrow> p = peer | _ \<Rightarrow> False) commands \<and>
           list_ex (\<lambda>c. case c of DhtGetProviders _ _ \<Rightarrow> True | _ \<Rightarrow> False) commands))"

definition phase_changed_non_ready_is_noop :: "step_env \<Rightarrow> phase \<Rightarrow> phase \<Rightarrow> bool" where
  "phase_changed_non_ready_is_noop env old new =
     (new \<noteq> Ready \<longrightarrow>
       (let (_, commands) = tunnel_transition env new_tunnel_state (PhaseChanged old new)
        in commands = []))"

definition relay_accepted_publishes :: "step_env \<Rightarrow> peer_id \<Rightarrow> bool" where
  "relay_accepted_publishes env relay_peer =
     (let (_, commands) = tunnel_transition env new_tunnel_state (RelayReservationAccepted relay_peer)
      in PublishServices \<in> set commands)"

definition dht_peer_lookup_spawns_when_connected ::
  "step_env \<Rightarrow> peer_id \<Rightarrow> service_name \<Rightarrow> service_addr \<Rightarrow> bool" where
  "dht_peer_lookup_spawns_when_connected env peer service bind =
     (let state = add_peer_tunnel peer service bind new_tunnel_state;
          (state', commands) = tunnel_transition env state (DhtPeerLookupComplete peer True)
      in SpawnTunnel peer service bind \<in> set commands \<and> \<not> has_pending_for state' peer)"

definition dht_peer_lookup_dials_when_disconnected ::
  "step_env \<Rightarrow> peer_id \<Rightarrow> service_name \<Rightarrow> service_addr \<Rightarrow> bool" where
  "dht_peer_lookup_dials_when_disconnected env peer service bind =
     (let state = add_peer_tunnel peer service bind new_tunnel_state;
          (state', commands) = tunnel_transition env state (DhtPeerLookupComplete peer False)
      in DialPeer peer \<in> set commands \<and> has_pending_for state' peer)"

definition dht_service_resolved_spawns_when_connected ::
  "step_env \<Rightarrow> service_name \<Rightarrow> service_addr \<Rightarrow> peer_id \<Rightarrow> bool" where
  "dht_service_resolved_spawns_when_connected env service bind provider =
     (let state = add_service_tunnel service bind new_tunnel_state;
          (_, commands) = tunnel_transition env state (DhtServiceResolved service [(provider, True)])
      in SpawnTunnel provider service bind \<in> set commands)"

definition dht_service_resolved_initiates_peer_lookup_when_disconnected ::
  "step_env \<Rightarrow> service_name \<Rightarrow> service_addr \<Rightarrow> peer_id \<Rightarrow> bool" where
  "dht_service_resolved_initiates_peer_lookup_when_disconnected env service bind provider =
     (let state = add_service_tunnel service bind new_tunnel_state;
          (state', commands) =
            tunnel_transition env state (DhtServiceResolved service [(provider, False)])
      in DhtLookupPeer provider \<in> set commands \<and> has_pending_for state' provider)"

definition tunnel_peer_connected_direct_spawns_immediately ::
  "step_env \<Rightarrow> peer_id \<Rightarrow> service_name \<Rightarrow> service_addr \<Rightarrow> bool" where
  "tunnel_peer_connected_direct_spawns_immediately env peer service bind =
     (let state = add_peer_tunnel peer service bind new_tunnel_state;
          (_, commands) = tunnel_transition env state (TunnelPeerConnected peer False)
      in SpawnTunnel peer service bind \<in> set commands)"

definition tunnel_peer_connected_relayed_waits_for_holepunch ::
  "step_env \<Rightarrow> peer_id \<Rightarrow> service_name \<Rightarrow> service_addr \<Rightarrow> bool" where
  "tunnel_peer_connected_relayed_waits_for_holepunch env peer service bind =
     (let state = add_peer_tunnel peer service bind new_tunnel_state;
          (state', commands) = tunnel_transition env state (TunnelPeerConnected peer True)
      in commands = [] \<and> contains_key (awaiting_holepunch state') peer)"

definition hole_punch_failed_legacy_event_is_noop ::
  "step_env \<Rightarrow> peer_id \<Rightarrow> service_name \<Rightarrow> service_addr \<Rightarrow> string \<Rightarrow> bool" where
  "hole_punch_failed_legacy_event_is_noop env peer service bind reason =
     (let state = new_tunnel_state\<lparr>awaiting_holepunch := fmupd peer [(service, bind)] fmempty\<rparr>;
          (state', commands) = tunnel_transition env state (HolePunchFailed peer reason)
      in commands = [] \<and> contains_key (awaiting_holepunch state') peer \<and>
         peer |\<notin>| pending_retry_redial state' \<and>
         fmlookup (holepunch_retry_attempts state') peer = None)"

definition peer_lifecycle_events_are_noop ::
  "step_env \<Rightarrow> peer_id \<Rightarrow> multiaddr \<Rightarrow> nat_status \<Rightarrow> bool" where
  "peer_lifecycle_events_are_noop env peer addr status =
     (let state = new_tunnel_state;
          (_, c1) = tunnel_transition env state (ListeningOn addr);
          (_, c2) = tunnel_transition env state (BootstrapConnected peer addr);
          (_, c3) = tunnel_transition env state (NatStatusChanged status);
          (_, c4) = tunnel_transition env state KademliaBootstrapOk;
          (_, c5) = tunnel_transition env state DiscoveryTimeout;
          (_, c6) = tunnel_transition env state ShutdownRequested
      in c1 = [] \<and> c2 = [] \<and> c3 = [] \<and> c4 = [] \<and> c5 = [] \<and> c6 = [])"

section \<open>Relayed peers\<close>

definition dht_peer_lookup_relayed_awaits_holepunch ::
  "step_env \<Rightarrow> peer_id \<Rightarrow> service_name \<Rightarrow> service_addr \<Rightarrow> bool" where
  "dht_peer_lookup_relayed_awaits_holepunch env peer service bind =
     (let state = add_peer_tunnel peer service bind
            (new_tunnel_state\<lparr>relayed_peers := {|peer|}\<rparr>);
          (state', commands) = tunnel_transition env state (DhtPeerLookupComplete peer True)
      in commands = [] \<and> \<not> contains_key (pending_by_peer state') peer \<and>
         contains_key (awaiting_holepunch state') peer \<and>
         (case fmlookup (awaiting_holepunch state') peer of
            None \<Rightarrow> False
          | Some waiting \<Rightarrow> (service, bind) \<in> set waiting))"

definition dht_service_resolved_relayed_awaits_holepunch ::
  "step_env \<Rightarrow> service_name \<Rightarrow> service_addr \<Rightarrow> peer_id \<Rightarrow> bool" where
  "dht_service_resolved_relayed_awaits_holepunch env service bind provider =
     (let state = add_service_tunnel service bind
            (new_tunnel_state\<lparr>relayed_peers := {|provider|}\<rparr>);
          (state', commands) =
            tunnel_transition env state (DhtServiceResolved service [(provider, True)])
      in commands = [] \<and> contains_key (awaiting_holepunch state') provider \<and>
         (case fmlookup (awaiting_holepunch state') provider of
            None \<Rightarrow> False
          | Some waiting \<Rightarrow> (service, bind) \<in> set waiting))"

definition holepunch_failed_legacy_then_connection_lost_recovers_with_redial ::
  "step_env \<Rightarrow> peer_id \<Rightarrow> service_name \<Rightarrow> service_addr \<Rightarrow> string \<Rightarrow> bool" where
  "holepunch_failed_legacy_then_connection_lost_recovers_with_redial env peer service bind reason =
     (let state = new_tunnel_state\<lparr>awaiting_holepunch := fmupd peer [(service, bind)] fmempty\<rparr>;
          (s1, fail_cmds) = tunnel_transition env state (HolePunchFailed peer reason);
          (s2, reconnect_cmds) = tunnel_transition env s1 (ConnectionLost peer 0)
      in fail_cmds = [] \<and>
         list_ex (\<lambda>c. case c of DialPeer p \<Rightarrow> p = peer | _ \<Rightarrow> False) reconnect_cmds \<and>
         \<not> contains_key (awaiting_holepunch s2) peer \<and>
         (case fmlookup (pending_by_peer s2) peer of
            None \<Rightarrow> False
          | Some pending \<Rightarrow> (service, bind) \<in> set pending) \<and>
         peer |\<notin>| pending_retry_redial s2 \<and>
         fmlookup (holepunch_retry_attempts s2) peer = None)"

definition holepunch_failed_legacy_ignores_existing_retry_counter ::
  "step_env \<Rightarrow> peer_id \<Rightarrow> service_name \<Rightarrow> service_addr \<Rightarrow> string \<Rightarrow> bool" where
  "holepunch_failed_legacy_ignores_existing_retry_counter env peer service bind reason =
     (let state = new_tunnel_state\<lparr>
            awaiting_holepunch := fmupd peer [(service, bind)] fmempty,
            holepunch_retry_attempts := fmupd peer 1000 fmempty\<rparr>;
          (state', commands) = tunnel_transition env state (HolePunchFailed peer reason)
      in commands = [] \<and> peer |\<notin>| pending_retry_redial state' \<and>
         fmlookup (holepunch_retry_attempts state') peer = Some 1000)"

definition direct_connection_spawns_from_awaiting_holepunch ::
  "step_env \<Rightarrow> peer_id \<Rightarrow> service_name \<Rightarrow> service_addr \<Rightarrow> bool" where
  "direct_connection_spawns_from_awaiting_holepunch env peer service bind =
     (let state = new_tunnel_state\<lparr>
            relayed_peers := {|peer|},
            awaiting_holepunch := fmupd peer [(service, bind)] fmempty\<rparr>;
          (state', commands) = tunnel_transition env state (TunnelPeerConnected peer False)
      in SpawnTunnel peer service bind \<in> set commands \<and>
         \<not> contains_key (awaiting_holepunch state') peer \<and> peer |\<notin>| relayed_peers state')"

definition connection_lost_requeues_waiting_tunnels_and_redials ::
  "step_env \<Rightarrow> peer_id \<Rightarrow> service_name \<Rightarrow> service_addr \<Rightarrow> bool" where
  "connection_lost_requeues_waiting_tunnels_and_redials env peer service bind =
     (let state = new_tunnel_state\<lparr>
            relayed_peers := {|peer|},
            awaiting_holepunch := fmupd peer [(service, bind)] fmempty\<rparr>;
          (state', commands) = tunnel_transition env state (ConnectionLost peer 0)
      in list_ex (\<lambda>c. case c of DialPeer p \<Rightarrow> p = peer | _ \<Rightarrow> False) commands \<and>
         peer |\<notin>| relayed_peers state' \<and> \<not> contains_key (awaiting_holepunch state') peer \<and>
         (case fmlookup (pending_by_peer state') peer of
            None \<Rightarrow> False
          | Some pending \<Rightarrow> (service, bind) \<in> set pending))"

definition direct_connection_clears_relayed_after_retry :: "step_env \<Rightarrow> peer_id \<Rightarrow> bool" where
  "direct_connection_clears_relayed_after_retry env peer =
     (let state = new_tunnel_state\<lparr>
            relayed_peers := {|peer|},
            holepunch_retry_attempts := fmupd peer 2 fmempty,
            pending_retry_redial := {|peer|}\<rparr>;
          (state', _) = tunnel_transition env state (TunnelPeerConnected peer False)
      in peer |\<notin>| relayed_peers state' \<and> peer |\<notin>| pending_retry_redial state' \<and>
         \<not> contains_key (holepunch_retry_attempts state') peer)"

definition relayed_peer_queues_when_symmetric_nat ::
  "step_env \<Rightarrow> peer_id \<Rightarrow> service_name \<Rightarrow> service_addr \<Rightarrow> bool" where
  "relayed_peer_queues_when_symmetric_nat env peer service bind =
     (let s0 = set_nat_mapping AddressDependent new_tunnel_state;
          state = add_peer_tunnel peer service bind (s0\<lparr>relayed_peers := {|peer|}\<rparr>);
          (state', commands) = tunnel_transition env state (DhtPeerLookupComplete peer True)
      in commands = [] \<and> contains_key (awaiting_holepunch state') peer)"

definition relayed_peer_awaits_holepunch_when_cone_nat ::
  "step_env \<Rightarrow> peer_id \<Rightarrow> service_name \<Rightarrow> service_addr \<Rightarrow> bool" where
  "relayed_peer_awaits_holepunch_when_cone_nat env peer service bind =
     (let s0 = set_nat_mapping EndpointIndependent new_tunnel_state;
          state = add_peer_tunnel peer service bind (s0\<lparr>relayed_peers := {|peer|}\<rparr>);
          (state', commands) = tunnel_transition env state (DhtPeerLookupComplete peer True)
      in commands = [] \<and> contains_key (awaiting_holepunch state') peer)"

definition tunnel_connected_relayed_queues_when_symmetric ::
  "step_env \<Rightarrow> peer_id \<Rightarrow> service_name \<Rightarrow> service_addr \<Rightarrow> bool" where
  "tunnel_connected_relayed_queues_when_symmetric env peer service bind =
     (let state = add_peer_tunnel peer service bind (set_nat_mapping AddressDependent new_tunnel_state);
          (state', commands) = tunnel_transition env state (TunnelPeerConnected peer True)
      in commands = [] \<and>
         (case fmlookup (awaiting_holepunch state') peer of
            None \<Rightarrow> False
          | Some waiting \<Rightarrow> (service, bind) \<in> set waiting))"

section \<open>Attempts and their reports\<close>

definition stale_attempt_failure_is_ignored ::
  "step_env \<Rightarrow> peer_id \<Rightarrow> service_name \<Rightarrow> service_addr \<Rightarrow> bool" where
  "stale_attempt_failure_is_ignored env peer service bind =
     (let state = new_tunnel_state\<lparr>awaiting_holepunch := fmupd peer [(service, bind)] fmempty\<rparr>;
          (s1, _) = tunnel_transition env state (HolePunchAttemptStarted peer 2);
          (s2, commands) = tunnel_transition env s1 (HolePunchAttemptFailed peer 1 ''stale'')
      in commands = [] \<and> peer |\<notin>| pending_retry_redial s2)"

definition current_attempt_timeout_requests_disconnect ::
  "step_env \<Rightarrow> peer_id \<Rightarrow> service_name \<Rightarrow> service_addr \<Rightarrow> bool" where
  "current_attempt_timeout_requests_disconnect env peer service bind =
     (let state = new_tunnel_state\<lparr>awaiting_holepunch := fmupd peer [(service, bind)] fmempty\<rparr>;
          (s1, _) = tunnel_transition env state (HolePunchAttemptStarted peer 7);
          (s2, commands) = tunnel_transition env s1 (HolePunchAttemptTimeout peer 7)
      in DisconnectPeer peer \<in> set commands \<and> peer |\<in>| pending_retry_redial s2)"

definition dht_service_failed_retries_lookup_when_intent_is_pending ::
  "step_env \<Rightarrow> service_name \<Rightarrow> service_addr \<Rightarrow> bool" where
  "dht_service_failed_retries_lookup_when_intent_is_pending env service bind =
     (let state = add_service_tunnel service bind new_tunnel_state;
          (_, commands) = tunnel_transition env state (DhtServiceFailed service ''timeout'')
      in DhtGetProviders service (for_service service) \<in> set commands)"

definition tunnel_dial_failed_without_active_intent_is_noop :: "step_env \<Rightarrow> peer_id \<Rightarrow> bool" where
  "tunnel_dial_failed_without_active_intent_is_noop env peer =
     (let before = new_tunnel_state;
          (state, commands) = tunnel_transition env new_tunnel_state (TunnelDialFailed peer ''ignored'')
      in commands = [] \<and> state = before)"

definition tunnel_dial_failed_reroutes_to_fallback_provider ::
  "step_env \<Rightarrow> service_name \<Rightarrow> service_addr \<Rightarrow> peer_id \<Rightarrow> peer_id \<Rightarrow> bool" where
  "tunnel_dial_failed_reroutes_to_fallback_provider env service bind primary fallback =
     (let state = add_service_tunnel service bind new_tunnel_state;
          (s1, first_commands) = tunnel_transition env state
            (DhtServiceResolved service [(primary, False), (fallback, False)]);
          (s2, fail_commands) = tunnel_transition env s1 (TunnelDialFailed primary ''dial refused'')
      in DhtLookupPeer primary \<in> set first_commands \<and> has_pending_for s1 primary \<and>
         DhtLookupPeer fallback \<in> set fail_commands \<and>
         \<not> has_pending_for s2 primary \<and> has_pending_for s2 fallback \<and>
         (case fmlookup (pending_by_peer s2) fallback of
            None \<Rightarrow> False
          | Some pending \<Rightarrow> (service, bind) \<in> set pending))"

definition tunnel_dial_failed_requeries_service_when_no_fallback_provider ::
  "step_env \<Rightarrow> service_name \<Rightarrow> service_addr \<Rightarrow> peer_id \<Rightarrow> bool" where
  "tunnel_dial_failed_requeries_service_when_no_fallback_provider env service bind primary =
     (let state = add_service_tunnel service bind new_tunnel_state;
          (s1, first_commands) = tunnel_transition env state
            (DhtServiceResolved service [(primary, False)]);
          (s2, fail_commands) = tunnel_transition env s1 (TunnelDialFailed primary ''timeout'')
      in DhtLookupPeer primary \<in> set first_commands \<and> has_pending_for s1 primary \<and>
         \<not> has_pending_for s2 primary \<and>
         DhtGetProviders service (for_service service) \<in> set fail_commands \<and>
         fmlookup (pending_by_service s2) service = Some [bind])"

section \<open>Dial failures during an attempt\<close>

definition tunnel_dial_failed_during_holepunch_redials_with_attempt_addresses ::
  "step_env \<Rightarrow> peer_id \<Rightarrow> service_name \<Rightarrow> service_addr \<Rightarrow> bool" where
  "tunnel_dial_failed_during_holepunch_redials_with_attempt_addresses env peer service bind =
     (let direct_addr = [Ip4 (Ipv4 81 219 135 162), Udp 47207, QuicV1];
          state = new_tunnel_state\<lparr>awaiting_holepunch := fmupd peer [(service, bind)] fmempty\<rparr>;
          (s1, _) = tunnel_transition env state (HolePunchAttemptStarted peer 9);
          (s2, _) = tunnel_transition env s1 (PeerIdentified peer [direct_addr] direct_addr);
          (_, commands) = tunnel_transition env s2 (TunnelDialFailed peer ''temporary network failure'')
      in DialPeerWithAddrs peer [direct_addr] 9 \<in> set commands)"

definition tunnel_dial_failed_during_holepunch_suppresses_duplicate_redials_per_attempt ::
  "step_env \<Rightarrow> peer_id \<Rightarrow> service_name \<Rightarrow> service_addr \<Rightarrow> bool" where
  "tunnel_dial_failed_during_holepunch_suppresses_duplicate_redials_per_attempt env peer service bind =
     (let direct_addr = [Ip4 (Ipv4 81 219 135 162), Udp 47207, QuicV1];
          state = new_tunnel_state\<lparr>awaiting_holepunch := fmupd peer [(service, bind)] fmempty\<rparr>;
          (s1, _) = tunnel_transition env state (HolePunchAttemptStarted peer 10);
          (s2, _) = tunnel_transition env s1 (PeerIdentified peer [direct_addr] direct_addr);
          (s3, first_commands) = tunnel_transition env s2
            (TunnelDialFailed peer ''temporary network failure'');
          (s4, second_commands) = tunnel_transition env s3
            (TunnelDialFailed peer ''temporary network failure'')
      in DialPeerWithAddrs peer [direct_addr] 10 \<in> set first_commands \<and> second_commands = [] \<and>
         (case fmlookup (holepunch_sessions s4) peer of
            None \<Rightarrow> False
          | Some s \<Rightarrow> dial_retry_dispatched s))"

definition tunnel_dial_failed_reenables_retry_after_fresh_identify_candidates ::
  "step_env \<Rightarrow> peer_id \<Rightarrow> service_name \<Rightarrow> service_addr \<Rightarrow> bool" where
  "tunnel_dial_failed_reenables_retry_after_fresh_identify_candidates env peer service bind =
     (let direct_addr = [Ip4 (Ipv4 81 219 135 162), Udp 47207, QuicV1];
          state = new_tunnel_state\<lparr>awaiting_holepunch := fmupd peer [(service, bind)] fmempty\<rparr>;
          (s1, _) = tunnel_transition env state (HolePunchAttemptStarted peer 11);
          (s2, first_commands) = tunnel_transition env s1
            (TunnelDialFailed peer ''temporary network failure'');
          (s3, second_commands) = tunnel_transition env s2
            (TunnelDialFailed peer ''temporary network failure'');
          (s4, _) = tunnel_transition env s3 (PeerIdentified peer [direct_addr] direct_addr);
          (_, third_commands) = tunnel_transition env s4
            (TunnelDialFailed peer ''temporary network failure'')
      in DialPeer peer \<in> set first_commands \<and> second_commands = [] \<and>
         (case fmlookup (holepunch_sessions s4) peer of
            None \<Rightarrow> False
          | Some s \<Rightarrow> \<not> dial_retry_dispatched s) \<and>
         DialPeerWithAddrs peer [direct_addr] 11 \<in> set third_commands)"

definition tunnel_dial_failed_pending_abort_is_ignored_while_waiting_disconnect ::
  "step_env \<Rightarrow> peer_id \<Rightarrow> service_name \<Rightarrow> service_addr \<Rightarrow> bool" where
  "tunnel_dial_failed_pending_abort_is_ignored_while_waiting_disconnect env peer service bind =
     (let state = new_tunnel_state\<lparr>awaiting_holepunch := fmupd peer [(service, bind)] fmempty\<rparr>;
          (s1, _) = tunnel_transition env state (HolePunchAttemptStarted peer 12);
          (s2, timeout_commands) = tunnel_transition env s1 (HolePunchAttemptTimeout peer 12);
          (s3, commands) = tunnel_transition env s2 (TunnelDialFailed peer
            ''Dial error: Pending connection attempt has been aborted.'')
      in DisconnectPeer peer \<in> set timeout_commands \<and> commands = [] \<and>
         peer |\<in>| pending_retry_redial s3 \<and>
         map_option sess_phase (fmlookup (holepunch_sessions s3) peer) = Some WaitingDisconnect)"

definition tunnel_dial_failed_is_ignored_while_waiting_disconnect ::
  "step_env \<Rightarrow> peer_id \<Rightarrow> service_name \<Rightarrow> service_addr \<Rightarrow> bool" where
  "tunnel_dial_failed_is_ignored_while_waiting_disconnect env peer service bind =
     (let state = new_tunnel_state\<lparr>awaiting_holepunch := fmupd peer [(service, bind)] fmempty\<rparr>;
          (s1, _) = tunnel_transition env state (HolePunchAttemptStarted peer 13);
          (s2, timeout_commands) = tunnel_transition env s1 (HolePunchAttemptTimeout peer 13);
          (s3, commands) = tunnel_transition env s2
            (TunnelDialFailed peer ''temporary network failure'')
      in DisconnectPeer peer \<in> set timeout_commands \<and> commands = [] \<and>
         peer |\<in>| pending_retry_redial s3 \<and>
         map_option sess_phase (fmlookup (holepunch_sessions s3) peer) = Some WaitingDisconnect)"

section \<open>Retries\<close>

definition retries_exhausted_fall_back_to_relay_tunnel ::
  "step_env \<Rightarrow> peer_id \<Rightarrow> service_name \<Rightarrow> service_addr \<Rightarrow> bool" where
  "retries_exhausted_fall_back_to_relay_tunnel env peer service bind =
     (let state = new_tunnel_state\<lparr>awaiting_holepunch := fmupd peer [(service, bind)] fmempty\<rparr>;
          (s1, _) = tunnel_transition env state (HolePunchAttemptStarted peer 1);
          (s2, first_retry) = tunnel_transition env s1 (HolePunchAttemptTimeout peer 1);
          (s3, _) = tunnel_transition env s2 (ConnectionLost peer 0);
          (s4, _) = tunnel_transition env s3 (HolePunchAttemptStarted peer 2);
          (s5, second_retry) = tunnel_transition env s4 (HolePunchAttemptTimeout peer 2);
          (s6, _) = tunnel_transition env s5 (ConnectionLost peer 0);
          (s7, _) = tunnel_transition env s6 (HolePunchAttemptStarted peer 3);
          (s8, third_retry) = tunnel_transition env s7 (HolePunchAttemptTimeout peer 3);
          (s9, _) = tunnel_transition env s8 (ConnectionLost peer 0);
          (s10, _) = tunnel_transition env s9 (HolePunchAttemptStarted peer 4);
          (s11, fourth_retry) = tunnel_transition env s10 (HolePunchAttemptTimeout peer 4)
      in DisconnectPeer peer \<in> set first_retry \<and> DisconnectPeer peer \<in> set second_retry \<and>
         DisconnectPeer peer \<in> set third_retry \<and>
         SpawnTunnel peer service bind \<in> set fourth_retry \<and>
         DisconnectPeer peer \<notin> set fourth_retry \<and>
         \<not> contains_key (awaiting_holepunch s11) peer \<and> peer |\<notin>| pending_retry_redial s11 \<and>
         \<not> contains_key (holepunch_retry_attempts s11) peer \<and>
         \<not> contains_key (holepunch_sessions s11) peer)"

text \<open>The relay and the destination in the address of this test are two fixed peers.\<close>

definition retry_redial_uses_relay_snapshot_addresses ::
  "step_env \<Rightarrow> peer_id \<Rightarrow> service_name \<Rightarrow> service_addr \<Rightarrow> peer_id \<Rightarrow> peer_id \<Rightarrow> bool" where
  "retry_redial_uses_relay_snapshot_addresses env peer service bind relay destination =
     (let relay_addr = [Ip4 (Ipv4 81 219 135 164), Udp 4001, QuicV1, P2p relay, P2pCircuit,
            P2p destination];
          state = new_tunnel_state\<lparr>awaiting_holepunch := fmupd peer [(service, bind)] fmempty\<rparr>;
          (s1, _) = tunnel_transition env state (PeerIdentified peer [relay_addr] relay_addr);
          (s2, _) = tunnel_transition env s1 (HolePunchAttemptStarted peer 3);
          (s3, _) = tunnel_transition env s2 (HolePunchAttemptTimeout peer 3);
          (_, commands) = tunnel_transition env s3 (ConnectionLost peer 0)
      in DialPeerWithAddrs peer [relay_addr] 3 \<in> set commands)"

definition retry_redial_prioritizes_direct_before_relay_candidates ::
  "step_env \<Rightarrow> peer_id \<Rightarrow> service_name \<Rightarrow> service_addr \<Rightarrow> peer_id \<Rightarrow> bool" where
  "retry_redial_prioritizes_direct_before_relay_candidates env peer service bind relay =
     (let relay_addr = [Ip4 (Ipv4 81 219 135 164), Udp 4001, QuicV1, P2p relay, P2pCircuit,
            P2p peer];
          direct_addr = [Ip4 (Ipv4 81 219 135 162), Udp 41613, QuicV1, P2p peer];
          state = new_tunnel_state\<lparr>awaiting_holepunch := fmupd peer [(service, bind)] fmempty\<rparr>;
          (s1, _) = tunnel_transition env state
            (PeerIdentified peer [relay_addr, direct_addr] relay_addr);
          (s2, _) = tunnel_transition env s1 (HolePunchAttemptStarted peer 1);
          (s3, _) = tunnel_transition env s2 (HolePunchAttemptTimeout peer 1);
          (_, commands) = tunnel_transition env s3 (ConnectionLost peer 0)
      in case find (\<lambda>c. case c of DialPeerWithAddrs dial_peer _ attempt_id \<Rightarrow>
                             dial_peer = peer \<and> attempt_id = 1
                         | _ \<Rightarrow> False) commands of
           Some (DialPeerWithAddrs _ addrs _) \<Rightarrow>
             (addrs \<noteq> [] \<and> hd addrs = direct_addr) \<and> relay_addr \<in> set addrs
         | _ \<Rightarrow> False)"

section \<open>They hold\<close>

lemmas tunnel_step_simps =
  new_tunnel_state_def add_peer_tunnel_def add_service_tunnel_def set_nat_mapping_def
  has_pending_for_def on_phase_ready_def initiate_lookups_def on_dht_peer_lookup_complete_def
  on_dht_service_resolved_def on_dht_service_failed_def route_connected_peer_def queue_for_direct_def
  spawn_all_def store_provider_candidates_def dedup_provider_candidates_def dedup_peers_def
  on_tunnel_peer_connected_def clear_retry_state_def Let_def

lemma ready_tests:
  assumes "env_ok env"
  shows "phase_changed_to_ready_publishes env old"
    and "phase_changed_to_ready_initiates_lookups env old peer service bind svc svc_bind"
    and "phase_changed_non_ready_is_noop env old new"
    and "relay_accepted_publishes env peer"
  by (simp_all add: phase_changed_to_ready_publishes_def phase_changed_to_ready_initiates_lookups_def
      phase_changed_non_ready_is_noop_def relay_accepted_publishes_def tunnel_step_simps
      entry_extend_def single_orders [OF assms] fmdom_fmupd)
    (cases new; simp)

lemma lookup_tests:
  "dht_peer_lookup_spawns_when_connected env peer service bind"
  "dht_peer_lookup_dials_when_disconnected env peer service bind"
  "dht_service_resolved_spawns_when_connected env service bind provider"
  "dht_service_resolved_initiates_peer_lookup_when_disconnected env service bind provider"
  "dht_service_failed_retries_lookup_when_intent_is_pending env service bind"
  by (simp_all add: dht_peer_lookup_spawns_when_connected_def dht_peer_lookup_dials_when_disconnected_def
      dht_service_resolved_spawns_when_connected_def
      dht_service_resolved_initiates_peer_lookup_when_disconnected_def
      dht_service_failed_retries_lookup_when_intent_is_pending_def tunnel_step_simps)

lemma connected_tests:
  "tunnel_peer_connected_direct_spawns_immediately env peer service bind"
  "tunnel_peer_connected_relayed_waits_for_holepunch env peer service bind"
  "hole_punch_failed_legacy_event_is_noop env peer service bind reason"
  "peer_lifecycle_events_are_noop env peer addr status"
  "direct_connection_spawns_from_awaiting_holepunch env peer service bind"
  "direct_connection_clears_relayed_after_retry env peer"
  "tunnel_connected_relayed_queues_when_symmetric env peer service bind"
  by (simp_all add: tunnel_peer_connected_direct_spawns_immediately_def
      tunnel_peer_connected_relayed_waits_for_holepunch_def hole_punch_failed_legacy_event_is_noop_def
      peer_lifecycle_events_are_noop_def direct_connection_spawns_from_awaiting_holepunch_def
      direct_connection_clears_relayed_after_retry_def tunnel_connected_relayed_queues_when_symmetric_def
      tunnel_step_simps)

lemma relayed_tests:
  "dht_peer_lookup_relayed_awaits_holepunch env peer service bind"
  "dht_service_resolved_relayed_awaits_holepunch env service bind provider"
  "relayed_peer_queues_when_symmetric_nat env peer service bind"
  "relayed_peer_awaits_holepunch_when_cone_nat env peer service bind"
  by (simp_all add: dht_peer_lookup_relayed_awaits_holepunch_def
      dht_service_resolved_relayed_awaits_holepunch_def relayed_peer_queues_when_symmetric_nat_def
      relayed_peer_awaits_holepunch_when_cone_nat_def tunnel_step_simps)

lemma legacy_tests:
  "holepunch_failed_legacy_then_connection_lost_recovers_with_redial env peer service bind reason"
  "holepunch_failed_legacy_ignores_existing_retry_counter env peer service bind reason"
  "connection_lost_requeues_waiting_tunnels_and_redials env peer service bind"
  by (simp_all add: holepunch_failed_legacy_then_connection_lost_recovers_with_redial_def
      holepunch_failed_legacy_ignores_existing_retry_counter_def
      connection_lost_requeues_waiting_tunnels_and_redials_def on_all_connections_lost_def
      tunnel_step_simps)

lemma attempt_tests:
  "stale_attempt_failure_is_ignored env peer service bind"
  "current_attempt_timeout_requests_disconnect env peer service bind"
  "tunnel_dial_failed_without_active_intent_is_noop env peer"
  "tunnel_dial_failed_pending_abort_is_ignored_while_waiting_disconnect env peer service bind"
  "tunnel_dial_failed_is_ignored_while_waiting_disconnect env peer service bind"
  by (simp_all add: stale_attempt_failure_is_ignored_def current_attempt_timeout_requests_disconnect_def
      tunnel_dial_failed_without_active_intent_is_noop_def
      tunnel_dial_failed_pending_abort_is_ignored_while_waiting_disconnect_def
      tunnel_dial_failed_is_ignored_while_waiting_disconnect_def begin_holepunch_attempt_def
      retry_holepunch_attempt_def schedule_holepunch_retry_def set_session_phase_def
      on_tunnel_dial_failed_def MAX_RELAY_RECONNECT_RETRIES_def tunnel_step_simps)

lemma fallback_tests:
  assumes "env_ok env"
  shows "primary \<noteq> fallback \<Longrightarrow>
      tunnel_dial_failed_reroutes_to_fallback_provider env service bind primary fallback"
    and "tunnel_dial_failed_requeries_service_when_no_fallback_provider env service bind primary"
  by (simp_all add: tunnel_dial_failed_reroutes_to_fallback_provider_def
      tunnel_dial_failed_requeries_service_when_no_fallback_provider_def on_tunnel_dial_failed_def
      reroute_specs_after_dial_failure_def reroute_one_def next_fallback_provider_def assign_to_peer_def
      entry_extend_def tunnel_step_simps single_orders [OF assms])

text \<open>The candidates of a peer when one or no recent address is of the kind asked for.\<close>

lemma iterate_one:
  assumes "iterates ord" and "a |\<in>| S" and "\<And>b. b |\<in>| S \<Longrightarrow> P b \<longleftrightarrow> b = a"
  shows "filter P (ord S) = [a]"
proof -
  from assms(1) have "set (ord S) = fset S" and "distinct (ord S)"
    by (simp_all add: iterates_def)
  then have "distinct (filter P (ord S))" and "set (filter P (ord S)) = {a}"
    using assms(2,3) by auto
  then show ?thesis
    by (metis distinct.simps(2) empty_iff empty_set insert_iff list.exhaust list.set_intros(1)
        list.set_intros(2) singletonD)
qed

lemma fresh_entries_filter:
  "map fst (fresh_entries env last_seen now P) =
     filter (\<lambda>a. now - get_or 0 last_seen a \<le> ADDRESS_CANDIDATE_TTL \<and> P a) (addr_order env (fmdom last_seen))"
  by (simp add: fresh_entries_def filter_map comp_def)

lemma fresh_one:
  assumes "env_ok env" and "fmlookup (address_last_seen s) peer = Some last_seen"
    and "a |\<in>| fmdom last_seen" and "now - get_or 0 last_seen a \<le> ADDRESS_CANDIDATE_TTL" and "0 < limit"
    and "\<And>b. b |\<in>| fmdom last_seen \<Longrightarrow> P b \<longleftrightarrow> b = a"
  shows "fresh_candidates env s peer now P limit = [a]"
proof -
  have "map fst (fresh_entries env last_seen now P) = [a]"
    unfolding fresh_entries_filter using assms by (intro iterate_one) (auto simp: env_ok_def)
  then obtain t where "fresh_entries env last_seen now P = [(a, t)]"
    by auto
  with assms(2,5) show ?thesis
    by (cases limit) (simp_all add: fresh_candidates_def sort_by_def)
qed

lemma fresh_none:
  assumes "env_ok env" and "fmlookup (address_last_seen s) peer = Some last_seen"
    and "\<And>b. b |\<in>| fmdom last_seen \<Longrightarrow> \<not> P b"
  shows "fresh_candidates env s peer now P limit = []"
proof -
  have "map fst (fresh_entries env last_seen now P) = []"
    unfolding fresh_entries_filter using assms(1,3)
    by (auto simp: env_ok_def iterates_def filter_empty_conv)
  with assms(2) show ?thesis
    by (simp add: fresh_candidates_def sort_by_def)
qed

lemma map_retain_new:
  "fmlookup m k = None \<Longrightarrow>
     map_retain P (fmupd k v m) = (if P k v then fmupd k v (map_retain P m) else map_retain P m)"
  by (rule fmap_ext) (auto split: option.splits)

lemma map_retain_fmempty: "map_retain P fmempty = fmempty"
  by (rule fmap_ext) simp

lemma fmupd_not_fmempty: "fmupd k v m \<noteq> fmempty"
  by (metis fmupd_lookup fmempty_lookup option.distinct(1))

text \<open>The candidates right after an identify with one or two new addresses.\<close>

lemma fresh_single:
  assumes "env_ok env" and "0 < limit"
    and "fmlookup (address_last_seen s) peer = Some (fmupd a now fmempty)"
  shows "fresh_candidates env s peer now P limit = (if P a then [a] else [])"
proof (cases "P a")
  case True
  with fresh_one [OF assms(1,3) _ _ assms(2), of a now P] show ?thesis by simp
next
  case False
  with fresh_none [OF assms(1,3), of P now limit] show ?thesis by simp
qed

lemma fresh_pair:
  assumes "env_ok env" and "0 < limit" and "a \<noteq> b" and "P a \<noteq> P b"
    and "fmlookup (address_last_seen s) peer = Some (fmupd b now (fmupd a now fmempty))"
  shows "fresh_candidates env s peer now P limit = (if P a then [a] else [b])"
proof (cases "P a")
  case True
  with fresh_one [OF assms(1,5) _ _ assms(2), of a now P] assms(3,4) show ?thesis by auto
next
  case False
  with fresh_one [OF assms(1,5) _ _ assms(2), of b now P] assms(3,4) show ?thesis by auto
qed

lemma test_addrs:
  "is_supported_direct_candidate [Ip4 (Ipv4 81 219 135 162), Udp n, QuicV1]"
  "is_supported_direct_candidate [Ip4 (Ipv4 81 219 135 162), Udp n, QuicV1, P2p p]"
  "\<not> has_p2p_circuit [Ip4 (Ipv4 81 219 135 162), Udp n, QuicV1]"
  "\<not> has_p2p_circuit [Ip4 (Ipv4 81 219 135 162), Udp n, QuicV1, P2p p]"
  "has_p2p_circuit [Ip4 ip, Udp n, QuicV1, P2p r, P2pCircuit, P2p q]"
  "\<not> is_supported_direct_candidate [Ip4 ip, Udp n, QuicV1, P2p r, P2pCircuit, P2p q]"
  by (simp_all add: is_supported_direct_candidate_def has_p2p_circuit_def has_udp_and_quic_def
      has_public_ip_def needs_external_rewrite_def)

lemmas identify_simps =
  update_address_oracle_def record_address_candidates_def see_addr_def map_retain_new map_retain_fmempty
  fmupd_not_fmempty begin_holepunch_attempt_def on_tunnel_dial_failed_def prioritized_redial_addrs_def
  dedup_addrs_def refresh_session_def mark_dial_retry_def redial_command_def empty_oracle_def
  MAX_RELAY_CANDIDATES_def MAX_DIRECT_CANDIDATES_def MAX_REDIAL_ADDRESSES_def
  is_pending_abort_dial_error_def str_contains_def

lemmas attempt_simps =
  retry_holepunch_attempt_def schedule_holepunch_retry_def set_session_phase_def
  on_all_connections_lost_def MAX_RELAY_RECONNECT_RETRIES_def

lemma fresh_unseen:
  "fmlookup (address_last_seen s) peer = None \<Longrightarrow> fresh_candidates env s peer now P limit = []"
  by (simp add: fresh_candidates_def)

lemma redial_tests:
  assumes "env_ok env"
  shows "tunnel_dial_failed_during_holepunch_redials_with_attempt_addresses env peer service bind"
    and "tunnel_dial_failed_during_holepunch_suppresses_duplicate_redials_per_attempt env peer service bind"
    and "tunnel_dial_failed_reenables_retry_after_fresh_identify_candidates env peer service bind"
  by (simp_all add: tunnel_dial_failed_during_holepunch_redials_with_attempt_addresses_def
      tunnel_dial_failed_during_holepunch_suppresses_duplicate_redials_per_attempt_def
      tunnel_dial_failed_reenables_retry_after_fresh_identify_candidates_def
      identify_simps tunnel_step_simps test_addrs fresh_single [OF assms] fresh_unseen)

lemma prioritized_unseen:
  "fmlookup (address_last_seen s) peer = None \<Longrightarrow> fmlookup (address_oracle s) peer = None \<Longrightarrow>
     prioritized_redial_addrs env s peer session =
       take MAX_REDIAL_ADDRESSES (dedup_addrs (direct_snapshot session @ relay_redial_addrs session))"
  by (simp add: prioritized_redial_addrs_def fresh_candidates_def empty_oracle_def Let_def)

lemma retry_tests:
  assumes "env_ok env"
  shows "retries_exhausted_fall_back_to_relay_tunnel env peer service bind"
  by (simp add: retries_exhausted_fall_back_to_relay_tunnel_def begin_holepunch_attempt_def empty_oracle_def
      attempt_simps tunnel_step_simps saturating_add_def word_le_nat_alt prioritized_unseen dedup_addrs_def
      redial_command_def)

lemma snapshot_tests:
  assumes "env_ok env"
  shows "retry_redial_uses_relay_snapshot_addresses env peer service bind relay destination"
  by (simp add: retry_redial_uses_relay_snapshot_addresses_def
      identify_simps attempt_simps
      tunnel_step_simps test_addrs saturating_add_def word_le_nat_alt fresh_single [OF assms])

text \<open>With a relayed and a direct address identified, the redial after a lost attempt tries both.\<close>

lemma redial_after_pair:
  assumes "env_ok env" and "has_p2p_circuit a" and "\<not> is_supported_direct_candidate a"
    and "\<not> has_p2p_circuit b" and "is_supported_direct_candidate b"
    and "s1 = fst (tunnel_transition env (new_tunnel_state\<lparr>awaiting_holepunch := fmupd peer specs fmempty\<rparr>)
           (PeerIdentified peer [a, b] a))"
    and "s2 = fst (tunnel_transition env s1 (HolePunchAttemptStarted peer i))"
    and "s3 = fst (tunnel_transition env s2 (HolePunchAttemptTimeout peer i))"
  shows "snd (tunnel_transition env s3 (ConnectionLost peer 0)) = [DialPeerWithAddrs peer [b, a] i]"
proof -
  have ab: "a \<noteq> b" using assms by auto
  define s0 where "s0 = new_tunnel_state\<lparr>awaiting_holepunch := fmupd peer specs fmempty\<rparr>"
  define seen where "seen = fmupd b (clock env) (fmupd a (clock env) fmempty)"
  have s0: "fmlookup (address_last_seen s0) peer = None" "address_last_seen s0 = fmempty"
    "holepunch_sessions s0 = fmempty" "address_oracle s0 = fmempty" "holepunch_retry_attempts s0 = fmempty"
    "fmlookup (awaiting_holepunch s0) peer = Some specs" "contains_key (awaiting_holepunch s0) peer"
    by (simp_all add: s0_def new_tunnel_state_def)
  have fresh: "fresh_candidates env s peer (clock env) has_p2p_circuit limit = [a]"
    "fresh_candidates env s peer (clock env) is_supported_direct_candidate limit = [b]"
    if "0 < limit" and "fmlookup (address_last_seen s) peer = Some seen" for s limit
    using fresh_pair [OF assms(1) that(1) ab, of _ s peer "clock env"] that(2) assms
    by (simp_all add: seen_def)
  have "record_address_candidates peer [a, b] (clock env) s0 =
      s0\<lparr>address_last_seen := fmupd peer seen fmempty\<rparr>"
    using assms ab by (simp add: record_address_candidates_def see_addr_def s0 seen_def map_retain_new
        map_retain_fmempty fmupd_not_fmempty Let_def)
  then have s1: "s1 = s0\<lparr>address_last_seen := fmupd peer seen fmempty,
      address_oracle := fmupd peer \<lparr>relay_addrs = [a], direct_addrs = [b]\<rparr> fmempty\<rparr>"
    by (simp add: assms(6) update_address_oracle_def s0 fresh MAX_RELAY_CANDIDATES_def
        MAX_DIRECT_CANDIDATES_def Let_def flip: s0_def)
  show ?thesis
    using ab assms(2-5)
    by (simp add: assms(7,8) s1 begin_holepunch_attempt_def attempt_simps s0 saturating_add_def
        word_le_nat_alt prioritized_redial_addrs_def fresh dedup_addrs_def redial_command_def
        MAX_RELAY_CANDIDATES_def MAX_DIRECT_CANDIDATES_def MAX_REDIAL_ADDRESSES_def Let_def)
qed

lemma priority_test:
  assumes "env_ok env"
  shows "retry_redial_prioritizes_direct_before_relay_candidates env peer service bind relay"
  using redial_after_pair [OF assms test_addrs(5,6,4,2) refl refl refl]
  by (simp add: retry_redial_prioritizes_direct_before_relay_candidates_def split_beta Let_def
      del: tunnel_transition.simps)

text \<open>C39: Every unit test of the tunnel state machine (\<open>state/tunnel.rs\<close>) holds for all the peers, services, bind
  addresses, phases and reasons it may be given and for every iteration order of the hash maps: on
  lookups and resolutions, on relayed and direct connections, on hole-punch attempts and their
  reports, on dial failures and on the exhaustion of the retries.\<close>

theorem tunnel_tests_hold:
  assumes "env_ok env" and "primary \<noteq> fallback"
  shows "phase_changed_to_ready_publishes env old \<and>
    phase_changed_to_ready_initiates_lookups env old peer service bind svc svc_bind \<and>
    phase_changed_non_ready_is_noop env old new \<and>
    relay_accepted_publishes env relay_peer \<and>
    dht_peer_lookup_spawns_when_connected env peer service bind \<and>
    dht_peer_lookup_dials_when_disconnected env peer service bind \<and>
    dht_service_resolved_spawns_when_connected env service bind provider \<and>
    dht_service_resolved_initiates_peer_lookup_when_disconnected env service bind provider \<and>
    tunnel_peer_connected_direct_spawns_immediately env peer service bind \<and>
    tunnel_peer_connected_relayed_waits_for_holepunch env peer service bind \<and>
    hole_punch_failed_legacy_event_is_noop env peer service bind reason \<and>
    peer_lifecycle_events_are_noop env peer addr status \<and>
    dht_peer_lookup_relayed_awaits_holepunch env peer service bind \<and>
    dht_service_resolved_relayed_awaits_holepunch env service bind provider \<and>
    holepunch_failed_legacy_then_connection_lost_recovers_with_redial env peer service bind reason \<and>
    holepunch_failed_legacy_ignores_existing_retry_counter env peer service bind reason \<and>
    direct_connection_spawns_from_awaiting_holepunch env peer service bind \<and>
    connection_lost_requeues_waiting_tunnels_and_redials env peer service bind \<and>
    direct_connection_clears_relayed_after_retry env peer \<and>
    relayed_peer_queues_when_symmetric_nat env peer service bind \<and>
    relayed_peer_awaits_holepunch_when_cone_nat env peer service bind \<and>
    tunnel_connected_relayed_queues_when_symmetric env peer service bind \<and>
    stale_attempt_failure_is_ignored env peer service bind \<and>
    current_attempt_timeout_requests_disconnect env peer service bind \<and>
    dht_service_failed_retries_lookup_when_intent_is_pending env service bind \<and>
    tunnel_dial_failed_without_active_intent_is_noop env peer \<and>
    tunnel_dial_failed_reroutes_to_fallback_provider env service bind primary fallback \<and>
    tunnel_dial_failed_requeries_service_when_no_fallback_provider env service bind primary \<and>
    tunnel_dial_failed_during_holepunch_redials_with_attempt_addresses env peer service bind \<and>
    tunnel_dial_failed_during_holepunch_suppresses_duplicate_redials_per_attempt env peer service bind \<and>
    tunnel_dial_failed_reenables_retry_after_fresh_identify_candidates env peer service bind \<and>
    tunnel_dial_failed_pending_abort_is_ignored_while_waiting_disconnect env peer service bind \<and>
    tunnel_dial_failed_is_ignored_while_waiting_disconnect env peer service bind \<and>
    retries_exhausted_fall_back_to_relay_tunnel env peer service bind \<and>
    retry_redial_uses_relay_snapshot_addresses env peer service bind relay destination \<and>
    retry_redial_prioritizes_direct_before_relay_candidates env peer service bind relay"
  using ready_tests [OF assms(1)] lookup_tests connected_tests relayed_tests legacy_tests attempt_tests
    fallback_tests(1) [OF assms] fallback_tests(2) [OF assms(1)] redial_tests [OF assms(1)]
    retry_tests [OF assms(1)] snapshot_tests [OF assms(1)] priority_test [OF assms(1)]
  by (intro conjI)

theorem tunnel_tests_hold_witness:
  "tunnel_dial_failed_reroutes_to_fallback_provider (sample_env 0) (ServiceName ''svc'') sample_bind
     (PeerId ''a'') (PeerId ''b'')"
proof -
  have "PeerId ''a'' \<noteq> PeerId ''b''"
    by simp
  from tunnel_tests_hold [OF env_ok_sample this] show ?thesis
    by simp
qed

end
