(* ===== verification/Machine_Tests.thy ===== *)
theory Machine_Tests
  imports App_Machine Backoff Connection_Machine Translate Nat_Probe Test_Support
begin

text \<open>
  The tests of \<open>src/src/state/app.rs\<close>, \<open>src/src/node/backoff.rs\<close>,
  \<open>src/src/node/connection_state.rs\<close>, \<open>src/src/node/translate.rs\<close>, \<open>src/src/external_addr.rs\<close> and
  \<open>src/src/nat_probe.rs\<close>, each as a predicate on the values it is given.
\<close>

section \<open>The composed machine\<close>

definition new_app :: app_state where
  "new_app = new_app_state new_peer_state new_tunnel_state"

definition composition_publishes_on_ready_entry ::
  "step_env \<Rightarrow> peer_id \<Rightarrow> multiaddr \<Rightarrow> multiaddr \<Rightarrow> bool" where
  "composition_publishes_on_ready_entry env peer addr external_addr =
     (let (app1, _) = app_transition env new_app (BootstrapConnected peer addr);
          (app2, _) = app_transition env app1 (ExternalAddrConfirmed external_addr);
          (app3, commands) = app_transition env app2 KademliaBootstrapOk
      in app_phase app1 = Joining \<and> app_phase app2 = Joining \<and> app_phase app3 = Ready \<and>
         PublishServices \<in> set commands)"

definition composition_publishes_on_relay_accepted :: "step_env \<Rightarrow> peer_id \<Rightarrow> multiaddr \<Rightarrow> bool" where
  "composition_publishes_on_relay_accepted env peer addr =
     (let (app1, _) = app_transition env new_app (BootstrapConnected peer addr);
          (app2, _) = app_transition env app1 (NatStatusChanged Private);
          (_, commands) = app_transition env app2 (RelayReservationAccepted peer)
      in PublishServices \<in> set commands)"

definition composition_preserves_peer_commands :: "step_env \<Rightarrow> peer_id \<Rightarrow> multiaddr \<Rightarrow> bool" where
  "composition_preserves_peer_commands env peer addr =
     (let (_, commands) = app_transition env new_app (BootstrapConnected peer addr)
      in KademliaBootstrap \<in> set commands \<and> KademliaAddAddress peer addr \<in> set commands)"

definition composition_shutdown :: "step_env \<Rightarrow> bool" where
  "composition_shutdown env =
     (let (app, commands) = app_transition env new_app ShutdownRequested
      in app_phase app = ShuttingDown \<and> Shutdown \<in> set commands)"

definition no_bootstrap_publishes_directly :: "step_env \<Rightarrow> bool" where
  "no_bootstrap_publishes_directly env =
     (let (app, commands) = app_transition env new_app NoBootstrapPeers
      in app_phase app = Ready \<and> PublishServices \<in> set commands)"

text \<open>\<open>iter().position(..)\<close>.\<close>

fun position :: "('a \<Rightarrow> bool) \<Rightarrow> 'a list \<Rightarrow> nat option" where
  "position P [] = None"
| "position P (x # xs) = (if P x then Some 0 else map_option Suc (position P xs))"

definition peer_cmds_before_tunnel_cmds ::
  "step_env \<Rightarrow> peer_id \<Rightarrow> multiaddr \<Rightarrow> multiaddr \<Rightarrow> bool" where
  "peer_cmds_before_tunnel_cmds env peer addr external_addr =
     (let (app1, _) = app_transition env new_app (BootstrapConnected peer addr);
          (app2, _) = app_transition env app1 (ExternalAddrConfirmed external_addr);
          (_, commands) = app_transition env app2 KademliaBootstrapOk;
          publish_idx = position (\<lambda>c. c = PublishServices) commands;
          kad_idx = position (\<lambda>c. case c of KademliaBootstrap \<Rightarrow> True | KademliaAddAddress _ _ \<Rightarrow> True
                                   | _ \<Rightarrow> False) commands
      in case (kad_idx, publish_idx) of
           (Some kad, Some publish) \<Rightarrow> kad < publish
         | _ \<Rightarrow> True)"

section \<open>The reconnect backoff\<close>

definition first_call_returns_initial :: "peer_id \<Rightarrow> multiaddr \<Rightarrow> bool" where
  "first_call_returns_initial peer addr =
     (let (_, result) = schedule_reconnect peer (new_reconnect_backoff [(peer, addr)])
      in case result of
           None \<Rightarrow> False
         | Some (returned_addr, delay) \<Rightarrow> returned_addr = addr \<and> delay = BACKOFF_INITIAL)"

text \<open>\<open>1u32.checked_shl(k).unwrap_or(u32::MAX)\<close>.\<close>

definition shifted_one :: "nat \<Rightarrow> nat" where
  "shifted_one k = (if k < 32 then unat (push_bit k 1 :: 32 word) else 2 ^ 32 - 1)"

definition exponential_growth_sequence :: "peer_id \<Rightarrow> multiaddr \<Rightarrow> nat \<Rightarrow> bool" where
  "exponential_growth_sequence peer addr n =
     (n < 10 \<longrightarrow>
       snd (schedule_times (Suc n) peer (new_reconnect_backoff [(peer, addr)])) =
         map (\<lambda>k. min (duration_saturating_mul BACKOFF_INITIAL (shifted_one k)) BACKOFF_MAX) [0..<Suc n])"

definition delay_never_exceeds_max :: "peer_id \<Rightarrow> multiaddr \<Rightarrow> nat \<Rightarrow> bool" where
  "delay_never_exceeds_max peer addr n =
     (let ds = snd (schedule_times n peer (new_reconnect_backoff [(peer, addr)]))
      in length ds = n \<and> list_all (\<lambda>delay. delay \<le> BACKOFF_MAX) ds)"

definition cap_is_stable :: "peer_id \<Rightarrow> multiaddr \<Rightarrow> bool" where
  "cap_is_stable peer addr =
     (let (backoff, _) = schedule_times 10 peer (new_reconnect_backoff [(peer, addr)])
      in snd (schedule_times 5 peer backoff) = replicate 5 BACKOFF_MAX)"

definition reset_clears_delay :: "peer_id \<Rightarrow> multiaddr \<Rightarrow> nat \<Rightarrow> bool" where
  "reset_clears_delay peer addr n =
     (let (backoff, _) = schedule_times n peer (new_reconnect_backoff [(peer, addr)])
      in map_option snd (snd (schedule_reconnect peer (reset_backoff peer backoff))) =
           Some BACKOFF_INITIAL)"

definition unknown_peer_returns_none :: "peer_id \<Rightarrow> peer_id \<Rightarrow> multiaddr \<Rightarrow> bool" where
  "unknown_peer_returns_none known_peer unknown_peer addr =
     (known_peer \<noteq> unknown_peer \<longrightarrow>
       snd (schedule_reconnect unknown_peer (new_reconnect_backoff [(known_peer, addr)])) = None)"

definition independent_peer_delays :: "peer_id \<Rightarrow> peer_id \<Rightarrow> multiaddr \<Rightarrow> multiaddr \<Rightarrow> bool" where
  "independent_peer_delays peer_a peer_b addr_a addr_b =
     (peer_a \<noteq> peer_b \<longrightarrow>
       (let (backoff, _) =
              schedule_times 5 peer_a (new_reconnect_backoff [(peer_a, addr_a), (peer_b, addr_b)])
        in map_option snd (snd (schedule_reconnect peer_b backoff)) = Some BACKOFF_INITIAL))"

section \<open>Connections\<close>

definition stale_zero_count_disconnect_does_not_drop_new_relay_connection ::
  "(connection_id fset \<Rightarrow> connection_id list) \<Rightarrow> instant \<Rightarrow> peer_id \<Rightarrow> bool" where
  "stale_zero_count_disconnect_does_not_drop_new_relay_connection ord now peer =
     (let (m1, _) = on_connection_established ord peer 1 True new_connection_state;
          (m2, _) = start_hole_punch_attempt now peer (from_secs 15) m1;
          (m3, _) = on_connection_established ord peer 2 True m2;
          (m4, update) = on_connection_closed peer 1 0 m3
      in \<not> peer_fully_disconnected update \<and> relayed_connection_count m4 peer = 1 \<and>
         active_attempt_stats m4 peer \<noteq> None)"

text \<open>The loop of the test over the cycles left; \<open>now i\<close> is the clock in cycle \<open>i\<close>.\<close>

fun reconnect_cycles ::
  "step_env \<Rightarrow> (connection_id fset \<Rightarrow> connection_id list) \<Rightarrow> (nat \<Rightarrow> instant) \<Rightarrow> peer_id \<Rightarrow> nat list \<Rightarrow>
   connection_state \<Rightarrow> bool" where
  "reconnect_cycles env ord now peer [] machine = True"
| "reconnect_cycles env ord now peer (i # rest) machine =
     (let (m1, established) = on_connection_established ord peer (i * 2 + 1) True machine;
          (m2, started) = start_hole_punch_attempt (now i) peer (from_secs 15) m1;
          (m3, closed) = on_connection_closed peer (i * 2 + 1) 0 m2
      in started_attempt_id established = None \<and> started \<noteq> None \<and> peer_fully_disconnected closed \<and>
         relayed_connection_count m3 peer = 0 \<and> direct_connection_count m3 peer = 0 \<and>
         active_attempt_stats m3 peer = None \<and> next_hole_punch_deadline env m3 = None \<and>
         reconnect_cycles env ord now peer rest m3)"

definition rapid_relay_disconnect_reconnect_keeps_state_consistent ::
  "step_env \<Rightarrow> (connection_id fset \<Rightarrow> connection_id list) \<Rightarrow> (nat \<Rightarrow> instant) \<Rightarrow> peer_id \<Rightarrow> nat \<Rightarrow> bool"
where
  "rapid_relay_disconnect_reconnect_keeps_state_consistent env ord now peer cycles =
     reconnect_cycles env ord now peer [0..<cycles] new_connection_state"

definition active_bootstrap_accepts_only_matching_last_step ::
  "query_id \<Rightarrow> query_id \<Rightarrow> bool \<Rightarrow> bool" where
  "active_bootstrap_accepts_only_matching_last_step qid other step_last =
     (is_active_bootstrap_result qid (Some qid) step_last = step_last \<and>
      \<not> is_active_bootstrap_result other (Some qid) step_last \<and>
      \<not> is_active_bootstrap_result qid None step_last)"

section \<open>Addresses\<close>

fun arb_external_ipv4 :: "ipv4 \<Rightarrow> bool" where
  "arb_external_ipv4 (Ipv4 a b c d) \<longleftrightarrow>
     1 \<le> a \<and> a \<le> 223 \<and> 1 \<le> d \<and> d \<le> 254 \<and> \<not> v4_is_private (Ipv4 a b 0 0) \<and>
     \<not> v4_is_loopback (Ipv4 a b 0 0) \<and> \<not> v4_is_unspecified (Ipv4 a b 0 0)"

fun arb_private_ipv4 :: "ipv4 \<Rightarrow> bool" where
  "arb_private_ipv4 (Ipv4 a b c d) \<longleftrightarrow>
     a = 10 \<or> a = 172 \<and> 16 \<le> b \<and> b \<le> 31 \<or> a = 192 \<and> b = 168"

definition needs_rewrite_for_all_private_ranges :: "ipv4 \<Rightarrow> bool" where
  "needs_rewrite_for_all_private_ranges ip = (arb_private_ipv4 ip \<longrightarrow> needs_external_rewrite ip)"

definition no_rewrite_for_public_ips :: "ipv4 \<Rightarrow> bool" where
  "no_rewrite_for_public_ips ip = (arb_external_ipv4 ip \<longrightarrow> \<not> needs_external_rewrite ip)"

definition valid_candidate_accepts_public_direct_addr :: "ipv4 \<Rightarrow> 16 word \<Rightarrow> bool" where
  "valid_candidate_accepts_public_direct_addr ip p =
     (arb_external_ipv4 ip \<longrightarrow> is_valid_external_candidate [Ip4 ip, Udp p, QuicV1])"

definition valid_candidate_rejects_circuit_addr :: "ipv4 \<Rightarrow> 16 word \<Rightarrow> peer_id \<Rightarrow> bool" where
  "valid_candidate_rejects_circuit_addr ip p relay =
     (arb_external_ipv4 ip \<longrightarrow>
       \<not> is_valid_external_candidate [Ip4 ip, Udp p, QuicV1, P2p relay, P2pCircuit])"

definition valid_candidate_rejects_private_ip :: "ipv4 \<Rightarrow> 16 word \<Rightarrow> bool" where
  "valid_candidate_rejects_private_ip ip p =
     (arb_private_ipv4 ip \<longrightarrow> \<not> is_valid_external_candidate [Ip4 ip, Udp p, QuicV1])"

definition valid_candidate_rejects_bare_peer_id :: "peer_id \<Rightarrow> bool" where
  "valid_candidate_rejects_bare_peer_id peer = (\<not> is_valid_external_candidate [P2p peer])"

section \<open>NAT mappings\<close>

definition endpoint_independent_is_holepunch_viable :: bool where
  "endpoint_independent_is_holepunch_viable = is_holepunch_viable EndpointIndependent"

definition address_dependent_is_not_holepunch_viable :: bool where
  "address_dependent_is_not_holepunch_viable = (\<not> is_holepunch_viable AddressDependent)"

definition unknown_is_optimistically_holepunch_viable :: bool where
  "unknown_is_optimistically_holepunch_viable = is_holepunch_viable MappingUnknown"

definition display_formats_are_human_readable :: bool where
  "display_formats_are_human_readable =
     (show_nat_mapping EndpointIndependent = ''Endpoint-Independent'' \<and>
      show_nat_mapping AddressDependent = ''Address-Dependent'' \<and>
      show_nat_mapping MappingUnknown = ''Unknown'')"

definition classify_empty_as_endpoint_independent :: bool where
  "classify_empty_as_endpoint_independent = (classify_mapping [] = EndpointIndependent)"

definition classify_same_ports_as_endpoint_independent :: "16 word \<Rightarrow> ipv4 \<Rightarrow> ipv4 \<Rightarrow> bool" where
  "classify_same_ports_as_endpoint_independent p ip1 ip2 =
     (classify_mapping [SocketV4 ip1 p, SocketV4 ip2 p] = EndpointIndependent)"

definition classify_different_ports_as_address_dependent ::
  "ipv4 \<Rightarrow> ipv4 \<Rightarrow> 16 word \<Rightarrow> 16 word \<Rightarrow> bool" where
  "classify_different_ports_as_address_dependent ip1 ip2 port1 port2 =
     (port1 \<noteq> port2 \<longrightarrow> classify_mapping [SocketV4 ip1 port1, SocketV4 ip2 port2] = AddressDependent)"

definition classify_single_addr_as_endpoint_independent :: "ipv4 \<Rightarrow> bool" where
  "classify_single_addr_as_endpoint_independent ip =
     (classify_mapping [SocketV4 ip 12345] = EndpointIndependent)"

definition classify_many_same_ports_as_endpoint_independent :: "16 word \<Rightarrow> ipv4 list \<Rightarrow> bool" where
  "classify_many_same_ports_as_endpoint_independent p ips =
     (classify_mapping (map (\<lambda>ip. SocketV4 ip p) ips) = EndpointIndependent)"

section \<open>They hold\<close>

lemmas app_test_simps =
  app_phase_def app_transition_def new_app_def new_app_state_def new_peer_state_def new_tunnel_state_def
  tunnel_fold_step_def on_phase_ready_def initiate_lookups_def Let_def

lemma app_tests:
  assumes "env_ok env"
  shows "composition_publishes_on_ready_entry env peer addr external_addr"
    and "composition_publishes_on_relay_accepted env peer addr"
    and "composition_preserves_peer_commands env peer addr"
    and "composition_shutdown env"
    and "no_bootstrap_publishes_directly env"
    and "peer_cmds_before_tunnel_cmds env peer addr external_addr"
  by (simp_all add: composition_publishes_on_ready_entry_def composition_publishes_on_relay_accepted_def
      composition_preserves_peer_commands_def composition_shutdown_def no_bootstrap_publishes_directly_def
      peer_cmds_before_tunnel_cmds_def app_test_simps on_bootstrap_connected_def maybe_become_ready_def
      entry_insert_def single_orders [OF assms] split_beta)

lemma schedule_times_state:
  "fmlookup (addrs s) peer = Some addr \<Longrightarrow>
   get_or BACKOFF_INITIAL (delays s) peer = min (2 ^ k * BACKOFF_INITIAL) BACKOFF_MAX \<Longrightarrow>
     let s' = fst (schedule_times n peer s) in
       addrs s' = addrs s \<and>
       get_or BACKOFF_INITIAL (delays s') peer = min (2 ^ (k + n) * BACKOFF_INITIAL) BACKOFF_MAX \<and>
       (\<forall>q. q \<noteq> peer \<longrightarrow> fmlookup (delays s') q = fmlookup (delays s) q)"
proof (induction n arbitrary: s k)
  case 0
  then show ?case by simp
next
  case (Suc n)
  let ?d = "min (2 ^ k * BACKOFF_INITIAL) BACKOFF_MAX"
  let ?s1 = "s\<lparr>delays := fmupd peer (min (duration_saturating_mul ?d 2) BACKOFF_MAX) (delays s)\<rparr>"
  have one: "schedule_reconnect peer s = (?s1, Some (addr, ?d))"
    using Suc.prems by (simp add: schedule_reconnect_def Let_def)
  have "get_or BACKOFF_INITIAL (delays ?s1) peer = min (2 ^ Suc k * BACKOFF_INITIAL) BACKOFF_MAX"
    by (simp add: doubled_delay)
  from Suc.IH [OF _ this] Suc.prems(1) show ?case
    by (simp add: one split_beta Let_def)
qed

lemma schedule_new:
  fixes peer addr n
  defines "r \<equiv> schedule_times n peer (new_reconnect_backoff [(peer, addr)])"
  shows "snd r = map (\<lambda>i. min (2 ^ i * BACKOFF_INITIAL) BACKOFF_MAX) [0..<n]"
    and "fmlookup (addrs (fst r)) peer = Some addr"
    and "get_or BACKOFF_INITIAL (delays (fst r)) peer = min (2 ^ n * BACKOFF_INITIAL) BACKOFF_MAX"
proof -
  have start: "fmlookup (addrs (new_reconnect_backoff [(peer, addr)])) peer = Some addr"
    "get_or BACKOFF_INITIAL (delays (new_reconnect_backoff [(peer, addr)])) peer =
       min (2 ^ 0 * BACKOFF_INITIAL) BACKOFF_MAX"
    by (simp_all add: new_reconnect_backoff_def BACKOFF_INITIAL_def BACKOFF_MAX_def from_secs_def)
  show "snd r = map (\<lambda>i. min (2 ^ i * BACKOFF_INITIAL) BACKOFF_MAX) [0..<n]"
    using schedule_times_from [OF start, of n] by (simp add: r_def)
  show "fmlookup (addrs (fst r)) peer = Some addr"
    and "get_or BACKOFF_INITIAL (delays (fst r)) peer = min (2 ^ n * BACKOFF_INITIAL) BACKOFF_MAX"
    using schedule_times_state [OF start, of n] start(1) by (simp_all add: r_def Let_def)
qed

lemma shifted_one: "k < 32 \<Longrightarrow> shifted_one k = 2 ^ k"
proof -
  assume k: "k < 32"
  then have "unat (of_nat (2 ^ k) :: 32 word) = 2 ^ k"
    using power_strict_increasing [of k 32 "2 :: nat"] by (simp add: unat_of_nat del: of_nat_power)
  with k show ?thesis by (simp add: shifted_one_def push_bit_eq_mult)
qed

lemma growth_formula:
  "k < 10 \<Longrightarrow> min (duration_saturating_mul BACKOFF_INITIAL (shifted_one k)) BACKOFF_MAX =
     min (2 ^ k * BACKOFF_INITIAL) BACKOFF_MAX"
  by (auto simp: shifted_one duration_saturating_mul_def BACKOFF_INITIAL_def BACKOFF_MAX_def
      DURATION_MAX_def from_secs_def min_def)

lemma capped: "6 \<le> k \<Longrightarrow> min (2 ^ k * BACKOFF_INITIAL) BACKOFF_MAX = BACKOFF_MAX"
proof -
  assume "6 \<le> k"
  then have "(2 :: nat) ^ 6 \<le> 2 ^ k" by (rule power_increasing) simp
  then show ?thesis by (simp add: BACKOFF_INITIAL_def BACKOFF_MAX_def from_secs_def)
qed

lemma backoff_tests:
  "first_call_returns_initial peer addr"
  "exponential_growth_sequence peer addr n"
  "delay_never_exceeds_max peer addr n"
  "cap_is_stable peer addr"
  "reset_clears_delay peer addr n"
  "unknown_peer_returns_none peer peer2 addr"
  "independent_peer_delays peer peer2 addr addr2"
proof -
  show "first_call_returns_initial peer addr" "unknown_peer_returns_none peer peer2 addr"
    by (simp_all add: first_call_returns_initial_def unknown_peer_returns_none_def schedule_reconnect_def
        new_reconnect_backoff_def Let_def)
  show "exponential_growth_sequence peer addr n"
    by (auto simp: exponential_growth_sequence_def schedule_new growth_formula simp del: schedule_times.simps upt_Suc)
  show "delay_never_exceeds_max peer addr n"
    by (auto simp: delay_never_exceeds_max_def schedule_new list_all_iff Let_def)
  let ?b = "fst (schedule_times 10 peer (new_reconnect_backoff [(peer, addr)]))"
  have "snd (schedule_times 5 peer ?b) = map (\<lambda>i. min (2 ^ i * BACKOFF_INITIAL) BACKOFF_MAX) [10..<10 + 5]"
    by (rule schedule_times_from) (rule schedule_new)+
  also have "\<dots> = replicate 5 BACKOFF_MAX"
  proof -
    have "map (\<lambda>i. min (2 ^ i * BACKOFF_INITIAL) BACKOFF_MAX) [10..<10 + 5] = map (\<lambda>_. BACKOFF_MAX) [10..<10 + 5]"
      by (simp add: BACKOFF_INITIAL_def BACKOFF_MAX_def from_secs_def)
    then show ?thesis by (simp only: map_replicate_const length_upt) simp
  qed
  finally show "cap_is_stable peer addr"
    by (simp add: cap_is_stable_def split_beta)
  show "reset_clears_delay peer addr n"
    by (simp add: reset_clears_delay_def split_beta reset_backoff_def schedule_reconnect_def schedule_new Let_def)
  show "independent_peer_delays peer peer2 addr addr2"
  proof (unfold independent_peer_delays_def, intro impI)
    assume "peer \<noteq> peer2"
    let ?s = "new_reconnect_backoff [(peer, addr), (peer2, addr2)]"
    have "fmlookup (addrs ?s) peer = Some addr" "fmlookup (addrs ?s) peer2 = Some addr2"
      "get_or BACKOFF_INITIAL (delays ?s) peer = min (2 ^ 0 * BACKOFF_INITIAL) BACKOFF_MAX" "delays ?s = fmempty"
      using \<open>peer \<noteq> peer2\<close>
      by (simp_all add: new_reconnect_backoff_def BACKOFF_INITIAL_def BACKOFF_MAX_def from_secs_def)
    with schedule_times_state [OF this(1,3), of 5] \<open>peer \<noteq> peer2\<close>
    show "let (backoff, _) = schedule_times 5 peer ?s
        in map_option snd (snd (schedule_reconnect peer2 backoff)) = Some BACKOFF_INITIAL"
      by (simp add: split_beta schedule_reconnect_def Let_def)
  qed
qed

lemma connection_test:
  "stale_zero_count_disconnect_does_not_drop_new_relay_connection ord now peer"
  by (simp add: stale_zero_count_disconnect_does_not_drop_new_relay_connection_def new_connection_state_def
      on_connection_established_def start_hole_punch_attempt_def next_hole_punch_attempt_id_def
      peer_is_relay_only_def has_relayed_connection_def has_direct_connection_def on_connection_closed_def
      remove_connection_id_def relayed_connection_count_def connection_count_for_peer_def
      active_attempt_stats_def fcard_finsert_if Let_def)

definition quiet_machine :: "connection_state \<Rightarrow> bool" where
  "quiet_machine m \<longleftrightarrow> relayed_connections m = fmempty \<and> direct_connections m = fmempty \<and>
     hole_punch_attempts m = fmempty \<and> hole_punch_deadlines m = fmempty"

text \<open>A cycle leaves a machine quiet that was, and its assertions hold.\<close>

lemma cycles_from_quiet:
  assumes env: "env_ok env"
  shows "quiet_machine m \<Longrightarrow> reconnect_cycles env ord now peer is m"
proof (induction "is" arbitrary: m)
  case Nil
  then show ?case by simp
next
  case (Cons i rest)
  obtain m1 u1 where e1: "on_connection_established ord peer (i * 2 + 1) True m = (m1, u1)"
    by fastforce
  then have u1: "started_attempt_id u1 = None"
    and m1: "relayed_connections m1 = fmupd peer {|i * 2 + 1|} fmempty" "direct_connections m1 = fmempty"
      "hole_punch_attempts m1 = fmempty" "hole_punch_deadlines m1 = fmempty"
    using Cons.prems by (auto simp: on_connection_established_def quiet_machine_def entry_insert_def Let_def)
  obtain m2 started where e2: "start_hole_punch_attempt (now i) peer (from_secs 15) m1 = (m2, started)"
    by fastforce
  then have started: "started \<noteq> None"
    and m2: "relayed_connections m2 = fmupd peer {|i * 2 + 1|} fmempty" "direct_connections m2 = fmempty"
      "\<exists>a. hole_punch_attempts m2 = fmupd peer a fmempty" "\<exists>d. hole_punch_deadlines m2 = fmupd peer d fmempty"
    by (auto simp: start_hole_punch_attempt_def next_hole_punch_attempt_id_def peer_is_relay_only_def
        has_relayed_connection_def has_direct_connection_def m1 Let_def)
  obtain m3 closed where e3: "on_connection_closed peer (i * 2 + 1) 0 m2 = (m3, closed)"
    by fastforce
  with m2 have closed: "peer_fully_disconnected closed" and m3: "quiet_machine m3"
    by (auto simp: on_connection_closed_def remove_connection_id_def has_relayed_connection_def
        has_direct_connection_def complete_hole_punch_attempt_def
        remove_pending_hole_punch_dials_for_peer_def quiet_machine_def fmdrop_fmupd Let_def)
  from m3 have "relayed_connection_count m3 peer = 0" "direct_connection_count m3 peer = 0"
    "active_attempt_stats m3 peer = None" "next_hole_punch_deadline env m3 = None"
    using env by (simp_all add: quiet_machine_def relayed_connection_count_def direct_connection_count_def
        connection_count_for_peer_def active_attempt_stats_def next_hole_punch_deadline_def
        single_orders map_filter_simps)
  with Cons.IH [OF m3] show ?case
    by (simp add: e1 [simplified] e2 e3 [simplified] u1 started [simplified] closed)
qed

lemma rapid_test:
  "env_ok env \<Longrightarrow> rapid_relay_disconnect_reconnect_keeps_state_consistent env ord now peer cycles"
  by (simp add: rapid_relay_disconnect_reconnect_keeps_state_consistent_def cycles_from_quiet
      quiet_machine_def new_connection_state_def)

lemma bootstrap_result_test:
  "qid \<noteq> other \<Longrightarrow> active_bootstrap_accepts_only_matching_last_step qid other step_last"
  by (simp add: active_bootstrap_accepts_only_matching_last_step_def is_active_bootstrap_result_def)

lemma address_rule_tests:
  "needs_rewrite_for_all_private_ranges ip"
  "no_rewrite_for_public_ips ip"
  "valid_candidate_accepts_public_direct_addr ip p"
  "valid_candidate_rejects_circuit_addr ip p peer"
  "valid_candidate_rejects_private_ip ip p"
  "valid_candidate_rejects_bare_peer_id peer"
  by (cases ip; auto simp: needs_rewrite_for_all_private_ranges_def no_rewrite_for_public_ips_def
      valid_candidate_accepts_public_direct_addr_def valid_candidate_rejects_circuit_addr_def
      valid_candidate_rejects_private_ip_def valid_candidate_rejects_bare_peer_id_def
      is_valid_external_candidate_def is_circuit_addr_def has_public_ip_def needs_external_rewrite_def)+

lemma mapping_tests:
  "endpoint_independent_is_holepunch_viable"
  "address_dependent_is_not_holepunch_viable"
  "unknown_is_optimistically_holepunch_viable"
  "display_formats_are_human_readable"
  "classify_empty_as_endpoint_independent"
  "classify_same_ports_as_endpoint_independent p ip1 ip2"
  "classify_different_ports_as_address_dependent ip1 ip2 port1 port2"
  "classify_single_addr_as_endpoint_independent ip"
  "classify_many_same_ports_as_endpoint_independent p ips"
  by (simp_all add: endpoint_independent_is_holepunch_viable_def
      address_dependent_is_not_holepunch_viable_def unknown_is_optimistically_holepunch_viable_def
      display_formats_are_human_readable_def classify_empty_as_endpoint_independent_def
      classify_same_ports_as_endpoint_independent_def classify_different_ports_as_address_dependent_def
      classify_single_addr_as_endpoint_independent_def
      classify_many_same_ports_as_endpoint_independent_def classify_cases ports_agree_def)

text \<open>The tests of the composed machine, of the reconnect backoff and of the connection machine in
  the repository hold for all the peers, addresses, clocks and numbers of steps they may be given:
  publication on becoming ready, peer commands first, exponential delays with a stable cap,
  independent peers, and consistent state after any number of rapid reconnects.\<close>

lemma machine_tests_hold:
  assumes "env_ok env"
  shows "composition_publishes_on_ready_entry env peer addr external_addr \<and>
    composition_publishes_on_relay_accepted env peer addr \<and>
    composition_preserves_peer_commands env peer addr \<and>
    composition_shutdown env \<and>
    no_bootstrap_publishes_directly env \<and>
    peer_cmds_before_tunnel_cmds env peer addr external_addr \<and>
    first_call_returns_initial peer addr \<and>
    exponential_growth_sequence peer addr n \<and>
    delay_never_exceeds_max peer addr n \<and>
    cap_is_stable peer addr \<and>
    reset_clears_delay peer addr n \<and>
    unknown_peer_returns_none peer peer2 addr \<and>
    independent_peer_delays peer peer2 addr addr2 \<and>
    stale_zero_count_disconnect_does_not_drop_new_relay_connection ord now peer \<and>
    rapid_relay_disconnect_reconnect_keeps_state_consistent env ord clocks peer n"
  using app_tests [OF assms] backoff_tests connection_test rapid_test [OF assms]
  by (intro conjI)

lemma machine_tests_hold_witness:
  "rapid_relay_disconnect_reconnect_keeps_state_consistent (sample_env 0) sorted_list_of_fset (\<lambda>i. i)
     (PeerId ''w'') 64"
  by (simp add: machine_tests_hold [OF env_ok_sample])

end
