(* ===== verification/Text_Tests.thy ===== *)
theory Text_Tests
  imports Spec_Props Service_Config Identity Test_Support
begin

text \<open>
  The tests of \<open>src/src/specs.rs\<close>, \<open>src/src/main.rs\<close> and \<open>src/src/identity.rs\<close>, each as a predicate on
  the values it is given, with the generators of \<open>src/src/test_utils.rs\<close> they use.
\<close>

section \<open>Generators\<close>

definition lower :: "char \<Rightarrow> bool" where
  "lower c \<longleftrightarrow> (let n = (of_char c :: nat) in 97 \<le> n \<and> n \<le> 122)"

definition digit :: "char \<Rightarrow> bool" where
  "digit c \<longleftrightarrow> digit_of c \<noteq> None"

text \<open>\<open>[a-z][a-z0-9_-]{0,19}\<close>.\<close>

definition arb_service_name_string :: "string \<Rightarrow> bool" where
  "arb_service_name_string s \<longleftrightarrow>
     (case s of
        [] \<Rightarrow> False
      | c # cs \<Rightarrow> lower c \<and> length cs \<le> 19 \<and>
          list_all (\<lambda>x. lower x \<or> digit x \<or> x = CHR ''_'' \<or> x = CHR ''-'') cs)"

definition arb_service_name :: "service_name \<Rightarrow> bool" where
  "arb_service_name name \<longleftrightarrow> arb_service_name_string (service_name_str name)"

text \<open>\<open>[a-z][a-z0-9-]{0,9}(\.[a-z]{2,4}){0,2}\<close>.\<close>

definition arb_domain_host :: "string \<Rightarrow> bool" where
  "arb_domain_host s \<longleftrightarrow>
     (case split_on CHR ''.'' s of
        (c # cs) # suffixes \<Rightarrow>
          lower c \<and> length cs \<le> 9 \<and> list_all (\<lambda>x. lower x \<or> digit x \<or> x = CHR ''-'') cs \<and>
          length suffixes \<le> 2 \<and>
          list_all (\<lambda>x. 2 \<le> length x \<and> length x \<le> 4 \<and> list_all lower x) suffixes
      | _ \<Rightarrow> False)"

text \<open>Four numbers in their decimal form.\<close>

definition arb_ipv4_host :: "string \<Rightarrow> bool" where
  "arb_ipv4_host s \<longleftrightarrow>
     (case parse_ipv4 s of
        None \<Rightarrow> False
      | Some (Ipv4 a b c d) \<Rightarrow> s = show_ipv4 (Ipv4 a b c d) \<and> 1 \<le> a \<and> a \<le> 254 \<and> 1 \<le> d \<and> d \<le> 254)"

definition arb_ipv6_host :: "string \<Rightarrow> bool" where
  "arb_ipv6_host s \<longleftrightarrow> List.member [''::1'', ''fe80::1''] s"

text \<open>What the three texts parse to.\<close>

fun arb_host_addr :: "v6_text \<Rightarrow> host_addr \<Rightarrow> bool" where
  "arb_host_addr t (V4 (Ipv4 a b c d)) \<longleftrightarrow> 1 \<le> a \<and> a \<le> 254 \<and> 1 \<le> d \<and> d \<le> 254"
| "arb_host_addr t (V6 ip) \<longleftrightarrow> v6_parse t ''::1'' = Some ip \<or> v6_parse t ''fe80::1'' = Some ip"
| "arb_host_addr t (Domain s) \<longleftrightarrow> arb_domain_host s \<and> host_addr_from_str t s = Inr (Domain s)"

text \<open>The three texts of a host indeed parse to such an address, and every IPv4 one is made.\<close>

lemma generated_host:
  assumes "arb_ipv4_host s \<or> arb_ipv6_host s \<or> arb_domain_host s \<and> parse_ipv4 s = None \<and> v6_parse t s = None"
    and "\<forall>x\<in>set [''::1'', ''fe80::1'']. parse_ipv4 x = None \<and> v6_parse t x \<noteq> None"
  shows "\<exists>h. host_addr_from_str t s = Inr h \<and> arb_host_addr t h"
  using assms
  by (auto simp: arb_ipv4_host_def arb_ipv6_host_def host_addr_from_str_def arb_domain_host_def
      split: option.splits ipv4.splits)

lemma ipv4_hosts_all_made: "arb_host_addr t (V4 ip) \<Longrightarrow> arb_ipv4_host (show_ipv4 ip)"
  by (cases ip) (simp add: arb_ipv4_host_def del: show_ipv4.simps)

definition arb_service_addr :: "v6_text \<Rightarrow> service_addr \<Rightarrow> bool" where
  "arb_service_addr t a \<longleftrightarrow> arb_host_addr t (host a) \<and> arb_port (port a)"

fun arb_socket_addr :: "socket_addr \<Rightarrow> bool" where
  "arb_socket_addr (SocketV4 (Ipv4 a b c d) p) \<longleftrightarrow>
     1 \<le> a \<and> a \<le> 254 \<and> 1 \<le> d \<and> d \<le> 254 \<and> arb_port p"
| "arb_socket_addr (SocketV6 _ _) \<longleftrightarrow> False"

text \<open>A generated socket address becomes a generated service address.\<close>

lemma generated_socket_addr: "arb_socket_addr a \<Longrightarrow> arb_service_addr t (service_addr_from_socket a)"
  by (cases a rule: arb_socket_addr.cases) (simp_all add: arb_service_addr_def)

section \<open>Specifications\<close>

definition service_addr_comes_back :: "v6_text \<Rightarrow> host_addr \<Rightarrow> 16 word \<Rightarrow> bool" where
  "service_addr_comes_back t h p =
     (let s = show_service_addr t \<lparr>host = h, port = p\<rparr>
      in case service_addr_from_str t s of
           Inl _ \<Rightarrow> False
         | Inr parsed \<Rightarrow> host parsed = h \<and> port parsed = p)"

text \<open>The text and the port of the address that the generator makes.\<close>

definition service_addr_from_socket_addr :: "v6_text \<Rightarrow> ipv4 \<Rightarrow> 16 word \<Rightarrow> bool" where
  "service_addr_from_socket_addr t ip p =
     (let sa = service_addr_from_socket (SocketV4 ip p)
      in case host_addr_from_str t (show_ipv4 ip) of
           Inl _ \<Rightarrow> False
         | Inr expected_host \<Rightarrow> host sa = expected_host \<and> port sa = p)"

text \<open>The bind address as the three tests format it.\<close>

definition bind_text :: "v6_text \<Rightarrow> host_addr \<Rightarrow> 16 word \<Rightarrow> string" where
  "bind_text t h p =
     (case h of
        V6 _ \<Rightarrow> ''['' @ show_host t h @ '']:'' @ dec (unat p)
      | _ \<Rightarrow> show_host t h @ '':'' @ dec (unat p))"

definition exposed_service_roundtrip :: "v6_text \<Rightarrow> string \<Rightarrow> host_addr \<Rightarrow> 16 word \<Rightarrow> bool" where
  "exposed_service_roundtrip t name h p =
     (case exposed_service_from_str t (name @ ''='' @ bind_text t h p) of
        Inl _ \<Rightarrow> False
      | Inr svc \<Rightarrow> service_name_str (svc_name svc) = name \<and> host (local_addr svc) = h \<and>
          port (local_addr svc) = p)"

definition tunnel_by_name_roundtrip :: "v6_text \<Rightarrow> string \<Rightarrow> host_addr \<Rightarrow> 16 word \<Rightarrow> bool" where
  "tunnel_by_name_roundtrip t name h p =
     (case tunnel_by_name_from_str t (name @ ''@'' @ bind_text t h p) of
        Inl _ \<Rightarrow> False
      | Inr parsed \<Rightarrow> service_name_str (by_name_service parsed) = name \<and>
          host (by_name_bind parsed) = h \<and> port (by_name_bind parsed) = p)"

definition tunnel_spec_roundtrip ::
  "v6_text \<Rightarrow> (peer_id \<Rightarrow> string) \<Rightarrow> (string \<Rightarrow> string + peer_id) \<Rightarrow> peer_id \<Rightarrow> string \<Rightarrow> host_addr \<Rightarrow>
   16 word \<Rightarrow> bool" where
  "tunnel_spec_roundtrip t peer_show peer_parse peer service h p =
     (case tunnel_spec_from_str t peer_parse
             (peer_show peer @ '':'' @ service @ ''@'' @ bind_text t h p) of
        Inl _ \<Rightarrow> False
      | Inr parsed \<Rightarrow> remote_peer parsed = peer \<and> service_name_str (spec_service parsed) = service \<and>
          host (spec_bind parsed) = h \<and> port (spec_bind parsed) = p)"

definition service_key_roundtrip :: "(string \<Rightarrow> bool) \<Rightarrow> service_name \<Rightarrow> bool" where
  "service_key_roundtrip is_utf8 name =
     (let key = for_service name;
          recovered = service_name_from_key is_utf8 (key_bytes key)
      in recovered = Some (service_name_str name))"

section \<open>The command line program\<close>

definition xml_escape_escapes_special_chars :: bool where
  "xml_escape_escapes_special_chars =
     (let raw = ''<&>'' @ [CHR 0x27, CHR 0x22]
      in xml_escape raw = ''&lt;&amp;&gt;&apos;&quot;'')"

definition systemd_template_contains_execstart :: bool where
  "systemd_template_contains_execstart =
     (let unit = render_systemd_service ''/tmp/punchgate''
      in split_once_str ''ExecStart=/tmp/punchgate'' unit \<noteq> None \<and>
         split_once_str ''EnvironmentFile=%h/.config/punchgate/punchgate.env'' unit \<noteq> None)"

text \<open>The type of a key and the identity of a peer are libp2p's.\<close>

definition roundtrip_identity ::
  "('os, 'k) identity_api \<Rightarrow> ('k \<Rightarrow> bool) \<Rightarrow> ('k \<Rightarrow> peer_id) \<Rightarrow> path \<Rightarrow> 'os \<Rightarrow> bool" where
  "roundtrip_identity api is_ed25519 to_peer_id p os =
     (case load_or_generate api p os of
        (_, Inl _) \<Rightarrow> False
      | (os1, Inr kp1) \<Rightarrow>
          id_exists api p os1 \<and> is_ed25519 kp1 \<and>
          (case load_or_generate api p os1 of
             (_, Inl _) \<Rightarrow> False
           | (_, Inr kp2) \<Rightarrow> to_peer_id kp1 = to_peer_id kp2))"

section \<open>They hold\<close>

lemma char_facts:
  "lower c \<Longrightarrow> c \<notin> set ''[=@:,''"
  "digit c \<Longrightarrow> c \<notin> set ''[=@:,''"
  by (auto simp: lower_def digit_def digit_of_def Let_def)

lemma set_split_on: "set s \<subseteq> insert c (\<Union>x\<in>set (split_on c s). set x)"
proof (induction s)
  case Nil
  then show ?case by simp
next
  case (Cons x xs)
  then show ?case by (cases "split_on c xs") auto
qed

lemma domain_chars:
  assumes "arb_domain_host s" and "x \<in> set s"
  shows "x \<notin> set ''[=@:,''"
proof -
  obtain c cs rest where split: "split_on CHR ''.'' s = (c # cs) # rest"
    using assms(1) by (auto simp: arb_domain_host_def split: list.splits)
  then have "lower c" "\<forall>x\<in>set cs. lower x \<or> digit x \<or> x = CHR ''-''" "\<forall>y\<in>set rest. \<forall>x\<in>set y. lower x"
    using assms(1) by (auto simp: arb_domain_host_def list_all_iff)
  then have "lower x \<or> digit x \<or> x = CHR ''-'' \<or> x = CHR ''.''"
    using set_split_on [of s "CHR ''.''"] assms(2) split by auto
  then show ?thesis
    using char_facts [of x] by auto
qed

lemma arb_host:
  assumes "arb_host_addr t h"
  shows "host_ok t h" and "host_lacks h CHR ''@''"
proof -
  have d: "hd d \<noteq> CHR ''[''" "CHR ''@'' \<notin> set d" "host_addr_from_str t d = Inr (Domain d)" if "h = Domain d" for d
  proof -
    from that assms have "arb_domain_host d" and p: "host_addr_from_str t d = Inr (Domain d)" by simp_all
    then have "d \<noteq> []" by (auto simp: host_addr_from_str_def)
    with domain_chars [OF \<open>arb_domain_host d\<close>] show "hd d \<noteq> CHR ''[''" "CHR ''@'' \<notin> set d"
      using hd_in_set [of d] by auto
    show "host_addr_from_str t d = Inr (Domain d)" by (rule p)
  qed
  show "host_ok t h"
  proof (cases h)
    case (Domain d)
    with parsed_host_ok [OF d(3) d(1)] show ?thesis by simp
  qed (simp_all add: host_ok_def)
  show "host_lacks h CHR ''@''"
    using d by (cases h) (auto simp: host_lacks_def)
qed

lemma arb_name:
  assumes "arb_service_name_string s"
  shows "s \<noteq> []" and "CHR ''='' \<notin> set s"
proof -
  obtain c cs where s: "s = c # cs"
    using assms by (auto simp: arb_service_name_string_def split: list.splits)
  then have "lower c" "\<forall>x\<in>set cs. lower x \<or> digit x \<or> x = CHR ''_'' \<or> x = CHR ''-''"
    using assms by (auto simp: arb_service_name_string_def list_all_iff)
  then show "CHR ''='' \<notin> set s" and "s \<noteq> []"
    using char_facts [of "CHR ''=''"] by (auto simp: s)
qed

lemma bind_text_show: "bind_text t h p = show_service_addr t \<lparr>host = h, port = p\<rparr>"
  by (cases h) (simp_all add: bind_text_def show_service_addr_def)

lemma spec_tests:
  assumes t: "v6_text_ok t" and h: "arb_host_addr t h" and name: "arb_service_name_string name"
    and peers: "peer_text_ok peer_show peer_parse"
  shows "service_addr_comes_back t h p" and "exposed_service_roundtrip t name h p"
    and "tunnel_by_name_roundtrip t name h p" and "tunnel_spec_roundtrip t peer_show peer_parse peer name h p"
proof -
  let ?a = "\<lparr>host = h, port = p\<rparr>"
  note ok = arb_host [OF h] arb_name [OF name]
  have "service_addr_from_str t (show_service_addr t ?a) = Inr ?a"
    using service_addr_roundtrip [OF t, of ?a] ok(1) by simp
  then show "service_addr_comes_back t h p"
    by (simp add: service_addr_comes_back_def)
  have "exposed_service_from_str t (show_exposed t \<lparr>svc_name = ServiceName name, local_addr = ?a\<rparr>) =
      Inr \<lparr>svc_name = ServiceName name, local_addr = ?a\<rparr>"
    using ok by (intro exposed_roundtrip [OF t]) simp_all
  then show "exposed_service_roundtrip t name h p"
    by (simp add: exposed_service_roundtrip_def show_exposed_def bind_text_show)
  have "tunnel_by_name_from_str t (show_by_name t \<lparr>by_name_service = ServiceName name, by_name_bind = ?a\<rparr>) =
      Inr \<lparr>by_name_service = ServiceName name, by_name_bind = ?a\<rparr>"
    using ok by (intro by_name_roundtrip [OF t]) simp_all
  then show "tunnel_by_name_roundtrip t name h p"
    by (simp add: tunnel_by_name_roundtrip_def show_by_name_def bind_text_show)
  have "tunnel_spec_from_str t peer_parse
        (show_tunnel t peer_show \<lparr>remote_peer = peer, spec_service = ServiceName name, spec_bind = ?a\<rparr>) =
      Inr \<lparr>remote_peer = peer, spec_service = ServiceName name, spec_bind = ?a\<rparr>"
    using ok by (intro tunnel_roundtrip [OF t peers]) simp_all
  then show "tunnel_spec_roundtrip t peer_show peer_parse peer name h p"
    by (simp add: tunnel_spec_roundtrip_def show_tunnel_def bind_text_show)
qed

lemma socket_addr_test: "service_addr_from_socket_addr t ip p"
  using host_roundtrip [of t "V4 ip"]
  by (simp add: service_addr_from_socket_addr_def host_addr_from_str_def)

lemma template_tests:
  "xml_escape_escapes_special_chars"
  "systemd_template_contains_execstart"
  by code_simp+

lemma identity_test:
  assumes ok: "identity_ok api" and fresh: "\<not> id_exists api p os"
    and first: "load_or_generate api p os = (os', Inr k)"
    and "is_ed25519 (snd (id_generate api os))"
  shows "roundtrip_identity api is_ed25519 to_peer_id p os"
proof -
  obtain b os2 where written: "id_write api p b os2 = (os', Inr ())" and k: "k = snd (id_generate api os)"
    using first fresh by (auto simp: load_or_generate_def split: prod.splits sum.splits)
  then have "id_exists api p os'"
    using ok unfolding identity_ok_def by blast
  with assms(4) k show ?thesis
    by (simp add: roundtrip_identity_def first keypair_kept [OF ok first])
qed

text \<open>\<open>std::str::from_utf8\<close> accepts every ASCII text.\<close>

definition utf8_ok :: "(string \<Rightarrow> bool) \<Rightarrow> bool" where
  "utf8_ok is_utf8 \<longleftrightarrow> (\<forall>s. list_all (\<lambda>c. (of_char c :: nat) < 128) s \<longrightarrow> is_utf8 s)"

lemma name_ascii: "arb_service_name_string s \<Longrightarrow> list_all (\<lambda>c. (of_char c :: nat) < 128) s"
  by (auto simp: arb_service_name_string_def list_all_iff lower_def digit_def digit_of_def Let_def
      split: list.splits if_splits)

lemma key_test:
  assumes "utf8_ok is_utf8" and "arb_service_name name"
  shows "service_key_roundtrip is_utf8 name"
proof -
  have "list_all (\<lambda>c. (of_char c :: nat) < 128) (SERVICE_KEY_PREFIX @ service_name_str name)"
    using name_ascii assms(2) by (simp add: arb_service_name_def SERVICE_KEY_PREFIX_def)
  with assms(1) show ?thesis
    by (simp add: utf8_ok_def service_key_roundtrip_def for_service_def service_name_from_key_def)
qed

text \<open>The tests of the specifications in the repository hold for every generated host, port, service
  name and peer, and for every IPv6 and peer codec that parses what it prints: a service address, an
  exposed service, both kinds of tunnel and the key of a service come back from their texts.\<close>

lemma text_tests_hold:
  assumes "v6_text_ok t" and "arb_host_addr t h" and "arb_service_name_string name"
    and "peer_text_ok peer_show peer_parse" and "utf8_ok is_utf8"
  shows "service_addr_comes_back t h p \<and> service_addr_from_socket_addr t ip p \<and>
    exposed_service_roundtrip t name h p \<and> tunnel_by_name_roundtrip t name h p \<and>
    tunnel_spec_roundtrip t peer_show peer_parse peer name h p \<and>
    service_key_roundtrip is_utf8 (ServiceName name)"
  using spec_tests [OF assms(1-4)] socket_addr_test key_test [OF assms(5), of "ServiceName name"] assms(3)
  by (simp add: arb_service_name_def)

lemma text_tests_hold_witness:
  "tunnel_spec_roundtrip sample_v6 sample_peer_show sample_peer_parse (PeerId ''w'') ''ssh-1''
     (Domain ''a-1.ex'') 2222"
proof -
  have "arb_host_addr sample_v6 (Domain ''a-1.ex'')" and "arb_service_name_string ''ssh-1''"
    by code_simp+
  moreover have "utf8_ok (\<lambda>_. True)"
    by (simp add: utf8_ok_def)
  ultimately show ?thesis
    using text_tests_hold [OF sample_v6_ok _ _ sample_peer_text_ok] by blast
qed

end
