(* ===== verification/Spec2Isabelle.thy ===== *)
theory Spec2Isabelle
  imports Program Wire Port_Mapping Tunnel_Giveup Node_Armed Node_Trace Node_Log Peer_Tests Tunnel_Tests Machine_Tests Text_Tests
begin

text \<open>
  Punchgate is a peer-to-peer node that opens tunnels to services of other nodes through NATs: it
  finds peers in a Kademlia DHT, reaches them over relays, has DCUtR punch a direct path, and
  forwards TCP connections over libp2p streams.  This development models the node.

  \<^bold>\<open>How the program works\<close>

  Everything is driven by the loop \<open>run\<close> of \<open>src/src/node/mod.rs\<close>.  A swarm event first updates the
  connection records (\<open>connection_state.rs\<close>) and the bootstrap reconnects (\<open>backoff.rs\<close>), is then
  translated (\<open>translate.rs\<close>) to events of the application state machine (\<open>state/app.rs\<close>, the product
  of \<open>state/peer.rs\<close> and \<open>state/tunnel.rs\<close>), and the commands the machine answers with are carried
  out on the swarm (\<open>execute.rs\<close>).  A \<open>SpawnTunnel\<close> command starts a task that speaks the wire protocol
  of \<open>tunnel.rs\<close>.

  \<^bold>\<open>Theories and the code they model\<close>

  \<^item> \<open>Prelude\<close>: maps with entries (\<open>entry().or_default()\<close>), bags over maps, de-duplication, sorting by
    a comparison, saturating and checked words; the locales \<open>hash_order\<close> and \<open>total_comparison\<close>.
  \<^item> \<open>Net_Types\<close>: peers, names, keys (\<open>types.rs\<close>, \<open>protocol.rs\<close>), IP addresses, multiaddresses, time;
    the record \<open>step_env\<close> of what a transition reads from outside: the clock, the printed forms used
    as sort keys, and the iteration orders of hash sets.
  \<^item> \<open>External_Addr\<close>: \<open>external_addr.rs\<close> and the other address predicates.
  \<^item> \<open>Specs\<close>, \<open>Spec_Props\<close>: \<open>specs.rs\<close> and \<open>HostAddr\<close>, with the text round trips.
  \<^item> \<open>Events\<close>: \<open>state/event.rs\<close>, \<open>state/command.rs\<close>.
  \<^item> \<open>Mealy\<close>: \<open>traits.rs\<close>; runs of a Mealy machine, the locales \<open>mealy_invariant\<close>, \<open>mealy_conserving\<close>
    and \<open>mealy_refines\<close>.
  \<^item> \<open>Peer_Machine\<close>, \<open>Peer_Facts\<close>: \<open>state/peer.rs\<close>.
  \<^item> \<open>Tunnel_Machine\<close>: \<open>state/tunnel.rs\<close>; \<open>Tunnel_Conserve\<close>, \<open>Tunnel_Inv\<close>, \<open>Tunnel_Addrs\<close>,
    \<open>Tunnel_Facts\<close> and \<open>Tunnel_Reroute\<close> hold its lemmas: conservation of tunnel requests, the
    invariant of the queues and retry records, of the address lists, and the behaviour per event;
    \<open>Tunnel_Targets\<close>: the peers to punch a hole to, as a canonical list.
  \<^item> \<open>Tunnel_Broker\<close>: an abstract specification of the tunnel machine, a broker that holds each tunnel
    request at one place (looking for a provider, dialling a peer, waiting for a direct path) until it
    opens it, and says which event may move or open which; the machine refines it.
  \<^item> \<open>App_Machine\<close>: \<open>state/app.rs\<close>.
  \<^item> \<open>Connection_Machine\<close>, \<open>Connection_Facts\<close>, \<open>Connection_Props\<close>: \<open>node/connection_state.rs\<close>, its
    step relation and reachable states; \<open>Connection_Swarm\<close>: its records against the connections that are
    open in the swarm.
  \<^item> \<open>Backoff\<close>, \<open>Translate\<close>, \<open>Execute\<close>: the files of these names under \<open>node/\<close>.
  \<^item> \<open>Registry\<close>, \<open>Wire\<close>: the registries, and the messages and tasks, of \<open>tunnel.rs\<close>.
  \<^item> \<open>Tunnel_Retry\<close>, \<open>Tunnel_Giveup\<close>: the hole-punch retries of a peer over whole runs of the tunnel machine,
    and the end of a hole punch that keeps failing, whatever other events come in between.
  \<^item> \<open>Nat_Probe\<close>: the STUN probe of \<open>nat_probe.rs\<close>, over a network given by the calls it makes.
  \<^item> \<open>Port_Mapping\<close>: \<open>port_mapping.rs\<close>; the answers of the gateway are a parameter, and the order in
    which the two probes complete is a list.
  \<^item> \<open>Service_Config\<close>, \<open>Service_Props\<close>: the environment file and the service files of \<open>main.rs\<close>, as
    texts; \<open>Service_Control\<close>: the steps of the service commands on Linux and macOS, over the calls of
    the operating system.
  \<^item> \<open>Identity\<close>: \<open>identity.rs\<close>, over the calls of the file system and the key codec.
  \<^item> \<open>Node_Machine\<close>, \<open>Node_Facts\<close>, \<open>Node_Props\<close>: \<open>run\<close> and the helpers of \<open>node/mod.rs\<close>, one
    definition per arm of the \<open>select!\<close>, and properties of whole runs, among them the accounting
    of tunnel requests.  \<open>Node_Steps\<close> breaks a turn of the loop into elementary steps (the relation
    \<open>node_step\<close>), on which the properties of all turns are proved by one induction each.
  \<^item> \<open>Node_Observe\<close>: measures of the swarm, and the count of the calls that disconnect a peer.
  \<^item> \<open>Node_Attempts\<close>, \<open>Node_Progress\<close>: the hole-punch sessions of the state machine against the attempts
    of the connection records, between turns; and what becomes of an attempt that fails or times out.
  \<^item> \<open>Node_Net\<close>: the node against the connections of the swarm over whole runs, through the locale
    \<open>node_view\<close>; \<open>Node_Direct\<close>: a direct connection opens all tunnels of its peer; \<open>Node_Trace\<close>: the node follows runs of the state machine, command by command.
  \<^item> \<open>Node_History\<close>: the events that each turn feeds to the state machine, computed along the event loop, and
    what its input brings and requires of them; the node is the run of the broker over these events.
    \<open>Node_Armed\<close>: between turns every peer that is owed a hole punch has one under way.
  \<^item> \<open>Node_Log\<close>: the log lines of the processing of an event, of connections and dials, as data.
  \<^item> \<open>Runtime\<close>: \<open>protocol.rs\<close>, the settings of \<open>behaviour.rs\<close>, the race of signals of \<open>shutdown.rs\<close>.
  \<^item> \<open>Program\<close>: \<open>main\<close> of \<open>main.rs\<close>, which either carries out a service command or starts the node, and
    the beginning of \<open>run\<close>: identity, NAT probe, construction of the swarm.  This theory adds what
    joins the port mapping to the node.
  \<^item> \<open>Test_Support\<close>: generators of \<open>test_utils.rs\<close>; \<open>Peer_Tests\<close>, \<open>Tunnel_Tests\<close>, \<open>Machine_Tests\<close>,
    \<open>Text_Tests\<close>: every unit test of \<open>src/src\<close> as a predicate on the values it is given, with proofs
    that it holds for all of them.

  \<^bold>\<open>Conventions\<close>

  A struct is a record with the names of its fields (prefixed where two structs share one), an enum a
  datatype.  A method that takes \<open>&mut self\<close> returns the new state.  A panic is \<open>None\<close>, an error is
  \<open>Inl\<close>.  Hash maps and sets are finite maps and sets; wherever the code iterates over one, the order is
  given by a function about which only \<open>iterates\<close> is assumed (every element, once), so the
  properties hold for every order.  Counters have their machine width; a \<open>Duration\<close> or an
  \<open>Instant\<close> is a number of nanoseconds.  Service names and addresses are strings of characters.
  Log lines, where they are modelled, are data of their own (\<open>Node_Log\<close>) that no other part reads.

  \<^bold>\<open>What is taken from outside\<close>

  The libp2p swarm is a record \<open>swarm_api\<close> of the calls the code makes, over any state; \<open>serde_json\<close>, TCP
  and the text of IPv6 addresses and peer identities are parameters too.  What the properties assume
  of them is named: \<open>env_ok\<close> (orders list each element once),
  \<open>fresh_queries\<close> (a query gets an unused identifier), \<open>net_allows\<close> (a connection is reported as
  established under a fresh identifier and as closed once, with the right answer to whether the peer
  has another), \<open>observes\<close> and \<open>counts_disconnects\<close> (a measure of the swarm that counts executed commands, or the calls
  that disconnect a peer), an injective
  \<open>show_peer\<close> where the order of peers matters, \<open>json_ok\<close> (decoding inverts encoding),
  \<open>v6_text_ok\<close> and \<open>peer_text_ok\<close> (printing and parsing agree, no separator in the text), \<open>os_ok\<close>
  (the two files of the service hold what was written to them and \<open>systemctl\<close> leaves them alone; directories,
  links and all other files may change), \<open>cli_ok\<close> (the arguments print to what \<open>clap\<close> splits again),
  \<open>identity_ok\<close> (keys decode to what was encoded), \<open>accepts_slash\<close> (a protocol name begins with a slash)
  and \<open>utf8_ok\<close> (ASCII is UTF-8).  Each has a concrete instance (\<open>sample_env\<close>, \<open>sample_api\<close>,
  \<open>sample_json\<close>, \<open>sample_v6\<close>, \<open>sample_peer_show\<close>, \<open>sample_os_api\<close>, \<open>sample_identity\<close>,
  \<open>sample_run_api\<close>) that the witnesses use.

  \<^bold>\<open>What the lemmas show\<close>

  The main line is that no tunnel request is lost: the tunnel machine conserves the requests it holds
  or opens (\<open>Tunnel_Conserve\<close>), the application machine inherits this through \<open>mealy_conserving\<close>
  (\<open>App_Machine\<close>), execution starts one task per opened tunnel (\<open>Execute\<close>), and the node accounts for
  every request of its configuration in any run (\<open>Node_Props\<close>), started from the command line
  (\<open>Program\<close>).  \<open>Tunnel_Broker\<close> says more abstractly where each request is and why it moves; the tunnel
  machine refines it step by step, and \<open>Node_History\<close> lifts the refinement to the whole node, turn by turn, over the
  events that its inputs bring, where the opened tunnels are the running tasks.  \<open>Node_Trace\<close> makes the relation exact: a run of the
  node is a run of the machine, and the swarm has seen the commands of that run, so the bound on the
  disconnects of a waiting peer is one of the node.

  The second line is the agreement of the three places where the node keeps what it knows of a peer.
  Between turns, a session of the machine that is punching has an attempt with its number in the
  connection records (\<open>Node_Progress\<close>), so an attempt whose time is up, or that DCUtR reports
  as failed, is retried or given up in that very turn, and a retry disconnects the peer once; a peer
  that waits for a direct path and is connected over a relay only has an attempt (\<open>Node_Armed\<close>); and the records, the registry of
  direct peers and the marks of relayed peers agree with the connections that are open
  (\<open>Connection_Swarm\<close>, \<open>Node_Net\<close>).  Around both: when a tunnel may be
  opened, how a hole punch is retried and how often, which addresses are redialled, when the node is
  ready and when it asks for a relay, that the connection records of an attempt agree, that messages
  and specifications survive their text form, and how failures end.

  No recursion needs fuel: loops run over lists.  The loop \<open>run\<close> itself is the
  relation \<open>node_run\<close> over any number of turns; a tunnel task is a function of the clients it is
  given.

  \<^bold>\<open>What is not modelled\<close>

  The libp2p behaviours themselves (only their settings are), the copying between sockets once a
  tunnel is established, the parsing of the command line (\<open>clap\<close>), the log lines outside \<open>Node_Log\<close>,
  and the five tests of \<open>src/tests/integration.rs\<close>, which run libp2p swarms over real sockets.
  Tunnel tasks do not
  end in the model of the node, as the code never takes one off the registry before the shutdown.
\<close>

section \<open>From the gateway to the node\<close>

text \<open>C34: What the port mapping acquires from the gateway and hands to the node is announced as a
  public address: an IPv4 mapping gives an address that is a valid external candidate, with the
  mapped port, and the NAT status becomes public; an IPv6 mapping, which the port mapping accepts
  when the gateway offers it, makes the node panic, because the address it is formatted to is no
  multiaddress.\<close>

theorem mapped_address_announced:
  assumes "acquire_port_mapping g internal_port completions = Some m"
    and "nd_mapping_handle n"
    and "w_mapping w = Some (Inr (Some (external_ip m, external_port m)))"
  shows "case external_ip m of
      IpV6 _ \<Rightarrow> on_mapping_finished w n = None
    | IpV4 ip \<Rightarrow>
        (let mapped = [Ip4 ip, Udp (external_port m), QuicV1] in
         is_valid_external_candidate mapped \<and>
         extract_public_ip_port mapped = Some (IpV4 ip, external_port m) \<and>
         on_mapping_finished w n = dispatch w (NatStatusChanged Public)
           (n\<lparr>nd_mapping_handle := False,
              nd_swarm := api_add_external (w_api w) mapped (nd_swarm n)\<rparr>))"
  using mapping_routable [OF assms(1)] assms(2,3)
  by (cases "external_ip m")
    (simp_all add: on_mapping_finished_def mapped_multiaddr_def is_valid_external_candidate_def
      is_circuit_addr_def has_public_ip_def needs_external_rewrite_def extract_public_ip_port_def)

theorem mapped_address_announced_witness:
  "on_mapping_finished
     (sample_world 0\<lparr>w_mapping := Some (Inr (Some (IpV6 (Ipv6 0x2001 0xdb8 0 0 0 0 0 9), 4002)))\<rparr>)
     (sample_node\<lparr>nd_mapping_handle := True\<rparr>) = None"
proof -
  have "acquire_port_mapping (sample_gateway (IpV6 (Ipv6 0x2001 0xdb8 0 0 0 0 0 9))) 4001 [ProbePmp] =
      Some \<lparr>external_ip = IpV6 (Ipv6 0x2001 0xdb8 0 0 0 0 0 9), external_port = 4002,
            protocol_used = ''PCP''\<rparr>"
    by (rule sample_mapping_ipv6)
  from mapped_address_announced [OF this, of "sample_node\<lparr>nd_mapping_handle := True\<rparr>"
      "sample_world 0\<lparr>w_mapping := Some (Inr (Some (IpV6 (Ipv6 0x2001 0xdb8 0 0 0 0 0 9), 4002)))\<rparr>"]
  show ?thesis by simp
qed

end
